(* ===== verification/Prelude.thy ===== *)
theory Prelude
  imports Main "HOL-Library.List_Lexorder" "HOL-Library.Product_Lexorder"
begin

text \<open>
  Shared base of the development: Python text as lists of code points, the few string
  operations the source uses (\<open>strip\<close>, \<open>split\<close>, \<open>join\<close>, \<open>normalize_excerpt\<close>
  of \<open>support.py\<close>), dictionaries built by comprehension, \<open>dict.fromkeys\<close>, the
  error values of raised exceptions, and the generic lemmas on lists and maps that the
  component theories share.
\<close>

named_theorems excerpt_simps \<open>facts on compact text and on excerpts\<close>
named_theorems graph_simps \<open>facts on node lookup and node rewriting\<close>

section \<open>Text\<close>

text \<open>
  A Python \<open>str\<close> is a sequence of Unicode code points, so its length and its order are
  those of a list of numbers. \<open>lit\<close> embeds the ASCII literals of the source.
\<close>

type_synonym ustr = "nat list"

definition lit :: "string \<Rightarrow> ustr" where
  "lit s = map of_char s"

lemma lit_Nil [simp]: "lit [] = []"
  by (simp add: lit_def)

lemma lit_eq_Nil [simp]: "lit s = [] \<longleftrightarrow> s = []" "[] = lit s \<longleftrightarrow> s = []"
  by (auto simp: lit_def)

lemma lit_inject [simp]: "lit s = lit t \<longleftrightarrow> s = t"
proof -
  have "inj (of_char :: char \<Rightarrow> nat)"
    by (rule injI) (simp add: of_char_eq_iff)
  then show ?thesis by (simp add: lit_def inj_map_eq_map)
qed

lemma length_lit [simp]: "length (lit s) = length s"
  by (simp add: lit_def)

text \<open>The code points for which \<open>str.isspace\<close> holds; \<open>strip\<close> and \<open>split\<close> use them.\<close>

definition is_space :: "nat \<Rightarrow> bool" where
  "is_space c \<longleftrightarrow> c \<in> {9, 10, 11, 12, 13, 28, 29, 30, 31, 32, 133, 160, 5760, 8232, 8233, 8239, 8287, 12288}
     \<or> 8192 \<le> c \<and> c \<le> 8202"

definition blank :: nat where "blank = 32"

definition ellipsis :: nat where "ellipsis = 8230"

lemma is_space_blank [simp]: "is_space blank"
  by (simp add: is_space_def blank_def)

lemma is_space_ellipsis [simp]: "\<not> is_space ellipsis"
  by (simp add: is_space_def ellipsis_def)

definition rstrip :: "ustr \<Rightarrow> ustr" where
  "rstrip s = rev (dropWhile is_space (rev s))"

definition strip :: "ustr \<Rightarrow> ustr" where
  "strip s = rstrip (dropWhile is_space s)"

text \<open>\<open>str.split()\<close>: the maximal runs of non-space characters; \<open>cur\<close> is the word being read.\<close>

fun split_from :: "ustr \<Rightarrow> ustr \<Rightarrow> ustr list" where
  "split_from cur [] = (if cur = [] then [] else [cur])"
| "split_from cur (c # cs) =
     (if is_space c then (if cur = [] then split_from [] cs else cur # split_from [] cs)
      else split_from (cur @ [c]) cs)"

definition split_ws :: "ustr \<Rightarrow> ustr list" where
  "split_ws s = split_from [] s"

text \<open>\<open>sep.join(parts)\<close>\<close>

fun join :: "ustr \<Rightarrow> ustr list \<Rightarrow> ustr" where
  "join sep [] = []"
| "join sep [w] = w"
| "join sep (w # v # ws) = w @ sep @ join sep (v # ws)"

text \<open>
  \<open>support.normalize_excerpt(value, limit)\<close>: white space is collapsed to single blanks; a
  longer text keeps \<open>max(limit - 1, 1)\<close> characters, loses trailing white space and gets an
  ellipsis.
\<close>

definition compact :: "ustr \<Rightarrow> ustr" where
  "compact s = join [blank] (split_ws s)"

definition normalize_excerpt :: "ustr \<Rightarrow> int \<Rightarrow> ustr" where
  "normalize_excerpt value limit =
     (let c = compact value in
      if int (length c) \<le> limit then c
      else rstrip (take (nat (max (limit - 1) 1)) c) @ [ellipsis])"

text \<open>
  \<open>str.lower\<close> for comparison with ASCII words: the capital ASCII letters and the Kelvin sign,
  the only code points whose lower case is an ASCII letter.
\<close>

definition lower_char :: "nat \<Rightarrow> nat" where
  "lower_char c = (if 65 \<le> c \<and> c \<le> 90 then c + 32 else if c = 0x212A then 107 else c)"

definition lower :: "ustr \<Rightarrow> ustr" where
  "lower s = map lower_char s"

section \<open>Errors as values\<close>

datatype py_error =
    ValueError ustr
  | KeyError ustr
  | RuntimeError ustr
  | AttributeError ustr
  | MultipleResultsFound
  | IntegrityError ustr
  | FileNotFoundError ustr
  | TypeError ustr
  | NoResultFound
  | PendingRollbackError

type_synonym 'a res = "py_error + 'a"

lemma map_sum_Inr: "map_sum f g x = Inr y \<longleftrightarrow> (\<exists>z. x = Inr z \<and> y = g z)"
  by (cases x) auto

definition is_ok :: "'a res \<Rightarrow> bool" where
  "is_ok r \<longleftrightarrow> (case r of Inl _ \<Rightarrow> False | Inr _ \<Rightarrow> True)"

lemma is_ok_simps [simp]: "is_ok (Inr x)" "\<not> is_ok (Inl e)"
  by (simp_all add: is_ok_def)

text \<open>
  JSON values, as far as the modelled code hashes or forwards them. Object fields keep their
  order of insertion; the digest functions sort them.
\<close>

datatype json =
    JNull
  | JBool bool
  | JInt int
  | JStr ustr
  | JList "json list"
  | JObj "(ustr \<times> json) list"

text \<open>\<open>d.get(k)\<close> on a dictionary, and the truth value of a JSON value.\<close>

fun json_get :: "json \<Rightarrow> string \<Rightarrow> json option" where
  "json_get (JObj d) k = map_of d (lit k)"
| "json_get _ k = None"

fun truthy :: "json \<Rightarrow> bool" where
  "truthy JNull = False"
| "truthy (JBool b) = b"
| "truthy (JInt i) = (i \<noteq> 0)"
| "truthy (JStr s) = (s \<noteq> [])"
| "truthy (JList xs) = (xs \<noteq> [])"
| "truthy (JObj d) = (d \<noteq> [])"

definition jopt :: "ustr option \<Rightarrow> json" where
  "jopt v = (case v of None \<Rightarrow> JNull | Some s \<Rightarrow> JStr s)"

section \<open>Values that may be absent or empty\<close>

text \<open>\<open>x or y\<close> of Python, on text, on optional text and on lists: the empty value is false.\<close>

definition str_or :: "ustr \<Rightarrow> ustr \<Rightarrow> ustr" where
  "str_or a b = (if a = [] then b else a)"

definition list_or :: "'a list \<Rightarrow> 'a list \<Rightarrow> 'a list" where
  "list_or a b = (if a = [] then b else a)"

fun opt_or :: "ustr option \<Rightarrow> ustr option \<Rightarrow> ustr option" where
  "opt_or (Some (c # cs)) b = Some (c # cs)"
| "opt_or a b = b"

lemma opt_or_eq: "opt_or a b = (if a = None \<or> a = Some [] then b else a)"
  by (cases "(a, b)" rule: opt_or.cases) auto

lemma str_or_eq_Nil [simp]: "str_or a b = [] \<longleftrightarrow> a = [] \<and> b = []"
  by (simp add: str_or_def)

text \<open>The decimal text of a natural number, as \<open>str\<close> and f-strings print it.\<close>

fun show_nat :: "nat \<Rightarrow> ustr" where
  "show_nat n = (if n < 10 then [48 + n] else show_nat (n div 10) @ [48 + n mod 10])"

declare show_nat.simps [simp del]

section \<open>Dictionaries and de-duplication\<close>

text \<open>
  \<open>{key(x): x for x in xs}\<close>: a later element replaces an earlier one with the same key.
\<close>

definition index_by :: "('a \<Rightarrow> 'k) \<Rightarrow> 'a list \<Rightarrow> 'k \<Rightarrow> 'a option" where
  "index_by key xs = map_of (rev (map (\<lambda>x. (key x, x)) xs))"

text \<open>\<open>list(dict.fromkeys(xs))\<close>: first occurrences, in order; \<open>seen\<close> holds the keys so far.\<close>

fun dedup_from :: "'a list \<Rightarrow> 'a list \<Rightarrow> 'a list" where
  "dedup_from seen [] = []"
| "dedup_from seen (x # xs) =
     (if x \<in> set seen then dedup_from seen xs else x # dedup_from (x # seen) xs)"

definition dedup :: "'a list \<Rightarrow> 'a list" where
  "dedup xs = dedup_from [] xs"

text \<open>\<open>next((x for x in xs if p(x)), None)\<close>\<close>

fun first_such :: "('a \<Rightarrow> bool) \<Rightarrow> 'a list \<Rightarrow> 'a option" where
  "first_such p [] = None"
| "first_such p (x # xs) = (if p x then Some x else first_such p xs)"

text \<open>\<open>max((f(x) for x in xs), default=d)\<close>\<close>

fun max_default :: "'b::linorder \<Rightarrow> 'b list \<Rightarrow> 'b" where
  "max_default d [] = d"
| "max_default d [x] = x"
| "max_default d (x # y # ys) = max x (max_default d (y # ys))"

section \<open>Lemmas on lists and maps\<close>

lemma set_dedup_from: "set (dedup_from seen xs) = set xs - set seen"
  by (induction seen xs rule: dedup_from.induct) auto

lemma set_dedup [simp]: "set (dedup xs) = set xs"
  by (simp add: dedup_def set_dedup_from)

lemma distinct_dedup_from: "distinct (dedup_from seen xs)"
  by (induction seen xs rule: dedup_from.induct) (auto simp: set_dedup_from)

lemma distinct_dedup [simp]: "distinct (dedup xs)"
  by (simp add: dedup_def distinct_dedup_from)

lemma dedup_from_id: "distinct xs \<Longrightarrow> set xs \<inter> set seen = {} \<Longrightarrow> dedup_from seen xs = xs"
  by (induction seen xs rule: dedup_from.induct) auto

lemma dedup_id [simp]: "distinct xs \<Longrightarrow> dedup xs = xs"
  by (simp add: dedup_def dedup_from_id)

lemma dedup_Nil [simp]: "dedup [] = []"
  by (simp add: dedup_def)

lemma dedup_eq_Nil [simp]: "dedup xs = [] \<longleftrightarrow> xs = []"
  by (cases xs) (auto simp: dedup_def)

lemma if_singleton_Nil [simp]: "(if b then [x] else []) = [] \<longleftrightarrow> \<not> b"
  by simp

lemma first_such_Some: "first_such p xs = Some x \<Longrightarrow> x \<in> set xs \<and> p x"
  by (induction xs) (auto split: if_splits)

lemma first_such_None [simp]: "first_such p xs = None \<longleftrightarrow> (\<forall>x\<in>set xs. \<not> p x)"
  by (induction xs) auto

lemma first_such_ex: "x \<in> set xs \<Longrightarrow> p x \<Longrightarrow> \<exists>y. first_such p xs = Some y"
  by (cases "first_such p xs") auto

lemma max_default_ge: "x \<in> set xs \<Longrightarrow> x \<le> max_default d xs"
  by (induction d xs rule: max_default.induct) (auto simp: le_max_iff_disj)

lemma max_default_mem: "xs \<noteq> [] \<Longrightarrow> max_default d xs \<in> set xs"
  by (induction d xs rule: max_default.induct) (auto simp: max_def)

lemma index_by_Some: "index_by key xs k = Some x \<Longrightarrow> x \<in> set xs \<and> key x = k"
  by (auto simp: index_by_def dest!: map_of_SomeD)

lemma index_by_None: "index_by key xs k = None \<longleftrightarrow> k \<notin> key ` set xs"
  by (auto simp: index_by_def map_of_eq_None_iff image_iff)

lemma index_by_ex: "x \<in> set xs \<Longrightarrow> \<exists>y. index_by key xs (key x) = Some y"
  by (cases "index_by key xs (key x)") (auto simp: index_by_None)

lemma index_by_Nil [simp]: "index_by key [] k = None"
  by (simp add: index_by_def)

lemma index_by_distinct:
  assumes "distinct (map key xs)" and "x \<in> set xs"
  shows "index_by key xs (key x) = Some x"
proof -
  have "distinct (map fst (rev (map (\<lambda>x. (key x, x)) xs)))"
    using assms(1) by (simp add: rev_map [symmetric] comp_def)
  then show ?thesis
    unfolding index_by_def using assms(2) by (intro map_of_is_SomeI) auto
qed

text \<open>Rewriting the elements without changing their keys commutes with the lookup.\<close>

lemma index_by_map:
  assumes "\<And>x. x \<in> set xs \<Longrightarrow> key (f x) = key x"
  shows "index_by key (map f xs) k = map_option f (index_by key xs k)"
proof -
  have "index_by key (map f xs) = map_of (map (\<lambda>(k, x). (k, f x)) (rev (map (\<lambda>x. (key x, x)) xs)))"
    unfolding index_by_def using assms
    by (intro arg_cong [where f = map_of]) (simp add: rev_map [symmetric] comp_def)
  then show ?thesis by (simp add: map_of_map index_by_def)
qed

lemma index_by_append_fresh:
  assumes "key x \<notin> key ` set xs"
  shows "index_by key (xs @ [x]) k = (if k = key x then Some x else index_by key xs k)"
  by (simp add: index_by_def)

section \<open>Lemmas on text\<close>

text \<open>
  A text is compact when it has no leading or trailing white space and its words are
  separated by one blank: exactly the texts \<open>compact\<close> leaves alone. Excerpts are compact,
  no longer than the limit, and taking an excerpt twice changes nothing.
\<close>

lemma split_from_words:
  "\<forall>c\<in>set cur. \<not> is_space c \<Longrightarrow> \<forall>w\<in>set (split_from cur s). w \<noteq> [] \<and> (\<forall>c\<in>set w. \<not> is_space c)"
proof (induction s arbitrary: cur)
  case (Cons c s)
  show ?case
  proof (cases "is_space c")
    case True
    with Cons.prems Cons.IH [of "[]"] show ?thesis by (cases "cur = []") simp_all
  next
    case False
    with Cons.prems Cons.IH [of "cur @ [c]"] show ?thesis by simp
  qed
qed simp

fun single_spaced :: "bool \<Rightarrow> ustr \<Rightarrow> bool" where
  "single_spaced b [] = True"
| "single_spaced b (c # cs) =
     (if is_space c then c = blank \<and> \<not> b \<and> single_spaced True cs else single_spaced False cs)"

definition no_trailing :: "ustr \<Rightarrow> bool" where
  "no_trailing s \<longleftrightarrow> s = [] \<or> \<not> is_space (last s)"

lemma single_spaced_take: "single_spaced b s \<Longrightarrow> single_spaced b (take n s)"
proof (induction s arbitrary: b n)
  case (Cons c s)
  then show ?case by (cases n; cases "is_space c") auto
qed simp

lemma single_spaced_snoc: "single_spaced b s \<Longrightarrow> \<not> is_space c \<Longrightarrow> single_spaced b (s @ [c])"
  by (induction s arbitrary: b) auto

lemma single_spaced_word:
  "\<forall>c\<in>set w. \<not> is_space c \<Longrightarrow> w \<noteq> [] \<Longrightarrow> single_spaced b (w @ s) = single_spaced False s"
proof (cases w)
  case (Cons c w')
  have "\<forall>c\<in>set v. \<not> is_space c \<Longrightarrow> single_spaced False (v @ s) = single_spaced False s" for v
    by (induction v) simp_all
  moreover assume "\<forall>c\<in>set w. \<not> is_space c"
  ultimately show ?thesis using Cons by simp
qed simp

lemma rstrip_prefix: "\<exists>n. rstrip s = take n s"
proof -
  have "rev s = takeWhile is_space (rev s) @ dropWhile is_space (rev s)" by simp
  then have "s = rstrip s @ rev (takeWhile is_space (rev s))"
    unfolding rstrip_def by (metis rev_append rev_rev_ident)
  then show ?thesis by (metis append_eq_conv_conj)
qed

lemma no_trailing_rstrip: "no_trailing (rstrip s)"
proof (cases "dropWhile is_space (rev s)")
  case (Cons c cs)
  then have "\<not> is_space c" by (metis dropWhile_eq_Cons_conv)
  with Cons show ?thesis by (simp add: no_trailing_def rstrip_def)
qed (simp add: no_trailing_def rstrip_def)

lemma join_split_from:
  "no_trailing s \<Longrightarrow> single_spaced True s \<Longrightarrow> join [blank] (split_from [] s) = s"
  "cur \<noteq> [] \<Longrightarrow> no_trailing (cur @ s) \<Longrightarrow> single_spaced False s \<Longrightarrow> join [blank] (split_from cur s) = cur @ s"
proof (induction s arbitrary: cur)
  case (Cons c s)
  {
    case 1
    then show ?case using Cons.IH(2) [of "[c]"] by (auto split: if_splits)
  next
    case 2
    show ?case
    proof (cases "is_space c")
      case True
      with 2 have c: "c = blank" "single_spaced True s" "s \<noteq> []" "no_trailing s"
        by (auto simp: no_trailing_def split: if_splits)
      then have s: "join [blank] (split_from [] s) = s" by (intro Cons.IH(1))
      with c(3) obtain v vs where "split_from [] s = v # vs" by (cases "split_from [] s") auto
      with True 2 s c(1) show ?thesis by simp
    next
      case False
      with 2 show ?thesis using Cons.IH(2) [of "cur @ [c]"] by auto
    qed
  }
qed simp_all

lemma join_words_spaced:
  "\<forall>w\<in>set ws. w \<noteq> [] \<and> (\<forall>c\<in>set w. \<not> is_space c) \<Longrightarrow>
    single_spaced True (join [blank] ws) \<and> no_trailing (join [blank] ws)"
proof (induction "[blank]" ws rule: join.induct)
  case (2 w)
  then show ?case using single_spaced_word [of w True "[]"] by (auto simp: no_trailing_def)
next
  case (3 w v ws)
  moreover have "join [blank] (v # ws) \<noteq> []" using 3 by (cases ws) auto
  ultimately show ?case by (auto simp: single_spaced_word no_trailing_def)
qed (simp add: no_trailing_def)

definition compact_text :: "ustr \<Rightarrow> bool" where
  "compact_text s \<longleftrightarrow> single_spaced True s \<and> no_trailing s"

lemma compact_id [excerpt_simps]: "compact_text s \<Longrightarrow> compact s = s"
  by (simp add: compact_text_def compact_def split_ws_def join_split_from)

lemma compact_text_compact [excerpt_simps]: "compact_text (compact s)"
  unfolding compact_text_def compact_def split_ws_def
  by (rule join_words_spaced) (use split_from_words [of "[]"] in auto)

lemma normalize_excerpt_compact: "compact_text (normalize_excerpt s n)"
proof (cases "int (length (compact s)) \<le> n")
  case True
  then show ?thesis by (simp add: normalize_excerpt_def Let_def compact_text_compact)
next
  case False
  let ?t = "rstrip (take (nat (max (n - 1) 1)) (compact s))"
  obtain k where "?t = take k (take (nat (max (n - 1) 1)) (compact s))" using rstrip_prefix by blast
  moreover have "single_spaced True (compact s)" using compact_text_compact by (simp add: compact_text_def)
  ultimately have "single_spaced True (?t @ [ellipsis])"
    by (simp add: single_spaced_take single_spaced_snoc)
  with False show ?thesis
    by (simp add: normalize_excerpt_def Let_def compact_text_def no_trailing_def)
qed

lemma normalize_excerpt_length: "2 \<le> n \<Longrightarrow> int (length (normalize_excerpt s n)) \<le> n"
proof -
  assume n: "2 \<le> n"
  obtain k where "rstrip (take (nat (n - 1)) (compact s)) = take k (take (nat (n - 1)) (compact s))"
    using rstrip_prefix by blast
  then have "length (rstrip (take (nat (n - 1)) (compact s))) \<le> nat (n - 1)" by simp
  with n show ?thesis by (auto simp: normalize_excerpt_def Let_def max_def)
qed

lemma normalize_excerpt_idem:
  assumes "2 \<le> n" shows "normalize_excerpt (normalize_excerpt s n) n = normalize_excerpt s n"
proof -
  have "compact (normalize_excerpt s n) = normalize_excerpt s n"
    by (rule compact_id [OF normalize_excerpt_compact])
  with normalize_excerpt_length [OF assms] show ?thesis
    by (simp add: normalize_excerpt_def [of "normalize_excerpt s n"] Let_def)
qed

lemma strip_idem [simp]: "strip (strip s) = strip s"
proof -
  have rs: "rstrip t = t" if "no_trailing t" for t
    using that by (cases t rule: rev_cases) (auto simp: no_trailing_def rstrip_def)
  have "dropWhile is_space (strip s) = strip s"
  proof (cases "dropWhile is_space s")
    case (Cons c cs)
    then have c: "\<not> is_space c" by (metis dropWhile_eq_Cons_conv)
    then have "\<exists>r. rstrip (c # cs) = c # r"
      by (simp add: rstrip_def dropWhile_append) (metis rev_rev_ident)
    with c Cons show ?thesis by (auto simp: strip_def)
  next
    case Nil
    then show ?thesis unfolding strip_def Nil by (simp add: rstrip_def)
  qed
  then show ?thesis by (metis rs no_trailing_rstrip strip_def)
qed

lemma strip_lit: "s = [] \<or> \<not> is_space (of_char (hd s)) \<and> \<not> is_space (of_char (last s)) \<Longrightarrow> strip (lit s) = lit s"
proof -
  assume s: "s = [] \<or> \<not> is_space (of_char (hd s)) \<and> \<not> is_space (of_char (last s))"
  have "dropWhile is_space t = t" if "t = [] \<or> \<not> is_space (hd t)" for t
    using that by (cases t) auto
  from this [of "lit s"] this [of "rev (lit s)"] s show ?thesis
    by (cases "s = []") (simp_all add: strip_def rstrip_def lit_def hd_map hd_rev last_map)
qed

section \<open>State machines\<close>

text \<open>
  The interface between a step relation and what is proved of its runs: a predicate every step
  preserves holds in every state that is reachable from a state where it holds; a preorder
  every step respects relates the two ends of every run.
\<close>

locale invariant_system =
  fixes step :: "'s \<Rightarrow> 's \<Rightarrow> bool" and inv :: "'s \<Rightarrow> bool"
  assumes preserved: "step s t \<Longrightarrow> inv s \<Longrightarrow> inv t"
begin

lemma reachable_inv: "step\<^sup>*\<^sup>* s t \<Longrightarrow> inv s \<Longrightarrow> inv t"
  by (induction rule: rtranclp_induct) (auto intro: preserved)

end

locale progress_system = invariant_system +
  fixes below :: "'s \<Rightarrow> 's \<Rightarrow> bool"
  assumes below_refl: "below s s"
    and below_trans: "below s t \<Longrightarrow> below t u \<Longrightarrow> below s u"
    and step_below: "step s t \<Longrightarrow> inv s \<Longrightarrow> below s t"
begin

lemma reachable_below: "step\<^sup>*\<^sup>* s t \<Longrightarrow> inv s \<Longrightarrow> below s t"
proof (induction rule: rtranclp_induct)
  case base
  show ?case by (rule below_refl)
next
  case (step t u)
  then have "below s t" "inv t" using reachable_inv by blast+
  with step.hyps(2) show ?case using below_trans step_below by blast
qed

end

text \<open>A machine whose steps, seen through an abstraction, are steps of a specification or no step.\<close>

locale simulation = invariant_system +
  fixes abstraction :: "'a \<Rightarrow> 'b" and abstract_step :: "'b \<Rightarrow> 'b \<Rightarrow> bool"
  assumes simulated: "step s t \<Longrightarrow> inv s \<Longrightarrow>
    abstract_step (abstraction s) (abstraction t) \<or> abstraction t = abstraction s"
begin

lemma reachable_simulated: "step\<^sup>*\<^sup>* s t \<Longrightarrow> inv s \<Longrightarrow> abstract_step\<^sup>*\<^sup>* (abstraction s) (abstraction t)"
proof (induction rule: rtranclp_induct)
  case (step t u)
  then have "inv t" using reachable_inv by blast
  from simulated [OF step.hyps(2) this] step.IH [OF step.prems] show ?case
    by (auto intro: rtranclp.rtrancl_into_rtrancl)
qed simp

end

text \<open>\<open>p in s\<close> for two texts.\<close>

fun has_infix :: "ustr \<Rightarrow> ustr \<Rightarrow> bool" where
  "has_infix p [] = (p = [])"
| "has_infix p (c # cs) = (take (length p) (c # cs) = p \<or> has_infix p cs)"

end
