(* ===== verification/Contracts.thy ===== *)
theory Contracts
  imports Complex_Main Prelude
begin

text \<open>
  The runtime contracts of \<open>contracts.py\<close>: work-tree nodes, the work-tree protocol, the
  work-context stack and the takeover protocol, with the validators that run on every
  construction and on every \<open>model_validate\<close> of a dumped and edited payload.

  The code edits a model by dumping it to a dictionary in alias form, overwriting keys and
  validating the result again. A payload in alias form carries every field, so it is a
  record here, an overwritten key is a record update, and a \<open>mode="before"\<close> validator is
  a function on records; a field a constructor call omits holds its declared default (the
  empty text for a required text that the validator fills in). Literal fields are datatypes.
  Time stamps are numbers, the clock is an argument \<open>now\<close>. \<open>_stable_contract_digest\<close> is
  the argument \<open>dg\<close> (SHA-256 of the canonical JSON text).
\<close>

section \<open>Data\<close>

record entity_ref =
  er_kind :: ustr
  er_id :: ustr

datatype node_phase = Planning | Executing | Recovering | Restarting | Verification | Delivery
  | Standby | Coordination

datatype node_status = NPending | NInProgress | NSummarizing | NCompleted | NFailed | NBlocked
  | NSkipped

datatype tree_status = TPlanned | TStandby | TActive | TSummarizing | TRecovering | TRestarting
  | TPaused | TVerified | TAwaitingApproval | TCompleted | TFailed

datatype protocol_phase = PhObjective | PhConstraints | PhPlan | PhConfirm | PhExecute | PhVerify
  | PhDeliver

datatype protocol_status = PPrepared | PExecuting | PVerified | PCompleted | PNeedsClarification
  | PFailed

definition node_status_text :: "node_status \<Rightarrow> ustr" where
  "node_status_text s = lit (case s of
       NPending \<Rightarrow> ''pending'' | NInProgress \<Rightarrow> ''in-progress'' | NSummarizing \<Rightarrow> ''summarizing''
     | NCompleted \<Rightarrow> ''completed'' | NFailed \<Rightarrow> ''failed'' | NBlocked \<Rightarrow> ''blocked''
     | NSkipped \<Rightarrow> ''skipped'')"

record work_tree_node =
  n_id :: ustr
  n_title :: ustr
  n_parent_node_id :: "ustr option"
  n_questions_it_answers :: "ustr list"
  n_node_text :: ustr
  n_local_goal :: ustr
  n_local_constraints :: "ustr list"
  n_local_context_refs :: "entity_ref list"
  n_working_node_annotation :: ustr
  n_execution_summary :: "ustr option"
  n_failure_summary :: "ustr option"
  n_phase :: node_phase
  n_status :: node_status
  n_child_node_ids :: "ustr list"
  n_plan_step_ids :: "ustr list"
  n_constraint_ids :: "ustr list"
  n_depends_on :: "ustr list"
  n_relation_ids :: "ustr list"
  n_expected_evidence :: "ustr list"
  n_produced_evidence_refs :: "entity_ref list"
  n_source_memory_node_ids :: "ustr list"
  n_assigned_agent_run_id :: "ustr option"
  n_owner_agent_id :: "ustr option"
  n_priority :: int
  n_detail_level :: int
  n_version :: int
  n_created_at :: nat
  n_updated_at :: nat
  n_recovery_anchor :: "ustr option"

record work_tree =
  wt_version :: ustr
  wt_id :: ustr
  wt_task_id :: "ustr option"
  wt_root_node_id :: "ustr option"
  wt_root_objective :: ustr
  wt_status :: tree_status
  wt_current_node_id :: "ustr option"
  wt_nodes :: "work_tree_node list"
  wt_loaded_node_ids :: "ustr list"
  wt_active_path_node_ids :: "ustr list"
  wt_index_map_refs :: "entity_ref list"
  wt_pc_memo :: "ustr option"
  wt_recovery_anchor :: "ustr option"
  wt_entropy_budget_remaining :: int
  wt_version_counter :: int
  wt_updated_at :: nat

section \<open>Normalized text\<close>

text \<open>\<open>_normalized_string\<close> on a text and on an optional text; \<open>_normalized_string_list\<close>.\<close>

definition norm_str :: "ustr \<Rightarrow> ustr option" where
  "norm_str v = (let s = strip v in if s = [] then None else Some s)"

definition norm_opt :: "ustr option \<Rightarrow> ustr option" where
  "norm_opt v = (case v of None \<Rightarrow> None | Some s \<Rightarrow> norm_str s)"

definition norm_or :: "ustr \<Rightarrow> ustr \<Rightarrow> ustr" where
  "norm_or v d = (case norm_str v of None \<Rightarrow> d | Some s \<Rightarrow> s)"

fun norm_list_from :: "ustr list \<Rightarrow> ustr list \<Rightarrow> ustr list" where
  "norm_list_from seen [] = []"
| "norm_list_from seen (v # vs) =
     (case norm_str v of
        None \<Rightarrow> norm_list_from seen vs
      | Some s \<Rightarrow> if s \<in> set seen then norm_list_from seen vs
                  else s # norm_list_from (s # seen) vs)"

definition normalized_string_list :: "ustr list \<Rightarrow> ustr list" where
  "normalized_string_list vs = norm_list_from [] vs"

definition working_node_annotation :: "ustr \<Rightarrow> ustr option" where
  "working_node_annotation node_id =
     map_option (\<lambda>s. lit ''<Working_Node: '' @ s @ lit ''>'') (norm_str node_id)"

section \<open>Work-tree nodes\<close>

text \<open>A constructor call with the required fields; every other field has its default.\<close>

definition new_node :: "nat \<Rightarrow> ustr \<Rightarrow> ustr \<Rightarrow> node_phase \<Rightarrow> work_tree_node" where
  "new_node now nid title phase =
     \<lparr>n_id = nid, n_title = title, n_parent_node_id = None, n_questions_it_answers = [],
      n_node_text = [], n_local_goal = [], n_local_constraints = [], n_local_context_refs = [],
      n_working_node_annotation = [], n_execution_summary = None, n_failure_summary = None,
      n_phase = phase, n_status = NPending, n_child_node_ids = [], n_plan_step_ids = [],
      n_constraint_ids = [], n_depends_on = [], n_relation_ids = [], n_expected_evidence = [],
      n_produced_evidence_refs = [], n_source_memory_node_ids = [],
      n_assigned_agent_run_id = None, n_owner_agent_id = None, n_priority = 100,
      n_detail_level = 0, n_version = 1, n_created_at = now, n_updated_at = now,
      n_recovery_anchor = None\<rparr>"

text \<open>\<open>WorkTreeNode._upgrade_v0_1_payload\<close>\<close>

definition validate_node :: "work_tree_node \<Rightarrow> work_tree_node" where
  "validate_node n =
     (let node_id = norm_or (n_id n) (lit ''work-tree-node'');
          title = norm_or (n_title n) node_id;
          local_goal = norm_or (n_local_goal n) title
      in n\<lparr>n_id := node_id,
           n_title := title,
           n_questions_it_answers :=
             normalized_string_list (list_or (n_questions_it_answers n) [title]),
           n_node_text := norm_or (n_node_text n) local_goal,
           n_local_goal := local_goal,
           n_local_constraints :=
             normalized_string_list (list_or (n_local_constraints n) (n_constraint_ids n)),
           n_working_node_annotation :=
             norm_or (n_working_node_annotation n)
               (case working_node_annotation node_id of None \<Rightarrow> [] | Some a \<Rightarrow> a),
           n_child_node_ids := normalized_string_list (n_child_node_ids n),
           n_plan_step_ids := normalized_string_list (n_plan_step_ids n),
           n_constraint_ids := normalized_string_list (n_constraint_ids n),
           n_depends_on := normalized_string_list (n_depends_on n),
           n_relation_ids := normalized_string_list (n_relation_ids n),
           n_expected_evidence := normalized_string_list (n_expected_evidence n),
           n_source_memory_node_ids := normalized_string_list (n_source_memory_node_ids n),
           n_priority := (if n_priority n = 0 then 100 else n_priority n),
           n_version := (if n_version n = 0 then 1 else n_version n)\<rparr>)"


section \<open>Pointers into a work tree\<close>

definition has_no_parent :: "work_tree_node \<Rightarrow> bool" where
  "has_no_parent n \<longleftrightarrow> norm_opt (n_parent_node_id n) = None"

text \<open>
  \<open>_preferred_work_tree_node_id\<close>: among the nodes that are not a parentless frame with
  children (all of them if none is left), the first in-progress, else blocked, else pending,
  else summarizing node, else the first that is not finished, else the last with an id.
\<close>

definition executable_payloads :: "work_tree_node list \<Rightarrow> work_tree_node list" where
  "executable_payloads nodes =
     list_or (filter (\<lambda>n. \<not> (1 < length nodes \<and> has_no_parent n \<and> n_child_node_ids n \<noteq> [])) nodes)
       nodes"

fun first_with_status :: "node_status list \<Rightarrow> work_tree_node list \<Rightarrow> work_tree_node option" where
  "first_with_status [] nodes = None"
| "first_with_status (st # sts) nodes =
     (case first_such (\<lambda>n. n_status n = st) nodes of
        Some n \<Rightarrow> Some n
      | None \<Rightarrow> first_with_status sts nodes)"

fun first_id :: "work_tree_node list \<Rightarrow> ustr option" where
  "first_id [] = None"
| "first_id (n # ns) = (case norm_str (n_id n) of Some s \<Rightarrow> Some s | None \<Rightarrow> first_id ns)"

definition preferred_work_tree_node_id :: "work_tree_node list \<Rightarrow> ustr option" where
  "preferred_work_tree_node_id nodes =
     (let ex = executable_payloads nodes in
      case first_with_status [NInProgress, NBlocked, NPending, NSummarizing] ex of
        Some n \<Rightarrow> norm_str (n_id n)
      | None \<Rightarrow>
          (case first_such (\<lambda>n. n_status n \<notin> {NCompleted, NSkipped, NFailed}) ex of
             Some n \<Rightarrow> norm_str (n_id n)
           | None \<Rightarrow> first_id (rev ex)))"

text \<open>
  \<open>_build_active_path_node_ids\<close>: the chain of parents from the current node, root first.
  \<open>parents\<close> are the entries of \<open>parent_lookup\<close> in the order they are stored; the loop
  stops at a missing entry, at a parentless node, or at an id it has seen.
\<close>

definition parent_entries :: "work_tree_node list \<Rightarrow> (ustr \<times> ustr option) list" where
  "parent_entries nodes =
     concat (map (\<lambda>n. case norm_str (n_id n) of
                        None \<Rightarrow> []
                      | Some s \<Rightarrow> [(s, norm_opt (n_parent_node_id n))]) nodes)"

function path_up :: "(ustr \<times> ustr option) list \<Rightarrow> ustr list \<Rightarrow> ustr \<Rightarrow> ustr list" where
  "path_up parents seen cursor =
     (if cursor \<in> set seen then []
      else cursor # (case map_of (rev parents) cursor of
                       Some (Some p) \<Rightarrow> path_up parents (cursor # seen) p
                     | _ \<Rightarrow> []))"
  by pat_completeness auto
termination
proof (relation "measure (\<lambda>(ps, seen, c). card (fst ` set ps - set seen))", goal_cases)
  case (2 parents seen cursor x p)
  then have "cursor \<in> fst ` set parents - set seen"
    by (force dest: map_of_SomeD)
  then have "card (fst ` set parents - set seen - {cursor}) < card (fst ` set parents - set seen)"
    by (intro card_Diff1_less) auto
  moreover have "fst ` set parents - set (cursor # seen) = fst ` set parents - set seen - {cursor}"
    by auto
  ultimately show ?case by simp
qed simp

declare path_up.simps [simp del]

definition build_active_path_node_ids ::
  "work_tree_node list \<Rightarrow> ustr option \<Rightarrow> ustr option \<Rightarrow> ustr list" where
  "build_active_path_node_ids nodes current root_id =
     (if current = None \<and> root_id = None then []
      else
        let start = opt_or current root_id;
            path = rev (case start of None \<Rightarrow> [] | Some c \<Rightarrow> path_up (parent_entries nodes) [] c)
        in normalized_string_list
             (case root_id of
                None \<Rightarrow> path
              | Some r \<Rightarrow> if path = [] \<or> hd path \<noteq> r then r # path else path))"

definition work_tree_protocol_id ::
  "(json \<Rightarrow> ustr) \<Rightarrow> ustr option \<Rightarrow> ustr option \<Rightarrow> ustr \<Rightarrow> ustr" where
  "work_tree_protocol_id dg task_id root_node_id root_objective =
     lit ''work-tree-'' @
       (case task_id of Some t \<Rightarrow> t
        | None \<Rightarrow> (case root_node_id of Some r \<Rightarrow> r
                   | None \<Rightarrow> dg (JObj [(lit ''rootObjective'', JStr root_objective)])))"

section \<open>The work-tree protocol\<close>

text \<open>The root node the validator makes for an empty tree, and the one it puts over loose nodes.\<close>

definition bootstrap_root :: "nat \<Rightarrow> ustr \<Rightarrow> ustr \<Rightarrow> ustr option \<Rightarrow> work_tree_node" where
  "bootstrap_root now root_id objective recovery =
     (new_node now root_id (lit ''Establish executable plan'') Planning)
       \<lparr>n_questions_it_answers := [objective], n_node_text := objective, n_local_goal := objective,
        n_working_node_annotation :=
          (case working_node_annotation root_id of None \<Rightarrow> [] | Some a \<Rightarrow> a),
        n_status := NInProgress,
        n_expected_evidence := [lit ''normalized objective'', lit ''constraint baseline''],
        n_priority := 0,
        n_recovery_anchor := opt_or recovery (Some (lit ''resume:bootstrap''))\<rparr>"

definition wrapping_root ::
  "nat \<Rightarrow> ustr \<Rightarrow> ustr \<Rightarrow> ustr option \<Rightarrow> ustr list \<Rightarrow> work_tree_node" where
  "wrapping_root now root_id objective recovery child_ids =
     (new_node now root_id (lit ''Task root'') Planning)
       \<lparr>n_questions_it_answers := [objective], n_node_text := objective, n_local_goal := objective,
        n_working_node_annotation :=
          (case working_node_annotation root_id of None \<Rightarrow> [] | Some a \<Rightarrow> a),
        n_status := NInProgress, n_child_node_ids := child_ids, n_priority := 0,
        n_recovery_anchor := recovery\<rparr>"

text \<open>
  The part of \<open>WorkTreeProtocol._upgrade_v0_1_payload\<close> that settles the root: it returns the
  root id, the current node id and the nodes.
\<close>

definition single_root :: "ustr option \<Rightarrow> work_tree_node list \<Rightarrow> ustr option \<times> bool" where
  "single_root root_id nodes =
     (case nodes of
        [n] \<Rightarrow>
          (if root_id \<noteq> None \<and> norm_str (n_id n) = root_id \<and> has_no_parent n then (root_id, True)
           else if norm_str (n_id n) \<noteq> None \<and> has_no_parent n
                then (opt_or root_id (norm_str (n_id n)), True)
           else (root_id, False))
      | _ \<Rightarrow> (root_id, False))"

definition settle_root ::
  "(json \<Rightarrow> ustr) \<Rightarrow> nat \<Rightarrow> ustr option \<Rightarrow> ustr \<Rightarrow> ustr option \<Rightarrow> ustr option \<Rightarrow> ustr option
     \<Rightarrow> work_tree_node list \<Rightarrow> ustr option \<times> ustr option \<times> work_tree_node list" where
  "settle_root dg now task_id objective recovery root0 current nodes =
     (let (root_id, explicit_root_only) = single_root root0 nodes;
          made_id = work_tree_protocol_id dg task_id None objective @ lit ''-root'';
          rid = (case opt_or root_id None of Some r \<Rightarrow> r | None \<Rightarrow> made_id)
      in if nodes = [] then
           (Some rid, opt_or current (Some rid), [bootstrap_root now rid objective recovery])
         else if \<not> explicit_root_only \<and> (root_id = None \<or> list_all has_no_parent nodes) then
           let kept = filter (\<lambda>n. norm_str (n_id n) \<noteq> None) nodes;
               child_ids = map (\<lambda>n. the (norm_str (n_id n))) kept
           in (Some rid, current,
               wrapping_root now rid objective recovery child_ids
               # map (\<lambda>n. if has_no_parent n then n\<lparr>n_parent_node_id := Some rid\<rparr> else n) kept)
         else (root_id, current, nodes))"

definition upgrade_tree :: "(json \<Rightarrow> ustr) \<Rightarrow> nat \<Rightarrow> work_tree \<Rightarrow> work_tree" where
  "upgrade_tree dg now w =
     (let root_objective = norm_or (wt_root_objective w) (lit ''Unknown objective'');
          task_id = norm_opt (wt_task_id w);
          current0 = norm_opt (wt_current_node_id w);
          recovery_anchor = norm_opt (wt_recovery_anchor w);
          current1 = (if task_id \<noteq> None \<and> current0 = None
                      then preferred_work_tree_node_id (wt_nodes w) else current0);
          (root_id, current2, nodes) =
            settle_root dg now task_id root_objective recovery_anchor
              (norm_opt (wt_root_node_id w)) current1 (wt_nodes w);
          current = (if task_id \<noteq> None \<and> current2 = None
                        \<and> wt_status w \<notin> {TStandby, TCompleted, TFailed}
                     then preferred_work_tree_node_id nodes else current2);
          active0 = normalized_string_list (wt_active_path_node_ids w)
      in w\<lparr>wt_version := lit ''0.2.0'',
           wt_id := norm_or (wt_id w) (work_tree_protocol_id dg task_id root_id root_objective),
           wt_task_id := task_id,
           wt_root_node_id := root_id,
           wt_root_objective := root_objective,
           wt_current_node_id := current,
           wt_nodes := nodes,
           wt_loaded_node_ids :=
             normalized_string_list (list_or (wt_loaded_node_ids w) (map n_id nodes)),
           wt_active_path_node_ids :=
             (if active0 = [] then build_active_path_node_ids nodes current root_id else active0),
           wt_pc_memo := norm_opt (wt_pc_memo w),
           wt_recovery_anchor := recovery_anchor,
           wt_version_counter := (if wt_version_counter w = 0 then 1 else wt_version_counter w)\<rparr>)"

text \<open>\<open>WorkTreeProtocol._sync_runtime_pointer_fields\<close>, after the fields have been validated.\<close>

definition sync_runtime_pointer_fields :: "work_tree \<Rightarrow> work_tree" where
  "sync_runtime_pointer_fields w =
     (let current = (if wt_task_id w \<noteq> None \<and> wt_current_node_id w = None
                        \<and> wt_status w \<notin> {TStandby, TCompleted, TFailed}
                     then preferred_work_tree_node_id (wt_nodes w) else wt_current_node_id w);
          root_id = (case (wt_root_node_id w, wt_nodes w) of
                    (None, n # _) \<Rightarrow> Some (n_id n)
                  | (r, _) \<Rightarrow> r)
      in w\<lparr>wt_current_node_id := current,
           wt_root_node_id := root_id,
           wt_loaded_node_ids := list_or (wt_loaded_node_ids w) (map n_id (wt_nodes w)),
           wt_active_path_node_ids :=
             list_or (wt_active_path_node_ids w)
               (build_active_path_node_ids (wt_nodes w) current root_id),
           wt_recovery_anchor :=
             (case (wt_recovery_anchor w, current) of
                (None, Some c) \<Rightarrow>
                  (case first_such (\<lambda>n. n_id n = c) (wt_nodes w) of
                     None \<Rightarrow> None
                   | Some n \<Rightarrow> n_recovery_anchor n)
              | (a, _) \<Rightarrow> a)\<rparr>)"

text \<open>\<open>WorkTreeProtocol.model_validate\<close> of a payload: upgrade, validate the nodes, sync.\<close>

definition validate_tree :: "(json \<Rightarrow> ustr) \<Rightarrow> nat \<Rightarrow> work_tree \<Rightarrow> work_tree" where
  "validate_tree dg now w =
     (let v = upgrade_tree dg now w
      in sync_runtime_pointer_fields (v\<lparr>wt_nodes := map validate_node (wt_nodes v)\<rparr>))"


section \<open>The work-context stack\<close>

datatype summary_type = ExecutionResult | FailureReason | ProcessDescription

datatype frame_status = FActive | FSuspended | FCompleted | FFailed

datatype cache_policy = PreservePrefix | AllowRecompile

record child_completion_summary =
  cs_child_node_id :: ustr
  cs_completed :: bool \<comment> \<open>the literal \<open>completed\<close>; otherwise \<open>failed\<close>\<close>
  cs_summary :: ustr
  cs_summary_type :: summary_type
  cs_evidence_refs :: "entity_ref list"
  cs_completed_at :: nat

record work_context_frame =
  f_id :: ustr
  f_node_id :: ustr
  f_parent_frame_id :: "ustr option"
  f_stack_depth :: int
  f_working_node_annotation :: ustr
  f_entry_context_digest :: ustr
  f_prefix_cache_key :: "ustr option"
  f_frame_header :: ustr
  f_frame_local_transcript_ref :: "entity_ref option"
  f_child_completion_summaries :: "child_completion_summary list"
  f_cursor_state :: "ustr option"
  f_status :: frame_status

record work_context_stack =
  s_version :: ustr
  s_task_id :: ustr
  s_agent_run_id :: ustr
  s_root_frame_id :: ustr
  s_top_frame_id :: ustr
  s_frames :: "work_context_frame list"
  s_cache_policy :: cache_policy
  s_stack_digest :: ustr
  s_updated_at :: nat

definition frame_node_id :: "work_context_frame \<Rightarrow> ustr" where
  "frame_node_id f = norm_or (f_node_id f) (lit ''work-tree-node'')"

definition frame_id :: "work_context_frame \<Rightarrow> ustr" where
  "frame_id f = norm_or (f_id f) (lit ''frame-'' @ frame_node_id f)"

definition frame_annotation :: "work_context_frame \<Rightarrow> ustr" where
  "frame_annotation f =
     norm_or (f_working_node_annotation f)
       (case working_node_annotation (frame_node_id f) of None \<Rightarrow> [] | Some a \<Rightarrow> a)"

definition frame_entry_digest :: "(json \<Rightarrow> ustr) \<Rightarrow> work_context_frame \<Rightarrow> ustr" where
  "frame_entry_digest dg f =
     norm_or (f_entry_context_digest f)
       (dg (JObj [(lit ''nodeId'', JStr (frame_node_id f)), (lit ''frameId'', JStr (frame_id f))]))"

text \<open>\<open>_normalized_child_completion_payloads\<close>: what of the summaries enters the cache key.\<close>

fun child_completion_payloads :: "child_completion_summary list \<Rightarrow> json list" where
  "child_completion_payloads [] = []"
| "child_completion_payloads (c # cs) =
     (case norm_str (cs_child_node_id c) of
        None \<Rightarrow> child_completion_payloads cs
      | Some i \<Rightarrow>
          JObj [(lit ''childNodeId'', JStr i),
                (lit ''status'', JStr (lit (if cs_completed c then ''completed'' else ''failed''))),
                (lit ''summary'', JStr (norm_or (cs_summary c) []))]
          # child_completion_payloads cs)"

text \<open>\<open>build_work_context_prefix_cache_key\<close>\<close>

definition build_work_context_prefix_cache_key ::
  "(json \<Rightarrow> ustr) \<Rightarrow> work_context_frame \<Rightarrow> ustr option \<Rightarrow> ustr" where
  "build_work_context_prefix_cache_key dg f parent_key =
     dg (JObj
       [(lit ''frameId'', JStr (frame_id f)),
        (lit ''nodeId'', JStr (frame_node_id f)),
        (lit ''parentFrameId'', jopt (norm_opt (f_parent_frame_id f))),
        (lit ''stackDepth'', JInt (f_stack_depth f)),
        (lit ''workingNodeAnnotation'', JStr (frame_annotation f)),
        (lit ''entryContextDigest'', JStr (frame_entry_digest dg f)),
        (lit ''frameHeader'', JStr (norm_or (f_frame_header f) [])),
        (lit ''cursorState'', jopt (norm_opt (f_cursor_state f))),
        (lit ''childCompletionSummaries'',
           JList (child_completion_payloads (f_child_completion_summaries f))),
        (lit ''parentPrefixCacheKey'', jopt (norm_opt parent_key))])"

text \<open>
  \<open>normalize_work_context_frames_payload\<close>: the frames as one chain, each linked to the one
  before it, its depth its position, its cache key built on the key of the one before.
\<close>

fun normalize_frames_from ::
  "(json \<Rightarrow> ustr) \<Rightarrow> ustr option \<Rightarrow> ustr option \<Rightarrow> nat \<Rightarrow> work_context_frame list
     \<Rightarrow> work_context_frame list" where
  "normalize_frames_from dg parent_id parent_key depth [] = []"
| "normalize_frames_from dg parent_id parent_key depth (f # fs) =
     (let g = f\<lparr>f_id := frame_id f,
                f_node_id := frame_node_id f,
                f_parent_frame_id := parent_id,
                f_stack_depth := int depth,
                f_working_node_annotation := frame_annotation f,
                f_entry_context_digest := frame_entry_digest dg f,
                f_frame_header := norm_or (f_frame_header f) (frame_annotation f),
                f_cursor_state := norm_opt (f_cursor_state f)\<rparr>;
          key = build_work_context_prefix_cache_key dg g parent_key
      in g\<lparr>f_prefix_cache_key := Some key\<rparr>
         # normalize_frames_from dg (Some (frame_id f)) (Some key) (Suc depth) fs)"

definition normalize_work_context_frames_payload ::
  "(json \<Rightarrow> ustr) \<Rightarrow> work_context_frame list \<Rightarrow> work_context_frame list" where
  "normalize_work_context_frames_payload dg fs = normalize_frames_from dg None None 0 fs"

text \<open>\<open>WorkContextFrame._normalize_frame\<close>\<close>

definition validate_frame :: "(json \<Rightarrow> ustr) \<Rightarrow> work_context_frame \<Rightarrow> work_context_frame" where
  "validate_frame dg f =
     (let g = f\<lparr>f_id := frame_id f,
                f_node_id := frame_node_id f,
                f_working_node_annotation := frame_annotation f,
                f_entry_context_digest := frame_entry_digest dg f\<rparr>
      in g\<lparr>f_prefix_cache_key :=
             (case norm_opt (f_prefix_cache_key f) of
                Some k \<Rightarrow> Some k
              | None \<Rightarrow> Some (build_work_context_prefix_cache_key dg g None))\<rparr>)"

definition jstr_or_null :: "ustr \<Rightarrow> json" where
  "jstr_or_null s = (if s = [] then JNull else JStr s)"

text \<open>
  \<open>WorkContextStack._normalize_stack\<close> and the validation of its frames. The normalized chain
  serves only for the frame ids: \<open>data["frames"]\<close> keeps the frames as they were given.
\<close>

definition validate_stack :: "(json \<Rightarrow> ustr) \<Rightarrow> work_context_stack \<Rightarrow> work_context_stack" where
  "validate_stack dg s =
     (let frames = normalize_work_context_frames_payload dg (s_frames s);
          root0 = norm_str (s_root_frame_id s);
          top0 = norm_str (s_top_frame_id s);
          root1 = (if frames \<noteq> [] then opt_or root0 (norm_str (f_id (hd frames))) else root0);
          top1 = (if frames \<noteq> [] then opt_or top0 (norm_str (f_id (last frames))) else top0);
          root_id = (case opt_or root1 top1 of Some r \<Rightarrow> r | None \<Rightarrow> lit ''frame-root'');
          top = (case opt_or top1 root1 of Some t \<Rightarrow> t | None \<Rightarrow> lit ''frame-root'')
      in s\<lparr>s_version := lit ''0.2.0'',
           s_root_frame_id := root_id,
           s_top_frame_id := top,
           s_stack_digest :=
             norm_or (s_stack_digest s)
               (dg (JObj [(lit ''taskId'', jstr_or_null (s_task_id s)),
                          (lit ''agentRunId'', jstr_or_null (s_agent_run_id s)),
                          (lit ''rootFrameId'', JStr root_id),
                          (lit ''topFrameId'', JStr top),
                          (lit ''frameIds'', JList (map (\<lambda>f. JStr (f_id f)) frames))])),
           s_frames := map (validate_frame dg) (s_frames s)\<rparr>)"

section \<open>The takeover protocol\<close>

datatype plan_step_status = SPending | SInProgress | SCompleted | SBlocked | SSkipped

datatype constraint_category = CObjective | CScope | CBudget | CRuntime | CTooling | CDelivery
  | CPolicy | CEnvironment

datatype gate_mode = Hard | Advisory

datatype verification_status = VPassed | VWarning | VFailed | VNotRun

datatype delivery_section_kind = SecResult | SecEvidence | SecPending | SecIncomplete

datatype section_status = SecPresent | SecMissing | SecNotApplicable

datatype step_phase = StObjective | StConstraints | StPlan | StExecute | StVerify | StDeliver

record takeover_ambiguity =
  a_id :: ustr
  a_prompt :: ustr
  a_reason :: "ustr option"
  a_required :: bool

record takeover_constraint =
  c_id :: ustr
  c_category :: constraint_category
  c_label :: ustr
  c_value :: ustr
  c_required :: bool
  c_source :: "ustr option"

record takeover_plan_step =
  ps_id :: ustr
  ps_title :: ustr
  ps_instructions :: ustr
  ps_phase :: step_phase
  ps_status :: plan_step_status
  ps_expected_evidence :: "ustr list"
  ps_depends_on :: "ustr list"

record verification_item =
  v_id :: ustr
  v_label :: ustr
  v_status :: verification_status
  v_detail :: "ustr option"
  v_gate_mode :: gate_mode

record delivery_section =
  d_id :: ustr
  d_section :: delivery_section_kind
  d_content :: ustr
  d_status :: section_status

record takeover_metrics =
  m_plan_quality_score :: rat
  m_rework_count :: int
  m_rework_rate :: rat
  m_clarification_needed :: bool
  m_plan_confirmation_needed :: bool
  m_plan_confirmed :: bool
  m_delivery_completeness_score :: rat
  m_verification_pass_rate :: rat

record takeover_protocol =
  p_id :: ustr
  p_version :: ustr
  p_task_id :: ustr
  p_task_type :: ustr
  p_run_type :: ustr
  p_current_phase :: protocol_phase
  p_status :: protocol_status
  p_objective :: ustr
  p_objective_summary :: ustr
  p_ambiguities :: "takeover_ambiguity list"
  p_constraints :: "takeover_constraint list"
  p_plan :: "takeover_plan_step list"
  p_work_tree :: "work_tree option"
  p_delivery_sections :: "delivery_section list"
  p_verification_items :: "verification_item list"
  p_metrics :: takeover_metrics
  p_applied_modules :: "ustr list"
  p_hook_trace :: "json list"

text \<open>
  \<open>TaskTakeoverProtocol.model_validate\<close> of a payload: \<open>_backfill_work_tree_task_id\<close> gives the
  tree the protocol's task id when it has none, then the tree is validated.
\<close>

definition backfill_work_tree_task_id :: "takeover_protocol \<Rightarrow> takeover_protocol" where
  "backfill_work_tree_task_id p =
     (case p_work_tree p of
        None \<Rightarrow> p
      | Some w \<Rightarrow>
          (case norm_str (p_task_id p) of
             None \<Rightarrow> p
           | Some t \<Rightarrow> if norm_opt (wt_task_id w) = None
                       then p\<lparr>p_work_tree := Some (w\<lparr>wt_task_id := Some t\<rparr>)\<rparr> else p))"

definition validate_protocol ::
  "(json \<Rightarrow> ustr) \<Rightarrow> nat \<Rightarrow> takeover_protocol \<Rightarrow> takeover_protocol" where
  "validate_protocol dg now p =
     (let q = backfill_work_tree_task_id p
      in q\<lparr>p_work_tree := map_option (validate_tree dg now) (p_work_tree q)\<rparr>)"

section \<open>Facts on normalized text\<close>

definition norm_ok :: "ustr \<Rightarrow> bool" where
  "norm_ok s \<longleftrightarrow> s \<noteq> [] \<and> \<not> is_space (hd s) \<and> \<not> is_space (last s)"

lemma strip_norm_ok: "strip s = [] \<or> norm_ok (strip s)"
proof (cases "strip s")
  case (Cons c cs)
  have "no_trailing (strip s)" unfolding strip_def by (rule no_trailing_rstrip)
  moreover have "\<not> is_space (hd (strip s))"
  proof (cases "dropWhile is_space s")
    case (Cons d ds)
    then have d: "\<not> is_space d" by (metis dropWhile_eq_Cons_conv)
    then have "rstrip (d # ds) = d # rstrip ds"
      by (simp add: rstrip_def dropWhile_append)
    with d Cons show ?thesis by (simp add: strip_def)
  next
    case Nil
    with Cons show ?thesis unfolding strip_def Nil by (simp add: rstrip_def)
  qed
  ultimately show ?thesis using Cons by (simp add: norm_ok_def no_trailing_def)
qed simp

lemma norm_ok_strip [simp]: "norm_ok s \<Longrightarrow> strip s = s"
proof -
  assume s: "norm_ok s"
  have "dropWhile is_space t = t" if "t = [] \<or> \<not> is_space (hd t)" for t
    using that by (cases t) auto
  from this [of s] this [of "rev s"] s show ?thesis
    by (simp add: strip_def rstrip_def norm_ok_def hd_rev)
qed

lemma norm_ok_norm_str [simp]: "norm_ok s \<Longrightarrow> norm_str s = Some s"
  by (simp add: norm_str_def Let_def) (simp add: norm_ok_def)

lemma norm_str_Some: "norm_str s = Some t \<Longrightarrow> norm_ok t"
  using strip_norm_ok [of s] by (auto simp: norm_str_def Let_def split: if_splits)

lemma norm_ok_norm_or [simp]: "norm_ok s \<Longrightarrow> norm_or s d = s"
  by (simp add: norm_or_def)

lemma norm_ok_norm_or_I: "norm_ok d \<Longrightarrow> norm_ok (norm_or s d)"
  by (auto simp: norm_or_def split: option.split dest: norm_str_Some)

lemma norm_opt_simps [simp]: "norm_opt None = None" "norm_ok s \<Longrightarrow> norm_opt (Some s) = Some s"
  by (simp_all add: norm_opt_def)

lemma norm_opt_Some: "norm_opt v = Some t \<Longrightarrow> norm_ok t"
  by (auto simp: norm_opt_def split: option.splits dest: norm_str_Some)

lemma norm_ok_append: "a \<noteq> [] \<Longrightarrow> b \<noteq> [] \<Longrightarrow> norm_ok (a @ b) \<longleftrightarrow> \<not> is_space (hd a) \<and> \<not> is_space (last b)"
  by (simp add: norm_ok_def)

lemma norm_ok_prefix [simp]:
  "norm_ok s \<Longrightarrow> p \<noteq> [] \<Longrightarrow> \<not> is_space (hd p) \<Longrightarrow> norm_ok (p @ s)"
  by (simp add: norm_ok_def)

lemma norm_ok_compact: "compact_text s \<Longrightarrow> s \<noteq> [] \<Longrightarrow> norm_ok s"
  by (cases s) (auto simp: compact_text_def no_trailing_def norm_ok_def split: if_splits)

lemma norm_ok_lit: "s \<noteq> [] \<Longrightarrow> \<not> is_space (of_char (hd s)) \<Longrightarrow> \<not> is_space (of_char (last s)) \<Longrightarrow> norm_ok (lit s)"
  by (simp add: norm_ok_def lit_def hd_map last_map)

lemma hd_lit [simp]: "s \<noteq> [] \<Longrightarrow> hd (lit s) = of_char (hd s)"
  by (simp add: lit_def hd_map)

lemma last_lit [simp]: "s \<noteq> [] \<Longrightarrow> last (lit s) = of_char (last s)"
  by (simp add: lit_def last_map)

lemma norm_list_from_props:
  "distinct (norm_list_from seen vs) \<and> set (norm_list_from seen vs) \<inter> set seen = {}
    \<and> (\<forall>s\<in>set (norm_list_from seen vs). norm_ok s)"
proof (induction vs arbitrary: seen)
  case (Cons v vs)
  show ?case
  proof (cases "norm_str v")
    case None
    with Cons.IH [of seen] show ?thesis by simp
  next
    case (Some s)
    with norm_str_Some [OF Some] Cons.IH [of seen] Cons.IH [of "s # seen"] show ?thesis by simp
  qed
qed simp

lemma norm_list_from_id:
  "distinct vs \<Longrightarrow> set vs \<inter> set seen = {} \<Longrightarrow> \<forall>s\<in>set vs. norm_ok s \<Longrightarrow> norm_list_from seen vs = vs"
proof (induction vs arbitrary: seen)
  case (Cons v vs)
  then have "norm_str v = Some v" by simp
  moreover from Cons.prems have "norm_list_from (v # seen) vs = vs" by (intro Cons.IH) auto
  ultimately show ?case using Cons.prems by simp
qed simp

definition norm_list_ok :: "ustr list \<Rightarrow> bool" where
  "norm_list_ok vs \<longleftrightarrow> distinct vs \<and> (\<forall>s\<in>set vs. norm_ok s)"

lemma norm_list_ok_id [simp]: "norm_list_ok vs \<Longrightarrow> normalized_string_list vs = vs"
  by (simp add: norm_list_ok_def normalized_string_list_def norm_list_from_id)

lemma norm_list_ok_normalized [simp]: "norm_list_ok (normalized_string_list vs)"
  using norm_list_from_props [of "[]" vs] by (simp add: norm_list_ok_def normalized_string_list_def)

lemma norm_list_ok_Nil [simp]: "norm_list_ok []"
  by (simp add: norm_list_ok_def)

lemma normalized_string_list_Nil [simp]: "normalized_string_list [] = []"
  by (simp add: normalized_string_list_def)

lemma set_norm_list_from:
  "set (norm_list_from seen vs) = {s. \<exists>v\<in>set vs. norm_str v = Some s} - set seen"
  by (induction seen vs rule: norm_list_from.induct) (auto split: option.splits)

lemma set_normalized_string_list:
  "set (normalized_string_list vs) = {s. \<exists>v\<in>set vs. norm_str v = Some s}"
  by (simp add: normalized_string_list_def set_norm_list_from)

section \<open>Facts on the node validator\<close>

text \<open>A node is in normal form when every text the validator normalizes is normalized.\<close>

definition node_ok :: "work_tree_node \<Rightarrow> bool" where
  "node_ok n \<longleftrightarrow>
     norm_ok (n_id n) \<and> norm_ok (n_title n) \<and> norm_ok (n_local_goal n) \<and> norm_ok (n_node_text n)
     \<and> norm_ok (n_working_node_annotation n)
     \<and> norm_list_ok (n_questions_it_answers n) \<and> n_questions_it_answers n \<noteq> []
     \<and> norm_list_ok (n_local_constraints n)
     \<and> (n_local_constraints n = [] \<longrightarrow> n_constraint_ids n = [])
     \<and> norm_list_ok (n_child_node_ids n) \<and> norm_list_ok (n_plan_step_ids n)
     \<and> norm_list_ok (n_constraint_ids n) \<and> norm_list_ok (n_depends_on n)
     \<and> norm_list_ok (n_relation_ids n) \<and> norm_list_ok (n_expected_evidence n)
     \<and> norm_list_ok (n_source_memory_node_ids n)
     \<and> n_priority n \<noteq> 0 \<and> n_version n \<noteq> 0"

lemma validate_node_id: "node_ok n \<Longrightarrow> validate_node n = n"
  by (cases "n_local_constraints n = []"; cases n)
     (simp_all add: node_ok_def validate_node_def Let_def list_or_def)

lemma validate_node_ok:
  assumes "normalized_string_list (n_questions_it_answers n) = [] \<longrightarrow> n_questions_it_answers n = []"
    and "normalized_string_list (n_local_constraints n) = [] \<longrightarrow> n_local_constraints n = []"
  shows "node_ok (validate_node n)"
proof -
  have w: "norm_ok (lit ''work-tree-node'')" by (rule norm_ok_lit) (simp_all add: is_space_def)
  have i: "norm_ok (norm_or (n_id n) (lit ''work-tree-node''))" by (rule norm_ok_norm_or_I [OF w])
  then have t: "norm_ok (norm_or (n_title n) (norm_or (n_id n) (lit ''work-tree-node'')))" (is "norm_ok ?t")
    by (rule norm_ok_norm_or_I)
  then have l: "norm_ok (norm_or (n_local_goal n) ?t)" by (rule norm_ok_norm_or_I)
  have "normalized_string_list [?t] = [?t]" using t by (simp add: norm_list_ok_def)
  with assms i t l show ?thesis
    by (auto simp: node_ok_def validate_node_def Let_def list_or_def working_node_annotation_def
        norm_ok_append is_space_def intro!: norm_ok_norm_or_I)
qed

section \<open>Facts on trees, stacks and protocols\<close>

lemma path_up_subset: "set (path_up ps seen c) \<inter> set seen = {} \<and> distinct (path_up ps seen c)"
proof (induction ps seen c rule: path_up.induct)
  case (1 parents seen cursor)
  then show ?case
    by (subst (1 2) path_up.simps) (auto split: option.splits)
qed

lemma path_up_hd: "c \<notin> set seen \<Longrightarrow> path_up ps seen c \<noteq> [] \<and> hd (path_up ps seen c) = c"
  by (subst (1 2) path_up.simps) simp

text \<open>
  A tree is in normal form when validating it again changes nothing: every text is
  normalized, the pointers are set, every node is in normal form, and the tree is not one the
  validator would put a root over.
\<close>

definition fields_ok :: "work_tree \<Rightarrow> bool" where
  "fields_ok w \<longleftrightarrow>
     wt_version w = lit ''0.2.0'' \<and> norm_ok (wt_id w) \<and> norm_ok (wt_root_objective w)
     \<and> (\<exists>t. wt_task_id w = Some t \<and> norm_ok t)
     \<and> (\<exists>r. wt_root_node_id w = Some r \<and> norm_ok r)
     \<and> (\<exists>c. wt_current_node_id w = Some c \<and> norm_ok c)
     \<and> wt_nodes w \<noteq> [] \<and> (\<forall>n\<in>set (wt_nodes w). node_ok n)
     \<and> (list_all has_no_parent (wt_nodes w) \<longrightarrow> length (wt_nodes w) = 1)
     \<and> norm_list_ok (wt_loaded_node_ids w) \<and> wt_loaded_node_ids w \<noteq> []
     \<and> norm_list_ok (wt_active_path_node_ids w) \<and> wt_active_path_node_ids w \<noteq> []
     \<and> norm_opt (wt_pc_memo w) = wt_pc_memo w
     \<and> norm_opt (wt_recovery_anchor w) = wt_recovery_anchor w
     \<and> wt_version_counter w \<noteq> 0"

text \<open>The recovery anchor the validator settles on: the tree's own, else the current node's.\<close>

definition settled_anchor :: "work_tree \<Rightarrow> ustr option" where
  "settled_anchor w =
     (case (wt_recovery_anchor w, wt_current_node_id w) of
        (None, Some c) \<Rightarrow>
          (case first_such (\<lambda>n. n_id n = c) (wt_nodes w) of
             None \<Rightarrow> None
           | Some n \<Rightarrow> n_recovery_anchor n)
      | (a, _) \<Rightarrow> a)"

definition tree_ok :: "work_tree \<Rightarrow> bool" where
  "tree_ok w \<longleftrightarrow> fields_ok w \<and> settled_anchor w = wt_recovery_anchor w"

lemma single_root_normal:
  assumes "nodes \<noteq> []" and "\<forall>n\<in>set nodes. norm_ok (n_id n)"
    and "list_all has_no_parent nodes \<longrightarrow> length nodes = 1" and "norm_ok r"
  shows "settle_root dg now t obj rec (Some r) c nodes = (Some r, c, nodes)"
proof -
  have r: "opt_or (Some r) v = Some r" for v
    using assms(4) by (cases r) (auto simp: norm_ok_def)
  show ?thesis
  proof (cases "length nodes = 1")
    case True
    then obtain n where n: "nodes = [n]" by (auto simp: length_Suc_conv)
    with assms have "norm_str (n_id n) = Some (n_id n)" by simp
    then show ?thesis
      unfolding n by (auto simp: settle_root_def single_root_def r Let_def)
  next
    case False
    then have "single_root (Some r) nodes = (Some r, False)"
      by (auto simp: single_root_def split: list.splits)
    with False assms show ?thesis by (auto simp: settle_root_def r Let_def)
  qed
qed

text \<open>
  A payload whose nodes are still to be validated: every field but the nodes is in normal
  form, and so are the nodes once validated.
\<close>

definition payload_ok :: "work_tree \<Rightarrow> bool" where
  "payload_ok w \<longleftrightarrow> fields_ok (w\<lparr>wt_nodes := map validate_node (wt_nodes w)\<rparr>)
     \<and> (\<forall>n\<in>set (wt_nodes w). norm_ok (n_id n))"

lemma validate_node_keys [simp]:
  "norm_ok (n_id n) \<Longrightarrow> n_id (validate_node n) = n_id n"
  "n_parent_node_id (validate_node n) = n_parent_node_id n"
  "n_status (validate_node n) = n_status n"
  "n_recovery_anchor (validate_node n) = n_recovery_anchor n"
  "n_produced_evidence_refs (validate_node n) = n_produced_evidence_refs n"
  "n_execution_summary (validate_node n) = n_execution_summary n"
  "n_failure_summary (validate_node n) = n_failure_summary n"
  by (simp_all add: validate_node_def Let_def)

lemma validate_node_has_no_parent [simp]: "has_no_parent (validate_node n) = has_no_parent n"
  by (simp add: has_no_parent_def)

lemma upgrade_tree_id:
  assumes "payload_ok w" shows "upgrade_tree dg now w = w"
proof -
  from assms obtain t r c where
    ptrs: "wt_task_id w = Some t" "norm_ok t" "wt_root_node_id w = Some r" "norm_ok r"
      "wt_current_node_id w = Some c" "norm_ok c"
    unfolding payload_ok_def fields_ok_def by auto
  from assms have "list_all has_no_parent (wt_nodes w) \<longrightarrow> length (wt_nodes w) = 1"
    unfolding payload_ok_def fields_ok_def by (simp add: list.pred_map comp_def)
  then have "settle_root dg now (Some t) obj rec (Some r) (Some c) (wt_nodes w) =
      (Some r, Some c, wt_nodes w)" for obj rec
    using assms ptrs unfolding payload_ok_def fields_ok_def by (intro single_root_normal) auto
  with assms ptrs show ?thesis
    by (cases w) (simp add: payload_ok_def fields_ok_def upgrade_tree_def Let_def list_or_def)
qed

lemma sync_settles:
  "fields_ok w \<Longrightarrow> sync_runtime_pointer_fields w = w\<lparr>wt_recovery_anchor := settled_anchor w\<rparr>"
  unfolding fields_ok_def sync_runtime_pointer_fields_def settled_anchor_def Let_def list_or_def
  by (intro work_tree.equality) (elim conjE exE, simp)+

lemma map_validate_node_id: "\<forall>n\<in>set ns. node_ok n \<Longrightarrow> map validate_node ns = ns"
  by (rule map_idI) (simp add: validate_node_id)

lemma validate_tree_payload:
  "payload_ok w \<Longrightarrow> validate_tree dg now w =
     (let v = w\<lparr>wt_nodes := map validate_node (wt_nodes w)\<rparr>
      in v\<lparr>wt_recovery_anchor := settled_anchor v\<rparr>)"
  by (simp add: validate_tree_def Let_def upgrade_tree_id sync_settles payload_ok_def)

lemma validate_tree_fields:
  "fields_ok w \<Longrightarrow> validate_tree dg now w = w\<lparr>wt_recovery_anchor := settled_anchor w\<rparr>"
  by (subst validate_tree_payload) 
     (simp_all add: payload_ok_def map_validate_node_id fields_ok_def node_ok_def)

lemma validate_tree_id [simp]: "tree_ok w \<Longrightarrow> validate_tree dg now w = w"
  by (simp add: validate_tree_fields tree_ok_def)

definition protocol_ok :: "takeover_protocol \<Rightarrow> bool" where
  "protocol_ok p \<longleftrightarrow> (\<forall>w. p_work_tree p = Some w \<longrightarrow> tree_ok w)"

lemma validate_protocol_id [simp]: "protocol_ok p \<Longrightarrow> validate_protocol dg now p = p"
  by (cases "p_work_tree p")
     (auto simp: validate_protocol_def protocol_ok_def backfill_work_tree_task_id_def tree_ok_def
       fields_ok_def Let_def split: option.splits intro!: takeover_protocol.equality)

text \<open>A frame is in normal form when its texts are set; a stack when its ids and frames are.\<close>

definition frame_ok :: "work_context_frame \<Rightarrow> bool" where
  "frame_ok f \<longleftrightarrow> norm_ok (f_id f) \<and> norm_ok (f_node_id f) \<and> norm_ok (f_working_node_annotation f)
     \<and> norm_ok (f_entry_context_digest f) \<and> (\<exists>k. f_prefix_cache_key f = Some k \<and> norm_ok k)"

definition stack_ok :: "work_context_stack \<Rightarrow> bool" where
  "stack_ok s \<longleftrightarrow> s_version s = lit ''0.2.0'' \<and> norm_ok (s_root_frame_id s)
     \<and> norm_ok (s_top_frame_id s) \<and> norm_ok (s_stack_digest s) \<and> (\<forall>f\<in>set (s_frames s). frame_ok f)"

lemma validate_frame_id [simp]: "frame_ok f \<Longrightarrow> validate_frame dg f = f"
  by (cases f) (auto simp: frame_ok_def validate_frame_def frame_id_def frame_node_id_def
      frame_annotation_def frame_entry_digest_def Let_def)

lemma opt_or_norm_ok [simp]: "norm_ok s \<Longrightarrow> opt_or (Some s) v = Some s"
  by (cases s) (auto simp: norm_ok_def)

lemma validate_stack_id [simp]: "stack_ok s \<Longrightarrow> validate_stack dg s = s"
proof -
  assume s: "stack_ok s"
  then have "map (validate_frame dg) (s_frames s) = s_frames s"
    unfolding stack_ok_def by (intro map_idI) simp
  with s show ?thesis by (cases s) (simp add: stack_ok_def validate_stack_def Let_def)
qed

text \<open>A digest that is never blank (a hexadecimal text) makes every validated frame normal.\<close>

lemma validate_frame_ok:
  assumes "\<And>j. norm_ok (dg j)" shows "frame_ok (validate_frame dg f)"
proof -
  have "norm_ok (frame_node_id f)"
    unfolding frame_node_id_def by (rule norm_ok_norm_or_I, rule norm_ok_lit) (simp_all add: is_space_def)
  then have "norm_ok (frame_id f)" "norm_ok (frame_annotation f)"
    by (auto simp: frame_id_def frame_annotation_def working_node_annotation_def norm_ok_append
        is_space_def intro!: norm_ok_norm_or_I)
  moreover note \<open>norm_ok (frame_node_id f)\<close>
  moreover have "norm_ok (frame_entry_digest dg f)"
    unfolding frame_entry_digest_def by (rule norm_ok_norm_or_I [OF assms])
  ultimately show ?thesis
    by (auto simp: frame_ok_def validate_frame_def Let_def build_work_context_prefix_cache_key_def
        assms split: option.splits dest: norm_opt_Some)
qed

lemma validate_stack_frames [simp]: "s_frames (validate_stack dg s) = map (validate_frame dg) (s_frames s)"
  by (simp add: validate_stack_def Let_def)

lemma validate_stack_ok:
  assumes "\<And>j. norm_ok (dg j)" shows "stack_ok (validate_stack dg s)"
proof -
  have f: "norm_ok (lit ''frame-root'')" by (rule norm_ok_lit) (simp_all add: is_space_def)
  have "norm_ok (case opt_or a b of None \<Rightarrow> lit ''frame-root'' | Some r \<Rightarrow> r)"
    if "a = None \<or> (\<exists>x. a = Some x \<and> norm_ok x)" "b = None \<or> (\<exists>x. b = Some x \<and> norm_ok x)" for a b
    using that f by auto
  moreover have "opt_or a b = None \<or> (\<exists>x. opt_or a b = Some x \<and> norm_ok x)"
    if "a = None \<or> (\<exists>x. a = Some x \<and> norm_ok x)" "b = None \<or> (\<exists>x. b = Some x \<and> norm_ok x)" for a b
    using that by auto
  moreover have "norm_str v = None \<or> (\<exists>x. norm_str v = Some x \<and> norm_ok x)" for v
    by (cases "norm_str v") (auto dest: norm_str_Some)
  ultimately show ?thesis
    by (auto simp: stack_ok_def validate_stack_def Let_def validate_frame_ok [OF assms]
        intro!: norm_ok_norm_or_I assms)
qed

end
