(* ===== verification/WorkTreeGraph.thy ===== *)
theory WorkTreeGraph
  imports Contracts "HOL-Library.Multiset"
begin

text \<open>
  \<open>runtime_kernel/work_tree_graph.py\<close>: which children of a work-tree node may be started
  now, which forks to launch, and how far a node is from delivery. Severities and pressures
  are rationals (Python floats); the theorems use their order, not their rounding. A graph
  state is the record of the keys the code reads from the dictionary; an absent key is the
  empty list, \<open>None\<close>, zero or \<open>False\<close>, as \<open>or []\<close> and \<open>or 0\<close> make it.
\<close>

section \<open>Data\<close>

datatype resolution_action = Refine | Work | Merge | Deliver | Block

datatype frontier_status = FrOpen | FrResolved | FrAcceptedRisk

datatype frontier_axis = AxUnknown | AxRisk | AxDeliverable | AxDependency | AxVerification
  | AxCost | AxConflict | AxFailure | AxPlanChurn | AxReliability | AxDurability
  | AxTransaction | AxPlanning | AxMerge | AxHygiene | AxEvaluation | AxObservability

datatype pending_status = PiPending | PiAttached | PiDismissed

record pending_information_item =
  pi_id :: ustr
  pi_source_node_id :: "ustr option"
  pi_target_node_id :: "ustr option"
  pi_relation_id :: "ustr option"
  pi_relation_type :: "ustr option"
  pi_category :: ustr
  pi_summary :: ustr
  pi_evidence_refs :: "ustr list"
  pi_status :: pending_status

record frontier_item =
  fi_id :: ustr
  fi_node_id :: "ustr option"
  fi_axis :: frontier_axis
  fi_description :: ustr
  fi_severity :: rat
  fi_status :: frontier_status
  fi_evidence_refs :: "ustr list"
  fi_source :: ustr

record resolution_policy =
  rp_refine_pressure_threshold :: rat
  rp_deliver_pressure_threshold :: rat
  rp_broad_node_detail_level :: int
  rp_max_inline_expected_evidence :: nat
  rp_max_inline_text_chars :: nat
  rp_max_inline_children :: nat
  rp_failure_retry_budget :: nat
  rp_plan_churn_refine_threshold :: nat

definition default_resolution_policy :: resolution_policy where
  "default_resolution_policy =
     \<lparr>rp_refine_pressure_threshold = 65/100, rp_deliver_pressure_threshold = 25/100,
      rp_broad_node_detail_level = 1, rp_max_inline_expected_evidence = 2,
      rp_max_inline_text_chars = 480, rp_max_inline_children = 0,
      rp_failure_retry_budget = 1, rp_plan_churn_refine_threshold = 2\<rparr>"

record delivery_readiness =
  dr_ready :: bool
  dr_blockers :: "ustr list"
  dr_open_frontier_count :: nat
  dr_max_frontier_pressure :: rat

record node_assessment =
  na_node_id :: ustr
  na_recommended_action :: resolution_action
  na_frontier_pressure :: rat
  na_saturation :: rat
  na_frontiers :: "frontier_item list"
  na_delivery_readiness :: delivery_readiness
  na_reasons :: "ustr list"

datatype auto_launch_policy = ExplicitPolicyGated | Manual | Disabled

record fork_launch_policy =
  fp_max_forks :: nat
  fp_allow_recursive_fork :: bool
  fp_reserve_parent_merge_slots :: nat
  fp_auto_launch_policy :: auto_launch_policy

definition default_fork_launch_policy :: fork_launch_policy where
  "default_fork_launch_policy =
     \<lparr>fp_max_forks = 3, fp_allow_recursive_fork = True, fp_reserve_parent_merge_slots = 0,
      fp_auto_launch_policy = ExplicitPolicyGated\<rparr>"

record active_run =
  ar_run_type :: ustr
  ar_status :: ustr
  ar_assigned_work_tree_node_id :: "ustr option"

record ready_child =
  rc_node_id :: ustr
  rc_title :: ustr
  rc_priority :: int
  rc_pending_information_items :: "pending_information_item list"
  rc_relation_ids :: "ustr list"

datatype blocked_reason = DependencyNotCompleted | AlreadyActive | TerminalChild | NotPending
  | MissingDependency

record blocked_child =
  bc_node_id :: ustr
  bc_title :: ustr
  bc_priority :: int
  bc_reason :: blocked_reason
  bc_detail :: ustr
  bc_blocking_node_ids :: "ustr list"

record fork_launch_candidate =
  fc_assigned_work_tree_node_id :: ustr
  fc_priority :: int
  fc_pending_information_items :: "pending_information_item list"

record ready_set =
  rs_parent_node_id :: ustr
  rs_ready_children :: "ready_child list"
  rs_blocked_children :: "blocked_child list"
  rs_fork_launch_candidates :: "fork_launch_candidate list"
  rs_active_fork_count :: int
  rs_available_fork_slots :: int
  rs_can_auto_launch :: bool
  rs_parent_replan_required :: bool

record fork_batch_plan =
  bp_launch_candidates :: "fork_launch_candidate list"
  bp_waiting_candidates :: "fork_launch_candidate list"
  bp_active_fork_count :: int
  bp_available_fork_slots :: int
  bp_reason :: ustr

record graph_state =
  gs_pending_information_items :: "pending_information_item list"
  gs_frontier_items :: "frontier_item list"
  gs_plan_churn :: "(ustr \<times> int) list option"
  gs_plan_churn_count :: int
  gs_failure_attempts :: "(ustr \<times> int) list option"
  gs_failure_attempt_count :: int
  gs_candidate_delivery :: bool
  gs_candidate_delivery_text :: bool
  gs_delivery_candidate :: bool

definition empty_graph_state :: graph_state where
  "empty_graph_state =
     \<lparr>gs_pending_information_items = [], gs_frontier_items = [], gs_plan_churn = None,
      gs_plan_churn_count = 0, gs_failure_attempts = None, gs_failure_attempt_count = 0,
      gs_candidate_delivery = False, gs_candidate_delivery_text = False,
      gs_delivery_candidate = False\<rparr>"

section \<open>The ready set\<close>

definition active_fork_statuses :: "ustr set" where
  "active_fork_statuses =
     {lit ''initializing'', lit ''mounting'', lit ''running'', lit ''waiting-tool''}"

definition terminal_statuses :: "node_status set" where
  "terminal_statuses = {NCompleted, NFailed, NSkipped}"

definition node_by_id :: "work_tree \<Rightarrow> ustr \<Rightarrow> work_tree_node option" where
  "node_by_id w = index_by n_id (wt_nodes w)"

definition direct_children :: "work_tree \<Rightarrow> work_tree_node \<Rightarrow> work_tree_node list" where
  "direct_children w parent =
     list_or (List.map_filter (node_by_id w) (dedup (n_child_node_ids parent)))
       (filter (\<lambda>n. n_parent_node_id n = Some (n_id parent)) (wt_nodes w))"

definition available_fork_slots :: "fork_launch_policy \<Rightarrow> int \<Rightarrow> int" where
  "available_fork_slots policy active =
     max (int (fp_max_forks policy) - active - int (fp_reserve_parent_merge_slots policy)) 0"

text \<open>\<open>_pending_information_by_target\<close>, as the function from a target to its items.\<close>

definition counted_pending_items :: "graph_state \<Rightarrow> pending_information_item list" where
  "counted_pending_items gs =
     filter (\<lambda>i. pi_status i = PiPending \<and> pi_target_node_id i \<noteq> None)
       (gs_pending_information_items gs)"

definition pending_information_for :: "graph_state \<Rightarrow> ustr \<Rightarrow> pending_information_item list" where
  "pending_information_for gs target =
     filter (\<lambda>i. pi_target_node_id i = Some target) (counted_pending_items gs)"

definition requires_parent_replan :: "pending_information_item \<Rightarrow> bool" where
  "requires_parent_replan i \<longleftrightarrow>
     pi_category i \<in> {lit ''plan-impact'', lit ''dependency-change'', lit ''relation-change''}
     \<or> pi_relation_type i \<in> {Some (lit ''proposed-dependency-change''),
                             Some (lit ''proposed-relation-change'')}"

text \<open>\<open>_blocked_child\<close>: the first reason that keeps a child from starting, in the code's order.\<close>

definition blocked_child_of ::
  "(ustr \<Rightarrow> work_tree_node option) \<Rightarrow> ustr set \<Rightarrow> work_tree_node \<Rightarrow> blocked_child option" where
  "blocked_child_of lookup active_ids child =
     (let mk = (\<lambda>reason detail blocking.
            Some \<lparr>bc_node_id = n_id child, bc_title = n_title child,
                  bc_priority = n_priority child, bc_reason = reason, bc_detail = detail,
                  bc_blocking_node_ids = blocking\<rparr>);
          missing = filter (\<lambda>d. lookup d = None) (n_depends_on child);
          unfinished = filter (\<lambda>d. case lookup d of
                                 None \<Rightarrow> True
                               | Some n \<Rightarrow> n_status n \<noteq> NCompleted) (n_depends_on child)
      in if n_id child \<in> active_ids then
           mk AlreadyActive (lit ''Child already has an active fork assignment.'') []
         else if n_status child \<in> terminal_statuses then
           mk TerminalChild
             (lit ''Child is already terminal: '' @ node_status_text (n_status child) @ lit ''.'') []
         else if n_status child \<noteq> NPending then
           mk NotPending
             (lit ''Child status is '' @ node_status_text (n_status child) @ lit '', not pending.'') []
         else if missing \<noteq> [] then
           mk MissingDependency (lit ''Child depends on missing work tree nodes.'') missing
         else if unfinished \<noteq> [] then
           mk DependencyNotCompleted
             (lit ''Child has hard dependsOn edges that are not completed.'') unfinished
         else None)"

definition is_active_fork :: "active_run \<Rightarrow> bool" where
  "is_active_fork r \<longleftrightarrow> ar_run_type r = lit ''fork'' \<and> ar_status r \<in> active_fork_statuses"

definition active_child_ids :: "active_run list \<Rightarrow> ustr set" where
  "active_child_ids runs =
     set (List.map_filter ar_assigned_work_tree_node_id (filter is_active_fork runs))"

definition candidate_of :: "ready_child \<Rightarrow> fork_launch_candidate" where
  "candidate_of c =
     \<lparr>fc_assigned_work_tree_node_id = rc_node_id c, fc_priority = rc_priority c,
      fc_pending_information_items = rc_pending_information_items c\<rparr>"

definition ready_child_of :: "graph_state \<Rightarrow> work_tree_node \<Rightarrow> ready_child" where
  "ready_child_of gs n =
     \<lparr>rc_node_id = n_id n, rc_title = n_title n, rc_priority = n_priority n,
      rc_pending_information_items = pending_information_for gs (n_id n),
      rc_relation_ids = n_relation_ids n\<rparr>"

text \<open>The loop over the sorted children: each goes to the ready or to the blocked list.\<close>

fun classify_children ::
  "(ustr \<Rightarrow> work_tree_node option) \<Rightarrow> ustr set \<Rightarrow> work_tree_node list
     \<Rightarrow> work_tree_node list \<times> blocked_child list" where
  "classify_children lookup active_ids [] = ([], [])"
| "classify_children lookup active_ids (c # cs) =
     (let (ready, blocked) = classify_children lookup active_ids cs in
      case blocked_child_of lookup active_ids c of
        Some b \<Rightarrow> (ready, b # blocked)
      | None \<Rightarrow> (c # ready, blocked))"

definition child_order :: "work_tree_node \<Rightarrow> int \<times> ustr" where
  "child_order n = (n_priority n, n_id n)"

definition compute_parent_ready_set ::
  "work_tree \<Rightarrow> ustr \<Rightarrow> active_run list \<Rightarrow> graph_state \<Rightarrow> fork_launch_policy
     \<Rightarrow> ready_set res" where
  "compute_parent_ready_set w parent_node_id active_runs gs policy =
     (case node_by_id w parent_node_id of
        None \<Rightarrow> Inl (ValueError (lit ''Unknown parent work tree node: '' @ parent_node_id))
      | Some parent \<Rightarrow>
          let active_ids = active_child_ids active_runs;
              active_fork_count = int (length (filter is_active_fork active_runs));
              recursive_fork_blocked =
                (\<not> fp_allow_recursive_fork policy \<and> Some (n_id parent) \<noteq> wt_root_node_id w);
              slots = (if recursive_fork_blocked then 0
                       else available_fork_slots policy active_fork_count);
              (ready_nodes, blocked) =
                classify_children (node_by_id w) active_ids
                  (sort_key child_order (direct_children w parent));
              ready = map (ready_child_of gs) ready_nodes;
              candidates = map candidate_of (take (nat slots) ready);
              replan = list_ex requires_parent_replan (counted_pending_items gs)
          in Inr \<lparr>rs_parent_node_id = n_id parent,
                  rs_ready_children = ready,
                  rs_blocked_children = blocked,
                  rs_fork_launch_candidates = candidates,
                  rs_active_fork_count = active_fork_count,
                  rs_available_fork_slots = slots,
                  rs_can_auto_launch =
                    (fp_auto_launch_policy policy = ExplicitPolicyGated \<and> \<not> replan
                     \<and> candidates \<noteq> []),
                  rs_parent_replan_required = replan\<rparr>)"

text \<open>\<open>ForkBatchPlan._slots_match_launch_count\<close> and \<open>plan_fork_batch\<close>\<close>

definition validate_batch_plan :: "fork_batch_plan \<Rightarrow> fork_batch_plan res" where
  "validate_batch_plan plan =
     (if int (length (bp_launch_candidates plan)) > bp_available_fork_slots plan
      then Inl (ValueError (lit ''launchCandidates cannot exceed availableForkSlots''))
      else Inr plan)"

definition plan_fork_batch ::
  "ready_set \<Rightarrow> fork_launch_policy \<Rightarrow> int option \<Rightarrow> fork_batch_plan res" where
  "plan_fork_batch rs policy active_fork_count =
     (let active = (case active_fork_count of None \<Rightarrow> rs_active_fork_count rs | Some a \<Rightarrow> a);
          slots = available_fork_slots policy active;
          candidates = map candidate_of (rs_ready_children rs)
      in validate_batch_plan
           \<lparr>bp_launch_candidates = take (nat slots) candidates,
            bp_waiting_candidates = drop (nat slots) candidates,
            bp_active_fork_count = active,
            bp_available_fork_slots = slots,
            bp_reason = (if slots < int (length candidates) then lit ''max-forks''
                         else lit ''ready-set'')\<rparr>)"

section \<open>Frontiers and delivery readiness\<close>

text \<open>\<open>LONG_RUN_CORE_GAP_FRONTIER_SPECS\<close> and \<open>build_long_run_core_frontiers\<close>\<close>

definition long_run_core_gap_frontier_specs :: "(string \<times> frontier_axis \<times> string \<times> rat) list" where
  "long_run_core_gap_frontier_specs =
     [(''queue-reliability'', AxReliability,
       ''Worker queue needs ack, visibility timeout, reclaim and idempotent work item semantics.'', 95/100),
      (''durable-snapshot'', AxDurability,
       ''Resume state must be durable; Redis TTL package entries cannot be the recovery authority.'', 95/100),
      (''transactional-node'', AxTransaction,
       ''Work tree node execution needs preconditions, postconditions, version checks and idempotency keys.'', 9/10),
      (''plan-lifecycle'', AxPlanning,
       ''Plan nodes need lifecycle, supersession and stale-plan detection instead of one-shot planning.'', 85/100),
      (''typed-merge'', AxMerge,
       ''Fork and child results need typed merge envelopes, not only natural-language summaries.'', 85/100),
      (''semantic-gc'', AxHygiene,
       ''Long work trees need semantic garbage collection for obsolete plans, summaries and transcripts.'', 8/10),
      (''long-run-eval'', AxEvaluation,
       ''Long and ultra-long tasks need explicit deterministic and live gates rather than smoke evidence.'', 9/10),
      (''observability-replay'', AxObservability,
       ''Ultra-long runs need replayable traces to locate the first bad plan, summary or tool transition.'', 85/100)]"

definition build_long_run_core_frontiers :: "ustr option \<Rightarrow> frontier_item list" where
  "build_long_run_core_frontiers node_id =
     map (\<lambda>(fid, axis, description, severity).
            \<lparr>fi_id = lit fid, fi_node_id = node_id, fi_axis = axis,
             fi_description = lit description, fi_severity = severity, fi_status = FrOpen,
             fi_evidence_refs = [], fi_source = lit ''long-run-core-gap''\<rparr>)
       long_run_core_gap_frontier_specs"

definition frontiers_from_graph_state :: "graph_state \<Rightarrow> ustr \<Rightarrow> frontier_item list" where
  "frontiers_from_graph_state gs node_id =
     filter (\<lambda>i. fi_node_id i = None \<or> fi_node_id i = Some node_id) (gs_frontier_items gs)"

definition open_frontiers :: "frontier_item list \<Rightarrow> frontier_item list" where
  "open_frontiers fs = filter (\<lambda>i. fi_status i = FrOpen) fs"

definition is_broad_node ::
  "work_tree_node \<Rightarrow> work_tree_node list \<Rightarrow> resolution_policy \<Rightarrow> bool" where
  "is_broad_node node children policy \<longleftrightarrow>
     rp_max_inline_expected_evidence policy < length (n_expected_evidence node)
     \<or> rp_max_inline_text_chars policy < length (n_node_text node)
     \<or> rp_max_inline_children policy < length children"

definition expected_evidence_missing :: "work_tree_node \<Rightarrow> bool" where
  "expected_evidence_missing node \<longleftrightarrow>
     n_expected_evidence node \<noteq> [] \<and> n_produced_evidence_refs node = []
     \<and> n_status node \<notin> {NFailed, NSkipped}"

definition dict_get0 :: "(ustr \<times> int) list \<Rightarrow> ustr \<Rightarrow> int" where
  "dict_get0 d k = (case map_of d k of None \<Rightarrow> 0 | Some v \<Rightarrow> v)"

definition plan_churn_count :: "graph_state \<Rightarrow> ustr \<Rightarrow> int" where
  "plan_churn_count gs node_id =
     (case gs_plan_churn gs of Some d \<Rightarrow> dict_get0 d node_id | None \<Rightarrow> gs_plan_churn_count gs)"

definition failure_attempt_count :: "graph_state \<Rightarrow> ustr \<Rightarrow> int" where
  "failure_attempt_count gs node_id =
     (case gs_failure_attempts gs of
        Some d \<Rightarrow> dict_get0 d node_id
      | None \<Rightarrow> gs_failure_attempt_count gs)"

definition candidate_delivery_present :: "graph_state \<Rightarrow> bool" where
  "candidate_delivery_present gs \<longleftrightarrow>
     gs_candidate_delivery gs \<or> gs_candidate_delivery_text gs \<or> gs_delivery_candidate gs"

definition is_unresolved :: "work_tree_node \<Rightarrow> bool" where
  "is_unresolved n \<longleftrightarrow> n_status n \<notin> terminal_statuses"

definition derived_frontier ::
  "work_tree_node \<Rightarrow> string \<Rightarrow> frontier_axis \<Rightarrow> string \<Rightarrow> rat \<Rightarrow> frontier_item" where
  "derived_frontier node suffix axis description severity =
     \<lparr>fi_id = n_id node @ lit suffix, fi_node_id = Some (n_id node), fi_axis = axis,
      fi_description = lit description, fi_severity = severity, fi_status = FrOpen,
      fi_evidence_refs = [], fi_source = lit ''runtime''\<rparr>"

text \<open>The derived part of \<open>_node_frontiers\<close>, one list per rule, in the code's order.\<close>

definition derived_frontiers ::
  "work_tree \<Rightarrow> work_tree_node \<Rightarrow> work_tree_node list \<Rightarrow> graph_state \<Rightarrow> resolution_policy
     \<Rightarrow> frontier_item list" where
  "derived_frontiers w node children gs policy =
     (let unresolved = filter is_unresolved children;
          failed = filter (\<lambda>c. n_status c = NFailed
                      \<and> (n_failure_summary c = None \<or> n_failure_summary c = Some [])) children;
          churn = plan_churn_count gs (n_id node);
          attempts = failure_attempt_count gs (n_id node)
      in (if n_detail_level node \<le> rp_broad_node_detail_level policy
             \<and> is_broad_node node children policy
          then [derived_frontier node '':broad-scope'' AxDeliverable
                 ''Node is a broad frame; keep it flexible but resolve it through smaller frontiers before delivery.''
                 (72/100)] else [])
       @ (if unresolved \<noteq> []
          then [derived_frontier node '':unresolved-children'' AxDependency
                 ''Child nodes are still unresolved; parent delivery should wait for merge or further refinement.''
                 (min (95/100) (45/100 + 8/100 * of_nat (length unresolved)))] else [])
       @ (if failed \<noteq> []
          then [derived_frontier node '':failed-child-without-summary'' AxFailure
                 ''A failed child lacks failureSummary, so the parent cannot learn from the failed attempt.''
                 (85/100)] else [])
       @ (if expected_evidence_missing node
          then [derived_frontier node '':missing-evidence'' AxVerification
                 ''Expected evidence is declared but no produced evidence refs are attached.''
                 (7/10)] else [])
       @ (if int (rp_plan_churn_refine_threshold policy) < churn
          then [derived_frontier node '':plan-churn'' AxPlanChurn
                 ''Plan changed repeatedly; increase local resolution before more execution.''
                 (min 1 (45/100 + 15/100 * of_int churn))] else [])
       @ (if int (rp_failure_retry_budget policy) < attempts
          then [derived_frontier node '':failure-budget'' AxFailure
                 ''Failure budget exceeded at this resolution; split smaller or change approach.''
                 (min 1 (55/100 + 15/100 * of_int attempts))] else [])
       @ (if wt_root_node_id w = Some (n_id node) \<and> candidate_delivery_present gs
             \<and> children \<noteq> [] \<and> unresolved \<noteq> []
          then [derived_frontier node '':premature-candidate-delivery'' AxVerification
                 ''A candidate delivery exists while child work is still open; record it as summary only.''
                 (9/10)] else []))"

definition node_frontiers ::
  "work_tree \<Rightarrow> work_tree_node \<Rightarrow> work_tree_node list \<Rightarrow> graph_state \<Rightarrow> resolution_policy
     \<Rightarrow> bool \<Rightarrow> frontier_item list" where
  "node_frontiers w node children gs policy include_derived =
     frontiers_from_graph_state gs (n_id node) @
       (if include_derived then derived_frontiers w node children gs policy else [])"

definition compute_delivery_readiness ::
  "work_tree \<Rightarrow> ustr option \<Rightarrow> graph_state \<Rightarrow> resolution_policy \<Rightarrow> delivery_readiness res" where
  "compute_delivery_readiness w node_id gs policy =
     (let target = opt_or node_id (wt_root_node_id w) in
      case node_by_id w (case target of None \<Rightarrow> [] | Some t \<Rightarrow> t) of
        None \<Rightarrow> Inl (ValueError (lit ''Unknown delivery target work tree node: '' @
                  (case target of None \<Rightarrow> lit ''None'' | Some t \<Rightarrow> t)))
      | Some node \<Rightarrow>
          let children = direct_children w node;
              frontiers = node_frontiers w node children gs policy False;
              opens = filter (\<lambda>i. rp_deliver_pressure_threshold policy < fi_severity i)
                        (open_frontiers frontiers);
              blockers =
                (if opens \<noteq> [] then [lit ''open-frontier-pressure''] else [])
                @ (if list_ex is_unresolved children then [lit ''unresolved-children''] else [])
                @ (if n_status node \<notin> {NCompleted, NSummarizing}
                      \<and> wt_status w \<notin> {TVerified, TAwaitingApproval, TCompleted}
                   then [lit ''target-not-summarized''] else [])
                @ (if expected_evidence_missing node then [lit ''missing-target-evidence''] else [])
          in Inr \<lparr>dr_ready = (blockers = []), dr_blockers = dedup blockers,
                  dr_open_frontier_count = length opens,
                  dr_max_frontier_pressure = max_default 0 (map fi_severity opens)\<rparr>)"

definition recommended_resolution_action ::
  "work_tree_node \<Rightarrow> work_tree_node list \<Rightarrow> frontier_item list \<Rightarrow> delivery_readiness \<Rightarrow> rat
     \<Rightarrow> resolution_policy \<Rightarrow> resolution_action" where
  "recommended_resolution_action node children opens readiness pressure policy =
     (if n_status node = NBlocked then Block
      else if list_ex (\<lambda>i. fi_axis i \<in> {AxFailure, AxPlanChurn, AxDeliverable, AxRisk, AxCost,
                             AxConflict}) opens
              \<and> rp_refine_pressure_threshold policy \<le> pressure then Refine
      else if list_ex is_unresolved children then Merge
      else if list_ex (\<lambda>i. fi_axis i \<in> {AxUnknown, AxVerification, AxReliability, AxDurability,
                             AxTransaction, AxEvaluation, AxObservability}) opens then Work
      else if dr_ready readiness then Deliver
      else if rp_refine_pressure_threshold policy \<le> pressure then Refine
      else Work)"

definition resolution_reasons ::
  "work_tree_node \<Rightarrow> work_tree_node list \<Rightarrow> frontier_item list \<Rightarrow> delivery_readiness
     \<Rightarrow> resolution_policy \<Rightarrow> ustr list" where
  "resolution_reasons node children opens readiness policy =
     (let reasons =
        (if n_status node = NBlocked then [lit ''node-blocked''] else [])
        @ (if list_ex (\<lambda>i. rp_refine_pressure_threshold policy \<le> fi_severity i) opens
           then [lit ''frontier-pressure-above-refine-threshold''] else [])
        @ (if list_ex is_unresolved children then [lit ''unresolved-children''] else [])
        @ (if \<not> dr_ready readiness
           then map (\<lambda>b. lit ''delivery-blocked:'' @ b) (dr_blockers readiness) else [])
      in dedup (list_or reasons [lit ''frontier-pressure-low'']))"

text \<open>\<open>round(x, 4)\<close>: to the nearest multiple of 1/10000, ties to even.\<close>

definition round4 :: "rat \<Rightarrow> rat" where
  "round4 x =
     (let y = x * 10000; f = \<lfloor>y\<rfloor>; d = y - of_int f
      in of_int (if d < 1/2 then f else if 1/2 < d then f + 1
                 else if even f then f else f + 1) / 10000)"

definition node_saturation :: "rat \<Rightarrow> rat" where
  "node_saturation pressure = round4 (max 0 (min 1 (1 - pressure)))"

definition assess_node_resolution ::
  "work_tree \<Rightarrow> ustr \<Rightarrow> graph_state \<Rightarrow> resolution_policy \<Rightarrow> node_assessment res" where
  "assess_node_resolution w node_id gs policy =
     (case node_by_id w node_id of
        None \<Rightarrow> Inl (ValueError (lit ''Unknown work tree node: '' @ node_id))
      | Some node \<Rightarrow>
          let children = direct_children w node;
              frontiers = node_frontiers w node children gs policy True;
              opens = open_frontiers frontiers;
              pressure = max_default 0 (map fi_severity opens)
          in case compute_delivery_readiness w (Some node_id)
                    (empty_graph_state\<lparr>gs_frontier_items := frontiers\<rparr>) policy of
               Inl e \<Rightarrow> Inl e
             | Inr readiness \<Rightarrow>
                 Inr \<lparr>na_node_id = n_id node,
                      na_recommended_action =
                        recommended_resolution_action node children opens readiness pressure policy,
                      na_frontier_pressure = pressure,
                      na_saturation = node_saturation pressure,
                      na_frontiers = frontiers,
                      na_delivery_readiness = readiness,
                      na_reasons = resolution_reasons node children opens readiness policy\<rparr>)"

section \<open>Facts on the ready set\<close>

lemma node_by_id_Some: "node_by_id w i = Some n \<Longrightarrow> n \<in> set (wt_nodes w) \<and> n_id n = i"
  unfolding node_by_id_def by (rule index_by_Some)

lemma direct_children_subset: "set (direct_children w parent) \<subseteq> set (wt_nodes w)"
  by (auto simp: direct_children_def list_or_def List.map_filter_def dest: node_by_id_Some)

lemma classify_children_sound:
  "classify_children lookup active cs = (ready, blocked) \<Longrightarrow>
     ready = filter (\<lambda>c. blocked_child_of lookup active c = None) cs
     \<and> blocked = List.map_filter (blocked_child_of lookup active) cs"
  by (induction cs arbitrary: ready blocked)
     (auto simp: Let_def List.map_filter_simps split: prod.splits option.splits)

lemma blocked_child_of_None:
  "blocked_child_of lookup active c = None \<longleftrightarrow>
     n_id c \<notin> active \<and> n_status c = NPending
     \<and> (\<forall>d\<in>set (n_depends_on c). \<exists>m. lookup d = Some m \<and> n_status m = NCompleted)"
  by (auto simp: blocked_child_of_def Let_def terminal_statuses_def filter_empty_conv
      split: option.splits)

lemma blocked_child_of_id: "blocked_child_of lookup active c = Some b \<Longrightarrow> bc_node_id b = n_id c"
  by (auto simp: blocked_child_of_def Let_def split: if_splits)

lemmas ready_set_defs = compute_parent_ready_set_def Let_def

lemma ready_setE:
  assumes "compute_parent_ready_set w pid runs gs policy = Inr rs"
  obtains parent ready_nodes where
    "node_by_id w pid = Some parent"
    "ready_nodes = filter (\<lambda>c. blocked_child_of (node_by_id w) (active_child_ids runs) c = None)
        (sort_key child_order (direct_children w parent))"
    "rs_ready_children rs = map (ready_child_of gs) ready_nodes"
    "rs_blocked_children rs = List.map_filter (blocked_child_of (node_by_id w) (active_child_ids runs))
        (sort_key child_order (direct_children w parent))"
    "rs_fork_launch_candidates rs =
        map candidate_of (take (nat (rs_available_fork_slots rs)) (rs_ready_children rs))"
    "rs_active_fork_count rs = int (length (filter is_active_fork runs))"
    "rs_available_fork_slots rs =
        (if \<not> fp_allow_recursive_fork policy \<and> Some (n_id parent) \<noteq> wt_root_node_id w then 0
         else available_fork_slots policy (rs_active_fork_count rs))"
    "rs_parent_replan_required rs = list_ex requires_parent_replan (counted_pending_items gs)"
    "rs_can_auto_launch rs = (fp_auto_launch_policy policy = ExplicitPolicyGated
        \<and> \<not> rs_parent_replan_required rs \<and> rs_fork_launch_candidates rs \<noteq> [])"
proof -
  from assms obtain parent where p: "node_by_id w pid = Some parent"
    by (auto simp: ready_set_defs split: option.splits)
  obtain ready blocked where c: "classify_children (node_by_id w) (active_child_ids runs)
      (sort_key child_order (direct_children w parent)) = (ready, blocked)" by fastforce
  from classify_children_sound [OF c] assms p c show thesis
    by (intro that [OF p]) (auto simp: ready_set_defs)
qed

lemma available_fork_slots_nonneg: "0 \<le> available_fork_slots policy active"
  by (simp add: available_fork_slots_def)

lemma filter_partition_mset:
  "mset (map f (filter (\<lambda>c. g c = None) xs)) + mset (map h (List.map_filter g xs)) =
     mset (map (\<lambda>c. case g c of None \<Rightarrow> f c | Some b \<Rightarrow> h b) xs)"
  by (induction xs) (auto simp: List.map_filter_simps split: option.splits)

text \<open>A small tree for the witnesses: a root with two children, the second needs the first.\<close>

definition demo_child :: "string \<Rightarrow> int \<Rightarrow> ustr list \<Rightarrow> node_status \<Rightarrow> work_tree_node" where
  "demo_child i prio deps st =
     (new_node 0 (lit i) (lit i) Executing)
       \<lparr>n_parent_node_id := Some (lit ''r''), n_priority := prio, n_depends_on := deps,
        n_status := st\<rparr>"

definition demo_tree :: "node_status \<Rightarrow> node_status \<Rightarrow> work_tree" where
  "demo_tree sa sb =
     \<lparr>wt_version = lit ''0.2.0'', wt_id = lit ''w'', wt_task_id = Some (lit ''t''),
      wt_root_node_id = Some (lit ''r''), wt_root_objective = lit ''o'', wt_status = TActive,
      wt_current_node_id = Some (lit ''r''),
      wt_nodes = [(new_node 0 (lit ''r'') (lit ''root'') Planning)
                    \<lparr>n_status := NInProgress, n_child_node_ids := [lit ''b'', lit ''a'']\<rparr>,
                  demo_child ''a'' 10 [] sa, demo_child ''b'' 20 [lit ''a''] sb],
      wt_loaded_node_ids = [lit ''r''], wt_active_path_node_ids = [lit ''r''],
      wt_index_map_refs = [], wt_pc_memo = None, wt_recovery_anchor = None,
      wt_entropy_budget_remaining = 0, wt_version_counter = 1, wt_updated_at = 0\<rparr>"

lemmas demo_simps = demo_tree_def demo_child_def new_node_def node_by_id_def index_by_def

lemma demo_ready_setE:
  obtains rs where
    "compute_parent_ready_set (demo_tree NPending NPending) (lit ''r'') [] empty_graph_state
      default_fork_launch_policy = Inr rs"
    "map rc_node_id (rs_ready_children rs) = [lit ''a'']"
    "map bc_node_id (rs_blocked_children rs) = [lit ''b'']"
    "map bc_reason (rs_blocked_children rs) = [DependencyNotCompleted]"
    "rs_can_auto_launch rs"
  by (simp add: demo_simps ready_set_defs direct_children_def dedup_def list_or_def
      List.map_filter_simps child_order_def blocked_child_of_def active_child_ids_def
      terminal_statuses_def ready_child_of_def candidate_of_def available_fork_slots_def
      default_fork_launch_policy_def empty_graph_state_def counted_pending_items_def)

section \<open>Properties\<close>

text \<open>C1: a child is offered as ready only if it is a pending node of the tree, all of its
  hard dependencies are completed nodes of the tree, and no active fork run is assigned to it.\<close>

theorem ready_children_startable:
  assumes "compute_parent_ready_set w pid runs gs policy = Inr rs"
    and "c \<in> set (rs_ready_children rs)"
  shows "\<exists>n\<in>set (wt_nodes w). n_id n = rc_node_id c \<and> n_status n = NPending
      \<and> (\<forall>d\<in>set (n_depends_on n). \<exists>m. node_by_id w d = Some m \<and> n_status m = NCompleted)
      \<and> (\<forall>r\<in>set runs. is_active_fork r \<longrightarrow> ar_assigned_work_tree_node_id r \<noteq> Some (rc_node_id c))"
  using assms
proof (elim ready_setE)
  fix parent ready_nodes
  assume r: "ready_nodes = filter (\<lambda>c. blocked_child_of (node_by_id w) (active_child_ids runs) c = None)
        (sort_key child_order (direct_children w parent))"
    and "rs_ready_children rs = map (ready_child_of gs) ready_nodes"
  with assms(2) obtain n where n: "n \<in> set ready_nodes" "c = ready_child_of gs n" by auto
  then have "n \<in> set (wt_nodes w)" using r direct_children_subset by auto
  moreover from n r have "blocked_child_of (node_by_id w) (active_child_ids runs) n = None" by simp
  ultimately show ?thesis
    using n(2) by (intro bexI [of _ n])
      (auto simp: blocked_child_of_None ready_child_of_def active_child_ids_def List.map_filter_def
        image_iff)
qed

theorem ready_children_startable_witness:
  "\<exists>rs c. compute_parent_ready_set (demo_tree NPending NPending) (lit ''r'') [] empty_graph_state
        default_fork_launch_policy = Inr rs \<and> c \<in> set (rs_ready_children rs)
      \<and> (\<exists>n\<in>set (wt_nodes (demo_tree NPending NPending)). n_id n = rc_node_id c \<and> n_status n = NPending)"
proof -
  obtain rs where rs: "compute_parent_ready_set (demo_tree NPending NPending) (lit ''r'') []
      empty_graph_state default_fork_launch_policy = Inr rs"
    and m: "map rc_node_id (rs_ready_children rs) = [lit ''a'']"
    by (rule demo_ready_setE)
  from m obtain c where c: "c \<in> set (rs_ready_children rs)"
    by (cases "rs_ready_children rs") auto
  have "\<exists>n\<in>set (wt_nodes (demo_tree NPending NPending)). n_id n = rc_node_id c \<and> n_status n = NPending"
    using ready_children_startable [OF rs c] by metis
  with rs c show ?thesis by (intro exI conjI)
qed

text \<open>C2: every direct child of the parent is reported exactly once, as ready or as blocked,
  with its own id.\<close>

theorem ready_set_partition:
  assumes "compute_parent_ready_set w pid runs gs policy = Inr rs"
    and "node_by_id w pid = Some parent"
  shows "mset (map rc_node_id (rs_ready_children rs)) + mset (map bc_node_id (rs_blocked_children rs))
      = mset (map n_id (direct_children w parent))"
  using assms(1)
proof (rule ready_setE)
  let ?cs = "sort_key child_order (direct_children w parent)"
  let ?g = "blocked_child_of (node_by_id w) (active_child_ids runs)"
  fix parent' ready_nodes
  assume "node_by_id w pid = Some parent'"
    and "ready_nodes = filter (\<lambda>c. ?g c = None) (sort_key child_order (direct_children w parent'))"
    and "rs_ready_children rs = map (ready_child_of gs) ready_nodes"
    and "rs_blocked_children rs = List.map_filter ?g (sort_key child_order (direct_children w parent'))"
  with assms(2) have r: "map rc_node_id (rs_ready_children rs) = map n_id (filter (\<lambda>c. ?g c = None) ?cs)"
      "rs_blocked_children rs = List.map_filter ?g ?cs"
    by (simp_all add: ready_child_of_def comp_def)
  have "(case ?g c of None \<Rightarrow> n_id c | Some b \<Rightarrow> bc_node_id b) = n_id c" for c
    by (simp split: option.split add: blocked_child_of_id)
  then have "mset (map n_id (filter (\<lambda>c. ?g c = None) ?cs)) + mset (map bc_node_id (List.map_filter ?g ?cs))
      = mset (map n_id ?cs)"
    by (simp only: filter_partition_mset)
  also have "\<dots> = mset (map n_id (direct_children w parent))" by simp
  finally show ?thesis unfolding r .
qed

theorem ready_set_partition_witness:
  "\<exists>rs parent. compute_parent_ready_set (demo_tree NPending NPending) (lit ''r'') []
       empty_graph_state default_fork_launch_policy = Inr rs
     \<and> node_by_id (demo_tree NPending NPending) (lit ''r'') = Some parent
     \<and> mset (map n_id (direct_children (demo_tree NPending NPending) parent)) = {#lit ''b'', lit ''a''#}"
proof -
  obtain rs where rs: "compute_parent_ready_set (demo_tree NPending NPending) (lit ''r'') []
      empty_graph_state default_fork_launch_policy = Inr rs"
    and m: "map rc_node_id (rs_ready_children rs) = [lit ''a'']"
      "map bc_node_id (rs_blocked_children rs) = [lit ''b'']"
    by (rule demo_ready_setE)
  obtain parent where p: "node_by_id (demo_tree NPending NPending) (lit ''r'') = Some parent"
    by (simp add: demo_simps)
  have "mset (map n_id (direct_children (demo_tree NPending NPending) parent)) = {#lit ''b'', lit ''a''#}"
    using ready_set_partition [OF rs p, symmetric] unfolding m by simp
  with rs p show ?thesis by (intro exI conjI)
qed

text \<open>C3: the ready children come in order of priority, then id; the launch candidates are the
  first of them, never more than the free slots, and a launch keeps the number of active forks
  plus the reserved merge slots within the limit of the policy.\<close>

theorem launch_candidates_bounded:
  assumes "compute_parent_ready_set w pid runs gs policy = Inr rs"
  shows "sorted (map (\<lambda>c. (rc_priority c, rc_node_id c)) (rs_ready_children rs))
      \<and> (\<exists>k. rs_fork_launch_candidates rs = map candidate_of (take k (rs_ready_children rs)))
      \<and> int (length (rs_fork_launch_candidates rs)) \<le> rs_available_fork_slots rs
      \<and> (rs_fork_launch_candidates rs \<noteq> [] \<longrightarrow>
           length (filter is_active_fork runs) + length (rs_fork_launch_candidates rs)
             + fp_reserve_parent_merge_slots policy \<le> fp_max_forks policy)"
  using assms
proof (rule ready_setE)
  fix parent ready_nodes
  let ?key = "\<lambda>c. (rc_priority c, rc_node_id c)"
  assume n: "ready_nodes = filter (\<lambda>c. blocked_child_of (node_by_id w) (active_child_ids runs) c = None)
        (sort_key child_order (direct_children w parent))"
    and r: "rs_ready_children rs = map (ready_child_of gs) ready_nodes"
    and c: "rs_fork_launch_candidates rs =
        map candidate_of (take (nat (rs_available_fork_slots rs)) (rs_ready_children rs))"
    and a: "rs_active_fork_count rs = int (length (filter is_active_fork runs))"
    and s: "rs_available_fork_slots rs =
        (if \<not> fp_allow_recursive_fork policy \<and> Some (n_id parent) \<noteq> wt_root_node_id w then 0
         else available_fork_slots policy (rs_active_fork_count rs))"
  have "sorted (map child_order ready_nodes)" unfolding n by (rule sorted_filter) simp
  moreover have "map ?key (rs_ready_children rs) = map child_order ready_nodes"
    unfolding r by (simp add: ready_child_of_def child_order_def)
  moreover have "0 \<le> rs_available_fork_slots rs"
    unfolding s by (simp add: available_fork_slots_nonneg)
  then have len: "int (length (rs_fork_launch_candidates rs)) \<le> rs_available_fork_slots rs"
  proof -
    have "length (rs_fork_launch_candidates rs) \<le> nat (rs_available_fork_slots rs)"
      by (subst c) simp
    with \<open>0 \<le> rs_available_fork_slots rs\<close> show ?thesis by linarith
  qed
  moreover have "length (filter is_active_fork runs) + length (rs_fork_launch_candidates rs)
      + fp_reserve_parent_merge_slots policy \<le> fp_max_forks policy"
    if "rs_fork_launch_candidates rs \<noteq> []"
    using that len a s by (auto simp: available_fork_slots_def max_def split: if_splits)
  ultimately show ?thesis using c by metis
qed

theorem launch_candidates_bounded_witness:
  "\<exists>rs. compute_parent_ready_set (demo_tree NPending NPending) (lit ''r'') [] empty_graph_state
        default_fork_launch_policy = Inr rs
      \<and> int (length (rs_fork_launch_candidates rs)) \<le> rs_available_fork_slots rs"
  by (rule demo_ready_setE) (intro exI conjI, assumption, blast dest: launch_candidates_bounded)

text \<open>Nothing is launched automatically while an unhandled piece of pending information
  asks the parent to plan again, nor under a policy that is not gated, nor with no candidate.\<close>

theorem auto_launch_gated:
  assumes "compute_parent_ready_set w pid runs gs policy = Inr rs" and "rs_can_auto_launch rs"
  shows "fp_auto_launch_policy policy = ExplicitPolicyGated \<and> rs_fork_launch_candidates rs \<noteq> []
      \<and> (\<forall>i\<in>set (gs_pending_information_items gs).
           pi_status i = PiPending \<and> pi_target_node_id i \<noteq> None \<longrightarrow> \<not> requires_parent_replan i)"
  using assms(1)
  by (rule ready_setE) (use assms(2) in \<open>auto simp: counted_pending_items_def list_ex_iff\<close>)

theorem auto_launch_gated_witness:
  "\<exists>rs. compute_parent_ready_set (demo_tree NPending NPending) (lit ''r'') [] empty_graph_state
        default_fork_launch_policy = Inr rs \<and> rs_can_auto_launch rs
      \<and> rs_fork_launch_candidates rs \<noteq> []"
  by (rule demo_ready_setE) (intro exI conjI, assumption, assumption, blast dest: auto_launch_gated)

text \<open>Planning a batch never raises: it splits the ready children, in order, into those to
  launch and those to wait, and launches as many as the slots of the policy allow.\<close>

theorem plan_fork_batch_total:
  "\<exists>plan. plan_fork_batch rs policy active = Inr plan
     \<and> bp_launch_candidates plan @ bp_waiting_candidates plan = map candidate_of (rs_ready_children rs)
     \<and> int (length (bp_launch_candidates plan)) =
         min (bp_available_fork_slots plan) (int (length (rs_ready_children rs)))
     \<and> bp_available_fork_slots plan = available_fork_slots policy
         (case active of None \<Rightarrow> rs_active_fork_count rs | Some a \<Rightarrow> a)"
proof -
  let ?a = "case active of None \<Rightarrow> rs_active_fork_count rs | Some a \<Rightarrow> a"
  define k where "k = nat (available_fork_slots policy ?a)"
  then have "available_fork_slots policy ?a = int k" using available_fork_slots_nonneg by simp
  then show ?thesis
    by (simp add: plan_fork_batch_def validate_batch_plan_def Let_def min_def flip: map_append)
qed

text \<open>The batch plan does not know the rule against recursive forks: where the ready set
  offers no candidate because the parent is not the root, the plan made from that ready set
  and the same policy still launches the child.\<close>

theorem plan_fork_batch_ignores_recursion_rule:
  "\<exists>w policy rs plan. \<not> fp_allow_recursive_fork policy
     \<and> wt_root_node_id w \<noteq> Some (lit ''r'')
     \<and> compute_parent_ready_set w (lit ''r'') [] empty_graph_state policy = Inr rs
     \<and> rs_fork_launch_candidates rs = []
     \<and> plan_fork_batch rs policy (Some (rs_active_fork_count rs)) = Inr plan
     \<and> length (bp_launch_candidates plan) = 1"
proof -
  let ?w = "(demo_tree NPending NPending)\<lparr>wt_root_node_id := Some (lit ''top'')\<rparr>"
  let ?policy = "default_fork_launch_policy\<lparr>fp_allow_recursive_fork := False\<rparr>"
  obtain rs where rs: "compute_parent_ready_set ?w (lit ''r'') [] empty_graph_state ?policy = Inr rs"
    and r: "length (rs_ready_children rs) = 1" "rs_fork_launch_candidates rs = []"
      "rs_active_fork_count rs = 0"
    by (simp add: demo_simps ready_set_defs direct_children_def dedup_def list_or_def
      List.map_filter_simps child_order_def blocked_child_of_def active_child_ids_def
      terminal_statuses_def default_fork_launch_policy_def)
  obtain plan where p: "plan_fork_batch rs ?policy (Some (rs_active_fork_count rs)) = Inr plan"
    "int (length (bp_launch_candidates plan)) = min (bp_available_fork_slots plan) 1"
    "bp_available_fork_slots plan = available_fork_slots ?policy 0"
    by (simp add: plan_fork_batch_def validate_batch_plan_def Let_def r available_fork_slots_def
        default_fork_launch_policy_def)
  then have "length (bp_launch_candidates plan) = 1"
    by (simp add: available_fork_slots_def default_fork_launch_policy_def)
  with rs r p(1) show ?thesis
    by (intro exI [of _ ?w] exI [of _ ?policy] exI [of _ rs] exI [of _ plan])
       (simp add: demo_tree_def default_fork_launch_policy_def)
qed

text \<open>The bounds pydantic demands of a frontier: \<open>Field(ge=0.0, le=1.0)\<close> on the severity.\<close>

definition frontier_valid :: "frontier_item \<Rightarrow> bool" where
  "frontier_valid i \<longleftrightarrow> 0 \<le> fi_severity i \<and> fi_severity i \<le> 1"

lemma derived_frontiers_valid:
  "i \<in> set (derived_frontiers w node children gs policy) \<Longrightarrow> frontier_valid i"
  unfolding derived_frontiers_def Let_def set_append Un_iff
  by (elim disjE) (auto simp: derived_frontier_def frontier_valid_def min_def split: if_splits)

lemma max_default_bounds:
  assumes "\<And>x. x \<in> set xs \<Longrightarrow> 0 \<le> x \<and> x \<le> (1::rat)"
  shows "0 \<le> max_default 0 xs \<and> max_default 0 xs \<le> 1"
  using assms by (cases "xs = []") (auto dest: max_default_mem)

lemma round4_bounds: "0 \<le> x \<Longrightarrow> x \<le> 1 \<Longrightarrow> 0 \<le> round4 x \<and> round4 x \<le> 1"
proof -
  assume x: "0 \<le> x" "x \<le> 1"
  define y where "y = x * 10000"
  define f where "f = \<lfloor>y\<rfloor>"
  have y: "0 \<le> y" "y \<le> 10000" using x by (simp_all add: y_def)
  have f: "of_int f \<le> y" "y < of_int f + 1" unfolding f_def using floor_correct [of y] by simp_all
  from y f(2) have f0: "0 \<le> f" by (simp add: f_def)
  from y f(1) have "(of_int f :: rat) \<le> of_int 10000" by simp
  then have f1: "f \<le> 10000" by (simp only: of_int_le_iff)
  have "f + 1 \<le> 10000" if "1/2 \<le> y - of_int f"
  proof -
    from that y(2) have "(of_int f :: rat) < of_int 10000" by simp
    then show ?thesis by (simp only: of_int_less_iff)
  qed
  then have "0 \<le> (of_int r :: rat) / 10000 \<and> (of_int r :: rat) / 10000 \<le> 1"
    if "r = (if y - of_int f < 1/2 then f else if 1/2 < y - of_int f then f + 1
             else if even f then f else f + 1)" for r
    using f0 f1 unfolding that by auto
  then show ?thesis unfolding round4_def y_def [symmetric] f_def [symmetric] Let_def by blast
qed

lemma opt_or_nonempty [simp]: "s \<noteq> [] \<Longrightarrow> opt_or (Some s) b = Some s"
  by (simp add: opt_or_eq)

lemmas readiness_defs = compute_delivery_readiness_def Let_def

lemma readiness_blockers:
  assumes "compute_delivery_readiness w (Some i) gs policy = Inr r" and "i \<noteq> []"
    and "node_by_id w i = Some node"
  shows "dr_ready r \<longleftrightarrow>
      (\<forall>f\<in>set (frontiers_from_graph_state gs (n_id node)). fi_status f = FrOpen \<longrightarrow>
         fi_severity f \<le> rp_deliver_pressure_threshold policy)
      \<and> \<not> list_ex is_unresolved (direct_children w node)
      \<and> (n_status node \<in> {NCompleted, NSummarizing} \<or> wt_status w \<in> {TVerified, TAwaitingApproval, TCompleted})
      \<and> \<not> expected_evidence_missing node"
  using assms
  by (cases i) (auto simp: readiness_defs node_frontiers_def open_frontiers_def filter_empty_conv not_less)

lemma assessE:
  assumes "assess_node_resolution w i gs policy = Inr a"
  obtains node readiness where "node_by_id w i = Some node"
    "compute_delivery_readiness w (Some i)
       (empty_graph_state\<lparr>gs_frontier_items := na_frontiers a\<rparr>) policy = Inr readiness"
    "na_frontiers a = node_frontiers w node (direct_children w node) gs policy True"
    "na_delivery_readiness a = readiness"
    "na_frontier_pressure a = max_default 0 (map fi_severity (open_frontiers (na_frontiers a)))"
    "na_saturation a = node_saturation (na_frontier_pressure a)"
    "na_recommended_action a = recommended_resolution_action node (direct_children w node)
       (open_frontiers (na_frontiers a)) readiness (na_frontier_pressure a) policy"
  using assms by (auto simp: assess_node_resolution_def Let_def split: option.splits sum.splits)

text \<open>A node that is done: its subtree finished, its evidence produced, itself summarized.\<close>

definition demo_done :: work_tree where
  "demo_done = (demo_tree NCompleted NCompleted)
     \<lparr>wt_nodes := map (\<lambda>n. n\<lparr>n_status := NCompleted\<rparr>) (wt_nodes (demo_tree NCompleted NCompleted))\<rparr>"

definition demo_policy :: resolution_policy where
  "demo_policy = default_resolution_policy\<lparr>rp_max_inline_children := 5\<rparr>"

lemma demo_assess:
  "case assess_node_resolution demo_done (lit ''r'') empty_graph_state demo_policy of
     Inl e \<Rightarrow> False | Inr a \<Rightarrow> na_recommended_action a = Deliver"
  by code_simp

lemma demo_assessE:
  obtains a where "assess_node_resolution demo_done (lit ''r'') empty_graph_state demo_policy = Inr a"
    "na_recommended_action a = Deliver"
  using demo_assess by (auto split: sum.splits)

text \<open>An assessment recommends delivery only when the node is not blocked, every child has
  reached a terminal status, no open frontier exceeds the delivery threshold, the node or the
  tree is past execution, and its expected evidence is there.\<close>

theorem deliver_recommendation_safe:
  assumes "assess_node_resolution w i gs policy = Inr a" and "i \<noteq> []"
    and "na_recommended_action a = Deliver" and "node_by_id w i = Some node"
  shows "n_status node \<noteq> NBlocked
      \<and> (\<forall>c\<in>set (direct_children w node). n_status c \<in> {NCompleted, NFailed, NSkipped})
      \<and> (\<forall>f\<in>set (na_frontiers a). fi_status f = FrOpen \<longrightarrow>
            fi_severity f \<le> rp_deliver_pressure_threshold policy)
      \<and> (n_status node \<in> {NCompleted, NSummarizing} \<or> wt_status w \<in> {TVerified, TAwaitingApproval, TCompleted})
      \<and> \<not> expected_evidence_missing node"
  using assms(1)
proof (rule assessE)
  fix node' readiness
  assume a: "node_by_id w i = Some node'"
    "compute_delivery_readiness w (Some i)
       (empty_graph_state\<lparr>gs_frontier_items := na_frontiers a\<rparr>) policy = Inr readiness"
    "na_frontiers a = node_frontiers w node' (direct_children w node') gs policy True"
    "na_recommended_action a = recommended_resolution_action node' (direct_children w node')
       (open_frontiers (na_frontiers a)) readiness (na_frontier_pressure a) policy"
  with assms(4) have n: "node' = node" by simp
  from a(4) assms(3) have act: "dr_ready readiness" "n_status node \<noteq> NBlocked"
      "\<not> list_ex is_unresolved (direct_children w node)"
    by (auto simp: recommended_resolution_action_def n split: if_splits)
  have "frontiers_from_graph_state (empty_graph_state\<lparr>gs_frontier_items := na_frontiers a\<rparr>) (n_id node)
      = na_frontiers a"
    unfolding a(3) n by (auto simp: frontiers_from_graph_state_def node_frontiers_def
        derived_frontiers_def derived_frontier_def Let_def filter_id_conv)
  with readiness_blockers [OF a(2) assms(2,4)] act show ?thesis
    by (auto simp: list_ex_iff is_unresolved_def terminal_statuses_def)
qed

theorem deliver_recommendation_safe_witness:
  "\<exists>a node. assess_node_resolution demo_done (lit ''r'') empty_graph_state demo_policy = Inr a
     \<and> na_recommended_action a = Deliver
     \<and> node_by_id demo_done (lit ''r'') = Some node \<and> \<not> expected_evidence_missing node"
proof -
  obtain a where a: "assess_node_resolution demo_done (lit ''r'') empty_graph_state demo_policy = Inr a"
    "na_recommended_action a = Deliver" by (rule demo_assessE)
  obtain node where n: "node_by_id demo_done (lit ''r'') = Some node"
    by (simp add: demo_done_def demo_simps)
  from deliver_recommendation_safe [OF a(1) _ a(2) n] have "\<not> expected_evidence_missing node" by simp
  with a n show ?thesis by (intro exI conjI)
qed

text \<open>The numbers of an assessment stay in the unit interval: when the stored frontiers have
  valid severities, so have the derived ones (their construction never fails validation), and
  the pressure and the saturation lie between 0 and 1.\<close>

theorem assessment_in_unit_interval:
  assumes "assess_node_resolution w i gs policy = Inr a"
    and "\<forall>f\<in>set (gs_frontier_items gs). 0 \<le> fi_severity f \<and> fi_severity f \<le> 1"
  shows "(\<forall>f\<in>set (na_frontiers a). 0 \<le> fi_severity f \<and> fi_severity f \<le> 1)
      \<and> 0 \<le> na_frontier_pressure a \<and> na_frontier_pressure a \<le> 1
      \<and> 0 \<le> na_saturation a \<and> na_saturation a \<le> 1"
  using assms(1)
proof (rule assessE)
  fix node readiness
  assume f: "na_frontiers a = node_frontiers w node (direct_children w node) gs policy True"
    and p: "na_frontier_pressure a = max_default 0 (map fi_severity (open_frontiers (na_frontiers a)))"
    and s: "na_saturation a = node_saturation (na_frontier_pressure a)"
  have v: "\<forall>f\<in>set (na_frontiers a). 0 \<le> fi_severity f \<and> fi_severity f \<le> 1"
    unfolding f node_frontiers_def using assms(2) derived_frontiers_valid
    by (auto simp: frontiers_from_graph_state_def frontier_valid_def)
  then have "0 \<le> na_frontier_pressure a \<and> na_frontier_pressure a \<le> 1"
    unfolding p by (intro max_default_bounds) (auto simp: open_frontiers_def)
  moreover have "0 \<le> na_saturation a \<and> na_saturation a \<le> 1"
    unfolding s node_saturation_def by (rule round4_bounds) simp_all
  ultimately show ?thesis using v by blast
qed

theorem assessment_in_unit_interval_witness:
  "\<exists>a. assess_node_resolution demo_done (lit ''r'') empty_graph_state demo_policy = Inr a
     \<and> na_saturation a \<le> 1"
proof -
  obtain a where a: "assess_node_resolution demo_done (lit ''r'') empty_graph_state demo_policy = Inr a"
    by (rule demo_assessE)
  from assessment_in_unit_interval [OF this] have "na_saturation a \<le> 1"
    by (simp add: empty_graph_state_def)
  with a show ?thesis by (intro exI conjI)
qed

end
