(* ===== verification/Takeover.thy ===== *)
theory Takeover
  imports WorkTreeGraph
begin

text \<open>
  The queries and the state normalization of \<open>runtime_kernel/takeover.py\<close>: building a work
  tree from a plan, looking nodes, children and descendants up, choosing the node a revision
  reopens, and bringing protocol and work-context stack in line with the current node.

  Arguments beside those of the code: \<open>dg\<close> is the digest of the contracts, \<open>sid\<close> is
  \<open>new_id(prefix, *parts, stable=True)\<close>, \<open>now\<close> is the clock. A work-context stack is
  passed as the validated model (a dictionary that fails validation counts as no stack).
\<close>

type_synonym stable_id = "string \<Rightarrow> ustr list \<Rightarrow> ustr"

section \<open>Building a tree from a plan\<close>

definition work_tree_status :: "protocol_status \<Rightarrow> tree_status" where
  "work_tree_status s =
     (case s of PCompleted \<Rightarrow> TCompleted | PVerified \<Rightarrow> TVerified | PExecuting \<Rightarrow> TActive
      | _ \<Rightarrow> TPlanned)"

text \<open>\<open>_WORK_TREE_PHASE_MAP\<close>\<close>

fun work_tree_phase :: "step_phase \<Rightarrow> node_phase" where
  "work_tree_phase StExecute = Executing"
| "work_tree_phase StVerify = Verification"
| "work_tree_phase StDeliver = Delivery"
| "work_tree_phase _ = Planning"

fun node_status_of_step :: "plan_step_status \<Rightarrow> node_status" where
  "node_status_of_step SPending = NPending"
| "node_status_of_step SInProgress = NInProgress"
| "node_status_of_step SCompleted = NCompleted"
| "node_status_of_step SBlocked = NBlocked"
| "node_status_of_step SSkipped = NSkipped"

definition step_node ::
  "stable_id \<Rightarrow> nat \<Rightarrow> ustr \<Rightarrow> ustr list \<Rightarrow> nat \<Rightarrow> node_status \<Rightarrow> takeover_plan_step
     \<Rightarrow> work_tree_node" where
  "step_node sid now task_id constraint_ids index status step =
     (let step_id = str_or (ps_id step) (sid ''work-tree-step'' [task_id, show_nat index])
      in validate_node
           ((new_node now (sid ''work-tree-node'' [task_id, step_id])
               (str_or (ps_title step) (lit ''step-'' @ show_nat (index + 1)))
               (work_tree_phase (ps_phase step)))
             \<lparr>n_status := status, n_plan_step_ids := [step_id], n_constraint_ids := constraint_ids,
              n_depends_on := ps_depends_on step, n_expected_evidence := ps_expected_evidence step,
              n_recovery_anchor :=
                (if ps_phase step = StExecute then Some (lit ''resume:'' @ step_id) else None)\<rparr>))"

text \<open>The loop over the plan; \<open>active\<close> says whether \<open>first_active_index\<close> is set.\<close>

fun step_nodes ::
  "stable_id \<Rightarrow> nat \<Rightarrow> ustr \<Rightarrow> ustr list \<Rightarrow> nat \<Rightarrow> bool \<Rightarrow> takeover_plan_step list
     \<Rightarrow> work_tree_node list" where
  "step_nodes sid now task_id cids index active [] = []"
| "step_nodes sid now task_id cids index active (s # ss) =
     (let st = node_status_of_step (ps_status s);
          status = (if st = NPending \<and> \<not> active then NInProgress else st);
          active' = (active \<or> status = NInProgress)
      in step_node sid now task_id cids index status s
         # step_nodes sid now task_id cids (Suc index) active' ss)"

definition bootstrap_step_node :: "stable_id \<Rightarrow> nat \<Rightarrow> ustr \<Rightarrow> ustr list \<Rightarrow> work_tree_node" where
  "bootstrap_step_node sid now task_id cids =
     validate_node
       ((new_node now (sid ''work-tree-node'' [task_id, lit ''bootstrap''])
           (lit ''Establish executable plan'') Planning)
         \<lparr>n_status := NInProgress, n_constraint_ids := cids,
          n_expected_evidence := [lit ''normalized objective'', lit ''constraint baseline''],
          n_recovery_anchor := Some (lit ''resume:bootstrap'')\<rparr>)"

definition new_tree :: "nat \<Rightarrow> ustr \<Rightarrow> ustr \<Rightarrow> tree_status \<Rightarrow> work_tree" where
  "new_tree now task_id objective status =
     \<lparr>wt_version = lit ''0.2.0'', wt_id = [], wt_task_id = Some task_id, wt_root_node_id = None,
      wt_root_objective = objective, wt_status = status, wt_current_node_id = None, wt_nodes = [],
      wt_loaded_node_ids = [], wt_active_path_node_ids = [], wt_index_map_refs = [],
      wt_pc_memo = None, wt_recovery_anchor = None, wt_entropy_budget_remaining = 0,
      wt_version_counter = 1, wt_updated_at = now\<rparr>"

definition work_tree_from_protocol_parts ::
  "(json \<Rightarrow> ustr) \<Rightarrow> stable_id \<Rightarrow> nat \<Rightarrow> ustr \<Rightarrow> ustr \<Rightarrow> takeover_constraint list
     \<Rightarrow> takeover_plan_step list \<Rightarrow> protocol_status \<Rightarrow> work_tree" where
  "work_tree_from_protocol_parts dg sid now task_id objective constraints plan protocol_status =
     (let constraint_ids = map c_id constraints;
          nodes = list_or (step_nodes sid now task_id constraint_ids 0 False plan)
                    [bootstrap_step_node sid now task_id constraint_ids];
          current = first_such (\<lambda>n. n_status n \<in> {NInProgress, NBlocked, NPending}) nodes
      in validate_tree dg now
           ((new_tree now task_id objective (work_tree_status protocol_status))
             \<lparr>wt_current_node_id := map_option n_id current,
              wt_nodes := nodes,
              wt_recovery_anchor := Option.bind current n_recovery_anchor,
              wt_entropy_budget_remaining :=
                max 0 (12 - int (length nodes) - int (length constraint_ids))\<rparr>))"

section \<open>Nodes, children, descendants\<close>

definition work_tree_child_ids :: "work_tree \<Rightarrow> work_tree_node \<Rightarrow> ustr list" where
  "work_tree_child_ids w n =
     list_or (n_child_node_ids n)
       (map n_id (filter (\<lambda>m. n_parent_node_id m = Some (n_id n)) (wt_nodes w)))"

definition unfinished_work_node_statuses :: "node_status set" where
  "unfinished_work_node_statuses = {NPending, NInProgress, NSummarizing, NBlocked, NFailed}"

definition is_unfinished_work_tree_node :: "work_tree_node option \<Rightarrow> bool" where
  "is_unfinished_work_tree_node n \<longleftrightarrow>
     (case n of None \<Rightarrow> False | Some m \<Rightarrow> n_status m \<in> unfinished_work_node_statuses)"

definition has_unfinished_child :: "work_tree \<Rightarrow> work_tree_node \<Rightarrow> bool" where
  "has_unfinished_child w n \<longleftrightarrow>
     list_ex (\<lambda>c. is_unfinished_work_tree_node (node_by_id w c)) (work_tree_child_ids w n)"

text \<open>
  The loop of \<open>_has_unfinished_descendant\<close>: \<open>stack.pop()\<close> takes the last id of the stack.
  It ends because every id of the tree is expanded at most once.
\<close>

function (sequential) search_unfinished :: "work_tree \<Rightarrow> ustr set \<Rightarrow> ustr list \<Rightarrow> bool" where
  "search_unfinished w visited [] = False"
| "search_unfinished w visited (s # ss) =
     (let child_id = last (s # ss); rest = butlast (s # ss) in
      if child_id \<in> visited then search_unfinished w visited rest
      else case node_by_id w child_id of
             None \<Rightarrow> search_unfinished w (insert child_id visited) rest
           | Some child \<Rightarrow>
               if is_unfinished_work_tree_node (Some child) then True
               else search_unfinished w (insert child_id visited)
                      (rest @ work_tree_child_ids w child))"
  by pat_completeness auto

definition tree_ids :: "work_tree \<Rightarrow> ustr set" where
  "tree_ids w = n_id ` set (wt_nodes w)"

lemma node_by_id_in_ids: "node_by_id w i = Some n \<Longrightarrow> i \<in> tree_ids w"
  by (auto simp: tree_ids_def dest: node_by_id_Some)

lemma node_by_id_None: "node_by_id w i = None \<longleftrightarrow> i \<notin> tree_ids w"
  by (simp add: node_by_id_def index_by_None tree_ids_def)

lemma fresh_id_measure:
  assumes "i \<in> tree_ids w" "i \<notin> visited"
  shows "card (tree_ids w - insert i visited) < card (tree_ids w - visited)"
proof -
  have "tree_ids w - insert i visited = tree_ids w - visited - {i}" by auto
  moreover have "finite (tree_ids w - visited)" by (simp add: tree_ids_def)
  ultimately show ?thesis using assms by (simp only:) (rule card_Diff1_less, auto)
qed

lemma other_id_measure:
  "i \<notin> tree_ids w \<Longrightarrow> tree_ids w - insert i visited = tree_ids w - visited"
  by auto

termination search_unfinished
  by (relation "measures [\<lambda>(w, v, s). card (tree_ids w - v), \<lambda>(w, v, s). length s]")
     (auto simp: node_by_id_None other_id_measure simp del: last.simps butlast.simps
       intro!: fresh_id_measure dest: node_by_id_in_ids)

definition has_unfinished_descendant :: "work_tree \<Rightarrow> work_tree_node \<Rightarrow> bool" where
  "has_unfinished_descendant w n = search_unfinished w {} (work_tree_child_ids w n)"

text \<open>\<open>_node_descendant_ids\<close>: breadth first; \<open>ordered\<close> is the result so far.\<close>

function (sequential) collect_descendants :: "work_tree \<Rightarrow> ustr list \<Rightarrow> ustr list \<Rightarrow> ustr list" where
  "collect_descendants w ordered [] = ordered"
| "collect_descendants w ordered (child_id # rest) =
     (if child_id \<in> set ordered then collect_descendants w ordered rest
      else case node_by_id w child_id of
             None \<Rightarrow> collect_descendants w (ordered @ [child_id]) rest
           | Some child \<Rightarrow>
               collect_descendants w (ordered @ [child_id]) (rest @ work_tree_child_ids w child))"
  by pat_completeness auto

termination collect_descendants
  by (relation "measures [\<lambda>(w, v, s). card (tree_ids w - set v), \<lambda>(w, v, s). length s]")
     (auto simp: node_by_id_None other_id_measure intro!: fresh_id_measure dest: node_by_id_in_ids)

definition node_descendant_ids :: "work_tree \<Rightarrow> ustr \<Rightarrow> ustr list" where
  "node_descendant_ids w node_id =
     collect_descendants w []
       (list_or (case node_by_id w node_id of None \<Rightarrow> [] | Some n \<Rightarrow> n_child_node_ids n)
          (map n_id (filter (\<lambda>m. n_parent_node_id m = Some node_id) (wt_nodes w))))"

definition node_unfinished_descendant_ids :: "work_tree \<Rightarrow> ustr \<Rightarrow> ustr list" where
  "node_unfinished_descendant_ids w node_id =
     filter (\<lambda>i. case node_by_id w i of None \<Rightarrow> False | Some n \<Rightarrow> n_status n \<notin> terminal_statuses)
       (node_descendant_ids w node_id)"

definition node_terminal_descendant_ids :: "work_tree \<Rightarrow> ustr \<Rightarrow> ustr list" where
  "node_terminal_descendant_ids w node_id =
     filter (\<lambda>i. case node_by_id w i of None \<Rightarrow> False | Some n \<Rightarrow> n_status n \<in> terminal_statuses)
       (node_descendant_ids w node_id)"

definition node_children_terminal :: "work_tree \<Rightarrow> ustr \<Rightarrow> bool" where
  "node_children_terminal w node_id \<longleftrightarrow>
     (case node_by_id w node_id of
        None \<Rightarrow> True
      | Some n \<Rightarrow>
          list_all (\<lambda>c. case node_by_id w c of None \<Rightarrow> True
                        | Some m \<Rightarrow> n_status m \<in> terminal_statuses) (work_tree_child_ids w n))"

section \<open>Which node a revision reopens\<close>

definition normalize_revision_start_node_id :: "work_tree \<Rightarrow> ustr option \<Rightarrow> ustr option" where
  "normalize_revision_start_node_id w node_id =
     (let target = opt_or (opt_or node_id (wt_current_node_id w)) (wt_root_node_id w) in
      if target = Some (lit ''root'') \<and> lit ''root'' \<notin> tree_ids w
         \<and> wt_root_node_id w \<notin> {None, Some []}
      then wt_root_node_id w else target)"

definition lookup_or_empty :: "work_tree \<Rightarrow> ustr option \<Rightarrow> work_tree_node option" where
  "lookup_or_empty w i = node_by_id w (case i of None \<Rightarrow> [] | Some s \<Rightarrow> s)"

definition unfinished_fallback :: "work_tree \<Rightarrow> ustr option \<Rightarrow> ustr option" where
  "unfinished_fallback w start =
     (let unfinished = filter (\<lambda>n. is_unfinished_work_tree_node (Some n)) (wt_nodes w) in
      case unfinished of
        [] \<Rightarrow> (case lookup_or_empty w start of Some n \<Rightarrow> Some (n_id n) | None \<Rightarrow> start)
      | u # us \<Rightarrow>
          (case first_such (\<lambda>n. lookup_or_empty w (n_parent_node_id n) \<noteq> None) unfinished of
             Some n \<Rightarrow> map_option n_id (lookup_or_empty w (n_parent_node_id n))
           | None \<Rightarrow> Some (n_id u)))"

definition unfinished_sibling :: "work_tree \<Rightarrow> work_tree_node \<Rightarrow> work_tree_node \<Rightarrow> bool" where
  "unfinished_sibling w start parent \<longleftrightarrow>
     list_ex (\<lambda>c. c \<noteq> n_id start \<and>
                (case node_by_id w c of
                   None \<Rightarrow> False
                 | Some s \<Rightarrow> is_unfinished_work_tree_node (Some s)
                            \<or> has_unfinished_descendant w s)) (work_tree_child_ids w parent)"

definition resolve_unfinished_revision_target_node_id :: "work_tree \<Rightarrow> ustr option \<Rightarrow> ustr option" where
  "resolve_unfinished_revision_target_node_id w start0 =
     (let start = normalize_revision_start_node_id w start0 in
      case lookup_or_empty w start of
        None \<Rightarrow> unfinished_fallback w start
      | Some node \<Rightarrow>
          if has_unfinished_child w node then Some (n_id node)
          else
            case lookup_or_empty w (n_parent_node_id node) of
              Some parent \<Rightarrow>
                if unfinished_sibling w node parent \<or> is_unfinished_work_tree_node (Some parent)
                then Some (n_id parent)
                else if is_unfinished_work_tree_node (Some node) then Some (n_id node)
                else if has_unfinished_descendant w node then Some (n_id node)
                else unfinished_fallback w start
            | None \<Rightarrow>
                if is_unfinished_work_tree_node (Some node) then Some (n_id node)
                else if has_unfinished_descendant w node then Some (n_id node)
                else unfinished_fallback w start)"

definition auto_unfinished_revision_node_ids :: "ustr set" where
  "auto_unfinished_revision_node_ids =
     {lit ''auto'', lit ''auto-unfinished'', lit ''unfinished'', lit ''unfinished-node'',
      lit ''auto_unfinished''}"

definition resolve_revision_target_node_id :: "work_tree \<Rightarrow> ustr option \<Rightarrow> ustr option" where
  "resolve_revision_target_node_id w node_id =
     (let raw = norm_opt node_id in
      if raw \<in> Some ` auto_unfinished_revision_node_ids
      then resolve_unfinished_revision_target_node_id w
             (opt_or (wt_current_node_id w) (wt_root_node_id w))
      else normalize_revision_start_node_id w raw)"

section \<open>Descendants are the nodes below\<close>

text \<open>\<open>child_of w a b\<close>: the node with id \<open>a\<close> lists \<open>b\<close> as a child; below is its transitive closure.\<close>

definition child_of :: "work_tree \<Rightarrow> ustr \<Rightarrow> ustr \<Rightarrow> bool" where
  "child_of w a b \<longleftrightarrow> (\<exists>n. node_by_id w a = Some n \<and> b \<in> set (work_tree_child_ids w n))"

lemma collect_descendants_extends:
  "set ordered \<union> set queue \<subseteq> set (collect_descendants w ordered queue)"
  by (induction w ordered queue rule: collect_descendants.induct) (auto split: option.splits)

lemma collect_descendants_distinct:
  "distinct ordered \<Longrightarrow> distinct (collect_descendants w ordered queue)"
  by (induction w ordered queue rule: collect_descendants.induct) (auto split: option.splits)

lemma collect_descendants_sound:
  "j \<in> set (collect_descendants w ordered queue) \<Longrightarrow>
     j \<in> set ordered \<or> (\<exists>q\<in>set queue. (child_of w)\<^sup>*\<^sup>* q j)"
proof (induction w ordered queue rule: collect_descendants.induct)
  case (2 w ordered c rest)
  show ?case
  proof (cases "c \<in> set ordered")
    case True
    with 2 show ?thesis by auto
  next
    case False
    show ?thesis
    proof (cases "node_by_id w c")
      case None
      with False 2 show ?thesis by auto
    next
      case (Some n)
      with False 2 consider "j \<in> set ordered" | "j = c" | q where "q \<in> set rest" "(child_of w)\<^sup>*\<^sup>* q j"
        | q where "q \<in> set (work_tree_child_ids w n)" "(child_of w)\<^sup>*\<^sup>* q j"
        by auto
      then show ?thesis
      proof cases
        case (4 q)
        with Some have "child_of w c q" by (auto simp: child_of_def)
        with 4 show ?thesis by (auto intro: converse_rtranclp_into_rtranclp)
      qed auto
    qed
  qed
qed simp

lemma collect_descendants_closed:
  "(\<And>a b. a \<in> set ordered \<Longrightarrow> child_of w a b \<Longrightarrow> b \<in> set ordered \<union> set queue) \<Longrightarrow>
     a \<in> set (collect_descendants w ordered queue) \<Longrightarrow> child_of w a b \<Longrightarrow>
     b \<in> set (collect_descendants w ordered queue)"
proof (induction w ordered queue arbitrary: a b rule: collect_descendants.induct)
  case (2 w ordered c rest)
  show ?case
  proof (cases "c \<in> set ordered")
    case True
    have inv: "y \<in> set ordered \<union> set rest" if "x \<in> set ordered" "child_of w x y" for x y
      using 2(4) [OF that] True by auto
    from 2(5,6) True show ?thesis
      using 2(1) [OF True inv] by simp
  next
    case False
    show ?thesis
    proof (cases "node_by_id w c")
      case None
      then have "\<not> child_of w c y" for y by (simp add: child_of_def)
      then have inv: "y \<in> set (ordered @ [c]) \<union> set rest"
        if "x \<in> set (ordered @ [c])" "child_of w x y" for x y
        using that 2(4) [of x y] by auto
      from 2(5,6) False None show ?thesis
        using 2(2) [OF False None inv] by simp
    next
      case (Some n)
      have inv: "y \<in> set (ordered @ [c]) \<union> set (rest @ work_tree_child_ids w n)"
        if "x \<in> set (ordered @ [c])" "child_of w x y" for x y
        using that 2(4) [of x y] Some by (auto simp: child_of_def)
      from 2(5,6) False Some show ?thesis
        using 2(3) [OF False Some inv] by simp
    qed
  qed
qed simp


lemma set_last_butlast: "set (x # xs) = insert (last (x # xs)) (set (butlast (x # xs)))"
proof -
  have "set (butlast (x # xs) @ [last (x # xs)]) = insert (last (x # xs)) (set (butlast (x # xs)))"
    by (simp only: set_append) simp
  then show ?thesis by (simp only: append_butlast_last_id [OF list.distinct(2)])
qed

definition unfinished_id :: "work_tree \<Rightarrow> ustr \<Rightarrow> bool" where
  "unfinished_id w i \<longleftrightarrow> is_unfinished_work_tree_node (node_by_id w i)"

lemma unfinished_id_None: "node_by_id w i = None \<Longrightarrow> \<not> unfinished_id w i"
  by (simp add: unfinished_id_def is_unfinished_work_tree_node_def)

lemma search_unfinished_sound:
  "search_unfinished w visited stack \<Longrightarrow>
     \<exists>q\<in>set stack. \<exists>j. (child_of w)\<^sup>*\<^sup>* q j \<and> unfinished_id w j"
proof (induction w visited stack rule: search_unfinished.induct)
  case (2 w visited s ss)
  define c rest where "c = last (s # ss)" and "rest = butlast (s # ss)"
  have stack: "set (s # ss) = insert c (set rest)"
    unfolding c_def rest_def by (rule set_last_butlast)
  have unfold: "search_unfinished w visited (s # ss) =
     (if c \<in> visited then search_unfinished w visited rest
      else case node_by_id w c of
             None \<Rightarrow> search_unfinished w (insert c visited) rest
           | Some child \<Rightarrow>
               if is_unfinished_work_tree_node (Some child) then True
               else search_unfinished w (insert c visited) (rest @ work_tree_child_ids w child))"
    by (simp only: search_unfinished.simps c_def rest_def Let_def)
  note IH = 2(1-3) [OF c_def rest_def]
  show ?case
  proof (cases "c \<in> visited")
    case True
    with 2(4) unfold IH(1) have "\<exists>q\<in>set rest. \<exists>j. (child_of w)\<^sup>*\<^sup>* q j \<and> unfinished_id w j"
      by simp
    then show ?thesis unfolding stack by blast
  next
    case False
    show ?thesis
    proof (cases "node_by_id w c")
      case None
      with False 2(4) unfold IH(2)
      have "\<exists>q\<in>set rest. \<exists>j. (child_of w)\<^sup>*\<^sup>* q j \<and> unfinished_id w j" by simp
      then show ?thesis unfolding stack by blast
    next
      case (Some n)
      show ?thesis
      proof (cases "is_unfinished_work_tree_node (Some n)")
        case True
        with Some have "unfinished_id w c" by (simp add: unfinished_id_def)
        then show ?thesis unfolding stack by blast
      next
        case nf: False
        with False Some 2(4) unfold IH(3)
        obtain q j where q: "q \<in> set rest \<union> set (work_tree_child_ids w n)"
          and j: "(child_of w)\<^sup>*\<^sup>* q j" "unfinished_id w j" by auto
        from q show ?thesis
        proof
          assume "q \<in> set (work_tree_child_ids w n)"
          with Some have "child_of w c q" by (auto simp: child_of_def)
          with j show ?thesis unfolding stack by (blast intro: converse_rtranclp_into_rtranclp)
        qed (use j in \<open>unfold stack, blast\<close>)
      qed
    qed
  qed
qed simp

lemma search_unfinished_complete:
  "\<not> search_unfinished w visited stack \<Longrightarrow>
     \<forall>a\<in>visited. \<forall>b. child_of w a b \<longrightarrow> b \<in> visited \<union> set stack \<Longrightarrow>
     \<forall>a\<in>visited. \<not> unfinished_id w a \<Longrightarrow>
     \<exists>S. visited \<union> set stack \<subseteq> S \<and> (\<forall>a\<in>S. \<not> unfinished_id w a)
       \<and> (\<forall>a\<in>S. \<forall>b. child_of w a b \<longrightarrow> b \<in> S)"
proof (induction w visited stack rule: search_unfinished.induct)
  case (1 w visited)
  then show ?case by (intro exI [of _ visited]) simp
next
  case (2 w visited s ss)
  define c rest where "c = last (s # ss)" and "rest = butlast (s # ss)"
  have stack: "set (s # ss) = insert c (set rest)"
    unfolding c_def rest_def by (rule set_last_butlast)
  have unfold: "search_unfinished w visited (s # ss) =
     (if c \<in> visited then search_unfinished w visited rest
      else case node_by_id w c of
             None \<Rightarrow> search_unfinished w (insert c visited) rest
           | Some child \<Rightarrow>
               if is_unfinished_work_tree_node (Some child) then True
               else search_unfinished w (insert c visited) (rest @ work_tree_child_ids w child))"
    by (simp only: search_unfinished.simps c_def rest_def Let_def)
  note IH = 2(1-3) [OF c_def rest_def]
  note prems = 2(4-6) [unfolded stack unfold]
  show ?case unfolding stack
  proof (cases "c \<in> visited")
    case True
    have "\<exists>S. visited \<union> set rest \<subseteq> S \<and> (\<forall>a\<in>S. \<not> unfinished_id w a)
       \<and> (\<forall>a\<in>S. \<forall>b. child_of w a b \<longrightarrow> b \<in> S)"
      using prems True by (intro IH(1)) auto
    with True show "\<exists>S. visited \<union> insert c (set rest) \<subseteq> S \<and> (\<forall>a\<in>S. \<not> unfinished_id w a)
       \<and> (\<forall>a\<in>S. \<forall>b. child_of w a b \<longrightarrow> b \<in> S)" by (metis Un_insert_right insert_absorb UnI1)
  next
    case False
    show "\<exists>S. visited \<union> insert c (set rest) \<subseteq> S \<and> (\<forall>a\<in>S. \<not> unfinished_id w a)
       \<and> (\<forall>a\<in>S. \<forall>b. child_of w a b \<longrightarrow> b \<in> S)"
    proof (cases "node_by_id w c")
      case None
      then have "\<exists>S. insert c visited \<union> set rest \<subseteq> S \<and> (\<forall>a\<in>S. \<not> unfinished_id w a)
         \<and> (\<forall>a\<in>S. \<forall>b. child_of w a b \<longrightarrow> b \<in> S)"
        using prems False by (intro IH(2)) (auto simp: child_of_def unfinished_id_None)
      then show ?thesis by simp
    next
      case (Some n)
      then have nf: "\<not> is_unfinished_work_tree_node (Some n)" "\<not> unfinished_id w c"
        using prems False by (auto simp: unfinished_id_def split: if_splits)
      have "\<exists>S. insert c visited \<union> set (rest @ work_tree_child_ids w n) \<subseteq> S
         \<and> (\<forall>a\<in>S. \<not> unfinished_id w a) \<and> (\<forall>a\<in>S. \<forall>b. child_of w a b \<longrightarrow> b \<in> S)"
        using prems False Some nf by (intro IH(3)) (auto simp: child_of_def)
      then show ?thesis by auto
    qed
  qed
qed

lemma closed_set_reach:
  "(child_of w)\<^sup>*\<^sup>* q j \<Longrightarrow> q \<in> S \<Longrightarrow> (\<forall>a\<in>S. \<forall>b. child_of w a b \<longrightarrow> b \<in> S) \<Longrightarrow> j \<in> S"
  by (induction rule: rtranclp_induct) auto

lemma descendants_of_node:
  assumes "node_by_id w i = Some n"
  shows "node_descendant_ids w i = collect_descendants w [] (work_tree_child_ids w n)"
  using assms node_by_id_Some [OF assms] by (simp add: node_descendant_ids_def work_tree_child_ids_def)

lemma tranclp_child_of:
  assumes "node_by_id w i = Some n"
  shows "(child_of w)\<^sup>+\<^sup>+ i j \<longleftrightarrow> (\<exists>q\<in>set (work_tree_child_ids w n). (child_of w)\<^sup>*\<^sup>* q j)"
  using assms by (auto simp: tranclp_unfold_left child_of_def dest: tranclpD
      intro: rtranclp_into_tranclp2)

lemma descendants_reach:
  assumes "node_by_id w i = Some n"
  shows "distinct (node_descendant_ids w i)
    \<and> set (node_descendant_ids w i) = {j. (child_of w)\<^sup>+\<^sup>+ i j}"
proof -
  let ?D = "collect_descendants w [] (work_tree_child_ids w n)"
  have "j \<in> set ?D" if "(child_of w)\<^sup>*\<^sup>* q j" "q \<in> set (work_tree_child_ids w n)" for q j
  proof (rule closed_set_reach [OF that(1)])
    show "q \<in> set ?D" using that(2) collect_descendants_extends by fastforce
    show "\<forall>a\<in>set ?D. \<forall>b. child_of w a b \<longrightarrow> b \<in> set ?D"
      using collect_descendants_closed [of "[]"] by auto
  qed
  then have "set ?D = {j. (child_of w)\<^sup>+\<^sup>+ i j}"
    unfolding tranclp_child_of [OF assms] using collect_descendants_sound [of _ w "[]"] by auto
  then show ?thesis
    unfolding descendants_of_node [OF assms] by (simp add: collect_descendants_distinct)
qed

lemma unfinished_descendant_reach:
  assumes "node_by_id w i = Some n"
  shows "has_unfinished_descendant w n \<longleftrightarrow>
    (\<exists>j m. (child_of w)\<^sup>+\<^sup>+ i j \<and> node_by_id w j = Some m
       \<and> n_status m \<in> unfinished_work_node_statuses)"
proof -
  have u: "unfinished_id w j \<longleftrightarrow>
      (\<exists>m. node_by_id w j = Some m \<and> n_status m \<in> unfinished_work_node_statuses)" for j
    by (auto simp: unfinished_id_def is_unfinished_work_tree_node_def split: option.splits)
  have "has_unfinished_descendant w n \<longleftrightarrow>
      (\<exists>j. (child_of w)\<^sup>+\<^sup>+ i j \<and> unfinished_id w j)"
  proof
    assume "has_unfinished_descendant w n"
    then show "\<exists>j. (child_of w)\<^sup>+\<^sup>+ i j \<and> unfinished_id w j"
      unfolding has_unfinished_descendant_def tranclp_child_of [OF assms]
      using search_unfinished_sound by blast
  next
    assume "\<exists>j. (child_of w)\<^sup>+\<^sup>+ i j \<and> unfinished_id w j"
    then obtain q j where q: "q \<in> set (work_tree_child_ids w n)" "(child_of w)\<^sup>*\<^sup>* q j"
      "unfinished_id w j" unfolding tranclp_child_of [OF assms] by blast
    show "has_unfinished_descendant w n"
    proof (rule ccontr)
      assume "\<not> has_unfinished_descendant w n"
      then obtain S where "set (work_tree_child_ids w n) \<subseteq> S" "\<forall>a\<in>S. \<not> unfinished_id w a"
        "\<forall>a\<in>S. \<forall>b. child_of w a b \<longrightarrow> b \<in> S"
        unfolding has_unfinished_descendant_def using search_unfinished_complete [of w "{}" "work_tree_child_ids w n"] by auto
      then show False using closed_set_reach [OF q(2), of S] q by blast
    qed
  qed
  then show ?thesis unfolding u by blast
qed

text \<open>The breadth-first collection of \<open>_node_descendant_ids\<close> returns each id below the
  node exactly once: the result has no repetition and is the set of ids reachable by at least
  one child link, also when child links form a cycle or name unknown nodes.\<close>

theorem node_descendants_exact:
  assumes "node_by_id w i = Some n"
  shows "distinct (node_descendant_ids w i)
    \<and> set (node_descendant_ids w i) = {j. (child_of w)\<^sup>+\<^sup>+ i j}"
  using assms by (rule descendants_reach)

theorem node_descendants_exact_witness:
  "distinct (node_descendant_ids (demo_tree NPending NPending) (lit ''r''))
    \<and> node_descendant_ids (demo_tree NPending NPending) (lit ''r'') = [lit ''b'', lit ''a'']"
proof -
  obtain n where "node_by_id (demo_tree NPending NPending) (lit ''r'') = Some n"
    by (simp add: demo_simps)
  then have "distinct (node_descendant_ids (demo_tree NPending NPending) (lit ''r''))"
    using node_descendants_exact by blast
  moreover have "node_descendant_ids (demo_tree NPending NPending) (lit ''r'') = [lit ''b'', lit ''a'']"
    by code_simp
  ultimately show ?thesis ..
qed

text \<open>C4: The depth-first search of \<open>_has_unfinished_descendant\<close> answers yes exactly when some
  node reachable by at least one child link is unfinished (pending, in progress, summarizing,
  blocked or failed).\<close>

theorem has_unfinished_descendant_exact:
  assumes "node_by_id w i = Some n"
  shows "has_unfinished_descendant w n \<longleftrightarrow>
    (\<exists>j m. (child_of w)\<^sup>+\<^sup>+ i j \<and> node_by_id w j = Some m
       \<and> n_status m \<in> unfinished_work_node_statuses)"
  using assms by (rule unfinished_descendant_reach)

theorem has_unfinished_descendant_exact_witness:
  "\<exists>j m. (child_of (demo_tree NCompleted NBlocked))\<^sup>+\<^sup>+ (lit ''r'') j
     \<and> node_by_id (demo_tree NCompleted NBlocked) j = Some m
     \<and> n_status m \<in> unfinished_work_node_statuses"
proof -
  let ?n = "hd (wt_nodes (demo_tree NCompleted NBlocked))"
  have n: "node_by_id (demo_tree NCompleted NBlocked) (lit ''r'') = Some ?n"
    by (simp add: demo_simps)
  have "has_unfinished_descendant (demo_tree NCompleted NBlocked) ?n" by code_simp
  then show ?thesis unfolding has_unfinished_descendant_exact [OF n] .
qed

end
