(* ===== verification/TakeoverState.thy ===== *)
theory TakeoverState
  imports Takeover
begin

text \<open>
  The runtime state of a takeover: a protocol with its work tree, and the work-context stack
  whose frames follow the path from the root to the current node. This theory has the
  current node, the confirmation gate, \<open>normalize_takeover_runtime_state\<close>, the operations
  on the stack and \<open>sync_takeover_runtime_state\<close> (\<open>runtime_kernel/takeover.py\<close>).

  An operation reads the clock, the digest and the stable ids from \<open>env\<close>; every call of
  \<open>utc_now\<close> within one operation reads the same clock.
\<close>

record env =
  dg_of :: "json \<Rightarrow> ustr"
  sid_of :: stable_id
  now_of :: nat

section \<open>Path, status and current node\<close>

text \<open>
  The loop of \<open>_work_tree_active_path_node_ids\<close> from the node with id \<open>i\<close> up; it stops at
  a node without parent, at an unknown parent or at a node it has visited.
\<close>

function climb :: "work_tree \<Rightarrow> ustr set \<Rightarrow> ustr \<Rightarrow> ustr list" where
  "climb w visited i =
     (case node_by_id w i of
        None \<Rightarrow> []
      | Some n \<Rightarrow>
          if i \<in> visited then []
          else i # (case n_parent_node_id n of
                      None \<Rightarrow> []
                    | Some p \<Rightarrow> climb w (insert i visited) p))"
  by pat_completeness auto

termination climb
  by (relation "measure (\<lambda>(w, v, i). card (tree_ids w - v))")
     (auto intro!: fresh_id_measure dest: node_by_id_in_ids)

declare climb.simps [simp del]

definition work_tree_active_path_node_ids :: "work_tree \<Rightarrow> ustr option \<Rightarrow> ustr list" where
  "work_tree_active_path_node_ids w current_node_id =
     (case opt_or current_node_id (wt_current_node_id w) of
        None \<Rightarrow> filter (\<lambda>i. i \<in> tree_ids w) (wt_active_path_node_ids w)
      | Some i \<Rightarrow> rev (climb w {} i))"

definition protocol_status_from_work_tree_status ::
  "tree_status \<Rightarrow> protocol_status \<Rightarrow> protocol_status" where
  "protocol_status_from_work_tree_status tree_st st =
     (if tree_st = TCompleted then PCompleted
      else if tree_st = TAwaitingApproval then PVerified
      else if tree_st = TFailed then PNeedsClarification
      else if st = PNeedsClarification then PNeedsClarification
      else if st = PPrepared then PPrepared
      else PExecuting)"

definition executable_nodes :: "work_tree_node list \<Rightarrow> work_tree_node list" where
  "executable_nodes nodes =
     list_or (filter (\<lambda>n. \<not> (1 < length nodes \<and> n_parent_node_id n = None
                             \<and> n_child_node_ids n \<noteq> [])) nodes) nodes"

definition fallback_work_tree_node :: "work_tree_node list \<Rightarrow> work_tree_node option" where
  "fallback_work_tree_node nodes =
     (if nodes = [] then None
      else
        let ex = executable_nodes nodes in
        case first_with_status [NInProgress, NBlocked, NPending] ex of
          Some n \<Rightarrow> Some n
        | None \<Rightarrow>
            (case first_such (\<lambda>n. n_status n \<notin> {NCompleted, NSkipped}) ex of
               Some n \<Rightarrow> Some n
             | None \<Rightarrow> Some (last ex)))"

definition current_node_of_tree :: "work_tree \<Rightarrow> work_tree_node option" where
  "current_node_of_tree w =
     (case Option.bind (wt_current_node_id w) (node_by_id w) of
        Some n \<Rightarrow> Some n
      | None \<Rightarrow> fallback_work_tree_node (wt_nodes w))"

definition current_work_tree_node :: "takeover_protocol option \<Rightarrow> work_tree_node option" where
  "current_work_tree_node p = Option.bind (Option.bind p p_work_tree) current_node_of_tree"

text \<open>The code points of the two Chinese labels: \<open>awaiting approval\<close> and \<open>failed node\<close>.\<close>

definition awaiting_label :: ustr where
  "awaiting_label = [0x7B49, 0x5F85, 0x6279, 0x51C6] @ lit '': ''"

definition failed_label :: ustr where
  "failed_label = [0x5931, 0x8D25, 0x8282, 0x70B9] @ lit '': ''"

definition work_tree_focus_label :: "takeover_protocol option \<Rightarrow> ustr" where
  "work_tree_focus_label p =
     (case current_work_tree_node p of
        None \<Rightarrow>
          (case p of
             None \<Rightarrow> lit ''runtime execution''
           | Some q \<Rightarrow>
               str_or (normalize_excerpt (str_or (p_objective_summary q) (p_objective q)) 96)
                 (lit ''runtime execution''))
      | Some n \<Rightarrow>
          if map_option wt_status (Option.bind p p_work_tree) = Some TAwaitingApproval
          then str_or (normalize_excerpt (awaiting_label @ n_title n) 96) (lit ''awaiting-approval'')
          else str_or (normalize_excerpt
                         (str_or (str_or (n_local_goal n) (n_node_text n)) (n_title n)) 96)
                 (str_or (n_title n) (n_id n)))"

definition parent_orchestration_focus_label ::
  "work_tree_node \<Rightarrow> work_tree_node option \<Rightarrow> ustr" where
  "parent_orchestration_focus_label parent preferred =
     (case preferred of
        None \<Rightarrow>
          str_or (normalize_excerpt
              (lit ''Parent orchestration required: continue unresolved children under ''
                 @ str_or (n_title parent) (n_id parent)) 120)
            (lit ''parent-orchestration-required'')
      | Some c \<Rightarrow>
          let label = str_or (str_or (str_or (n_local_goal c) (n_node_text c)) (n_title c)) (n_id c)
          in str_or (normalize_excerpt
                 (lit ''Parent orchestration required: prioritize child '' @ n_id c
                    @ lit '' ('' @ label @ lit '')'') 120)
               (lit ''parent-orchestration-required:'' @ n_id c))"

section \<open>The confirmation gate\<close>

text \<open>The keys of the request the gate reads, as their truth values; an absent key is false.\<close>

record confirmation_request =
  cr_takeover_plan_confirmed :: bool
  cr_plan_confirmed :: bool
  cr_confirm_plan :: bool
  cr_require_takeover_plan_confirmation :: bool
  cr_manual_plan_confirmation_required :: bool
  cr_dangerous_plan_confirmation_required :: bool

definition is_takeover_plan_confirmed :: "confirmation_request \<Rightarrow> bool" where
  "is_takeover_plan_confirmed r \<longleftrightarrow>
     cr_takeover_plan_confirmed r \<or> cr_plan_confirmed r \<or> cr_confirm_plan r"

definition takeover_confirmation_required :: "confirmation_request \<Rightarrow> bool" where
  "takeover_confirmation_required r \<longleftrightarrow>
     cr_require_takeover_plan_confirmation r \<or> cr_manual_plan_confirmation_required r
     \<or> cr_dangerous_plan_confirmation_required r"

definition has_required_takeover_ambiguity :: "takeover_protocol \<Rightarrow> bool" where
  "has_required_takeover_ambiguity p \<longleftrightarrow> list_ex a_required (p_ambiguities p)"

definition enforce_takeover_confirmation_gate ::
  "takeover_protocol \<Rightarrow> confirmation_request \<Rightarrow> takeover_protocol" where
  "enforce_takeover_confirmation_gate p r =
     (let confirmed = is_takeover_plan_confirmed r;
          required = takeover_confirmation_required r;
          metrics = (p_metrics p)
            \<lparr>m_clarification_needed :=
               (has_required_takeover_ambiguity p \<or> required \<and> \<not> confirmed),
             m_plan_confirmation_needed := (required \<and> \<not> confirmed),
             m_plan_confirmed := confirmed\<rparr>
      in if confirmed then
           (if p_status p = PNeedsClarification
            then p\<lparr>p_current_phase := PhExecute, p_status := PPrepared, p_metrics := metrics\<rparr>
            else p\<lparr>p_metrics := metrics\<rparr>)
         else if \<not> required then p\<lparr>p_metrics := metrics\<rparr>
         else p\<lparr>p_current_phase := PhConfirm, p_status := PNeedsClarification,
                p_metrics := metrics\<rparr>)"

section \<open>Normalizing the runtime state\<close>

definition start_current_node :: "nat \<Rightarrow> tree_status \<Rightarrow> ustr \<Rightarrow> work_tree_node \<Rightarrow> work_tree_node" where
  "start_current_node now st current_id n =
     (if n_id n = current_id \<and> n_status n = NPending
         \<and> st \<notin> {TAwaitingApproval, TCompleted, TFailed}
      then n\<lparr>n_status := NInProgress, n_updated_at := now\<rparr> else n)"

definition normalized_work_tree :: "env \<Rightarrow> work_tree \<Rightarrow> ustr \<Rightarrow> work_tree_node \<Rightarrow> work_tree" where
  "normalized_work_tree e w task_id current =
     validate_tree (dg_of e) (now_of e)
       (w\<lparr>wt_task_id := Some task_id,
          wt_current_node_id := Some (n_id current),
          wt_nodes := map (start_current_node (now_of e) (wt_status w) (n_id current)) (wt_nodes w),
          wt_active_path_node_ids :=
            list_or (work_tree_active_path_node_ids w (Some (n_id current))) [n_id current],
          wt_loaded_node_ids := map n_id (wt_nodes w),
          wt_recovery_anchor := opt_or (n_recovery_anchor current) (wt_recovery_anchor w),
          wt_pc_memo := opt_or (wt_pc_memo w) (Some (lit ''continue:'' @ n_id current)),
          wt_status := (if wt_status w = TPlanned then TActive else wt_status w),
          wt_updated_at := now_of e\<rparr>)"

text \<open>A frame payload with no keys: every field at its default.\<close>

definition blank_frame :: work_context_frame where
  "blank_frame =
     \<lparr>f_id = [], f_node_id = [], f_parent_frame_id = None, f_stack_depth = 0,
      f_working_node_annotation = [], f_entry_context_digest = [], f_prefix_cache_key = None,
      f_frame_header = [], f_frame_local_transcript_ref = None,
      f_child_completion_summaries = [], f_cursor_state = None, f_status = FActive\<rparr>"

definition existing_frame :: "work_context_stack option \<Rightarrow> ustr \<Rightarrow> work_context_frame option" where
  "existing_frame stack node_id =
     (case stack of None \<Rightarrow> None | Some s \<Rightarrow> index_by f_node_id (s_frames s) node_id)"

definition node_annotation :: "work_tree_node \<Rightarrow> ustr" where
  "node_annotation n =
     str_or (n_working_node_annotation n) (lit ''<Working_Node: '' @ n_id n @ lit ''>'')"

definition node_header :: "work_tree_node \<Rightarrow> ustr" where
  "node_header n = str_or (str_or (n_local_goal n) (n_title n)) (n_id n)"

text \<open>The loop over the path: one frame per node, linked to the frame before it.\<close>

fun path_frames ::
  "work_context_stack option \<Rightarrow> ustr option \<Rightarrow> nat \<Rightarrow> work_tree_node list
     \<Rightarrow> work_context_frame list" where
  "path_frames stack parent depth [] = []"
| "path_frames stack parent depth (n # ns) =
     (let old = (case existing_frame stack (n_id n) of Some f \<Rightarrow> f | None \<Rightarrow> blank_frame);
          fid = str_or (f_id old) (lit ''frame-'' @ n_id n)
      in old\<lparr>f_id := fid, f_node_id := n_id n, f_parent_frame_id := parent,
             f_stack_depth := int depth, f_working_node_annotation := node_annotation n,
             f_frame_header := str_or (f_frame_header old) (node_header n),
             f_status := (if ns = [] then FActive else FSuspended)\<rparr>
         # path_frames stack (Some fid) (Suc depth) ns)"

definition blank_stack :: work_context_stack where
  "blank_stack =
     \<lparr>s_version = lit ''0.2.0'', s_task_id = [], s_agent_run_id = [], s_root_frame_id = [],
      s_top_frame_id = [], s_frames = [], s_cache_policy = PreservePrefix, s_stack_digest = [],
      s_updated_at = 0\<rparr>"

definition normalized_stack ::
  "env \<Rightarrow> work_context_stack option \<Rightarrow> ustr \<Rightarrow> ustr \<Rightarrow> work_context_frame list
     \<Rightarrow> work_context_stack" where
  "normalized_stack e stack task_id run_id frames =
     validate_stack (dg_of e)
       ((case stack of Some s \<Rightarrow> s | None \<Rightarrow> blank_stack)
         \<lparr>s_task_id := task_id, s_agent_run_id := run_id, s_root_frame_id := f_id (hd frames),
          s_top_frame_id := f_id (last frames), s_frames := frames, s_updated_at := now_of e\<rparr>)"

definition protocol_tree :: "env \<Rightarrow> ustr \<Rightarrow> takeover_protocol \<Rightarrow> work_tree" where
  "protocol_tree e task_id p =
     (case p_work_tree p of
        Some w \<Rightarrow> w
      | None \<Rightarrow> work_tree_from_protocol_parts (dg_of e) (sid_of e) (now_of e) task_id
                  (p_objective p) (p_constraints p) (p_plan p) (p_status p))"

text \<open>
  \<open>normalize_takeover_runtime_state\<close> on a protocol; without a current node (an empty tree) the
  protocol is returned as it is, and no stack. The nodes of the path come from the tree
  before it is normalized.
\<close>

definition path_nodes :: "work_tree \<Rightarrow> work_tree \<Rightarrow> work_tree_node \<Rightarrow> work_tree_node list" where
  "path_nodes w normalized current =
     list_or (List.map_filter (node_by_id w) (wt_active_path_node_ids normalized)) [current]"

definition normalize_runtime_state ::
  "env \<Rightarrow> takeover_protocol \<Rightarrow> ustr \<Rightarrow> ustr \<Rightarrow> work_context_stack option
     \<Rightarrow> takeover_protocol \<times> work_context_stack option" where
  "normalize_runtime_state e p task_id run_id stack =
     (let w = protocol_tree e task_id p in
      case current_node_of_tree w of
        None \<Rightarrow> (p, None)
      | Some current \<Rightarrow>
          let v = normalized_work_tree e w task_id current;
              frames = path_frames stack None 0 (path_nodes w v current);
              q = p\<lparr>p_status := protocol_status_from_work_tree_status (wt_status v) (p_status p),
                    p_current_phase :=
                      (if wt_status v \<in> {TAwaitingApproval, TCompleted} then PhDeliver
                       else PhExecute),
                    p_work_tree := Some v\<rparr>
          in (validate_protocol (dg_of e) (now_of e) q,
              Some (normalized_stack e stack task_id run_id frames)))"

definition normalize_takeover_runtime_state ::
  "env \<Rightarrow> takeover_protocol option \<Rightarrow> ustr \<Rightarrow> ustr \<Rightarrow> work_context_stack option
     \<Rightarrow> takeover_protocol option \<times> work_context_stack option" where
  "normalize_takeover_runtime_state e p task_id run_id stack =
     (case p of
        None \<Rightarrow> (None, None)
      | Some q \<Rightarrow> map_prod Some id (normalize_runtime_state e q task_id run_id stack))"

section \<open>The stack\<close>

definition update_cursor_state ::
  "env \<Rightarrow> work_context_stack \<Rightarrow> ustr \<Rightarrow> ustr option \<Rightarrow> work_context_stack" where
  "update_cursor_state e s node_id cursor =
     validate_stack (dg_of e)
       (s\<lparr>s_frames := map (\<lambda>f. if f_node_id f = node_id then f\<lparr>f_cursor_state := cursor\<rparr> else f)
                         (s_frames s),
          s_updated_at := now_of e\<rparr>)"

definition append_child_completion_summary ::
  "env \<Rightarrow> work_context_stack \<Rightarrow> ustr \<Rightarrow> child_completion_summary \<Rightarrow> work_context_stack" where
  "append_child_completion_summary e s parent_node_id summary =
     validate_stack (dg_of e)
       (s\<lparr>s_frames :=
            map (\<lambda>f. if f_node_id f = parent_node_id
                     then f\<lparr>f_child_completion_summaries :=
                              filter (\<lambda>c. cs_child_node_id c \<noteq> cs_child_node_id summary)
                                (f_child_completion_summaries f) @ [summary]\<rparr>
                     else f) (s_frames s),
          s_updated_at := now_of e\<rparr>)"

definition frame_of_node ::
  "env \<Rightarrow> work_tree_node \<Rightarrow> ustr option \<Rightarrow> nat \<Rightarrow> ustr option \<Rightarrow> work_context_frame" where
  "frame_of_node e n parent depth cursor =
     validate_frame (dg_of e)
       (blank_frame\<lparr>f_id := lit ''frame-'' @ n_id n, f_node_id := n_id n,
          f_parent_frame_id := parent, f_stack_depth := int depth,
          f_working_node_annotation := node_annotation n, f_frame_header := node_header n,
          f_cursor_state := cursor, f_status := FActive\<rparr>)"

definition set_last :: "('a \<Rightarrow> 'a) \<Rightarrow> 'a list \<Rightarrow> 'a list" where
  "set_last g xs = (if xs = [] then [] else butlast xs @ [g (last xs)])"

definition push_work_context_frame ::
  "env \<Rightarrow> work_context_stack \<Rightarrow> work_tree_node \<Rightarrow> ustr option \<Rightarrow> work_context_stack" where
  "push_work_context_frame e s node cursor =
     (let old = set_last (\<lambda>f. f\<lparr>f_status := FSuspended\<rparr>) (s_frames s);
          frame = frame_of_node e node (if old = [] then None else Some (f_id (last old)))
                    (length old) cursor;
          frames = old @ [frame]
      in validate_stack (dg_of e)
           (s\<lparr>s_root_frame_id := f_id (hd frames), s_top_frame_id := f_id (last frames),
              s_frames := frames, s_updated_at := now_of e\<rparr>))"

definition pop_work_context_frame ::
  "env \<Rightarrow> work_context_stack \<Rightarrow> ustr option \<Rightarrow> work_context_stack" where
  "pop_work_context_frame e s cursor =
     (let resume = (\<lambda>f. f\<lparr>f_status := FActive, f_cursor_state := cursor\<rparr>) in
      if length (s_frames s) \<le> 1
      then validate_stack (dg_of e)
             (s\<lparr>s_frames := map resume (s_frames s), s_updated_at := now_of e\<rparr>)
      else
        let frames = set_last resume (butlast (s_frames s))
        in validate_stack (dg_of e)
             (s\<lparr>s_top_frame_id := f_id (last frames), s_frames := frames,
                s_updated_at := now_of e\<rparr>))"

section \<open>Publishing the state to the request\<close>

text \<open>
  The keys of the run request, of the root mount and of the task runtime state that
  \<open>sync_takeover_runtime_state\<close> reads and writes; every other key stays as it is. An absent
  key of the request is \<open>None\<close>; \<open>rq_memory_node_id\<close> is \<open>None\<close> when the request has no memory
  retrieval state, and else the node id in it.
\<close>

record pointers =
  pt_current_node_id :: "ustr option"
  pt_working_node_annotation :: "ustr option"
  pt_pc_memo :: "ustr option"
  pt_current_focus :: "ustr option"

record root_mount = pointers +
  rm_top_frame_id :: "ustr option"
  rm_stack_digest :: "ustr option"

record task_runtime_state = pointers +
  ts_takeover_protocol :: "takeover_protocol option"
  ts_work_context_stack :: "work_context_stack option"

record run_request = pointers +
  rq_top_frame_id :: "ustr option"
  rq_stack_digest :: "ustr option"
  rq_takeover_protocol :: "takeover_protocol option"
  rq_work_context_stack :: "work_context_stack option"
  rq_memory_node_id :: "ustr option option"
  rq_task_runtime_state :: "task_runtime_state option"

text \<open>\<open>current_focus\<close> if given, else the focus that is there unless it is blank, else the label.\<close>

definition synced_focus :: "ustr option \<Rightarrow> ustr option \<Rightarrow> ustr \<Rightarrow> ustr option" where
  "synced_focus given old label =
     (case given of
        Some f \<Rightarrow> Some f
      | None \<Rightarrow> (if norm_opt old = None then Some label else old))"

definition sync_pointers ::
  "work_tree \<Rightarrow> ustr option \<Rightarrow> ustr option \<Rightarrow> ('a) pointers_scheme \<Rightarrow> 'a pointers_scheme" where
  "sync_pointers w annotation focus r =
     r\<lparr>pt_current_node_id := wt_current_node_id w, pt_working_node_annotation := annotation,
       pt_pc_memo := wt_pc_memo w, pt_current_focus := focus\<rparr>"

definition sync_takeover_runtime_state ::
  "env \<Rightarrow> run_request \<Rightarrow> root_mount option \<Rightarrow> takeover_protocol option \<Rightarrow> ustr \<Rightarrow> ustr
     \<Rightarrow> ustr option \<Rightarrow> work_context_stack option
     \<Rightarrow> (takeover_protocol option \<times> work_context_stack option) \<times> run_request \<times> root_mount option" where
  "sync_takeover_runtime_state e request mount p task_id run_id focus stack =
     (case rq_task_runtime_state request of
        None \<Rightarrow> ((p, stack), request, mount)
      | Some ts \<Rightarrow>
          let (np, ns) = normalize_takeover_runtime_state e p task_id run_id
                (case stack of Some s \<Rightarrow> Some s | None \<Rightarrow> rq_work_context_stack request)
          in case (np, Option.bind np p_work_tree, ns) of
               (Some q, Some w, Some s) \<Rightarrow>
                 let annotation =
                       map_option n_working_node_annotation (current_work_tree_node (Some q));
                     label = work_tree_focus_label (Some q);
                     rfocus = synced_focus focus (pt_current_focus request) label;
                     request1 = (sync_pointers w annotation rfocus request)
                       \<lparr>rq_takeover_protocol := Some q, rq_work_context_stack := Some s,
                        rq_top_frame_id := Some (s_top_frame_id s),
                        rq_stack_digest := Some (s_stack_digest s),
                        rq_memory_node_id :=
                          map_option (\<lambda>_. wt_current_node_id w) (rq_memory_node_id request)\<rparr>;
                     mount1 = map_option (\<lambda>m. (sync_pointers w annotation rfocus m)
                       \<lparr>rm_top_frame_id := Some (s_top_frame_id s),
                        rm_stack_digest := Some (s_stack_digest s)\<rparr>) mount;
                     ts1 = (sync_pointers w annotation
                              (synced_focus focus (pt_current_focus ts) label) ts)
                       \<lparr>ts_takeover_protocol := Some q, ts_work_context_stack := Some s\<rparr>
                 in ((np, ns), request1\<lparr>rq_task_runtime_state := Some ts1\<rparr>, mount1)
             | _ \<Rightarrow> ((np, ns), request, mount))"

section \<open>Facts on the active path\<close>

lemma climb_props:
  "distinct (climb w v i) \<and> set (climb w v i) \<inter> v = {} \<and> set (climb w v i) \<subseteq> tree_ids w"
proof (induction w v i rule: climb.induct)
  case (1 w v i)
  show ?case
  proof (cases "node_by_id w i")
    case None
    then show ?thesis by (subst (1 2 3) climb.simps) simp
  next
    case (Some n)
    show ?thesis
    proof (cases "i \<in> v \<or> n_parent_node_id n = None")
      case True
      with Some show ?thesis
        by (subst (1 2 3) climb.simps) (auto dest: node_by_id_in_ids)
    next
      case False
      then obtain p where p: "n_parent_node_id n = Some p" by auto
      from 1 [OF Some _ p] False Some p show ?thesis
        by (subst (1 2 3) climb.simps) (auto dest: node_by_id_in_ids)
    qed
  qed
qed

text \<open>Each id of a parent chain names a node whose parent is the id before it.\<close>

fun parent_chain :: "work_tree \<Rightarrow> ustr list \<Rightarrow> bool" where
  "parent_chain w (x # y # ys) \<longleftrightarrow>
     Option.bind (node_by_id w y) n_parent_node_id = Some x \<and> parent_chain w (y # ys)"
| "parent_chain w _ \<longleftrightarrow> True"

lemma parent_chain_snoc:
  "parent_chain w (xs @ [x]) \<Longrightarrow> Option.bind (node_by_id w y) n_parent_node_id = Some x \<Longrightarrow>
     parent_chain w (xs @ [x, y])"
proof (induction xs)
  case (Cons a xs)
  then show ?case by (cases xs) auto
qed auto

lemma climb_hd: "climb w v i \<noteq> [] \<Longrightarrow> hd (climb w v i) = i"
  by (subst climb.simps, subst (asm) climb.simps) (auto split: option.splits if_splits)

lemma climb_nonempty: "node_by_id w i = Some n \<Longrightarrow> i \<notin> v \<Longrightarrow> climb w v i \<noteq> []"
  by (subst climb.simps) simp

lemma climb_chain: "parent_chain w (rev (climb w v i))"
proof (induction w v i rule: climb.induct)
  case (1 w v i)
  show ?case
  proof (cases "\<exists>n p. node_by_id w i = Some n \<and> i \<notin> v \<and> n_parent_node_id n = Some p")
    case False
    then show ?thesis by (subst climb.simps) (auto split: option.splits)
  next
    case True
    then obtain n p where n: "node_by_id w i = Some n" "i \<notin> v" "n_parent_node_id n = Some p" by blast
    let ?up = "climb w (insert i v) p"
    have c: "climb w v i = i # ?up" using n by (subst climb.simps) simp
    from 1 n have IH: "parent_chain w (rev ?up)" by simp
    show ?thesis
    proof (cases ?up)
      case (Cons q qs)
      with climb_hd [of w "insert i v" p] have "q = p" by simp
      with Cons IH n show ?thesis unfolding c using parent_chain_snoc [of w "rev qs" p i] by simp
    qed (simp add: c)
  qed
qed

lemma active_path_props:
  assumes "node_by_id w i = Some n" "i \<noteq> []"
  shows "work_tree_active_path_node_ids w (Some i) \<noteq> []
    \<and> last (work_tree_active_path_node_ids w (Some i)) = i
    \<and> distinct (work_tree_active_path_node_ids w (Some i))
    \<and> set (work_tree_active_path_node_ids w (Some i)) \<subseteq> tree_ids w
    \<and> parent_chain w (work_tree_active_path_node_ids w (Some i))"
  using assms climb_props [of w "{}" i] climb_chain [of w "{}" i] climb_hd [of w "{}" i]
    climb_nonempty [OF assms(1), of "{}"]
  by (simp add: work_tree_active_path_node_ids_def last_rev)

section \<open>Facts on the current node\<close>

lemma first_with_status_mem: "first_with_status sts nodes = Some n \<Longrightarrow> n \<in> set nodes \<and> n_status n \<in> set sts"
  by (induction sts) (auto split: option.splits dest: first_such_Some)

lemma executable_nodes_subset: "set (executable_nodes nodes) \<subseteq> set nodes"
  by (auto simp: executable_nodes_def list_or_def)

lemma executable_nodes_nonempty [simp]: "executable_nodes nodes = [] \<longleftrightarrow> nodes = []"
  by (auto simp: executable_nodes_def list_or_def)

lemma fallback_mem: "fallback_work_tree_node nodes = Some n \<Longrightarrow> n \<in> set nodes"
  using executable_nodes_subset [of nodes] last_in_set [of "executable_nodes nodes"]
  by (auto simp: fallback_work_tree_node_def Let_def split: if_splits option.splits
      dest!: first_with_status_mem first_such_Some)

lemma fallback_ex: "nodes \<noteq> [] \<Longrightarrow> \<exists>n. fallback_work_tree_node nodes = Some n"
  by (auto simp: fallback_work_tree_node_def Let_def split: option.split)

lemma current_node_mem: "current_node_of_tree w = Some n \<Longrightarrow> n \<in> set (wt_nodes w)"
  by (auto simp: current_node_of_tree_def split: option.splits bind_splits
      dest: fallback_mem node_by_id_Some)

lemma current_node_ex: "wt_nodes w \<noteq> [] \<Longrightarrow> \<exists>n. current_node_of_tree w = Some n"
  using fallback_ex [of "wt_nodes w"] by (auto simp: current_node_of_tree_def split: option.split)

section \<open>Well-formed trees\<close>

text \<open>
  Well-formed: in normal form, node ids distinct, recovery anchors of the nodes without
  surrounding blanks, a positive version counter; the root, the current node and every
  parent are nodes of the tree. The validators leave a well-formed tree alone.
\<close>

definition tree_wf :: "work_tree \<Rightarrow> bool" where
  "tree_wf w \<longleftrightarrow> tree_ok w \<and> distinct (map n_id (wt_nodes w))
     \<and> (\<forall>n\<in>set (wt_nodes w). norm_opt (n_recovery_anchor n) = n_recovery_anchor n)
     \<and> 0 < wt_version_counter w
     \<and> wt_root_node_id w \<in> Some ` tree_ids w \<and> wt_current_node_id w \<in> Some ` tree_ids w
     \<and> (\<forall>n\<in>set (wt_nodes w). n_parent_node_id n \<in> insert None (Some ` tree_ids w))"

lemma tree_wf_root: "tree_wf w \<Longrightarrow> \<exists>r n. wt_root_node_id w = Some r \<and> node_by_id w r = Some n"
  using node_by_id_None [of w] by (force simp: tree_wf_def)

lemma tree_wf_current: "tree_wf w \<Longrightarrow> \<exists>c n. wt_current_node_id w = Some c \<and> node_by_id w c = Some n"
  using node_by_id_None [of w] by (force simp: tree_wf_def)

lemma tree_wf_parent:
  "tree_wf w \<Longrightarrow> n \<in> set (wt_nodes w) \<Longrightarrow> n_parent_node_id n = Some p \<Longrightarrow>
     \<exists>m. node_by_id w p = Some m"
  using node_by_id_None [of w p] by (force simp: tree_wf_def)

lemma tree_wf_ok [simp]: "tree_wf w \<Longrightarrow> tree_ok w"
  by (simp add: tree_wf_def)

lemma tree_wf_nodes: "tree_wf w \<Longrightarrow> n \<in> set (wt_nodes w) \<Longrightarrow> node_ok n"
  by (simp add: tree_wf_def tree_ok_def fields_ok_def)

lemma tree_wf_ids: "tree_wf w \<Longrightarrow> n \<in> set (wt_nodes w) \<Longrightarrow> norm_ok (n_id n)"
  using tree_wf_nodes by (simp add: node_ok_def)

lemma tree_wf_nonempty: "tree_wf w \<Longrightarrow> wt_nodes w \<noteq> []"
  by (simp add: tree_wf_def tree_ok_def fields_ok_def)

lemma tree_wf_version: "tree_wf w \<Longrightarrow> 0 < wt_version_counter w"
  by (simp add: tree_wf_def)

lemma tree_wf_lookup: "tree_wf w \<Longrightarrow> n \<in> set (wt_nodes w) \<Longrightarrow> node_by_id w (n_id n) = Some n"
  by (simp add: tree_wf_def node_by_id_def index_by_distinct)

lemma norm_ok_nonempty: "norm_ok s \<Longrightarrow> s \<noteq> []"
  by (simp add: norm_ok_def)

lemma tree_wf_norm_list:
  assumes "tree_wf w" "distinct ids" "set ids \<subseteq> tree_ids w"
  shows "norm_list_ok ids"
  using assms tree_wf_ids [OF assms(1)] by (auto simp: norm_list_ok_def tree_ids_def)

text \<open>An edit of nodes that keeps id, parent and anchor and leaves the node in normal form.\<close>

definition safe_edit :: "work_tree \<Rightarrow> (work_tree_node \<Rightarrow> work_tree_node) \<Rightarrow> bool" where
  "safe_edit w g \<longleftrightarrow> (\<forall>n\<in>set (wt_nodes w). n_id (g n) = n_id n
     \<and> n_parent_node_id (g n) = n_parent_node_id n
     \<and> n_recovery_anchor (g n) = n_recovery_anchor n \<and> node_ok (g n))"

lemma safe_edit_lookup:
  "safe_edit w g \<Longrightarrow> wt_nodes v = map g (wt_nodes w) \<Longrightarrow>
     node_by_id v i = map_option g (node_by_id w i)"
  by (simp add: node_by_id_def safe_edit_def index_by_map)

lemma safe_edit_ids: "safe_edit w g \<Longrightarrow> wt_nodes v = map g (wt_nodes w) \<Longrightarrow> tree_ids v = tree_ids w"
  by (simp add: tree_ids_def safe_edit_def image_image cong: image_cong)

text \<open>The tree after an edit is well-formed when its other fields are in normal form.\<close>

lemma tree_wf_edit:
  assumes "tree_wf w" "safe_edit w g" "wt_nodes v = map g (wt_nodes w)"
    and "wt_version v = wt_version w" "norm_ok (wt_id v)" "wt_root_objective v = wt_root_objective w"
    and "\<exists>t. wt_task_id v = Some t \<and> norm_ok t" "wt_root_node_id v = wt_root_node_id w"
    and "wt_current_node_id v \<in> Some ` tree_ids w"
    and "norm_list_ok (wt_loaded_node_ids v)" "wt_loaded_node_ids v \<noteq> []"
    and "norm_list_ok (wt_active_path_node_ids v)" "wt_active_path_node_ids v \<noteq> []"
    and "norm_opt (wt_pc_memo v) = wt_pc_memo v"
    and "norm_opt (wt_recovery_anchor v) = wt_recovery_anchor v"
    and "settled_anchor v = wt_recovery_anchor v"
    and "0 < wt_version_counter v"
  shows "tree_wf v"
proof -
  have ids: "map n_id (map g (wt_nodes w)) = map n_id (wt_nodes w)"
    and par: "list_all has_no_parent (map g (wt_nodes w)) = list_all has_no_parent (wt_nodes w)"
    using assms(2) by (auto simp: safe_edit_def has_no_parent_def list_all_iff)
  have a: "\<forall>n\<in>set (wt_nodes w). n_recovery_anchor (g n) = n_recovery_anchor n \<and> node_ok (g n)"
    using assms(2) by (simp add: safe_edit_def)
  from assms(1) have w: "tree_ok w" "distinct (map n_id (wt_nodes w))"
    "\<forall>n\<in>set (wt_nodes w). norm_opt (n_recovery_anchor n) = n_recovery_anchor n"
    by (simp_all add: tree_wf_def)
  have "fields_ok v"
    unfolding fields_ok_def
  proof (intro conjI)
    show "\<exists>c. wt_current_node_id v = Some c \<and> norm_ok c"
      using assms(9) tree_wf_ids [OF assms(1)] by (auto simp: tree_ids_def)
    show "list_all has_no_parent (wt_nodes v) \<longrightarrow> length (wt_nodes v) = 1"
      unfolding assms(3) par using w(1) by (simp add: tree_ok_def fields_ok_def)
  qed (use w(1) a assms in \<open>simp_all add: tree_ok_def fields_ok_def\<close>)
  with assms(16) have "tree_ok v" by (simp add: tree_ok_def)
  moreover have "distinct (map n_id (wt_nodes v))" unfolding assms(3) ids by (rule w(2))
  moreover have "tree_ids v = tree_ids w" using assms(2,3) by (rule safe_edit_ids)
  moreover have "wt_root_node_id v \<in> Some ` tree_ids w" "wt_current_node_id v \<in> Some ` tree_ids w"
    "\<forall>n\<in>set (wt_nodes v). n_parent_node_id n \<in> insert None (Some ` tree_ids w)"
    using assms(1,2,3,8,9) by (auto simp: tree_wf_def safe_edit_def)
  ultimately show ?thesis using w(3) a assms(3,17) by (simp add: tree_wf_def)
qed


section \<open>The normalized state\<close>

lemma norm_ok_continue: "norm_ok i \<Longrightarrow> norm_ok (lit ''continue:'' @ i)"
  by (rule norm_ok_prefix) (simp_all add: is_space_def)

lemma norm_opt_fix: "norm_opt v = v \<Longrightarrow> v = None \<or> (\<exists>s. v = Some s \<and> norm_ok s)"
  by (cases v) (auto dest: norm_opt_Some)

lemma norm_opt_or: "norm_opt a = a \<Longrightarrow> norm_opt b = b \<Longrightarrow> norm_opt (opt_or a b) = opt_or a b"
  using norm_opt_fix [of a] by auto

lemma node_ok_status [simp]:
  "node_ok (n\<lparr>n_status := st\<rparr>) = node_ok n" "node_ok (n\<lparr>n_updated_at := t\<rparr>) = node_ok n"
  "node_ok (n\<lparr>n_execution_summary := es\<rparr>) = node_ok n"
  "node_ok (n\<lparr>n_failure_summary := fs\<rparr>) = node_ok n"
  "node_ok (n\<lparr>n_produced_evidence_refs := rf\<rparr>) = node_ok n"
  "node_ok (n\<lparr>n_phase := ph\<rparr>) = node_ok n"
  by (simp_all add: node_ok_def)

lemma start_current_keys [simp]:
  "n_parent_node_id (start_current_node now st i n) = n_parent_node_id n"
  "n_id (start_current_node now st i n) = n_id n"
  "n_recovery_anchor (start_current_node now st i n) = n_recovery_anchor n"
  by (simp_all add: start_current_node_def)

lemma first_such_id:
  "distinct (map n_id ns) \<Longrightarrow> n \<in> set ns \<Longrightarrow> n_id n = i \<Longrightarrow>
     first_such (\<lambda>m. n_id m = i) ns = Some n"
  by (induction ns) force+

lemma start_current_safe: "tree_wf w \<Longrightarrow> safe_edit w (start_current_node now st i)"
  using tree_wf_nodes by (simp add: safe_edit_def start_current_node_def)

definition normalized_payload :: "env \<Rightarrow> work_tree \<Rightarrow> ustr \<Rightarrow> work_tree_node \<Rightarrow> work_tree" where
  "normalized_payload e w task_id current =
     w\<lparr>wt_task_id := Some task_id,
        wt_current_node_id := Some (n_id current),
        wt_nodes := map (start_current_node (now_of e) (wt_status w) (n_id current)) (wt_nodes w),
        wt_active_path_node_ids := work_tree_active_path_node_ids w (Some (n_id current)),
        wt_loaded_node_ids := map n_id (wt_nodes w),
        wt_recovery_anchor := opt_or (n_recovery_anchor current) (wt_recovery_anchor w),
        wt_pc_memo := opt_or (wt_pc_memo w) (Some (lit ''continue:'' @ n_id current)),
        wt_status := (if wt_status w = TPlanned then TActive else wt_status w),
        wt_updated_at := now_of e\<rparr>"

lemma normalized_payload_wf:
  assumes w: "tree_wf w" and t: "norm_ok task_id" and c: "current \<in> set (wt_nodes w)"
  shows "tree_wf (normalized_payload e w task_id current)"
proof -
  have i: "norm_ok (n_id current)" using tree_wf_ids [OF w c] .
  note path = active_path_props [OF tree_wf_lookup [OF w c] norm_ok_nonempty [OF i]]
  have a: "norm_opt (n_recovery_anchor current) = n_recovery_anchor current"
    "norm_opt (wt_recovery_anchor w) = wt_recovery_anchor w" "norm_opt (wt_pc_memo w) = wt_pc_memo w"
    "norm_ok (wt_id w)" "0 < wt_version_counter w" "distinct (map n_id (wt_nodes w))"
    using w c by (simp_all add: tree_wf_def tree_ok_def fields_ok_def)
  show ?thesis
  proof (rule tree_wf_edit [OF w start_current_safe [OF w], of _ "now_of e" "wt_status w" "n_id current"])
    show "norm_list_ok (wt_loaded_node_ids (normalized_payload e w task_id current))"
      using a(6) by (auto simp: normalized_payload_def tree_ids_def intro!: tree_wf_norm_list [OF w])
    show "norm_list_ok (wt_active_path_node_ids (normalized_payload e w task_id current))"
      using path by (simp add: normalized_payload_def tree_wf_norm_list [OF w])
    have "first_such (\<lambda>n. n_id n = n_id current) (wt_nodes (normalized_payload e w task_id current)) =
        Some (start_current_node (now_of e) (wt_status w) (n_id current) current)"
      by (rule first_such_id) (use c a(6) in \<open>auto simp: normalized_payload_def comp_def\<close>)
    then show "settled_anchor (normalized_payload e w task_id current) =
        wt_recovery_anchor (normalized_payload e w task_id current)"
      using norm_opt_fix [OF a(1)]
      by (auto simp: normalized_payload_def settled_anchor_def split: option.split)
  qed (use a i t c path tree_wf_nonempty [OF w] in
        \<open>simp_all add: normalized_payload_def norm_opt_or norm_ok_continue tree_ids_def\<close>)
qed

lemma normalized_work_tree_eq:
  assumes w: "tree_wf w" and t: "norm_ok task_id" and c: "current \<in> set (wt_nodes w)"
  shows "normalized_work_tree e w task_id current = normalized_payload e w task_id current"
proof -
  note path = active_path_props [OF tree_wf_lookup [OF w c] norm_ok_nonempty [OF tree_wf_ids [OF w c]]]
  have "normalized_work_tree e w task_id current =
      validate_tree (dg_of e) (now_of e) (normalized_payload e w task_id current)"
    using path by (simp add: normalized_work_tree_def normalized_payload_def list_or_def)
  also have "\<dots> = normalized_payload e w task_id current"
    by (intro validate_tree_id tree_wf_ok normalized_payload_wf [OF assms])
  finally show ?thesis .
qed

definition protocol_wf :: "takeover_protocol \<Rightarrow> bool" where
  "protocol_wf p \<longleftrightarrow> (\<exists>w. p_work_tree p = Some w \<and> tree_wf w)"

lemma protocol_wf_ok [simp]: "protocol_wf p \<Longrightarrow> protocol_ok p"
  by (auto simp: protocol_wf_def protocol_ok_def)

lemma protocol_wf_validate: "p_work_tree p = Some w \<Longrightarrow> tree_wf w \<Longrightarrow> validate_protocol dg now p = p"
  by (simp add: protocol_ok_def)

text \<open>The normalized state of a well-formed protocol, written out.\<close>

lemma normalize_wf:
  assumes p: "p_work_tree p = Some w" and w: "tree_wf w" and t: "norm_ok task_id"
    and c: "current_node_of_tree w = Some current"
  shows "normalize_runtime_state e p task_id run_id stack =
     (let v = normalized_payload e w task_id current in
      (p\<lparr>p_status := protocol_status_from_work_tree_status (wt_status v) (p_status p),
         p_current_phase := (if wt_status v \<in> {TAwaitingApproval, TCompleted} then PhDeliver
                             else PhExecute),
         p_work_tree := Some v\<rparr>,
       Some (normalized_stack e stack task_id run_id
               (path_frames stack None 0 (path_nodes w v current)))))"
proof -
  note eq = normalized_work_tree_eq [OF w t current_node_mem [OF c], of e]
  note wf = normalized_payload_wf [OF w t current_node_mem [OF c], of e]
  show ?thesis
    using p c wf by (simp add: normalize_runtime_state_def protocol_tree_def Let_def eq
        protocol_wf_validate [where w = "normalized_payload e w task_id current"])
qed

section \<open>A sample protocol\<close>

text \<open>A root with two children, of which the first is current; the witnesses run on it.\<close>

definition sample_node ::
  "string \<Rightarrow> string option \<Rightarrow> string list \<Rightarrow> node_status \<Rightarrow> work_tree_node" where
  "sample_node i parent children st =
     validate_node ((new_node 0 (lit i) (lit i) Executing)
       \<lparr>n_parent_node_id := map_option lit parent, n_child_node_ids := map lit children,
        n_status := st\<rparr>)"

definition sample_tree :: "node_status \<Rightarrow> node_status \<Rightarrow> node_status \<Rightarrow> string \<Rightarrow> work_tree" where
  "sample_tree sr sa sb current =
     \<lparr>wt_version = lit ''0.2.0'', wt_id = lit ''w'', wt_task_id = Some (lit ''t''),
      wt_root_node_id = Some (lit ''r''), wt_root_objective = lit ''o'', wt_status = TActive,
      wt_current_node_id = Some (lit current),
      wt_nodes = [sample_node ''r'' None [''a'', ''b''] sr, sample_node ''a'' (Some ''r'') [] sa,
                  sample_node ''b'' (Some ''r'') [] sb],
      wt_loaded_node_ids = map lit [''r'', ''a'', ''b''],
      wt_active_path_node_ids = [lit ''r''], wt_index_map_refs = [], wt_pc_memo = None,
      wt_recovery_anchor = None, wt_entropy_budget_remaining = 0, wt_version_counter = 1,
      wt_updated_at = 0\<rparr>"

definition sample_metrics :: takeover_metrics where
  "sample_metrics =
     \<lparr>m_plan_quality_score = 0, m_rework_count = 0, m_rework_rate = 0,
      m_clarification_needed = False, m_plan_confirmation_needed = False,
      m_plan_confirmed = False, m_delivery_completeness_score = 0,
      m_verification_pass_rate = 0\<rparr>"

definition sample_protocol :: "work_tree option \<Rightarrow> takeover_protocol" where
  "sample_protocol w =
     \<lparr>p_id = lit ''p'', p_version = lit ''0.2.0'', p_task_id = lit ''t'',
      p_task_type = lit ''k'', p_run_type = lit ''main'', p_current_phase = PhExecute,
      p_status = PExecuting, p_objective = lit ''o'', p_objective_summary = lit ''o'',
      p_ambiguities = [], p_constraints = [], p_plan = [], p_work_tree = w,
      p_delivery_sections = [], p_verification_items = [], p_metrics = sample_metrics,
      p_applied_modules = [], p_hook_trace = []\<rparr>"

definition sample_env :: env where
  "sample_env =
     \<lparr>dg_of = (\<lambda>_. lit ''digest''), sid_of = (\<lambda>p parts. join (lit ''-'') (lit p # parts)),
      now_of = 5\<rparr>"

lemma sample_node_keys:
  "i \<noteq> [] \<Longrightarrow> \<not> is_space (of_char (hd i)) \<Longrightarrow> \<not> is_space (of_char (last i)) \<Longrightarrow>
     n_id (sample_node i p cs st) = lit i"
  "n_parent_node_id (sample_node i p cs st) = map_option lit p"
  "n_status (sample_node i p cs st) = st"
  "n_recovery_anchor (sample_node i p cs st) = None"
  by (simp_all add: sample_node_def new_node_def norm_ok_lit)

lemma sample_node_ok: "node_ok (sample_node i p cs st)"
  unfolding sample_node_def by (rule validate_node_ok) (simp_all add: new_node_def)

lemma sample_tree_wf:
  "c = ''r'' \<or> c = ''a'' \<or> c = ''b'' \<Longrightarrow> tree_wf (sample_tree sr sa sb c)"
  by (auto simp: tree_wf_def tree_ok_def fields_ok_def settled_anchor_def tree_ids_def sample_tree_def sample_node_ok sample_node_keys
      norm_ok_lit is_space_def norm_list_ok_def has_no_parent_def)

section \<open>The frames follow the path\<close>

text \<open>A chain of frames: linked, numbered, the last one active and every other suspended.\<close>

fun frame_chain :: "ustr option \<Rightarrow> nat \<Rightarrow> work_context_frame list \<Rightarrow> bool" where
  "frame_chain parent depth [] \<longleftrightarrow> True"
| "frame_chain parent depth (f # fs) \<longleftrightarrow>
     f_parent_frame_id f = parent \<and> f_stack_depth f = int depth
     \<and> f_status f = (if fs = [] then FActive else FSuspended)
     \<and> frame_chain (Some (f_id f)) (Suc depth) fs"

definition stack_option_ok :: "work_context_stack option \<Rightarrow> bool" where
  "stack_option_ok stack \<longleftrightarrow> (\<forall>s. stack = Some s \<longrightarrow> stack_ok s)"

lemma existing_frame_ok:
  "stack_option_ok stack \<Longrightarrow> existing_frame stack i = Some f \<Longrightarrow> frame_ok f"
  by (auto simp: existing_frame_def stack_option_ok_def stack_ok_def split: option.splits
      dest!: index_by_Some)

lemma norm_ok_frame: "norm_ok i \<Longrightarrow> norm_ok (lit ''frame-'' @ i)"
  by (rule norm_ok_prefix) (simp_all add: is_space_def)

lemma validate_frame_keys:
  "norm_ok (f_id f) \<Longrightarrow> f_id (validate_frame dg f) = f_id f"
  "norm_ok (f_node_id f) \<Longrightarrow> f_node_id (validate_frame dg f) = f_node_id f"
  "f_parent_frame_id (validate_frame dg f) = f_parent_frame_id f"
  "f_stack_depth (validate_frame dg f) = f_stack_depth f"
  "f_status (validate_frame dg f) = f_status f"
  "f_cursor_state (validate_frame dg f) = f_cursor_state f"
  "f_child_completion_summaries (validate_frame dg f) = f_child_completion_summaries f"
  by (simp_all add: validate_frame_def Let_def frame_id_def frame_node_id_def)

lemma frame_chain_validate:
  "\<forall>f\<in>set fs. norm_ok (f_id f) \<Longrightarrow>
     frame_chain p d (map (validate_frame dg) fs) = frame_chain p d fs"
  by (induction fs arbitrary: p d) (simp_all add: validate_frame_keys)

lemma path_frames_ids:
  assumes "stack_option_ok stack" "\<forall>n\<in>set ns. norm_ok (n_id n)"
  shows "\<forall>f\<in>set (path_frames stack p d ns). norm_ok (f_id f)"
  using assms(2)
proof (induction ns arbitrary: p d)
  case (Cons n ns)
  then have "norm_ok (n_id n)" by simp
  then have "norm_ok (str_or (f_id (case existing_frame stack (n_id n) of Some f \<Rightarrow> f
        | None \<Rightarrow> blank_frame)) (lit ''frame-'' @ n_id n))"
    using existing_frame_ok [OF assms(1), of "n_id n"]
    by (auto simp: str_or_def blank_frame_def norm_ok_frame frame_ok_def split: option.split)
  with Cons show ?case by (simp add: Let_def)
qed simp

lemma path_frames_nodes: "map f_node_id (path_frames stack p d ns) = map n_id ns"
  by (induction ns arbitrary: p d) (simp_all add: Let_def)

lemma path_frames_Nil [simp]: "path_frames stack p d ns = [] \<longleftrightarrow> ns = []"
  by (cases ns) (simp_all add: Let_def)

lemma path_frames_chain: "frame_chain p d (path_frames stack p d ns)"
  by (induction ns arbitrary: p d) (simp_all add: Let_def)

lemma map_filter_lookup:
  "tree_wf w \<Longrightarrow> set ids \<subseteq> tree_ids w \<Longrightarrow> map n_id (List.map_filter (node_by_id w) ids) = ids"
proof (induction ids)
  case (Cons i ids)
  then obtain n where "node_by_id w i = Some n" using node_by_id_None [of w i] by auto
  with Cons show ?case by (simp add: List.map_filter_simps node_by_id_Some)
qed (simp add: List.map_filter_simps)

lemma path_nodes_ids:
  assumes w: "tree_wf w" and c: "current_node_of_tree w = Some current"
  shows "map n_id (path_nodes w (normalized_payload e w task_id current) current) =
    work_tree_active_path_node_ids w (Some (n_id current))"
proof -
  note m = current_node_mem [OF c]
  note path = active_path_props [OF tree_wf_lookup [OF w m] norm_ok_nonempty [OF tree_wf_ids [OF w m]]]
  let ?ids = "work_tree_active_path_node_ids w (Some (n_id current))"
  have ids: "map n_id (List.map_filter (node_by_id w) ?ids) = ?ids"
    using map_filter_lookup [OF w] path by blast
  then have "List.map_filter (node_by_id w) ?ids \<noteq> []" using path by (metis list.map(1))
  with ids show ?thesis by (simp add: path_nodes_def normalized_payload_def list_or_def)
qed

lemma normalized_stack_simps [simp]:
  "s_frames (normalized_stack e stack t r fs) = map (validate_frame (dg_of e)) fs"
  by (simp add: normalized_stack_def)

lemma validate_stack_tops:
  "norm_ok (s_top_frame_id s) \<Longrightarrow> s_top_frame_id (validate_stack dg s) = s_top_frame_id s"
  "norm_ok (s_root_frame_id s) \<Longrightarrow> s_root_frame_id (validate_stack dg s) = s_root_frame_id s"
  by (simp_all add: validate_stack_def Let_def)

lemma normalized_stack_tops:
  assumes "\<forall>f\<in>set fs. norm_ok (f_id f)" "fs \<noteq> []"
  shows "s_top_frame_id (normalized_stack e stack t r fs) = f_id (last fs)"
    and "s_root_frame_id (normalized_stack e stack t r fs) = f_id (hd fs)"
  using assms by (simp_all add: normalized_stack_def validate_stack_tops)

lemma parent_chain_cong:
  "(\<And>i. i \<in> set ids \<Longrightarrow> Option.bind (node_by_id v i) n_parent_node_id =
      Option.bind (node_by_id w i) n_parent_node_id) \<Longrightarrow> parent_chain v ids = parent_chain w ids"
  by (induction ids rule: parent_chain.induct) auto

lemma normalized_lookup:
  assumes "tree_wf w"
  shows "node_by_id (normalized_payload e w t c) i =
    map_option (start_current_node (now_of e) (wt_status w) (n_id c)) (node_by_id w i)"
  by (rule safe_edit_lookup [OF start_current_safe [OF assms]]) (simp add: normalized_payload_def)

lemma normalized_parents:
  "tree_wf w \<Longrightarrow> Option.bind (node_by_id (normalized_payload e w t c) i) n_parent_node_id =
     Option.bind (node_by_id w i) n_parent_node_id"
  by (cases "node_by_id w i") (simp_all add: normalized_lookup)

text \<open>C5: Normalizing the runtime state of a well-formed protocol gives a well-formed tree
  whose current node is one of its nodes and ends the active path; each node of the path has
  the one before it as its parent; and the stack has exactly one frame per node of the path,
  linked in order, the last one active and on top, every other suspended.\<close>

theorem normalized_frames_follow_path:
  assumes "p_work_tree p = Some w" and "tree_wf w" and "norm_ok task_id"
    and "stack_option_ok stack"
  shows "\<exists>q v s current. normalize_runtime_state e p task_id run_id stack = (q, Some s)
    \<and> p_work_tree q = Some v \<and> tree_wf v
    \<and> current \<in> set (wt_nodes v) \<and> wt_current_node_id v = Some (n_id current)
    \<and> last (wt_active_path_node_ids v) = n_id current
    \<and> parent_chain v (wt_active_path_node_ids v)
    \<and> map f_node_id (s_frames s) = wt_active_path_node_ids v
    \<and> frame_chain None 0 (s_frames s)
    \<and> s_top_frame_id s = f_id (last (s_frames s)) \<and> s_root_frame_id s = f_id (hd (s_frames s))"
proof -
  obtain c where c: "current_node_of_tree w = Some c"
    using current_node_ex [OF tree_wf_nonempty [OF assms(2)]] by blast
  note m = current_node_mem [OF c]
  let ?v = "normalized_payload e w task_id c"
  let ?fs = "path_frames stack None 0 (path_nodes w ?v c)"
  note lk = tree_wf_lookup [OF assms(2) m]
  note path = active_path_props [OF lk norm_ok_nonempty [OF tree_wf_ids [OF assms(2) m]]]
  have ids: "map n_id (path_nodes w ?v c) = wt_active_path_node_ids ?v"
    using path_nodes_ids [OF assms(2) c] by (simp add: normalized_payload_def)
  have v: "wt_current_node_id ?v = Some (n_id c)"
    "wt_active_path_node_ids ?v = work_tree_active_path_node_ids w (Some (n_id c))"
    by (simp_all add: normalized_payload_def)
  have "\<forall>i\<in>set (wt_active_path_node_ids ?v). norm_ok i"
    using path v tree_wf_ids [OF assms(2)] by (auto simp: tree_ids_def)
  then have "\<forall>n\<in>set (path_nodes w ?v c). norm_ok (n_id n)"
    unfolding ids [symmetric] by simp
  then have fid: "\<forall>f\<in>set ?fs. norm_ok (f_id f)" "\<forall>n\<in>set (path_nodes w ?v c). norm_ok (n_id n)"
    using path_frames_ids [OF assms(4)] by blast+
  have ne: "?fs \<noteq> []" using ids path v by (metis list.map(1) path_frames_Nil)
  have nid: "map f_node_id ?fs = wt_active_path_node_ids ?v" by (simp add: path_frames_nodes ids)
  have "\<forall>f\<in>set ?fs. norm_ok (f_node_id f)"
    using fid(2) path_frames_nodes [of stack None 0 "path_nodes w ?v c"]
    by (metis (mono_tags, lifting) image_iff list.set_map)
  then have vn: "map f_node_id (map (validate_frame (dg_of e)) ?fs) = map f_node_id ?fs"
    by (simp add: validate_frame_keys)
  define s where "s = normalized_stack e stack task_id run_id ?fs"
  have s: "s_frames s = map (validate_frame (dg_of e)) ?fs"
    "s_top_frame_id s = f_id (last ?fs)" "s_root_frame_id s = f_id (hd ?fs)"
    by (simp_all add: s_def normalized_stack_tops [OF fid(1) ne])
  have tops: "f_id (last (s_frames s)) = f_id (last ?fs)" "f_id (hd (s_frames s)) = f_id (hd ?fs)"
    using fid(1) ne by (simp_all add: s last_map hd_map validate_frame_keys)
  obtain q where q: "normalize_runtime_state e p task_id run_id stack = (q, Some s)"
    "p_work_tree q = Some ?v"
    using normalize_wf [OF assms(1-3) c, of e run_id stack] by (simp add: Let_def s_def)
  have "start_current_node (now_of e) (wt_status w) (n_id c) c \<in> set (wt_nodes ?v)"
    using m by (simp add: normalized_payload_def)
  moreover have "parent_chain ?v (wt_active_path_node_ids ?v)"
    using path v parent_chain_cong [OF normalized_parents [OF assms(2)]] by metis
  moreover have "frame_chain None 0 (s_frames s)"
    using frame_chain_validate [OF fid(1)] path_frames_chain s(1) by metis
  ultimately show ?thesis
    using q v path normalized_payload_wf [OF assms(2,3) m] s tops nid vn
    by (intro exI [of _ q] exI [of _ ?v] exI [of _ s]
        exI [of _ "start_current_node (now_of e) (wt_status w) (n_id c) c"]) simp
qed


theorem normalized_frames_follow_path_witness:
  "\<exists>q v s. normalize_runtime_state sample_env
        (sample_protocol (Some (sample_tree NInProgress NPending NPending ''a'')))
        (lit ''t'') (lit ''run'') None = (q, Some s)
     \<and> p_work_tree q = Some v \<and> tree_wf v \<and> frame_chain None 0 (s_frames s)"
proof -
  have w: "tree_wf (sample_tree NInProgress NPending NPending ''a'')"
    by (rule sample_tree_wf) simp
  have t: "norm_ok (lit ''t'')" by (rule norm_ok_lit) (simp_all add: is_space_def)
  have "p_work_tree (sample_protocol (Some (sample_tree NInProgress NPending NPending ''a''))) =
      Some (sample_tree NInProgress NPending NPending ''a'')" by (simp add: sample_protocol_def)
  from normalized_frames_follow_path [OF this w t, of None sample_env "lit ''run''"]
  show ?thesis by (auto simp: stack_option_ok_def)
qed

section \<open>Properties of the gate, the stack and the published pointers\<close>

lemma gate_status:
  "p_status (enforce_takeover_confirmation_gate p r) =
     (if is_takeover_plan_confirmed r
      then (if p_status p = PNeedsClarification then PPrepared else p_status p)
      else if takeover_confirmation_required r then PNeedsClarification else p_status p)"
  by (simp add: enforce_takeover_confirmation_gate_def Let_def)

text \<open>The confirmation gate is idempotent, and it lets a run execute only when the plan is
  confirmed or no confirmation is required; a confirmed plan never stays in the
  needs-clarification state.\<close>

theorem confirmation_gate_safe:
  "enforce_takeover_confirmation_gate (enforce_takeover_confirmation_gate p r) r =
     enforce_takeover_confirmation_gate p r
   \<and> \<not> (p_status (enforce_takeover_confirmation_gate p r) \<noteq> PNeedsClarification
        \<and> takeover_confirmation_required r \<and> \<not> is_takeover_plan_confirmed r)
   \<and> \<not> (p_status (enforce_takeover_confirmation_gate p r) = PNeedsClarification
        \<and> is_takeover_plan_confirmed r)
   \<and> m_plan_confirmation_needed (p_metrics (enforce_takeover_confirmation_gate p r)) =
       (takeover_confirmation_required r \<and> \<not> is_takeover_plan_confirmed r)"
proof (intro conjI)
  show "enforce_takeover_confirmation_gate (enforce_takeover_confirmation_gate p r) r =
     enforce_takeover_confirmation_gate p r"
    by (simp add: enforce_takeover_confirmation_gate_def Let_def has_required_takeover_ambiguity_def)
qed (auto simp: gate_status enforce_takeover_confirmation_gate_def Let_def)

lemma set_last_last: "xs \<noteq> [] \<Longrightarrow> last (set_last g xs) = g (last xs)"
  by (simp add: set_last_def)

lemma length_set_last [simp]: "length (set_last g xs) = length xs"
  by (simp add: set_last_def)

lemma set_last_Nil [simp]: "set_last g xs = [] \<longleftrightarrow> xs = []"
  by (simp add: set_last_def)

lemma set_last_twice: "set_last g (set_last h xs) = set_last (g \<circ> h) xs"
  by (simp add: set_last_def)

lemma set_last_mem: "y \<in> set (set_last g xs) \<Longrightarrow> y \<in> set xs \<or> (\<exists>x\<in>set xs. y = g x)"
  by (auto simp: set_last_def split: if_splits dest: in_set_butlastD)

lemma frame_ok_update [simp]:
  "frame_ok (f\<lparr>f_status := st\<rparr>) = frame_ok f" "frame_ok (f\<lparr>f_cursor_state := c\<rparr>) = frame_ok f"
  "frame_ok (f\<lparr>f_child_completion_summaries := cs\<rparr>) = frame_ok f"
  by (simp_all add: frame_ok_def)

lemma validate_frames_id: "\<forall>f\<in>set fs. frame_ok f \<Longrightarrow> map (validate_frame dg) fs = fs"
  by (intro map_idI) simp

lemma frame_of_node_ok: "(\<And>j. norm_ok (dg_of e j)) \<Longrightarrow> frame_ok (frame_of_node e n p d c)"
  by (simp add: frame_of_node_def validate_frame_ok)

lemma push_frames:
  assumes "stack_ok s" "\<And>j. norm_ok (dg_of e j)"
  shows "s_frames (push_work_context_frame e s n c) =
    set_last (\<lambda>f. f\<lparr>f_status := FSuspended\<rparr>) (s_frames s) @
      [frame_of_node e n (if s_frames s = [] then None else Some (f_id (last (s_frames s))))
         (length (s_frames s)) c]"
proof -
  have ok: "\<forall>f\<in>set (set_last (\<lambda>f. f\<lparr>f_status := FSuspended\<rparr>) (s_frames s)). frame_ok f"
    using assms(1) by (auto simp: stack_ok_def dest!: set_last_mem)
  show ?thesis
    by (simp add: push_work_context_frame_def Let_def validate_frames_id [OF ok] set_last_last
        frame_of_node_ok [OF assms(2)])
qed

lemma pop_frames:
  assumes "stack_ok s" "2 \<le> length (s_frames s)"
  shows "s_frames (pop_work_context_frame e s c) =
    set_last (\<lambda>f. f\<lparr>f_status := FActive, f_cursor_state := c\<rparr>) (butlast (s_frames s))"
    and "s_top_frame_id (pop_work_context_frame e s c) = f_id (last (butlast (s_frames s)))"
proof -
  have ne: "butlast (s_frames s) \<noteq> []" using assms(2) by (cases "s_frames s") auto
  have ok: "\<forall>f\<in>set (set_last (\<lambda>f. f\<lparr>f_status := FActive, f_cursor_state := c\<rparr>)
      (butlast (s_frames s))). frame_ok f"
    using assms(1) by (auto simp: stack_ok_def dest!: set_last_mem in_set_butlastD)
  show "s_frames (pop_work_context_frame e s c) =
    set_last (\<lambda>f. f\<lparr>f_status := FActive, f_cursor_state := c\<rparr>) (butlast (s_frames s))"
    using assms(2) by (simp add: pop_work_context_frame_def Let_def validate_frames_id [OF ok])
  have "frame_ok (last (butlast (s_frames s)))"
    using assms(1) last_in_set [OF ne] by (auto simp: stack_ok_def dest: in_set_butlastD)
  then show "s_top_frame_id (pop_work_context_frame e s c) = f_id (last (butlast (s_frames s)))"
    using assms(2) ne by (simp add: pop_work_context_frame_def Let_def validate_stack_tops
        set_last_last frame_ok_def)
qed

lemma push_ok: "(\<And>j. norm_ok (dg_of e j)) \<Longrightarrow> stack_ok (push_work_context_frame e s n c)"
  by (simp add: push_work_context_frame_def Let_def validate_stack_ok)

text \<open>Popping the frame a push has put on a non-empty stack gives the frames back, in
  order, with the former top frame on top again, active, and carrying the new cursor; no other
  frame changes.\<close>

theorem push_pop_roundtrip:
  assumes "stack_ok s" and "s_frames s \<noteq> []" and "\<And>j. norm_ok (dg_of e j)"
  shows "s_frames (pop_work_context_frame e (push_work_context_frame e s n c) c') =
      set_last (\<lambda>f. f\<lparr>f_status := FActive, f_cursor_state := c'\<rparr>) (s_frames s)
    \<and> s_top_frame_id (pop_work_context_frame e (push_work_context_frame e s n c) c') =
        f_id (last (s_frames s))"
proof -
  note push = push_frames [OF assms(1,3)]
  have two: "2 \<le> length (s_frames (push_work_context_frame e s n c))"
    using assms(2) by (cases "s_frames s") (simp_all add: push)
  have b: "butlast (s_frames (push_work_context_frame e s n c)) =
      set_last (\<lambda>f. f\<lparr>f_status := FSuspended\<rparr>) (s_frames s)" by (simp add: push butlast_append)
  show ?thesis
    using pop_frames [OF push_ok [OF assms(3)] two] assms(2)
    by (simp add: b set_last_twice set_last_last comp_def)
qed

definition sample_stack :: work_context_stack where
  "sample_stack = push_work_context_frame sample_env blank_stack
     (sample_node ''r'' None [] NInProgress) None"

lemma sample_digest: "norm_ok (dg_of sample_env j)"
  by (simp add: sample_env_def norm_ok_lit is_space_def)

lemma sample_stack_frames: "s_frames sample_stack \<noteq> []"
  by (simp add: sample_stack_def push_work_context_frame_def Let_def)

theorem push_pop_roundtrip_witness:
  "s_top_frame_id (pop_work_context_frame sample_env (push_work_context_frame sample_env sample_stack
       (sample_node ''a'' (Some ''r'') [] NPending) None) (Some (lit ''back''))) =
     f_id (last (s_frames sample_stack))"
  using push_pop_roundtrip [of sample_stack sample_env] sample_stack_frames sample_digest
  by (simp add: sample_stack_def push_ok)

text \<open>The digest of a stack does not follow its frames: pushing a frame changes the list of
  frame ids the digest is computed from, and the stored digest stays the old one.\<close>

theorem push_keeps_stale_digest:
  assumes "stack_ok s" and "\<And>j. norm_ok (dg_of e j)"
  shows "s_stack_digest (push_work_context_frame e s n c) = s_stack_digest s
    \<and> map f_id (s_frames (push_work_context_frame e s n c)) \<noteq> map f_id (s_frames s)"
proof
  show "s_stack_digest (push_work_context_frame e s n c) = s_stack_digest s"
    using assms(1) by (simp add: push_work_context_frame_def Let_def validate_stack_def stack_ok_def)
  have "length (s_frames (push_work_context_frame e s n c)) = Suc (length (s_frames s))"
    by (simp add: push_frames [OF assms])
  then show "map f_id (s_frames (push_work_context_frame e s n c)) \<noteq> map f_id (s_frames s)"
    by (metis length_map n_not_Suc_n)
qed

theorem push_keeps_stale_digest_witness:
  "s_stack_digest (push_work_context_frame sample_env sample_stack
     (sample_node ''a'' (Some ''r'') [] NPending) None) = s_stack_digest sample_stack"
  using push_keeps_stale_digest [of sample_stack sample_env] sample_digest
  by (simp add: sample_stack_def push_ok)

lemma normalize_some:
  assumes "p_work_tree p = Some w" "tree_wf w" "norm_ok task_id"
  obtains q v s where "normalize_runtime_state e p task_id run_id stack = (q, Some s)"
    "p_work_tree q = Some v" "tree_wf v"
proof -
  obtain c where c: "current_node_of_tree w = Some c"
    using current_node_ex [OF tree_wf_nonempty [OF assms(2)]] by blast
  show thesis
    using normalize_wf [OF assms c, of e run_id stack]
      normalized_payload_wf [OF assms(2,3) current_node_mem [OF c], of e] that
    by (auto simp: Let_def)
qed

text \<open>After a sync that produced a state, the request, the root mount and the task runtime
  state all name the current node, the memo, the annotation, the top frame and the digest of
  the normalized protocol and stack.\<close>

theorem synced_pointers_agree:
  assumes "sync_takeover_runtime_state e request (Some mount) p task_id run_id focus stack =
      ((Some q, Some s), request', Some mount')"
    and "rq_task_runtime_state request \<noteq> None" and "p_work_tree q = Some w"
  shows "\<exists>ts. rq_task_runtime_state request' = Some ts
    \<and> pt_current_node_id request' = wt_current_node_id w
    \<and> pt_current_node_id mount' = wt_current_node_id w
    \<and> pt_current_node_id ts = wt_current_node_id w
    \<and> pt_pc_memo request' = wt_pc_memo w \<and> pt_pc_memo mount' = wt_pc_memo w
    \<and> pt_pc_memo ts = wt_pc_memo w
    \<and> pt_working_node_annotation request' = pt_working_node_annotation ts
    \<and> pt_working_node_annotation mount' = pt_working_node_annotation ts
    \<and> rq_takeover_protocol request' = Some q \<and> ts_takeover_protocol ts = Some q
    \<and> rq_work_context_stack request' = Some s \<and> ts_work_context_stack ts = Some s
    \<and> rq_top_frame_id request' = Some (s_top_frame_id s)
    \<and> rm_top_frame_id mount' = Some (s_top_frame_id s)
    \<and> rq_stack_digest request' = Some (s_stack_digest s)
    \<and> pt_current_focus mount' = pt_current_focus request'"
proof -
  obtain ts where ts: "rq_task_runtime_state request = Some ts" using assms(2) by blast
  obtain np ns where n: "normalize_takeover_runtime_state e p task_id run_id
      (case stack of Some s \<Rightarrow> Some s | None \<Rightarrow> rq_work_context_stack request) = (np, ns)"
    by fastforce
  have "np = Some q \<and> ns = Some s"
    using assms(1) ts n
    by (auto simp: sync_takeover_runtime_state_def Let_def split: option.splits)
  with assms(1,3) ts n show ?thesis
    by (auto simp: sync_takeover_runtime_state_def sync_pointers_def Let_def)
qed


definition sample_request :: run_request where
  "sample_request =
     \<lparr>pt_current_node_id = None, pt_working_node_annotation = None, pt_pc_memo = None,
      pt_current_focus = None, rq_top_frame_id = None, rq_stack_digest = None,
      rq_takeover_protocol = None, rq_work_context_stack = None, rq_memory_node_id = None,
      rq_task_runtime_state = Some
        \<lparr>pt_current_node_id = None, pt_working_node_annotation = None, pt_pc_memo = None,
         pt_current_focus = None, ts_takeover_protocol = None, ts_work_context_stack = None\<rparr>\<rparr>"

definition sample_mount :: root_mount where
  "sample_mount =
     \<lparr>pt_current_node_id = None, pt_working_node_annotation = None, pt_pc_memo = None,
      pt_current_focus = None, rm_top_frame_id = None, rm_stack_digest = None\<rparr>"

theorem synced_pointers_agree_witness:
  "\<exists>q w s request' mount' ts.
     sync_takeover_runtime_state sample_env sample_request (Some sample_mount)
       (Some (sample_protocol (Some (sample_tree NInProgress NPending NPending ''a''))))
       (lit ''t'') (lit ''run'') None None = ((Some q, Some s), request', Some mount')
     \<and> p_work_tree q = Some w \<and> rq_task_runtime_state request' = Some ts
     \<and> pt_current_node_id request' = wt_current_node_id w
     \<and> pt_current_node_id mount' = pt_current_node_id ts"
proof -
  let ?p = "sample_protocol (Some (sample_tree NInProgress NPending NPending ''a''))"
  have p: "p_work_tree ?p = Some (sample_tree NInProgress NPending NPending ''a'')"
    by (simp add: sample_protocol_def)
  have w: "tree_wf (sample_tree NInProgress NPending NPending ''a'')"
    by (rule sample_tree_wf) simp
  have t: "norm_ok (lit ''t'')" by (rule norm_ok_lit) (simp_all add: is_space_def)
  have r: "rq_task_runtime_state sample_request \<noteq> None" "rq_work_context_stack sample_request = None"
    by (simp_all add: sample_request_def)
  obtain q v s where n: "normalize_runtime_state sample_env ?p (lit ''t'') (lit ''run'') None = (q, Some s)"
    and q: "p_work_tree q = Some v" using normalize_some [OF p w t] by metis
  then obtain request' mount' where sync: "sync_takeover_runtime_state sample_env sample_request
      (Some sample_mount) (Some ?p) (lit ''t'') (lit ''run'') None None =
      ((Some q, Some s), request', Some mount')"
    using r by (auto simp: sync_takeover_runtime_state_def normalize_takeover_runtime_state_def Let_def)
  from synced_pointers_agree [OF this r(1) q] obtain ts where
    "rq_task_runtime_state request' = Some ts" "pt_current_node_id request' = wt_current_node_id v"
    "pt_current_node_id mount' = pt_current_node_id ts" by auto
  with sync q show ?thesis by (intro exI conjI)
qed

end
