(* ===== verification/TakeoverOps.thy ===== *)
theory TakeoverOps
  imports TakeoverState
begin

text \<open>
  The operations of \<open>runtime_kernel/takeover.py\<close> that move a takeover on: bootstrapping it
  for a work node, switching, updating, creating, completing, failing and skipping nodes,
  merging a child's result, advancing after a delivery, approving and reopening. Each takes
  the protocol and the stack and returns them changed, or the exception it raises.

  Evidence references are the typed \<open>EntityRef\<close>s of the contract. \<open>f"..."\<close> texts are
  written out; of the long message about unfinished descendants only the start is kept.
\<close>

section \<open>Switching the current node\<close>

definition no_tree_error :: py_error where
  "no_tree_error = ValueError (lit ''Takeover protocol does not have a work tree.'')"

definition unknown_node_error :: "ustr \<Rightarrow> py_error" where
  "unknown_node_error i = KeyError (lit ''Unknown work-tree node: '' @ i)"

definition start_if_waiting :: "nat \<Rightarrow> ustr \<Rightarrow> work_tree_node \<Rightarrow> work_tree_node" where
  "start_if_waiting now i n =
     (if n_id n = i \<and> n_status n \<in> {NPending, NBlocked}
      then n\<lparr>n_status := NInProgress, n_updated_at := now\<rparr> else n)"

definition switched_tree :: "env \<Rightarrow> work_tree \<Rightarrow> work_tree_node \<Rightarrow> ustr \<Rightarrow> work_tree" where
  "switched_tree e w target node_id =
     w\<lparr>wt_nodes := map (start_if_waiting (now_of e) node_id) (wt_nodes w),
        wt_status := TActive,
        wt_current_node_id := Some node_id,
        wt_active_path_node_ids := work_tree_active_path_node_ids w (Some node_id),
        wt_pc_memo := Some (lit ''continue:'' @ node_id),
        wt_recovery_anchor := opt_or (n_recovery_anchor target) (wt_recovery_anchor w),
        wt_updated_at := now_of e\<rparr>"

text \<open>The protocol put back to executing with a new tree, and validated.\<close>

definition executing_with :: "env \<Rightarrow> takeover_protocol \<Rightarrow> work_tree \<Rightarrow> takeover_protocol" where
  "executing_with e p w =
     validate_protocol (dg_of e) (now_of e)
       (p\<lparr>p_status := PExecuting, p_current_phase := PhExecute, p_work_tree := Some w\<rparr>)"

definition switch_current_work_node ::
  "env \<Rightarrow> takeover_protocol \<Rightarrow> ustr \<Rightarrow> ustr \<Rightarrow> ustr \<Rightarrow> work_context_stack option
     \<Rightarrow> ustr option \<Rightarrow> (takeover_protocol \<times> work_context_stack) res" where
  "switch_current_work_node e p task_id run_id node_id stack cursor =
     (case p_work_tree p of
        None \<Rightarrow> Inl no_tree_error
      | Some w \<Rightarrow>
          (case node_by_id w node_id of
             None \<Rightarrow> Inl (unknown_node_error node_id)
           | Some target \<Rightarrow>
               (case normalize_runtime_state e
                       (executing_with e p (switched_tree e w target node_id)) task_id run_id stack of
                  (q, None) \<Rightarrow> Inl (ValueError (lit ''Failed to normalize work-tree runtime state.''))
                | (q, Some s) \<Rightarrow>
                    Inr (q, if cursor = None then s else update_cursor_state e s node_id cursor))))"

definition bubble_to_parent_work_node ::
  "env \<Rightarrow> takeover_protocol \<Rightarrow> ustr \<Rightarrow> ustr \<Rightarrow> work_context_stack option \<Rightarrow> ustr option
     \<Rightarrow> ustr option \<Rightarrow> (takeover_protocol \<times> work_context_stack option) res" where
  "bubble_to_parent_work_node e p task_id run_id stack node_id cursor =
     (let start = (case node_id of
            None \<Rightarrow> Inr (current_work_tree_node (Some p))
          | Some i \<Rightarrow>
              (case p_work_tree p of
                 None \<Rightarrow> Inl (AttributeError (lit ''nodes''))
               | Some w \<Rightarrow> (case node_by_id w i of
                             None \<Rightarrow> Inl (KeyError i)
                           | Some n \<Rightarrow> Inr (Some n))))
      in case start of
           Inl err \<Rightarrow> Inl err
         | Inr node \<Rightarrow>
             (case Option.bind node n_parent_node_id of
                None \<Rightarrow> Inr (normalize_runtime_state e p task_id run_id stack)
              | Some parent \<Rightarrow>
                  map_sum id (map_prod id Some)
                    (switch_current_work_node e p task_id run_id parent stack cursor)))"

section \<open>Siblings\<close>

definition list_sibling_work_nodes ::
  "takeover_protocol option \<Rightarrow> ustr option \<Rightarrow> work_tree_node list" where
  "list_sibling_work_nodes p node_id =
     (case Option.bind p p_work_tree of
        None \<Rightarrow> []
      | Some w \<Rightarrow>
          (case Option.bind (opt_or node_id (wt_current_node_id w)) (node_by_id w) of
             None \<Rightarrow> []
           | Some target \<Rightarrow>
               (case Option.bind (n_parent_node_id target) (node_by_id w) of
                  None \<Rightarrow> []
                | Some parent \<Rightarrow>
                    List.map_filter (node_by_id w)
                      (filter (\<lambda>i. i \<noteq> n_id target) (work_tree_child_ids w parent)))))"

definition pick_next_sibling_work_node ::
  "takeover_protocol option \<Rightarrow> ustr option \<Rightarrow> work_tree_node option" where
  "pick_next_sibling_work_node p node_id =
     first_with_status [NInProgress, NPending, NBlocked] (list_sibling_work_nodes p node_id)"

section \<open>Bootstrapping a takeover for one work node\<close>

definition bootstrap_node :: "nat \<Rightarrow> ustr \<Rightarrow> ustr \<Rightarrow> work_tree_node" where
  "bootstrap_node now node_id focus =
     validate_node
       ((new_node now node_id focus Coordination)
          \<lparr>n_questions_it_answers := [focus], n_node_text := focus, n_local_goal := focus,
           n_working_node_annotation := lit ''<Working_Node: '' @ node_id @ lit ''>'',
           n_status := NInProgress, n_expected_evidence := [lit ''child completion summary''],
           n_priority := 0, n_recovery_anchor := Some (lit ''resume:'' @ node_id)\<rparr>)"

definition bootstrap_protocol ::
  "env \<Rightarrow> ustr \<Rightarrow> ustr \<Rightarrow> ustr \<Rightarrow> ustr \<Rightarrow> takeover_protocol" where
  "bootstrap_protocol e task_id objective node_id focus =
     (let goal = str_or objective focus in
      validate_protocol (dg_of e) (now_of e)
        \<lparr>p_id = sid_of e ''takeover'' [task_id, node_id], p_version = lit ''0.2.0'',
         p_task_id = task_id, p_task_type = lit ''collaboration'', p_run_type = lit ''main'',
         p_current_phase = PhExecute, p_status = PExecuting, p_objective = goal,
         p_objective_summary = str_or (normalize_excerpt goal 160) focus,
         p_ambiguities = [], p_constraints = [], p_plan = [],
         p_work_tree = Some (validate_tree (dg_of e) (now_of e)
           \<lparr>wt_version = lit ''0.2.0'', wt_id = sid_of e ''worktree'' [task_id, node_id],
            wt_task_id = Some task_id, wt_root_node_id = Some node_id, wt_root_objective = goal,
            wt_status = TActive, wt_current_node_id = Some node_id,
            wt_nodes = [bootstrap_node (now_of e) node_id focus],
            wt_loaded_node_ids = [node_id], wt_active_path_node_ids = [node_id],
            wt_index_map_refs = [], wt_pc_memo = Some (lit ''continue:'' @ node_id),
            wt_recovery_anchor = Some (lit ''resume:'' @ node_id),
            wt_entropy_budget_remaining = 0, wt_version_counter = 1,
            wt_updated_at = now_of e\<rparr>),
         p_delivery_sections = [], p_verification_items = [],
         p_metrics = \<lparr>m_plan_quality_score = 0, m_rework_count = 0, m_rework_rate = 0,
           m_clarification_needed = False, m_plan_confirmation_needed = False,
           m_plan_confirmed = True, m_delivery_completeness_score = 0,
           m_verification_pass_rate = 0\<rparr>,
         p_applied_modules = [lit ''subagent-pr''], p_hook_trace = []\<rparr>)"

definition bootstrap_takeover_state_for_work_node ::
  "env \<Rightarrow> ustr \<Rightarrow> ustr \<Rightarrow> ustr \<Rightarrow> ustr \<Rightarrow> ustr option
     \<Rightarrow> (takeover_protocol \<times> work_context_stack) res" where
  "bootstrap_takeover_state_for_work_node e task_id run_id objective node_id current_focus =
     (let focus = str_or (normalize_excerpt
            (case opt_or current_focus (Some (str_or objective node_id)) of
               None \<Rightarrow> [] | Some f \<Rightarrow> f) 160) node_id
      in case normalize_runtime_state e (bootstrap_protocol e task_id objective node_id focus)
                task_id run_id None of
           (q, None) \<Rightarrow> Inl (ValueError
             (lit ''Failed to bootstrap takeover state for work tree node '' @ node_id @ lit ''.''))
         | (q, Some s) \<Rightarrow>
             Inr (q, update_cursor_state e s node_id
                       (Some (normalize_excerpt (lit ''await-child:'' @ node_id) 96))))"

section \<open>Editing and creating nodes\<close>

text \<open>The status word of an update: \<open>None\<close> keeps the status, an unknown word is an error.\<close>

definition parse_update_status :: "ustr option \<Rightarrow> node_status option res" where
  "parse_update_status status =
     (let s = lower (strip (case status of None \<Rightarrow> [] | Some t \<Rightarrow> t)) in
      if s \<in> {[], lit ''none'', lit ''unchanged''} then Inr None
      else if s \<in> {lit ''todo'', lit ''open''} then Inr (Some NPending)
      else if s \<in> {lit ''active'', lit ''started''} then Inr (Some NInProgress)
      else if s = lit ''pending'' then Inr (Some NPending)
      else if s = lit ''in-progress'' then Inr (Some NInProgress)
      else if s = lit ''blocked'' then Inr (Some NBlocked)
      else Inl (ValueError
        (lit ''work-node-update status only supports pending, in-progress, or blocked; use complete/skip/prune for terminal changes.'')))"

definition clean_texts :: "ustr list \<Rightarrow> ustr list" where
  "clean_texts ts = List.map_filter norm_str ts"

definition updated_node ::
  "nat \<Rightarrow> ustr option \<Rightarrow> ustr option \<Rightarrow> ustr list \<Rightarrow> ustr list \<Rightarrow> node_status option
     \<Rightarrow> work_tree_node \<Rightarrow> work_tree_node" where
  "updated_node now title goal questions evidence status n =
     n\<lparr>n_title := (case norm_opt title of None \<Rightarrow> n_title n | Some t \<Rightarrow> t),
       n_local_goal := (case norm_opt goal of None \<Rightarrow> n_local_goal n | Some g \<Rightarrow> g),
       n_node_text := (case norm_opt goal of None \<Rightarrow> n_node_text n | Some g \<Rightarrow> g),
       n_questions_it_answers := list_or questions (n_questions_it_answers n),
       n_expected_evidence := list_or evidence (n_expected_evidence n),
       n_status := (case status of None \<Rightarrow> n_status n | Some st \<Rightarrow> st),
       n_updated_at := now\<rparr>"

definition nothing_to_update ::
  "ustr option \<Rightarrow> ustr option \<Rightarrow> ustr list \<Rightarrow> ustr list \<Rightarrow> node_status option \<Rightarrow> bool" where
  "nothing_to_update title goal questions evidence status \<longleftrightarrow>
     norm_opt title = None \<and> norm_opt goal = None \<and> questions = [] \<and> evidence = []
     \<and> status = None"

definition update_work_node ::
  "env \<Rightarrow> takeover_protocol \<Rightarrow> ustr \<Rightarrow> ustr \<Rightarrow> ustr option \<Rightarrow> ustr option \<Rightarrow> ustr option
     \<Rightarrow> ustr list \<Rightarrow> ustr list \<Rightarrow> ustr option \<Rightarrow> work_context_stack option
     \<Rightarrow> (takeover_protocol \<times> work_context_stack \<times> work_tree_node) res" where
  "update_work_node e p task_id run_id node_id title goal questions0 evidence0 status0 stack =
     (case p_work_tree p of
        None \<Rightarrow> Inl no_tree_error
      | Some w \<Rightarrow>
          (case opt_or (opt_or node_id (wt_current_node_id w)) None of
             None \<Rightarrow> Inl (ValueError (lit ''Missing target work-tree node id.''))
           | Some target \<Rightarrow>
               if node_by_id w target = None then Inl (unknown_node_error target)
               else
                 (case parse_update_status status0 of
                    Inl err \<Rightarrow> Inl err
                  | Inr status \<Rightarrow>
                      let questions = clean_texts questions0; evidence = clean_texts evidence0 in
                      if nothing_to_update title goal questions evidence status
                      then Inl (ValueError
                             (lit ''work-node-update requires at least one changed field.''))
                      else
                        let current = (case opt_or (wt_current_node_id w) (Some target) of
                                         Some c \<Rightarrow> c | None \<Rightarrow> target);
                            edit = updated_node (now_of e) title goal questions evidence status;
                            w' = w\<lparr>wt_nodes := map (\<lambda>n. if n_id n = target then edit n else n)
                                                (wt_nodes w),
                                   wt_status := TActive,
                                   wt_current_node_id := Some current,
                                   wt_active_path_node_ids :=
                                     work_tree_active_path_node_ids w (Some current),
                                   wt_pc_memo := Some (lit ''updated:'' @ target),
                                   wt_updated_at := now_of e\<rparr>
                        in case normalize_runtime_state e (executing_with e p w') task_id run_id stack of
                             (q, None) \<Rightarrow> Inl (ValueError
                               (lit ''Failed to normalize updated work-tree runtime state.''))
                           | (q, Some s) \<Rightarrow>
                               (case Option.bind (p_work_tree q) (\<lambda>v. node_by_id v target) of
                                  None \<Rightarrow> Inl (ValueError
                                    (lit ''Updated work-tree node disappeared during normalization.''))
                                | Some n \<Rightarrow> Inr (q, s, n)))))"

text \<open>
  \<open>create_child_work_node\<close>. Without \<open>parent_node_id\<close> the new node goes beside the current one
  (under its parent), or under it when it has none. \<open>fresh\<close> is the value of the random
  \<open>new_id\<close> the code draws when no \<open>node_id\<close> is given.
\<close>

definition child_parent_id :: "takeover_protocol \<Rightarrow> work_tree \<Rightarrow> ustr option \<Rightarrow> ustr option" where
  "child_parent_id p w parent_node_id =
     opt_or parent_node_id
       (case current_work_tree_node (Some p) of
          None \<Rightarrow> wt_root_node_id w
        | Some c \<Rightarrow> (case n_parent_node_id c of Some q \<Rightarrow> Some q | None \<Rightarrow> Some (n_id c)))"

definition child_node ::
  "env \<Rightarrow> ustr \<Rightarrow> ustr \<Rightarrow> work_tree_node \<Rightarrow> ustr \<Rightarrow> node_phase \<Rightarrow> ustr list \<Rightarrow> ustr option
     \<Rightarrow> ustr list \<Rightarrow> bool \<Rightarrow> work_tree_node" where
  "child_node e new_id parent_id parent title phase questions goal evidence activate =
     (let text = (case opt_or goal (Some title) of Some g \<Rightarrow> g | None \<Rightarrow> title) in
      validate_node
        ((new_node (now_of e) new_id title phase)
           \<lparr>n_parent_node_id := Some parent_id,
            n_questions_it_answers := list_or questions [title],
            n_node_text := text, n_local_goal := text,
            n_status := (if activate then NInProgress else NPending),
            n_expected_evidence := evidence,
            n_recovery_anchor := Some (lit ''resume:'' @ parent_id @ lit '':'' @ title),
            n_detail_level := max (n_detail_level parent + 1) 1\<rparr>))"

definition adopt_child :: "nat \<Rightarrow> ustr \<Rightarrow> ustr \<Rightarrow> work_tree_node \<Rightarrow> work_tree_node" where
  "adopt_child now parent_id child_id n =
     (if n_id n = parent_id
      then n\<lparr>n_child_node_ids := (if child_id \<in> set (n_child_node_ids n) then n_child_node_ids n
                                  else n_child_node_ids n @ [child_id]),
             n_status := NInProgress, n_updated_at := now\<rparr>
      else n)"

definition create_child_work_node ::
  "env \<Rightarrow> ustr \<Rightarrow> takeover_protocol \<Rightarrow> ustr \<Rightarrow> ustr \<Rightarrow> ustr \<Rightarrow> node_phase \<Rightarrow> ustr option
     \<Rightarrow> ustr list \<Rightarrow> ustr option \<Rightarrow> ustr list \<Rightarrow> work_context_stack option \<Rightarrow> bool \<Rightarrow> ustr option
     \<Rightarrow> (takeover_protocol \<times> work_context_stack \<times> work_tree_node) res" where
  "create_child_work_node e fresh p task_id run_id title phase parent_node_id questions goal
       evidence stack activate node_id =
     (case p_work_tree p of
        None \<Rightarrow> Inl no_tree_error
      | Some w \<Rightarrow>
          let target = child_parent_id p w parent_node_id in
          (case Option.bind target (node_by_id w) of
             None \<Rightarrow> Inl (KeyError (lit ''Unknown parent work-tree node: '' @
                       (case target of None \<Rightarrow> lit ''None'' | Some t \<Rightarrow> t)))
           | Some parent \<Rightarrow>
               let new_id = (case opt_or node_id (Some fresh) of Some i \<Rightarrow> i | None \<Rightarrow> fresh);
                   child = child_node e new_id (n_id parent) parent title phase questions goal
                             evidence activate;
                   w' = w\<lparr>wt_nodes := map (adopt_child (now_of e) (n_id parent) (n_id child))
                                        (wt_nodes w) @ [child],
                          wt_current_node_id :=
                            (if activate then Some (n_id child) else wt_current_node_id w),
                          wt_status := TActive,
                          wt_pc_memo := (if activate then Some (lit ''continue:'' @ n_id child)
                                         else wt_pc_memo w),
                          wt_version_counter := wt_version_counter w + 1,
                          wt_updated_at := now_of e\<rparr>
               in case normalize_runtime_state e (executing_with e p w') task_id run_id stack of
                    (q, None) \<Rightarrow> Inl (ValueError
                      (lit ''Failed to normalize new child node runtime state.''))
                  | (q, Some s) \<Rightarrow> Inr (q, s, child)))"

section \<open>Transitions\<close>

datatype transition_kind = TrCompleted | TrParentOrchestrationRequired | TrResolutionBlocked
  | TrDeliveryGateBlocked | TrAwaitingApproval | TrBubbleParent | TrFailed
  | TrBubbleParentAfterFailure | TrPruneConfirmRequired | TrSkip

datatype confirm_reason = UnfinishedDescendants | TerminalDescendantsConfirmationRequired

text \<open>The dictionary an operation returns; a key it leaves out has the empty value.\<close>

record transition =
  tr_transition :: transition_kind
  tr_requires_continuation :: bool
  tr_current_node_id :: "ustr option"
  tr_next_node_id :: "ustr option"
  tr_current_focus :: ustr
  tr_pending_child_node_ids :: "ustr list"
  tr_readiness_blockers :: "ustr list"
  tr_blocked_gates :: "ustr list"
  tr_confirmed_descendant_node_ids :: "ustr list"
  tr_skipped_node_ids :: "ustr list"
  tr_skipped_node_id :: "ustr option"
  tr_requested_node_ids :: "ustr list"
  tr_confirm_required :: "(ustr \<times> confirm_reason \<times> ustr list) list"
  tr_reason :: ustr

definition plain_transition :: "transition_kind \<Rightarrow> bool \<Rightarrow> ustr \<Rightarrow> transition" where
  "plain_transition kind continue focus =
     \<lparr>tr_transition = kind, tr_requires_continuation = continue, tr_current_node_id = None,
      tr_next_node_id = None, tr_current_focus = focus, tr_pending_child_node_ids = [],
      tr_readiness_blockers = [], tr_blocked_gates = [], tr_confirmed_descendant_node_ids = [],
      tr_skipped_node_ids = [], tr_skipped_node_id = None, tr_requested_node_ids = [],
      tr_confirm_required = [], tr_reason = []\<rparr>"

definition tree_current :: "takeover_protocol \<Rightarrow> ustr option" where
  "tree_current p = Option.bind (p_work_tree p) wt_current_node_id"

section \<open>Skipping nodes\<close>

definition ordered_ids :: "ustr list \<Rightarrow> ustr list" where
  "ordered_ids ids = dedup (List.map_filter norm_str ids)"

text \<open>The loop that sorts the requested ids into those to skip and those to confirm first.\<close>

fun split_skips ::
  "work_tree \<Rightarrow> bool \<Rightarrow> ustr list \<Rightarrow> (ustr \<times> confirm_reason \<times> ustr list) list \<times> ustr list" where
  "split_skips w confirm [] = ([], [])"
| "split_skips w confirm (i # is) =
     (let (ask, skip) = split_skips w confirm is;
          unfinished = node_unfinished_descendant_ids w i;
          finished = node_terminal_descendant_ids w i
      in if unfinished \<noteq> [] then ((i, UnfinishedDescendants, unfinished) # ask, skip)
         else if finished \<noteq> [] \<and> \<not> confirm
         then ((i, TerminalDescendantsConfirmationRequired, finished) # ask, skip)
         else (ask, i # skip))"

definition mark_skipped :: "nat \<Rightarrow> ustr list \<Rightarrow> ustr \<Rightarrow> work_tree_node \<Rightarrow> work_tree_node" where
  "mark_skipped now ids reason n =
     (if n_id n \<in> set ids
      then n\<lparr>n_status := NSkipped, n_failure_summary := Some reason, n_updated_at := now\<rparr> else n)"

definition current_after_skip :: "work_tree \<Rightarrow> ustr list \<Rightarrow> ustr option" where
  "current_after_skip w skipped =
     (let current =
        (case wt_current_node_id w of
           None \<Rightarrow> None
         | Some c \<Rightarrow>
             if c \<in> set skipped
             then (case node_by_id w c of Some n \<Rightarrow> n_parent_node_id n | None \<Rightarrow> wt_root_node_id w)
             else Some c)
      in opt_or current (wt_root_node_id w))"

definition skipped_tree :: "env \<Rightarrow> work_tree \<Rightarrow> ustr list \<Rightarrow> ustr \<Rightarrow> work_tree" where
  "skipped_tree e w skipped reason =
     w\<lparr>wt_nodes := map (mark_skipped (now_of e) skipped reason) (wt_nodes w),
        wt_current_node_id := current_after_skip w skipped,
        wt_active_path_node_ids := work_tree_active_path_node_ids w (current_after_skip w skipped),
        wt_pc_memo := Some (normalize_excerpt (lit ''pruned:'' @ join (lit '','') skipped) 160),
        wt_status := TActive,
        wt_version_counter := wt_version_counter w + 1,
        wt_updated_at := now_of e\<rparr>"

definition skip_work_tree_nodes ::
  "env \<Rightarrow> takeover_protocol \<Rightarrow> ustr \<Rightarrow> ustr \<Rightarrow> ustr list \<Rightarrow> ustr \<Rightarrow> work_context_stack option
     \<Rightarrow> bool \<Rightarrow> (takeover_protocol \<times> work_context_stack \<times> transition) res" where
  "skip_work_tree_nodes e p task_id run_id node_ids reason0 stack confirm =
     (case p_work_tree p of
        None \<Rightarrow> Inl no_tree_error
      | Some w \<Rightarrow>
          let reason = normalize_excerpt (strip reason0) 240;
              ids = ordered_ids node_ids;
              unknown = filter (\<lambda>i. i \<notin> tree_ids w) ids;
              (ask, skip) = split_skips w confirm ids
          in if reason = [] then
               Inl (ValueError (lit ''Skipped work-tree nodes require a non-empty reason.''))
             else if ids = [] then
               Inl (ValueError (lit ''At least one work-tree node id is required.''))
             else if unknown \<noteq> [] then Inl (unknown_node_error (hd unknown))
             else if wt_root_node_id w \<in> Some ` set ids then
               Inl (ValueError (lit ''Root work-tree node cannot be skipped.''))
             else if ask \<noteq> [] then
               (case normalize_runtime_state e p task_id run_id stack of
                  (q, None) \<Rightarrow> Inl (ValueError
                    (lit ''Failed to normalize work-tree skip confirmation state.''))
                | (q, Some s) \<Rightarrow>
                    Inr (q, s,
                      (plain_transition TrPruneConfirmRequired True
                         (lit ''work-tree-prune-confirm-required''))
                        \<lparr>tr_current_node_id := tree_current q, tr_requested_node_ids := ids,
                         tr_confirm_required := ask,
                         tr_reason := lit ''child-confirmation-required''\<rparr>))
             else
               (case normalize_runtime_state e (executing_with e p (skipped_tree e w skip reason))
                       task_id run_id stack of
                  (q, None) \<Rightarrow> Inl (ValueError
                    (lit ''Failed to normalize skipped work-tree state.''))
                | (q, Some s) \<Rightarrow>
                    Inr (q,
                      (case current_after_skip w skip of
                         None \<Rightarrow> s
                       | Some c \<Rightarrow> update_cursor_state e s c
                           (Some (normalize_excerpt
                              (lit ''pruned-obsolete-children:'' @ show_nat (length skip)) 96))),
                      (plain_transition TrSkip True (work_tree_focus_label (Some q)))
                        \<lparr>tr_current_node_id := tree_current q, tr_skipped_node_ids := skip,
                         tr_reason := reason\<rparr>)))"

definition skip_work_tree_node ::
  "env \<Rightarrow> takeover_protocol \<Rightarrow> ustr \<Rightarrow> ustr \<Rightarrow> ustr \<Rightarrow> ustr \<Rightarrow> work_context_stack option
     \<Rightarrow> (takeover_protocol \<times> work_context_stack \<times> transition) res" where
  "skip_work_tree_node e p task_id run_id node_id reason stack =
     (case norm_str node_id of
        None \<Rightarrow> Inl (ValueError (lit ''Work-tree skip requires a node id.''))
      | Some i \<Rightarrow>
          (case skip_work_tree_nodes e p task_id run_id [i] reason stack False of
             Inl err \<Rightarrow> Inl err
           | Inr (q, s, t) \<Rightarrow>
               Inr (q, s, case tr_skipped_node_ids t of
                            [] \<Rightarrow> t
                          | j # _ \<Rightarrow> t\<lparr>tr_skipped_node_id := Some j\<rparr>)))"

section \<open>Completing and failing the current node\<close>

fun merge_refs :: "(ustr \<times> ustr) list \<Rightarrow> entity_ref list \<Rightarrow> entity_ref list" where
  "merge_refs seen [] = []"
| "merge_refs seen (r # rs) =
     (let k = strip (er_kind r); i = strip (er_id r) in
      if k = [] \<or> i = [] \<or> (k, i) \<in> set seen then merge_refs seen rs
      else \<lparr>er_kind = k, er_id = i\<rparr> # merge_refs ((k, i) # seen) rs)"

definition complete_node ::
  "nat \<Rightarrow> ustr \<Rightarrow> ustr set \<Rightarrow> ustr \<Rightarrow> entity_ref list \<Rightarrow> work_tree_node \<Rightarrow> work_tree_node" where
  "complete_node now current ids summary refs n =
     (if n_id n \<in> ids \<and> n_status n \<notin> terminal_statuses
      then n\<lparr>n_status := NCompleted,
             n_execution_summary :=
               Some (if n_id n = current then summary
                     else normalize_excerpt
                            (lit ''Subtree completed by parent confirmation: '' @ summary) 240),
             n_failure_summary := None,
             n_produced_evidence_refs := merge_refs [] (n_produced_evidence_refs n @ refs),
             n_updated_at := now\<rparr>
      else n)"

definition completed_tree ::
  "env \<Rightarrow> work_tree \<Rightarrow> ustr \<Rightarrow> ustr set \<Rightarrow> ustr \<Rightarrow> entity_ref list \<Rightarrow> work_tree" where
  "completed_tree e w current ids summary refs =
     w\<lparr>wt_nodes := map (complete_node (now_of e) current ids summary refs) (wt_nodes w),
        wt_status := TActive, wt_updated_at := now_of e\<rparr>"

definition unfinished_descendants_error :: "ustr \<Rightarrow> ustr list \<Rightarrow> py_error" where
  "unfinished_descendants_error i ids =
     ValueError (lit ''Work-tree node '' @ i @ lit '' still has unfinished descendant nodes: ''
                   @ join (lit '', '') (take 8 ids) @ lit ''. '')"

text \<open>The root is done: the tree awaits approval, the protocol is verified.\<close>

definition awaiting_approval ::
  "env \<Rightarrow> takeover_protocol \<Rightarrow> work_tree \<Rightarrow> ustr \<Rightarrow> ustr \<Rightarrow> takeover_protocol" where
  "awaiting_approval e q v current summary =
     validate_protocol (dg_of e) (now_of e)
       (q\<lparr>p_status := PVerified, p_current_phase := PhDeliver,
          p_work_tree := Some (validate_tree (dg_of e) (now_of e)
            (v\<lparr>wt_status := TAwaitingApproval,
               wt_current_node_id := opt_or (wt_root_node_id v) (Some current),
               wt_pc_memo := Some summary, wt_updated_at := now_of e\<rparr>))\<rparr>)"

type_synonym outcome = "takeover_protocol \<times> work_context_stack option \<times> transition"

definition finish_root ::
  "env \<Rightarrow> ustr \<Rightarrow> ustr \<Rightarrow> takeover_protocol \<Rightarrow> work_tree \<Rightarrow> work_context_stack \<Rightarrow> ustr \<Rightarrow> ustr
     \<Rightarrow> ustr list \<Rightarrow> outcome" where
  "finish_root e task_id run_id q v s current summary confirmed =
     (let (q', s') = normalize_runtime_state e (awaiting_approval e q v current summary)
                       task_id run_id (Some s)
      in (q',
          map_option (\<lambda>s. update_cursor_state e s
              (case tree_current q' of Some i \<Rightarrow> i | None \<Rightarrow> current)
              (Some (lit ''awaiting-approval''))) s',
          (plain_transition TrAwaitingApproval False (lit ''awaiting-approval''))
            \<lparr>tr_current_node_id := tree_current q',
             tr_confirmed_descendant_node_ids := confirmed\<rparr>))"

definition complete_current_work_node ::
  "env \<Rightarrow> takeover_protocol \<Rightarrow> ustr \<Rightarrow> ustr \<Rightarrow> ustr \<Rightarrow> work_context_stack option
     \<Rightarrow> entity_ref list \<Rightarrow> bool \<Rightarrow> outcome res" where
  "complete_current_work_node e p task_id run_id summary0 stack refs confirm =
     (case p_work_tree p of
        None \<Rightarrow> Inl no_tree_error
      | Some w \<Rightarrow>
          let summary = normalize_excerpt (strip summary0) 240 in
          if summary = [] then
            Inl (ValueError (lit ''Current work-tree node requires a non-empty execution summary before completion.''))
          else case current_work_tree_node (Some p) of
            None \<Rightarrow> Inl (ValueError (lit ''Takeover protocol does not have an executable current node.''))
          | Some c \<Rightarrow>
              let unfinished = node_unfinished_descendant_ids w (n_id c);
                  confirmed = (if confirm then unfinished else [])
              in if unfinished \<noteq> [] \<and> \<not> confirm
                 then Inl (unfinished_descendants_error (n_id c) unfinished)
                 else case normalize_runtime_state e
                             (executing_with e p (completed_tree e w (n_id c)
                                (insert (n_id c) (set confirmed)) summary refs))
                             task_id run_id stack of
                   (q, None) \<Rightarrow> Inl (ValueError (lit ''Failed to normalize completed work-tree state.''))
                 | (q, Some s) \<Rightarrow>
                     (case p_work_tree q of
                        None \<Rightarrow> Inl (ValueError (lit ''Failed to normalize completed work-tree state.''))
                      | Some v \<Rightarrow>
                          (case n_parent_node_id c of
                             None \<Rightarrow> Inr (finish_root e task_id run_id q v s (n_id c) summary confirmed)
                           | Some parent \<Rightarrow>
                               (case bubble_to_parent_work_node e q task_id run_id
                                       (Some (append_child_completion_summary e s parent
                                          \<lparr>cs_child_node_id = n_id c, cs_completed = True,
                                           cs_summary = summary, cs_summary_type = ExecutionResult,
                                           cs_evidence_refs = refs, cs_completed_at = now_of e\<rparr>))
                                       (Some (n_id c))
                                       (Some (lit ''resume-parent-after-child-completion'')) of
                                  Inl err \<Rightarrow> Inl err
                                | Inr (q', s') \<Rightarrow>
                                    Inr (q', s',
                                      (plain_transition TrBubbleParent True
                                         (work_tree_focus_label (Some q')))
                                        \<lparr>tr_current_node_id := tree_current q',
                                         tr_next_node_id := tree_current q',
                                         tr_confirmed_descendant_node_ids := confirmed\<rparr>)))))"

definition mark_failed :: "nat \<Rightarrow> ustr \<Rightarrow> ustr \<Rightarrow> work_tree_node \<Rightarrow> work_tree_node" where
  "mark_failed now i failure n =
     (if n_id n = i
      then n\<lparr>n_status := NFailed, n_failure_summary := Some failure, n_updated_at := now\<rparr> else n)"

definition failed_tree :: "env \<Rightarrow> work_tree \<Rightarrow> work_tree_node \<Rightarrow> ustr \<Rightarrow> work_tree" where
  "failed_tree e w c failure =
     w\<lparr>wt_nodes := map (mark_failed (now_of e) (n_id c) failure) (wt_nodes w),
        wt_status := (if n_parent_node_id c = None then TFailed else TActive),
        wt_updated_at := now_of e\<rparr>"

definition fail_current_work_node ::
  "env \<Rightarrow> takeover_protocol \<Rightarrow> ustr \<Rightarrow> ustr \<Rightarrow> ustr \<Rightarrow> work_context_stack option
     \<Rightarrow> outcome res" where
  "fail_current_work_node e p task_id run_id failure0 stack =
     (case p_work_tree p of
        None \<Rightarrow> Inl no_tree_error
      | Some w \<Rightarrow>
          let failure = normalize_excerpt (strip failure0) 240 in
          if failure = [] then
            Inl (ValueError (lit ''Current work-tree node requires a non-empty failure summary.''))
          else case current_work_tree_node (Some p) of
            None \<Rightarrow> Inl (ValueError (lit ''Takeover protocol does not have an executable current node.''))
          | Some c \<Rightarrow>
              (case normalize_runtime_state e
                      (validate_protocol (dg_of e) (now_of e)
                         (p\<lparr>p_status := (if n_parent_node_id c = None then PNeedsClarification
                                         else PExecuting),
                            p_work_tree := Some (failed_tree e w c failure)\<rparr>))
                      task_id run_id stack of
                 (q, None) \<Rightarrow> Inl (ValueError (lit ''Failed to normalize failed work-tree state.''))
               | (q, Some s) \<Rightarrow>
                   (case n_parent_node_id c of
                      None \<Rightarrow>
                        Inr (q, Some s,
                          (plain_transition TrFailed False
                             (str_or (normalize_excerpt (failed_label @ n_title c) 96) (lit ''failed'')))
                            \<lparr>tr_current_node_id := tree_current q\<rparr>)
                    | Some parent \<Rightarrow>
                        (case bubble_to_parent_work_node e q task_id run_id
                                (Some (append_child_completion_summary e s parent
                                   \<lparr>cs_child_node_id = n_id c, cs_completed = False,
                                    cs_summary = failure, cs_summary_type = FailureReason,
                                    cs_evidence_refs = [], cs_completed_at = now_of e\<rparr>))
                                (Some (n_id c))
                                (Some (lit ''resume-parent-after-child-failure'')) of
                           Inl err \<Rightarrow> Inl err
                         | Inr (q', s') \<Rightarrow>
                             Inr (q', s',
                               (plain_transition TrBubbleParentAfterFailure True
                                  (work_tree_focus_label (Some q')))
                                 \<lparr>tr_current_node_id := tree_current q',
                                  tr_next_node_id := tree_current q'\<rparr>)))))"

section \<open>Delivery gates\<close>

definition gate_blocked :: "verification_item \<Rightarrow> bool" where
  "gate_blocked i \<longleftrightarrow> v_gate_mode i = Hard \<and> v_status i \<noteq> VPassed"

definition check_delivery_hard_gates :: "takeover_protocol \<Rightarrow> bool" where
  "check_delivery_hard_gates p \<longleftrightarrow> \<not> list_ex gate_blocked (p_verification_items p)"

definition blocked_gate_labels :: "takeover_protocol \<Rightarrow> ustr list" where
  "blocked_gate_labels p = map v_label (filter gate_blocked (p_verification_items p))"

definition has_turn_evidence :: "entity_ref list \<Rightarrow> bool" where
  "has_turn_evidence refs \<longleftrightarrow> list_ex (\<lambda>r. strip (er_kind r) \<noteq> [] \<and> strip (er_id r) \<noteq> []) refs"

definition delivery_blockers_that_survive_this_turn ::
  "ustr list \<Rightarrow> entity_ref list \<Rightarrow> bool \<Rightarrow> ustr list" where
  "delivery_blockers_that_survive_this_turn blockers refs satisfied =
     dedup (filter (\<lambda>b. b = lit ''missing-target-evidence'' \<and> \<not> satisfied
                        \<and> \<not> has_turn_evidence refs) (map strip blockers))"

definition ends_with :: "ustr \<Rightarrow> ustr \<Rightarrow> bool" where
  "ends_with s suffix \<longleftrightarrow>
     length suffix \<le> length s \<and> drop (length s - length suffix) s = suffix"

definition frontier_satisfied_by_turn_evidence :: "frontier_item \<Rightarrow> entity_ref list \<Rightarrow> bool" where
  "frontier_satisfied_by_turn_evidence f refs \<longleftrightarrow>
     has_turn_evidence refs \<and> ends_with (fi_id f) (lit '':missing-evidence'')"

definition frontiers_that_survive_this_turn ::
  "frontier_item list \<Rightarrow> entity_ref list \<Rightarrow> frontier_item list \<times> bool" where
  "frontiers_that_survive_this_turn fs refs =
     (let surviving = filter (\<lambda>f. \<not> frontier_satisfied_by_turn_evidence f refs) fs
      in (surviving, open_frontiers fs \<noteq> [] \<and> open_frontiers surviving = []))"

section \<open>Advancing after a delivery\<close>

text \<open>
  The resolution a run carries: its frontiers, and its delivery readiness as the flag and the
  blockers, \<open>None\<close> when the dictionary is absent or empty.
\<close>

record work_tree_resolution =
  wr_frontiers :: "frontier_item list"
  wr_readiness :: "(bool \<times> ustr list) option"

definition readiness_blockers_of ::
  "work_tree \<Rightarrow> work_tree_node \<Rightarrow> work_tree_resolution \<Rightarrow> entity_ref list \<Rightarrow> ustr list" where
  "readiness_blockers_of w c r refs =
     (let (frontiers, satisfied) = frontiers_that_survive_this_turn (wr_frontiers r) refs;
          blockers = (case wr_readiness r of
                        None \<Rightarrow> []
                      | Some (_, bs) \<Rightarrow> filter (\<lambda>b. strip b \<noteq> []) bs);
          surviving = delivery_blockers_that_survive_this_turn blockers refs satisfied;
          not_ready = (case wr_readiness r of
                         Some (False, _) \<Rightarrow> if blockers = [] then [lit ''resolution-not-ready''] else []
                       | _ \<Rightarrow> [])
      in case compute_delivery_readiness w (Some (n_id c))
                (empty_graph_state\<lparr>gs_frontier_items := frontiers\<rparr>) default_resolution_policy of
           Inl _ \<Rightarrow> dedup (surviving @ not_ready)
         | Inr d \<Rightarrow> dedup (surviving @ not_ready
                      @ delivery_blockers_that_survive_this_turn (dr_blockers d) refs satisfied))"

definition work_tree_delivery_summary :: "ustr \<Rightarrow> ustr \<Rightarrow> ustr" where
  "work_tree_delivery_summary text fallback =
     str_or (normalize_excerpt (strip text) 240)
       (normalize_excerpt (str_or fallback (lit ''Delivery completed.'')) 240)"

definition pending_child_ids :: "work_tree \<Rightarrow> work_tree_node \<Rightarrow> ustr list" where
  "pending_child_ids w c =
     filter (\<lambda>i. case node_by_id w i of None \<Rightarrow> False | Some n \<Rightarrow> n_status n \<notin> terminal_statuses)
       (work_tree_child_ids w c)"

type_synonym advance_outcome =
  "takeover_protocol option \<times> work_context_stack option \<times> transition"

definition orchestrate_parent ::
  "env \<Rightarrow> takeover_protocol \<Rightarrow> ustr \<Rightarrow> ustr \<Rightarrow> work_context_stack option \<Rightarrow> work_tree
     \<Rightarrow> work_tree_node \<Rightarrow> ustr list \<Rightarrow> advance_outcome" where
  "orchestrate_parent e p task_id run_id stack w c pending =
     (let (q, s) = normalize_runtime_state e p task_id run_id stack;
          preferred = hd pending
      in (Some q,
          map_option (\<lambda>s. update_cursor_state e s (n_id c)
            (Some (lit ''parent-orchestration-required:prioritize-child:'' @ preferred))) s,
          (plain_transition TrParentOrchestrationRequired True
             (parent_orchestration_focus_label c (node_by_id w preferred)))
            \<lparr>tr_current_node_id := (case p_work_tree q of
                                     Some v \<Rightarrow> wt_current_node_id v | None \<Rightarrow> Some (n_id c)),
             tr_next_node_id := Some preferred, tr_pending_child_node_ids := pending\<rparr>))"

definition block_resolution ::
  "env \<Rightarrow> takeover_protocol \<Rightarrow> ustr \<Rightarrow> ustr \<Rightarrow> work_context_stack option \<Rightarrow> work_tree_node
     \<Rightarrow> ustr list \<Rightarrow> advance_outcome" where
  "block_resolution e p task_id run_id stack c blockers =
     (let (q, s) = normalize_runtime_state e p task_id run_id stack
      in (Some q, s,
          (plain_transition TrResolutionBlocked True
             (lit ''work-tree-resolution-blocked:'' @ join (lit '','') (take 3 blockers)))
            \<lparr>tr_current_node_id := (case p_work_tree q of
                                     Some v \<Rightarrow> wt_current_node_id v | None \<Rightarrow> Some (n_id c)),
             tr_next_node_id := Some (n_id c), tr_readiness_blockers := blockers\<rparr>))"

text \<open>The gates and the completion, after the tree has been found ready.\<close>

definition deliver_current ::
  "env \<Rightarrow> takeover_protocol \<Rightarrow> ustr \<Rightarrow> ustr \<Rightarrow> ustr \<Rightarrow> work_context_stack option
     \<Rightarrow> entity_ref list \<Rightarrow> advance_outcome res" where
  "deliver_current e p task_id run_id text stack refs =
     (if \<not> check_delivery_hard_gates p then
        Inr (Some p, stack,
          (plain_transition TrDeliveryGateBlocked True (lit ''delivery-gate-blocked''))
            \<lparr>tr_blocked_gates := blocked_gate_labels p\<rparr>)
      else
        let fallback = (case current_work_tree_node (Some p) of
              None \<Rightarrow> p_objective_summary p
            | Some c \<Rightarrow> (case n_execution_summary c of Some t \<Rightarrow> t | None \<Rightarrow> n_local_goal c))
        in map_sum id (map_prod Some id)
             (complete_current_work_node e p task_id run_id
                (work_tree_delivery_summary text (str_or fallback (p_objective p))) stack refs False))"

definition advance_takeover_after_delivery ::
  "env \<Rightarrow> takeover_protocol option \<Rightarrow> ustr \<Rightarrow> ustr \<Rightarrow> ustr \<Rightarrow> work_context_stack option
     \<Rightarrow> entity_ref list \<Rightarrow> work_tree_resolution option \<Rightarrow> advance_outcome res" where
  "advance_takeover_after_delivery e p0 task_id run_id text stack refs resolution =
     (case p0 of
        None \<Rightarrow> Inr (None, None, plain_transition TrCompleted False (lit ''completed''))
      | Some p \<Rightarrow>
          if p_status p = PCompleted \<or> map_option wt_status (p_work_tree p) = Some TCompleted then
            Inr (Some p, stack,
              (plain_transition TrCompleted False (lit ''completed''))
                \<lparr>tr_current_node_id := tree_current p\<rparr>)
          else
            (case (p_work_tree p, current_work_tree_node (Some p)) of
               (Some w, Some c) \<Rightarrow>
                 let pending = pending_child_ids w c;
                     blockers = (case resolution of
                                   None \<Rightarrow> []
                                 | Some r \<Rightarrow> readiness_blockers_of w c r refs)
                 in if pending \<noteq> [] then
                      Inr (orchestrate_parent e p task_id run_id stack w c pending)
                    else if blockers \<noteq> [] then
                      Inr (block_resolution e p task_id run_id stack c blockers)
                    else deliver_current e p task_id run_id text stack refs
             | _ \<Rightarrow> deliver_current e p task_id run_id text stack refs))"

section \<open>Approving, reopening, finalizing, restoring\<close>

definition approve_takeover_completion ::
  "env \<Rightarrow> takeover_protocol option \<Rightarrow> takeover_protocol option" where
  "approve_takeover_completion e p0 =
     (case p0 of
        None \<Rightarrow> None
      | Some p \<Rightarrow>
          (case p_work_tree p of
             None \<Rightarrow> Some p
           | Some w \<Rightarrow>
               if wt_status w \<notin> {TAwaitingApproval, TCompleted} then Some p
               else Some (validate_protocol (dg_of e) (now_of e)
                 (p\<lparr>p_status := PCompleted, p_current_phase := PhDeliver,
                    p_work_tree := Some (validate_tree (dg_of e) (now_of e)
                      (w\<lparr>wt_status := TCompleted,
                         wt_current_node_id := opt_or (wt_root_node_id w) (wt_current_node_id w),
                         wt_updated_at := now_of e\<rparr>))\<rparr>))))"

definition reopen_node :: "nat \<Rightarrow> ustr \<Rightarrow> work_tree_node \<Rightarrow> work_tree_node" where
  "reopen_node now i n =
     (if n_id n = i
      then n\<lparr>n_status := NInProgress, n_failure_summary := None, n_updated_at := now\<rparr> else n)"

definition reopened_tree :: "env \<Rightarrow> work_tree \<Rightarrow> ustr \<Rightarrow> ustr option \<Rightarrow> work_tree" where
  "reopened_tree e w target reason =
     w\<lparr>wt_nodes := map (reopen_node (now_of e) target) (wt_nodes w),
        wt_status := TActive,
        wt_current_node_id := Some target,
        wt_active_path_node_ids := work_tree_active_path_node_ids w (Some target),
        wt_pc_memo := Some (normalize_excerpt
          (case opt_or reason (Some (lit ''revision:'' @ target)) of Some r \<Rightarrow> r | None \<Rightarrow> []) 160),
        wt_updated_at := now_of e\<rparr>"

definition reopen_takeover_work_node_for_revision ::
  "env \<Rightarrow> takeover_protocol \<Rightarrow> ustr \<Rightarrow> ustr \<Rightarrow> ustr option \<Rightarrow> ustr option
     \<Rightarrow> work_context_stack option \<Rightarrow> (takeover_protocol \<times> work_context_stack) res" where
  "reopen_takeover_work_node_for_revision e p task_id run_id node_id reason stack =
     (case p_work_tree p of
        None \<Rightarrow> Inl no_tree_error
      | Some w \<Rightarrow>
          (case resolve_revision_target_node_id w node_id of
             None \<Rightarrow> Inl (ValueError (lit ''Could not determine revision target node.''))
           | Some target \<Rightarrow>
               (case node_by_id w target of
                  None \<Rightarrow> Inl (unknown_node_error target)
                | Some n \<Rightarrow>
                    (case normalize_runtime_state e
                            (executing_with e p (reopened_tree e w (n_id n) reason))
                            task_id run_id stack of
                       (q, None) \<Rightarrow> Inl (ValueError
                         (lit ''Failed to normalize reopened work-tree state.''))
                     | (q, Some s) \<Rightarrow>
                         Inr (q, update_cursor_state e s (n_id n)
                           (Some (normalize_excerpt
                             (case opt_or reason (Some (lit ''revision-requested'')) of
                                Some r \<Rightarrow> r | None \<Rightarrow> []) 96)))))))"

definition finalize_takeover_work_tree_delivery ::
  "env \<Rightarrow> takeover_protocol option \<Rightarrow> ustr \<Rightarrow> takeover_protocol option res" where
  "finalize_takeover_work_tree_delivery e p0 text =
     (case p0 of
        None \<Rightarrow> Inr None
      | Some p \<Rightarrow>
          if p_work_tree p = None then Inr (Some p)
          else map_sum id fst
                 (advance_takeover_after_delivery e (Some p) (p_task_id p)
                    (lit ''approval-preview'') text None [] None))"

text \<open>\<open>restore_takeover_work_tree_pointer\<close> on a payload that validates.\<close>

definition restore_takeover_work_tree_pointer ::
  "env \<Rightarrow> takeover_protocol \<Rightarrow> takeover_protocol" where
  "restore_takeover_work_tree_pointer e candidate =
     (let p = validate_protocol (dg_of e) (now_of e) candidate in
      case p_work_tree p of
        None \<Rightarrow> p
      | Some w \<Rightarrow>
          let current = current_node_of_tree w in
          validate_protocol (dg_of e) (now_of e)
            (p\<lparr>p_work_tree := Some (w
               \<lparr>wt_current_node_id := map_option n_id current,
                wt_recovery_anchor :=
                  (case Option.bind current n_recovery_anchor of
                     Some a \<Rightarrow> Some a | None \<Rightarrow> wt_recovery_anchor w),
                wt_status := (if wt_status w = TPlanned \<and> current \<noteq> None then TActive
                              else wt_status w)\<rparr>)\<rparr>))"

section \<open>Merging a child's result into its parent\<close>

fun append_refs :: "ustr list \<Rightarrow> (ustr \<times> ustr option) list \<Rightarrow> entity_ref list" where
  "append_refs seen [] = []"
| "append_refs seen ((kind, ref) # rs) =
     (case norm_opt ref of
        None \<Rightarrow> append_refs seen rs
      | Some i \<Rightarrow>
          let key = kind @ lit '':'' @ i in
          if key \<in> set seen then append_refs seen rs
          else \<lparr>er_kind = kind, er_id = i\<rparr> # append_refs (key # seen) rs)"

definition summarize_parent :: "nat \<Rightarrow> ustr \<Rightarrow> ustr \<Rightarrow> work_tree_node \<Rightarrow> work_tree_node" where
  "summarize_parent now target merged n =
     (if n_id n = target
      then n\<lparr>n_execution_summary :=
               (let old = normalize_excerpt (case n_execution_summary n of None \<Rightarrow> [] | Some s \<Rightarrow> s) 240
                in Some (normalize_excerpt (join [blank]
                     (filter (\<lambda>t. t \<noteq> []) [old, lit ''Child completion: '' @ merged])) 240)),
             n_status := (if n_status n \<notin> {NCompleted, NFailed, NBlocked, NSkipped}
                          then NSummarizing else n_status n),
             n_phase := Delivery, n_updated_at := now\<rparr>
      else n)"

definition merged_tree :: "env \<Rightarrow> work_tree \<Rightarrow> ustr \<Rightarrow> ustr \<Rightarrow> work_tree" where
  "merged_tree e w target merged =
     validate_tree (dg_of e) (now_of e)
       (w\<lparr>wt_current_node_id := Some target,
          wt_pc_memo := Some (normalize_excerpt (lit ''child-completion:'' @ target) 160),
          wt_status := (if wt_status w \<in> {TCompleted, TFailed, TAwaitingApproval}
                        then wt_status w else TSummarizing),
          wt_nodes := map (summarize_parent (now_of e) target merged) (wt_nodes w),
          wt_updated_at := now_of e\<rparr>)"

definition merge_child_takeover_completion_into_parent ::
  "env \<Rightarrow> takeover_protocol option \<Rightarrow> ustr option \<Rightarrow> takeover_protocol option \<Rightarrow> ustr option
     \<Rightarrow> ustr option \<Rightarrow> ustr \<Rightarrow> entity_ref list \<Rightarrow> work_context_stack option
     \<Rightarrow> (takeover_protocol option \<times> work_context_stack option) res" where
  "merge_child_takeover_completion_into_parent e p0 parent_node_id child child_task_id child_run_id
       child_summary refs stack =
     (case (p0, Option.bind p0 p_work_tree) of
        (Some p, Some w) \<Rightarrow>
          (case opt_or parent_node_id (wt_current_node_id w) of
             None \<Rightarrow> Inr (p0, stack)
           | Some target \<Rightarrow>
               let merged = work_tree_delivery_summary child_summary
                     (case child of Some c \<Rightarrow> p_objective_summary c | None \<Rightarrow> p_objective_summary p);
                   child_tree = Option.bind child p_work_tree;
                   evidence = append_refs []
                     (map (\<lambda>r. (str_or (er_kind r) (lit ''ref''), Some (er_id r))) refs
                      @ [(lit ''task'', child_task_id), (lit ''agent-run'', child_run_id)]
                      @ (case child_tree of
                           None \<Rightarrow> [] | Some v \<Rightarrow> [(lit ''work-tree-node'', wt_current_node_id v)]));
                   q = validate_protocol (dg_of e) (now_of e)
                     (p\<lparr>p_status := (if p_status p = PCompleted then PCompleted else PExecuting),
                        p_current_phase := PhDeliver,
                        p_work_tree := Some (merged_tree e w target merged)\<rparr>);
                   child_id = (case child_tree of
                                 Some v \<Rightarrow> wt_current_node_id v
                               | None \<Rightarrow> opt_or child_task_id (Some target))
               in case stack of
                    None \<Rightarrow> Inr (Some q, None)
                  | Some s \<Rightarrow>
                      (case child_id of
                         None \<Rightarrow> Inl (ValueError (lit ''childNodeId''))
                       | Some i \<Rightarrow>
                           Inr (Some q, Some (update_cursor_state e
                             (append_child_completion_summary e s target
                                \<lparr>cs_child_node_id = i, cs_completed = True, cs_summary = merged,
                                 cs_summary_type = ExecutionResult, cs_evidence_refs = evidence,
                                 cs_completed_at = now_of e\<rparr>)
                             target (Some (normalize_excerpt (lit ''child-completion:'' @ merged) 96))))))
      | _ \<Rightarrow> Inr (p0, stack))"

end
