(* ===== verification/TakeoverFacts.thy ===== *)
theory TakeoverFacts
  imports TakeoverOps
begin

text \<open>
  What the validators and the edits of the takeover operations do to a well-formed tree, and
  the result of each operation on a well-formed protocol, written out once for the properties.
\<close>

section \<open>Validating an edited protocol\<close>

text \<open>
  The validator strips the memo and settles the recovery anchor; nothing else of a
  well-formed payload changes.
\<close>

definition settled :: "work_tree \<Rightarrow> work_tree" where
  "settled w = w\<lparr>wt_pc_memo := norm_opt (wt_pc_memo w), wt_recovery_anchor := settled_anchor w\<rparr>"

lemma norm_opt_idem [simp]: "norm_opt (norm_opt v) = norm_opt v"
  by (cases "norm_opt v") (simp_all add: norm_opt_Some)

lemma settled_simps [simp]:
  "wt_nodes (settled w) = wt_nodes w" "wt_status (settled w) = wt_status w"
  "wt_current_node_id (settled w) = wt_current_node_id w"
  "wt_root_node_id (settled w) = wt_root_node_id w" "wt_task_id (settled w) = wt_task_id w"
  by (simp_all add: settled_def)

lemma settled_lookup [simp]: "node_by_id (settled w) = node_by_id w"
  by (simp add: node_by_id_def)

lemma settled_ids [simp]: "tree_ids (settled w) = tree_ids w"
  by (simp add: tree_ids_def)

lemma settled_anchor_settled [simp]: "settled_anchor (settled w) = settled_anchor w"
  by (cases "wt_recovery_anchor w")
     (auto simp: settled_anchor_def settled_def split: option.splits dest: first_such_Some)

lemma settled_id: "tree_wf w \<Longrightarrow> settled w = w"
  by (simp add: settled_def tree_wf_def tree_ok_def fields_ok_def)

lemma validate_tree_settled:
  assumes "tree_wf (settled w)" shows "validate_tree dg now w = settled w"
proof -
  let ?v = "w\<lparr>wt_pc_memo := norm_opt (wt_pc_memo w)\<rparr>"
  have "upgrade_tree dg now ?v = upgrade_tree dg now w"
    by (cases w) (simp add: upgrade_tree_def Let_def split: prod.split)
  then have "validate_tree dg now w = validate_tree dg now ?v" by (simp add: validate_tree_def)
  moreover have "settled_anchor w = a \<Longrightarrow> wt_recovery_anchor w \<in> {None, a}" for a
    by (auto simp: settled_anchor_def split: option.splits)
  then have "fields_ok ?v"
    using assms by (force simp: tree_wf_def tree_ok_def fields_ok_def settled_def)
  moreover have "settled_anchor ?v = settled_anchor w"
    by (simp add: settled_anchor_def cong: option.case_cong)
  ultimately have "validate_tree dg now ?v = settled w"
    by (simp add: validate_tree_fields settled_def)
  with \<open>validate_tree dg now w = validate_tree dg now ?v\<close> show ?thesis by simp
qed

lemma validate_protocol_settled:
  assumes "p_work_tree p = Some w" "tree_wf (settled w)"
  shows "validate_protocol dg now p = p\<lparr>p_work_tree := Some (settled w)\<rparr>"
proof -
  have "fields_ok (settled w)" using assms(2) by (simp add: tree_wf_def tree_ok_def)
  then have "\<exists>t. norm_opt (wt_task_id w) = Some t" by (auto simp: fields_ok_def)
  then have "backfill_work_tree_task_id p = p"
    using assms(1) by (auto simp: backfill_work_tree_task_id_def split: option.split)
  with assms show ?thesis
    by (simp add: validate_protocol_def Let_def validate_tree_settled)
qed

lemma executing_with_eq:
  assumes "tree_wf (settled w)"
  shows "executing_with e p w =
    p\<lparr>p_status := PExecuting, p_current_phase := PhExecute, p_work_tree := Some (settled w)\<rparr>"
  unfolding executing_with_def using assms by (subst validate_protocol_settled [where w = w]) simp_all

section \<open>The edits keep trees well-formed\<close>

lemma complete_node_safe: "tree_wf w \<Longrightarrow> safe_edit w (complete_node now i ids summary refs)"
  using tree_wf_nodes by (simp add: safe_edit_def complete_node_def)

lemma start_if_waiting_safe: "tree_wf w \<Longrightarrow> safe_edit w (start_if_waiting now i)"
  using tree_wf_nodes by (simp add: safe_edit_def start_if_waiting_def)

lemma mark_skipped_safe: "tree_wf w \<Longrightarrow> safe_edit w (mark_skipped now ids reason)"
  using tree_wf_nodes by (simp add: safe_edit_def mark_skipped_def)

lemma mark_failed_safe: "tree_wf w \<Longrightarrow> safe_edit w (mark_failed now i failure)"
  using tree_wf_nodes by (simp add: safe_edit_def mark_failed_def)

lemma reopen_node_safe: "tree_wf w \<Longrightarrow> safe_edit w (reopen_node now i)"
  using tree_wf_nodes by (simp add: safe_edit_def reopen_node_def)

lemma summarize_parent_safe: "tree_wf w \<Longrightarrow> safe_edit w (summarize_parent now i merged)"
  using tree_wf_nodes by (simp add: safe_edit_def summarize_parent_def)

lemma safe_edit_ident: "tree_wf w \<Longrightarrow> safe_edit w id"
  using tree_wf_nodes by (simp add: safe_edit_def)

text \<open>The fields an operation may overwrite, with what it puts there.\<close>

lemma edited_wf:
  assumes w: "tree_wf w" and g: "safe_edit w g" and c: "c \<in> tree_ids w"
    and path: "norm_list_ok path" "path \<noteq> []"
    and anchor: "norm_opt a = a" and v: "0 < vc"
  shows "tree_wf (settled
    (w\<lparr>wt_nodes := map g (wt_nodes w), wt_status := st, wt_current_node_id := Some c,
       wt_active_path_node_ids := path, wt_pc_memo := memo, wt_recovery_anchor := a,
       wt_version_counter := vc, wt_updated_at := t\<rparr>))"
proof -
  let ?v = "w\<lparr>wt_nodes := map g (wt_nodes w), wt_status := st, wt_current_node_id := Some c,
       wt_active_path_node_ids := path, wt_pc_memo := memo, wt_recovery_anchor := a,
       wt_version_counter := vc, wt_updated_at := t\<rparr>"
  have "norm_opt (n_recovery_anchor n) = n_recovery_anchor n" if "n \<in> set (map g (wt_nodes w))" for n
    using that w g by (auto simp: tree_wf_def safe_edit_def)
  then have "norm_opt (settled_anchor ?v) = settled_anchor ?v"
    using anchor by (auto simp: settled_anchor_def split: option.split dest!: first_such_Some)
  moreover have "settled_anchor (settled ?v) = wt_recovery_anchor (settled ?v)"
    by (simp only: settled_anchor_settled) (simp add: settled_def)
  ultimately show ?thesis
    using w c path v by (intro tree_wf_edit [OF w g])
      (simp_all add: settled_def tree_wf_def tree_ok_def fields_ok_def)
qed

lemma tree_wf_pointers:
  assumes "tree_wf w"
  obtains c r t where "wt_current_node_id w = Some c" "c \<in> tree_ids w" "wt_root_node_id w = Some r"
    "r \<in> tree_ids w" "norm_ok r" "wt_task_id w = Some t" "norm_ok t"
  using assms tree_wf_root [OF assms] unfolding tree_wf_def tree_ok_def fields_ok_def by auto

lemma tree_wf_anchors:
  "tree_wf w \<Longrightarrow> norm_opt (wt_recovery_anchor w) = wt_recovery_anchor w"
  "tree_wf w \<Longrightarrow> n \<in> set (wt_nodes w) \<Longrightarrow> norm_opt (n_recovery_anchor n) = n_recovery_anchor n"
  "tree_wf w \<Longrightarrow> norm_list_ok (wt_active_path_node_ids w)"
  "tree_wf w \<Longrightarrow> wt_active_path_node_ids w \<noteq> []"
  "tree_wf w \<Longrightarrow> norm_opt (wt_pc_memo w) = wt_pc_memo w"
  by (simp_all add: tree_wf_def tree_ok_def fields_ok_def)

lemma path_to_node:
  assumes "tree_wf w" "node_by_id w i = Some n"
  shows "norm_list_ok (work_tree_active_path_node_ids w (Some i))"
    and "work_tree_active_path_node_ids w (Some i) \<noteq> []" and "i \<in> tree_ids w"
proof -
  have i: "norm_ok i" using node_by_id_Some [OF assms(2)] tree_wf_ids [OF assms(1)] by auto
  note path = active_path_props [OF assms(2) norm_ok_nonempty [OF i]]
  from path show "norm_list_ok (work_tree_active_path_node_ids w (Some i))"
    by (simp add: tree_wf_norm_list [OF assms(1)])
  from path show "work_tree_active_path_node_ids w (Some i) \<noteq> []" by simp
  show "i \<in> tree_ids w" by (rule node_by_id_in_ids [OF assms(2)])
qed

lemma anchor_or:
  assumes "tree_wf w" "n \<in> set (wt_nodes w)"
  shows "norm_opt (opt_or (n_recovery_anchor n) (wt_recovery_anchor w)) =
      opt_or (n_recovery_anchor n) (wt_recovery_anchor w)"
proof -
  note a = tree_wf_anchors(2) [OF assms] tree_wf_anchors(1) [OF assms(1)]
  from a show "norm_opt (opt_or (n_recovery_anchor n) (wt_recovery_anchor w)) =
      opt_or (n_recovery_anchor n) (wt_recovery_anchor w)" by (rule norm_opt_or)
qed

lemma switched_tree_wf:
  assumes "tree_wf w" "node_by_id w i = Some n"
  shows "tree_wf (settled (switched_tree e w n i))"
proof -
  have "switched_tree e w n i = w\<lparr>wt_nodes := map (start_if_waiting (now_of e) i) (wt_nodes w),
      wt_status := TActive, wt_current_node_id := Some i,
      wt_active_path_node_ids := work_tree_active_path_node_ids w (Some i),
      wt_pc_memo := Some (lit ''continue:'' @ i),
      wt_recovery_anchor := opt_or (n_recovery_anchor n) (wt_recovery_anchor w),
      wt_version_counter := wt_version_counter w, wt_updated_at := now_of e\<rparr>"
    by (cases w) (simp add: switched_tree_def)
  also have "tree_wf (settled \<dots>)"
    using node_by_id_Some [OF assms(2)] anchor_or [OF assms(1)]
    by (intro edited_wf assms(1) start_if_waiting_safe path_to_node [OF assms] tree_wf_version)
       blast+
  finally show ?thesis .
qed

lemma completed_tree_wf:
  assumes "tree_wf w" shows "tree_wf (settled (completed_tree e w i ids summary refs))"
proof -
  obtain c where c: "wt_current_node_id w = Some c" "c \<in> tree_ids w"
    using tree_wf_pointers [OF assms] by metis
  have "completed_tree e w i ids summary refs =
      w\<lparr>wt_nodes := map (complete_node (now_of e) i ids summary refs) (wt_nodes w),
        wt_status := TActive, wt_current_node_id := Some c,
        wt_active_path_node_ids := wt_active_path_node_ids w, wt_pc_memo := wt_pc_memo w,
        wt_recovery_anchor := wt_recovery_anchor w,
        wt_version_counter := wt_version_counter w, wt_updated_at := now_of e\<rparr>"
    using c(1) by (cases w) (simp add: completed_tree_def)
  also have "tree_wf (settled \<dots>)"
    using c(2) by (intro edited_wf assms complete_node_safe tree_wf_anchors tree_wf_version) simp_all
  finally show ?thesis .
qed

lemma failed_tree_wf:
  assumes "tree_wf w" shows "tree_wf (settled (failed_tree e w n failure))"
proof -
  obtain c where c: "wt_current_node_id w = Some c" "c \<in> tree_ids w"
    using tree_wf_pointers [OF assms] by metis
  have "failed_tree e w n failure =
      w\<lparr>wt_nodes := map (mark_failed (now_of e) (n_id n) failure) (wt_nodes w),
        wt_status := (if n_parent_node_id n = None then TFailed else TActive),
        wt_current_node_id := Some c, wt_active_path_node_ids := wt_active_path_node_ids w,
        wt_pc_memo := wt_pc_memo w, wt_recovery_anchor := wt_recovery_anchor w,
        wt_version_counter := wt_version_counter w, wt_updated_at := now_of e\<rparr>"
    using c(1) by (cases w) (simp add: failed_tree_def)
  also have "tree_wf (settled \<dots>)"
    using c(2) by (intro edited_wf assms mark_failed_safe tree_wf_anchors tree_wf_version) simp_all
  finally show ?thesis .
qed

lemma reopened_tree_wf:
  assumes "tree_wf w" "node_by_id w i = Some n"
  shows "tree_wf (settled (reopened_tree e w i reason))"
proof -
  have "reopened_tree e w i reason = w\<lparr>wt_nodes := map (reopen_node (now_of e) i) (wt_nodes w),
      wt_status := TActive, wt_current_node_id := Some i,
      wt_active_path_node_ids := work_tree_active_path_node_ids w (Some i),
      wt_pc_memo := wt_pc_memo (reopened_tree e w i reason),
      wt_recovery_anchor := wt_recovery_anchor w,
      wt_version_counter := wt_version_counter w, wt_updated_at := now_of e\<rparr>"
    by (cases w) (simp add: reopened_tree_def)
  also have "tree_wf (settled \<dots>)"
    by (intro edited_wf assms(1) reopen_node_safe path_to_node [OF assms] tree_wf_anchors
        tree_wf_version)
  finally show ?thesis .
qed

lemma skip_target_exists:
  assumes "tree_wf w"
  shows "\<exists>c n. current_after_skip w skipped = Some c \<and> node_by_id w c = Some n"
proof -
  obtain c n where c: "wt_current_node_id w = Some c" and n: "node_by_id w c = Some n"
    using tree_wf_current [OF assms(1)] by blast
  have ok: "norm_ok k" if "node_by_id w k = Some m" for k m
    using node_by_id_Some [OF that] tree_wf_ids [OF assms(1)] by auto
  obtain r m where r: "wt_root_node_id w = Some r" "node_by_id w r = Some m"
    using tree_wf_root [OF assms(1)] by blast
  show ?thesis
  proof (cases "c \<in> set skipped")
    case False
    with c n ok [OF n] show ?thesis by (auto simp: current_after_skip_def Let_def)
  next
    case True
    show ?thesis
    proof (cases "n_parent_node_id n")
      case None
      with True c n r show ?thesis by (auto simp: current_after_skip_def Let_def)
    next
      case (Some p)
      obtain k where k: "node_by_id w p = Some k"
        using tree_wf_parent [OF assms(1) conjunct1 [OF node_by_id_Some [OF n]] Some] by blast
      with ok [OF k] True c n Some show ?thesis by (auto simp: current_after_skip_def Let_def)
    qed
  qed
qed

lemma skipped_tree_wf:
  assumes "tree_wf w" shows "tree_wf (settled (skipped_tree e w skipped reason))"
proof -
  obtain c n where c: "current_after_skip w skipped = Some c" and n: "node_by_id w c = Some n"
    using skip_target_exists [OF assms] by blast
  have "skipped_tree e w skipped reason =
      w\<lparr>wt_nodes := map (mark_skipped (now_of e) skipped reason) (wt_nodes w),
        wt_status := TActive, wt_current_node_id := Some c,
        wt_active_path_node_ids := work_tree_active_path_node_ids w (Some c),
        wt_pc_memo := wt_pc_memo (skipped_tree e w skipped reason),
        wt_recovery_anchor := wt_recovery_anchor w,
        wt_version_counter := wt_version_counter w + 1, wt_updated_at := now_of e\<rparr>"
    using c by (cases w) (simp add: skipped_tree_def)
  also have "tree_wf (settled \<dots>)"
    using tree_wf_version [OF assms(1)]
    by (intro edited_wf assms mark_skipped_safe path_to_node [OF assms n] tree_wf_anchors) simp_all
  finally show ?thesis .
qed

lemma pointed_tree_wf:
  assumes w: "tree_wf w" and g: "safe_edit w g" and c: "i \<in> tree_ids w"
  shows "tree_wf (settled (w\<lparr>wt_nodes := map g (wt_nodes w), wt_status := st,
      wt_current_node_id := Some i, wt_pc_memo := memo, wt_updated_at := t\<rparr>))"
proof -
  have "w\<lparr>wt_nodes := map g (wt_nodes w), wt_status := st, wt_current_node_id := Some i,
        wt_pc_memo := memo, wt_updated_at := t\<rparr> =
      w\<lparr>wt_nodes := map g (wt_nodes w), wt_status := st, wt_current_node_id := Some i,
        wt_active_path_node_ids := wt_active_path_node_ids w, wt_pc_memo := memo,
        wt_recovery_anchor := wt_recovery_anchor w,
        wt_version_counter := wt_version_counter w, wt_updated_at := t\<rparr>"
    by (cases w) simp
  also have "tree_wf (settled \<dots>)"
    using c by (intro edited_wf assms tree_wf_anchors tree_wf_version)
  finally show ?thesis .
qed

lemma record_swap:
  "w\<lparr>wt_nodes := ns, wt_status := st, wt_current_node_id := c, wt_pc_memo := m, wt_updated_at := t\<rparr> =
   w\<lparr>wt_current_node_id := c, wt_pc_memo := m, wt_status := st, wt_nodes := ns, wt_updated_at := t\<rparr>"
  by simp

lemma merged_tree_eq:
  assumes "tree_wf w" "target \<in> tree_ids w"
  shows "tree_wf (merged_tree e w target merged)
    \<and> wt_nodes (merged_tree e w target merged) =
        map (summarize_parent (now_of e) target merged) (wt_nodes w)"
proof -
  let ?v = "w\<lparr>wt_current_node_id := Some target,
      wt_pc_memo := Some (normalize_excerpt (lit ''child-completion:'' @ target) 160),
      wt_status := (if wt_status w \<in> {TCompleted, TFailed, TAwaitingApproval}
                    then wt_status w else TSummarizing),
      wt_nodes := map (summarize_parent (now_of e) target merged) (wt_nodes w),
      wt_updated_at := now_of e\<rparr>"
  have wf: "tree_wf (settled ?v)"
    using pointed_tree_wf [OF assms(1) summarize_parent_safe [OF assms(1)] assms(2),
        where st = "if wt_status w \<in> {TCompleted, TFailed, TAwaitingApproval}
                    then wt_status w else TSummarizing"
          and memo = "Some (normalize_excerpt (lit ''child-completion:'' @ target) 160)"
          and t = "now_of e" and now1 = "now_of e" and i1 = target and merged1 = merged]
    by (simp only: record_swap)
  then have "merged_tree e w target merged = settled ?v"
    unfolding merged_tree_def by (rule validate_tree_settled)
  with wf show ?thesis by simp
qed

lemma approved_tree_wf:
  assumes "tree_wf w" "i \<in> tree_ids w"
  shows "tree_wf (settled (w\<lparr>wt_status := st, wt_current_node_id := Some i, wt_pc_memo := memo,
      wt_updated_at := t\<rparr>))"
proof -
  have "w\<lparr>wt_nodes := map id (wt_nodes w), wt_status := st, wt_current_node_id := Some i,
      wt_pc_memo := memo, wt_updated_at := t\<rparr> =
      w\<lparr>wt_status := st, wt_current_node_id := Some i, wt_pc_memo := memo, wt_updated_at := t\<rparr>"
    by (cases w) simp
  then show ?thesis
    using pointed_tree_wf [OF assms(1) safe_edit_ident [OF assms(1)] assms(2),
        where st = st and memo = memo and t = t] by simp
qed


text \<open>Appending a fresh child: what \<open>create_child_work_node\<close> does to the tree.\<close>

lemma adopt_child_safe:
  assumes "tree_wf w" "norm_ok i" "i \<notin> tree_ids w"
  shows "safe_edit w (adopt_child now p i)"
proof -
  have "norm_list_ok (n_child_node_ids n @ [i])" if "norm_list_ok (n_child_node_ids n)"
    "i \<notin> set (n_child_node_ids n)" for n
    using that assms(2) by (simp add: norm_list_ok_def)
  then show ?thesis
    using tree_wf_nodes [OF assms(1)] by (auto simp: safe_edit_def adopt_child_def node_ok_def)
qed

lemma appended_wf:
  assumes w: "tree_wf w" and g: "safe_edit w g" and n: "node_ok n" "n_id n \<notin> tree_ids w"
    and par: "n_parent_node_id n = Some p" "p \<in> tree_ids w"
    and a: "norm_opt (n_recovery_anchor n) = n_recovery_anchor n"
    and c: "c \<in> insert (n_id n) (tree_ids w)"
  shows "tree_wf (settled (w\<lparr>wt_nodes := map g (wt_nodes w) @ [n], wt_current_node_id := Some c,
      wt_status := st, wt_pc_memo := memo, wt_version_counter := wt_version_counter w + 1,
      wt_updated_at := t\<rparr>))"
proof -
  let ?v = "w\<lparr>wt_nodes := map g (wt_nodes w) @ [n], wt_current_node_id := Some c,
      wt_status := st, wt_pc_memo := memo, wt_version_counter := wt_version_counter w + 1,
      wt_updated_at := t\<rparr>"
  have ids: "map n_id (map g (wt_nodes w)) = map n_id (wt_nodes w)"
    using g by (simp add: safe_edit_def)
  have p: "norm_ok p" using par(2) tree_wf_ids [OF w] by (auto simp: tree_ids_def)
  have tids: "tree_ids ?v = insert (n_id n) (tree_ids w)"
    using g by (simp add: tree_ids_def safe_edit_def image_image cong: image_cong)
  have "norm_ok c" using c n(1) tree_wf_ids [OF w] by (auto simp: tree_ids_def node_ok_def)
  have anc: "\<forall>m\<in>set (wt_nodes ?v). norm_opt (n_recovery_anchor m) = n_recovery_anchor m"
    using w g a by (auto simp: tree_wf_def safe_edit_def)
  then have "norm_opt (settled_anchor ?v) = settled_anchor ?v"
    using tree_wf_anchors(1) [OF w]
    by (auto simp: settled_anchor_def split: option.split dest!: first_such_Some)
  then have "fields_ok (settled ?v)"
    using w g n p par \<open>norm_ok c\<close>
    by (auto simp: settled_def tree_wf_def tree_ok_def fields_ok_def safe_edit_def has_no_parent_def)
  moreover have "settled_anchor (settled ?v) = wt_recovery_anchor (settled ?v)"
    by (simp only: settled_anchor_settled) (simp add: settled_def)
  ultimately have "tree_ok (settled ?v)" by (simp add: tree_ok_def)
  moreover have "distinct (map n_id (wt_nodes ?v))"
    using w n(2) ids by (simp add: tree_wf_def tree_ids_def del: map_map)
  moreover have "\<forall>m\<in>set (wt_nodes ?v). n_parent_node_id m \<in> insert None (Some ` tree_ids ?v)"
    unfolding tids using w g par by (auto simp: tree_wf_def safe_edit_def)
  moreover have "wt_root_node_id ?v \<in> Some ` tree_ids ?v" "wt_current_node_id ?v \<in> Some ` tree_ids ?v"
    unfolding tids using w c by (auto simp: tree_wf_def)
  moreover have "0 < wt_version_counter (settled ?v)"
    using tree_wf_version [OF w] by (simp add: settled_def)
  ultimately show ?thesis using anc by (simp add: tree_wf_def)
qed

lemma norm_ok_resume: "norm_ok s \<Longrightarrow> norm_ok (lit ''resume:'' @ p @ lit '':'' @ s)"
  by (simp add: norm_ok_def is_space_def)

lemma child_node_keys:
  assumes "norm_ok i" "norm_ok title" "\<forall>q\<in>set questions. norm_ok q"
  shows "n_id (child_node e i pid p title ph questions goal ev act) = i"
    and "n_parent_node_id (child_node e i pid p title ph questions goal ev act) = Some pid"
    and "n_status (child_node e i pid p title ph questions goal ev act) =
      (if act then NInProgress else NPending)"
    and "norm_opt (n_recovery_anchor (child_node e i pid p title ph questions goal ev act)) =
      n_recovery_anchor (child_node e i pid p title ph questions goal ev act)"
    and "node_ok (child_node e i pid p title ph questions goal ev act)"
proof -
  let ?q = "list_or questions [title]"
  have "normalized_string_list ?q \<noteq> []"
  proof -
    have "\<forall>q\<in>set ?q. norm_ok q" "?q \<noteq> []" using assms(2,3) by (simp_all add: list_or_def)
    then have "hd ?q \<in> set (normalized_string_list ?q)"
      by (auto simp: set_normalized_string_list intro!: bexI [of _ "hd ?q"])
    then show ?thesis by auto
  qed
  then show "node_ok (child_node e i pid p title ph questions goal ev act)"
    unfolding child_node_def Let_def by (intro validate_node_ok) (simp_all add: new_node_def)
qed (use assms in \<open>simp_all add: child_node_def Let_def new_node_def norm_ok_resume\<close>)

section \<open>Results of the operations on a well-formed protocol\<close>

lemma current_of_wf:
  assumes "tree_wf w"
  obtains n where "node_by_id w (n_id n) = Some n" "wt_current_node_id w = Some (n_id n)"
    "current_node_of_tree w = Some n" "n \<in> set (wt_nodes w)"
proof -
  obtain c n where "wt_current_node_id w = Some c" "node_by_id w c = Some n"
    using tree_wf_current [OF assms] by blast
  with node_by_id_Some [OF this(2)] that show thesis by (auto simp: current_node_of_tree_def)
qed

lemma current_of_protocol: "p_work_tree p = Some w \<Longrightarrow> current_work_tree_node (Some p) = current_node_of_tree w"
  by (simp add: current_work_tree_node_def)

text \<open>Normalizing keeps every node; only a pending current node is started.\<close>

lemma normalize_result:
  assumes "p_work_tree p = Some w" "tree_wf w" "norm_ok t" "wt_current_node_id w = Some c"
  obtains q s v where "normalize_runtime_state e p t r stack = (q, Some s)"
    "p_work_tree q = Some v" "tree_wf v" "wt_current_node_id v = Some c"
    "wt_root_node_id v = wt_root_node_id w" "tree_ids v = tree_ids w"
    "wt_status v = (if wt_status w = TPlanned then TActive else wt_status w)"
    "p_status q = protocol_status_from_work_tree_status (wt_status v) (p_status p)"
    "p_current_phase q = (if wt_status v \<in> {TAwaitingApproval, TCompleted} then PhDeliver else PhExecute)"
    "p_verification_items q = p_verification_items p"
    "\<And>i. node_by_id v i = map_option (start_current_node (now_of e) (wt_status w) c) (node_by_id w i)"
proof -
  obtain n where n: "wt_current_node_id w = Some (n_id n)" "current_node_of_tree w = Some n"
    "n \<in> set (wt_nodes w)" using current_of_wf [OF assms(2)] by metis
  with assms(4) have c: "n_id n = c" by simp
  let ?v = "normalized_payload e w t n"
  have ids: "tree_ids ?v = tree_ids w"
    by (rule safe_edit_ids [OF start_current_safe [OF assms(2), of "now_of e" "wt_status w" "n_id n"]])
       (simp add: normalized_payload_def)
  have v: "wt_current_node_id ?v = Some c" "wt_root_node_id ?v = wt_root_node_id w"
    "wt_status ?v = (if wt_status w = TPlanned then TActive else wt_status w)"
    "\<And>i. node_by_id ?v i = map_option (start_current_node (now_of e) (wt_status w) c) (node_by_id w i)"
    using c normalized_lookup [OF assms(2), of e t n] by (simp_all add: normalized_payload_def)
  from normalize_wf [OF assms(1-3) n(2), of e r stack]
  have q: "\<exists>q s. normalize_runtime_state e p t r stack = (q, Some s) \<and> p_work_tree q = Some ?v
     \<and> p_status q = protocol_status_from_work_tree_status (wt_status ?v) (p_status p)
     \<and> p_current_phase q = (if wt_status ?v \<in> {TAwaitingApproval, TCompleted} then PhDeliver else PhExecute)
     \<and> p_verification_items q = p_verification_items p"
    by (simp add: Let_def)
  show thesis
    using q v ids normalized_payload_wf [OF assms(2,3) n(3)] that by blast
qed

text \<open>Normalizing after an edit through \<open>executing_with\<close>.\<close>

lemma executing_result:
  assumes "tree_wf (settled v)" "norm_ok t" "wt_current_node_id v = Some c" "wt_status v = TActive"
  obtains q s u where "normalize_runtime_state e (executing_with e p v) t r stack = (q, Some s)"
    "p_work_tree q = Some u" "tree_wf u" "wt_current_node_id u = Some c"
    "wt_root_node_id u = wt_root_node_id v" "tree_ids u = tree_ids v" "wt_status u = TActive"
    "p_status q = PExecuting" "p_current_phase q = PhExecute"
    "p_verification_items q = p_verification_items p"
    "\<And>i. node_by_id u i = map_option (start_current_node (now_of e) TActive c) (node_by_id v i)"
proof -
  let ?p = "p\<lparr>p_status := PExecuting, p_current_phase := PhExecute, p_work_tree := Some (settled v)\<rparr>"
  obtain q s u where n: "normalize_runtime_state e ?p t r stack = (q, Some s)"
    "p_work_tree q = Some u" "tree_wf u" "wt_current_node_id u = Some c"
    "wt_root_node_id u = wt_root_node_id (settled v)" "tree_ids u = tree_ids (settled v)"
    "wt_status u = (if wt_status (settled v) = TPlanned then TActive else wt_status (settled v))"
    "p_status q = protocol_status_from_work_tree_status (wt_status u) (p_status ?p)"
    "p_current_phase q = (if wt_status u \<in> {TAwaitingApproval, TCompleted} then PhDeliver else PhExecute)"
    "p_verification_items q = p_verification_items ?p"
    "\<And>i. node_by_id u i =
       map_option (start_current_node (now_of e) (wt_status (settled v)) c) (node_by_id (settled v) i)"
    using normalize_result [of ?p "settled v" t c e r stack] assms by auto
  show thesis
    using n assms that [of q s u]
    by (simp add: executing_with_eq protocol_status_from_work_tree_status_def)
qed

lemma switch_result:
  assumes "p_work_tree p = Some w" "tree_wf w" "norm_ok t" "node_by_id w i = Some n"
  obtains q s u where "switch_current_work_node e p t r i stack cursor = Inr (q, s)"
    "p_work_tree q = Some u" "tree_wf u" "wt_current_node_id u = Some i"
    "wt_root_node_id u = wt_root_node_id w" "tree_ids u = tree_ids w" "wt_status u = TActive"
    "p_status q = PExecuting" "p_current_phase q = PhExecute"
    "p_verification_items q = p_verification_items p"
    "\<And>j. node_by_id u j = map_option (start_if_waiting (now_of e) i) (node_by_id w j)"
proof -
  let ?v = "switched_tree e w n i"
  have lk: "node_by_id ?v j = map_option (start_if_waiting (now_of e) i) (node_by_id w j)" for j
    by (rule safe_edit_lookup [OF start_if_waiting_safe [OF assms(2)]]) (simp add: switched_tree_def)
  have ids: "tree_ids ?v = tree_ids w"
    by (rule safe_edit_ids [OF start_if_waiting_safe [OF assms(2), of "now_of e" i]])
       (simp add: switched_tree_def)
  have "start_current_node (now_of e) TActive i (start_if_waiting (now_of e) i m) =
      start_if_waiting (now_of e) i m" for m
    by (simp add: start_current_node_def start_if_waiting_def)
  then have sc: "map_option (start_current_node (now_of e) TActive i)
       (map_option (start_if_waiting (now_of e) i) x) = map_option (start_if_waiting (now_of e) i) x" for x
    by (cases x) simp_all
  obtain q s u where r: "normalize_runtime_state e (executing_with e p ?v) t r stack = (q, Some s)"
    "p_work_tree q = Some u" "tree_wf u" "wt_current_node_id u = Some i"
    "wt_root_node_id u = wt_root_node_id ?v" "tree_ids u = tree_ids ?v" "wt_status u = TActive"
    "p_status q = PExecuting" "p_current_phase q = PhExecute"
    "p_verification_items q = p_verification_items p"
    "\<And>i'. node_by_id u i' = map_option (start_current_node (now_of e) TActive i) (node_by_id ?v i')"
    using executing_result [OF switched_tree_wf [OF assms(2,4), of e] assms(3), of i e p r stack]
    by (auto simp: switched_tree_def)
  have "wt_root_node_id ?v = wt_root_node_id w" by (simp add: switched_tree_def)
  with r assms lk ids sc that show thesis
    by (simp add: switch_current_work_node_def)
qed


lemma bubble_result:
  assumes "p_work_tree p = Some w" "tree_wf w" "norm_ok t" "node_by_id w i = Some n"
    and "n_parent_node_id n = Some pa"
  obtains q s u where "switch_current_work_node e p t r pa stack cursor = Inr (q, s)"
    "bubble_to_parent_work_node e p t r stack (Some i) cursor = Inr (q, Some s)"
    "p_work_tree q = Some u" "tree_wf u" "wt_current_node_id u = Some pa"
    "wt_root_node_id u = wt_root_node_id w" "tree_ids u = tree_ids w" "wt_status u = TActive"
    "p_status q = PExecuting" "p_current_phase q = PhExecute"
    "p_verification_items q = p_verification_items p"
    "\<And>j. node_by_id u j = map_option (start_if_waiting (now_of e) pa) (node_by_id w j)"
proof -
  obtain m where m: "node_by_id w pa = Some m"
    using tree_wf_parent [OF assms(2) conjunct1 [OF node_by_id_Some [OF assms(4)]] assms(5)] by blast
  show thesis
    by (rule switch_result [OF assms(1-3) m, of e r stack cursor], rule that, assumption,
        simp add: bubble_to_parent_work_node_def assms, assumption+)
qed

definition finished_with :: "env \<Rightarrow> work_tree \<Rightarrow> ustr \<Rightarrow> bool \<Rightarrow> ustr set" where
  "finished_with e w i confirm =
     insert i (set (if confirm then node_unfinished_descendant_ids w i else []))"

lemma complete_ready:
  assumes "p_work_tree p = Some w" "tree_wf w" "norm_ok t" "wt_current_node_id w = Some (n_id c)"
    and "node_by_id w (n_id c) = Some c"
  obtains q s u where "normalize_runtime_state e
      (executing_with e p (completed_tree e w (n_id c) (finished_with e w (n_id c) confirm) summary refs))
      t r stack = (q, Some s)"
    "p_work_tree q = Some u" "tree_wf u" "wt_current_node_id u = Some (n_id c)"
    "wt_root_node_id u = wt_root_node_id w" "tree_ids u = tree_ids w" "wt_status u = TActive"
    "p_status q = PExecuting" "p_current_phase q = PhExecute"
    "p_verification_items q = p_verification_items p"
    "\<And>j. node_by_id u j = map_option
       (complete_node (now_of e) (n_id c) (finished_with e w (n_id c) confirm) summary refs) (node_by_id w j)"
proof -
  let ?ids = "finished_with e w (n_id c) confirm"
  let ?g = "complete_node (now_of e) (n_id c) ?ids summary refs"
  let ?v = "completed_tree e w (n_id c) ?ids summary refs"
  note safe = complete_node_safe [OF assms(2), of "now_of e" "n_id c" ?ids summary refs]
  have lk: "node_by_id ?v j = map_option ?g (node_by_id w j)" for j
    by (rule safe_edit_lookup [OF safe]) (simp add: completed_tree_def)
  have ids: "tree_ids ?v = tree_ids w" by (rule safe_edit_ids [OF safe]) (simp add: completed_tree_def)
  have "start_current_node (now_of e) TActive (n_id c) (?g m) = ?g m" for m
    by (auto simp: start_current_node_def complete_node_def finished_with_def terminal_statuses_def)
  then have sc: "map_option (start_current_node (now_of e) TActive (n_id c)) (map_option ?g x) =
      map_option ?g x" for x by (cases x) simp_all
  have v: "wt_current_node_id ?v = Some (n_id c)" "wt_status ?v = TActive"
    "wt_root_node_id ?v = wt_root_node_id w"
    using assms(4) by (simp_all add: completed_tree_def)
  show thesis
    using executing_result [OF completed_tree_wf [OF assms(2), of e "n_id c" ?ids summary refs] assms(3)
        v(1,2), of e p r stack] lk ids sc v(3) that by metis
qed

lemma complete_child_result:
  assumes "p_work_tree p = Some w" "tree_wf w" "norm_ok t" "wt_current_node_id w = Some (n_id c)"
    and "node_by_id w (n_id c) = Some c" "n_parent_node_id c = Some pa"
    and "normalize_excerpt (strip text) 240 \<noteq> []"
    and "confirm \<or> node_unfinished_descendant_ids w (n_id c) = []"
  obtains q s u s0 q0 tr where
    "complete_current_work_node e p t r text stack refs confirm = Inr (q, Some s, tr)"
    "tr_transition tr = TrBubbleParent" "tr_current_node_id tr = Some pa" "tr_requires_continuation tr"
    "p_work_tree q = Some u" "tree_wf u" "wt_current_node_id u = Some pa"
    "wt_root_node_id u = wt_root_node_id w" "tree_ids u = tree_ids w" "wt_status u = TActive"
    "p_status q = PExecuting" "p_current_phase q = PhExecute"
    "p_verification_items q = p_verification_items p"
    "\<And>j. node_by_id u j = map_option (start_if_waiting (now_of e) pa \<circ>
       complete_node (now_of e) (n_id c) (finished_with e w (n_id c) confirm)
         (normalize_excerpt (strip text) 240) refs) (node_by_id w j)"
    "normalize_runtime_state e (executing_with e p (completed_tree e w (n_id c)
       (finished_with e w (n_id c) confirm) (normalize_excerpt (strip text) 240) refs)) t r stack =
       (q0, Some s0)"
    "switch_current_work_node e q0 t r pa (Some (append_child_completion_summary e s0 pa
       \<lparr>cs_child_node_id = n_id c, cs_completed = True,
        cs_summary = normalize_excerpt (strip text) 240, cs_summary_type = ExecutionResult,
        cs_evidence_refs = refs, cs_completed_at = now_of e\<rparr>))
       (Some (lit ''resume-parent-after-child-completion'')) = Inr (q, s)"
proof -
  let ?summary = "normalize_excerpt (strip text) 240"
  have c: "current_node_of_tree w = Some c" using assms(4,5) by (simp add: current_node_of_tree_def)
  obtain q0 s0 u0 where n: "normalize_runtime_state e
      (executing_with e p (completed_tree e w (n_id c) (finished_with e w (n_id c) confirm) ?summary refs))
      t r stack = (q0, Some s0)"
    "p_work_tree q0 = Some u0" "tree_wf u0" "wt_current_node_id u0 = Some (n_id c)"
    "wt_root_node_id u0 = wt_root_node_id w" "tree_ids u0 = tree_ids w"
    "p_verification_items q0 = p_verification_items p"
    "\<And>j. node_by_id u0 j = map_option
       (complete_node (now_of e) (n_id c) (finished_with e w (n_id c) confirm) ?summary refs) (node_by_id w j)"
    using complete_ready [OF assms(1-5), of e confirm ?summary refs r stack] by metis
  have c0: "node_by_id u0 (n_id c) = Some
      (complete_node (now_of e) (n_id c) (finished_with e w (n_id c) confirm) ?summary refs c)"
    using assms(5) n(8) by simp
  have pa: "n_parent_node_id (complete_node (now_of e) (n_id c) (finished_with e w (n_id c) confirm)
      ?summary refs c) = Some pa" using assms(6) by (simp add: complete_node_def)
  let ?s1 = "append_child_completion_summary e s0 pa
     \<lparr>cs_child_node_id = n_id c, cs_completed = True, cs_summary = ?summary,
      cs_summary_type = ExecutionResult, cs_evidence_refs = refs, cs_completed_at = now_of e\<rparr>"
  obtain q s u where b: "bubble_to_parent_work_node e q0 t r (Some ?s1) (Some (n_id c))
       (Some (lit ''resume-parent-after-child-completion'')) = Inr (q, Some s)"
    "switch_current_work_node e q0 t r pa (Some ?s1)
       (Some (lit ''resume-parent-after-child-completion'')) = Inr (q, s)"
    "p_work_tree q = Some u" "tree_wf u" "wt_current_node_id u = Some pa"
    "wt_root_node_id u = wt_root_node_id u0" "tree_ids u = tree_ids u0" "wt_status u = TActive"
    "p_status q = PExecuting" "p_current_phase q = PhExecute"
    "p_verification_items q = p_verification_items q0"
    "\<And>j. node_by_id u j = map_option (start_if_waiting (now_of e) pa) (node_by_id u0 j)"
    using bubble_result [OF n(2,3) assms(3) c0 pa] by metis
  let ?tr = "(plain_transition TrBubbleParent True (work_tree_focus_label (Some q)))
     \<lparr>tr_current_node_id := tree_current q, tr_next_node_id := tree_current q,
      tr_confirmed_descendant_node_ids :=
        (if confirm then node_unfinished_descendant_ids w (n_id c) else [])\<rparr>"
  have "complete_current_work_node e p t r text stack refs confirm = Inr (q, Some s, ?tr)"
    using assms n(1,2) b(1) c
    by (auto simp: complete_current_work_node_def current_of_protocol finished_with_def Let_def)
  moreover have "tree_current q = Some pa" using b by (simp add: tree_current_def)
  ultimately show thesis
    using b n that [of q s ?tr u q0 s0] by (simp add: plain_transition_def option.map_comp)
qed


lemma awaiting_approval_eq:
  assumes "p_work_tree q = Some v" "tree_wf v" "wt_root_node_id v = Some rt"
  shows "\<exists>u. awaiting_approval e q v c summary =
      q\<lparr>p_status := PVerified, p_current_phase := PhDeliver, p_work_tree := Some u\<rparr>
    \<and> tree_wf u \<and> wt_status u = TAwaitingApproval \<and> wt_current_node_id u = Some rt
    \<and> wt_root_node_id u = Some rt \<and> wt_nodes u = wt_nodes v"
proof -
  let ?v = "v\<lparr>wt_status := TAwaitingApproval, wt_current_node_id := Some rt,
      wt_pc_memo := Some summary, wt_updated_at := now_of e\<rparr>"
  have r: "rt \<in> tree_ids v" "norm_ok rt"
    using tree_wf_pointers [OF assms(2)] assms(3) by auto
  have wf: "tree_wf (settled ?v)" by (rule approved_tree_wf [OF assms(2) r(1)])
  have "awaiting_approval e q v c summary =
      q\<lparr>p_status := PVerified, p_current_phase := PhDeliver, p_work_tree := Some (settled ?v)\<rparr>"
    using wf r(2) assms(3)
    by (simp add: awaiting_approval_def validate_tree_settled protocol_wf_validate [where w = "settled ?v"])
  with wf assms(3) show ?thesis by (intro exI [of _ "settled ?v"]) simp
qed

lemma start_current_closed [simp]:
  "start_current_node now TAwaitingApproval i = (\<lambda>n. n)"
  "start_current_node now TCompleted i = (\<lambda>n. n)" "start_current_node now TFailed i = (\<lambda>n. n)"
  by (simp_all add: start_current_node_def fun_eq_iff)

lemma lookup_cong: "wt_nodes u = wt_nodes v \<Longrightarrow> node_by_id u = node_by_id v"
  by (simp add: node_by_id_def)

lemma ids_cong: "wt_nodes u = wt_nodes v \<Longrightarrow> tree_ids u = tree_ids v"
  by (simp add: tree_ids_def)

lemma complete_root_result:
  assumes "p_work_tree p = Some w" "tree_wf w" "norm_ok t" "wt_current_node_id w = Some (n_id c)"
    and "node_by_id w (n_id c) = Some c" "n_parent_node_id c = None"
    and "normalize_excerpt (strip text) 240 \<noteq> []"
    and "confirm \<or> node_unfinished_descendant_ids w (n_id c) = []"
  obtains q s u tr where
    "complete_current_work_node e p t r text stack refs confirm = Inr (q, Some s, tr)"
    "tr_transition tr = TrAwaitingApproval" "tr_current_node_id tr = wt_root_node_id w"
    "\<not> tr_requires_continuation tr"
    "p_work_tree q = Some u" "tree_wf u" "wt_current_node_id u = wt_root_node_id w"
    "wt_root_node_id u = wt_root_node_id w" "tree_ids u = tree_ids w" "wt_status u = TAwaitingApproval"
    "p_status q = PVerified" "p_current_phase q = PhDeliver"
    "p_verification_items q = p_verification_items p"
    "\<And>j. node_by_id u j = map_option
       (complete_node (now_of e) (n_id c) (finished_with e w (n_id c) confirm)
         (normalize_excerpt (strip text) 240) refs) (node_by_id w j)"
proof -
  let ?summary = "normalize_excerpt (strip text) 240"
  have c: "current_node_of_tree w = Some c" using assms(4,5) by (simp add: current_node_of_tree_def)
  obtain q0 s0 u0 where n: "normalize_runtime_state e
      (executing_with e p (completed_tree e w (n_id c) (finished_with e w (n_id c) confirm) ?summary refs))
      t r stack = (q0, Some s0)"
    "p_work_tree q0 = Some u0" "tree_wf u0" "wt_root_node_id u0 = wt_root_node_id w"
    "tree_ids u0 = tree_ids w" "p_verification_items q0 = p_verification_items p"
    "\<And>j. node_by_id u0 j = map_option
       (complete_node (now_of e) (n_id c) (finished_with e w (n_id c) confirm) ?summary refs) (node_by_id w j)"
    using complete_ready [OF assms(1-5), of e confirm ?summary refs r stack] by metis
  obtain rt where rt: "wt_root_node_id w = Some rt" using tree_wf_pointers [OF assms(2)] by metis
  with n(4) have root0: "wt_root_node_id u0 = Some rt" by simp
  obtain u1 where u1: "awaiting_approval e q0 u0 (n_id c) ?summary =
      q0\<lparr>p_status := PVerified, p_current_phase := PhDeliver, p_work_tree := Some u1\<rparr>"
    "tree_wf u1" "wt_status u1 = TAwaitingApproval" "wt_current_node_id u1 = Some rt"
    "wt_root_node_id u1 = Some rt" "wt_nodes u1 = wt_nodes u0"
    using awaiting_approval_eq [OF n(2,3) root0] by blast
  have p1: "p_work_tree (awaiting_approval e q0 u0 (n_id c) ?summary) = Some u1" by (simp add: u1(1))
  obtain q s u where f: "normalize_runtime_state e (awaiting_approval e q0 u0 (n_id c) ?summary) t r (Some s0) = (q, Some s)"
    "p_work_tree q = Some u" "tree_wf u" "wt_current_node_id u = Some rt"
    "wt_root_node_id u = wt_root_node_id u1" "tree_ids u = tree_ids u1"
    "wt_status u = (if wt_status u1 = TPlanned then TActive else wt_status u1)"
    "p_status q = protocol_status_from_work_tree_status (wt_status u)
       (p_status (awaiting_approval e q0 u0 (n_id c) ?summary))"
    "p_current_phase q = (if wt_status u \<in> {TAwaitingApproval, TCompleted} then PhDeliver else PhExecute)"
    "p_verification_items q = p_verification_items (awaiting_approval e q0 u0 (n_id c) ?summary)"
    "\<And>i. node_by_id u i = map_option (start_current_node (now_of e) (wt_status u1) rt) (node_by_id u1 i)"
    using normalize_result [OF p1 u1(2) assms(3) u1(4), of e r "Some s0"] by metis
  let ?s = "update_cursor_state e s rt (Some (lit ''awaiting-approval''))"
  let ?tr = "(plain_transition TrAwaitingApproval False (lit ''awaiting-approval''))
     \<lparr>tr_current_node_id := Some rt, tr_confirmed_descendant_node_ids :=
        (if confirm then node_unfinished_descendant_ids w (n_id c) else [])\<rparr>"
  have cur: "tree_current q = Some rt" using f by (simp add: tree_current_def)
  have fin: "finish_root e t r q0 u0 s0 (n_id c) ?summary cf = (q, Some ?s,
      (plain_transition TrAwaitingApproval False (lit ''awaiting-approval''))
      \<lparr>tr_current_node_id := Some rt, tr_confirmed_descendant_node_ids := cf\<rparr>)" for cf
    by (simp add: finish_root_def f(1) cur)
  have dn: "complete_current_work_node e p t r text stack refs confirm = Inr (q, Some ?s, ?tr)"
    using assms n(1,2) c fin
    by (auto simp: complete_current_work_node_def current_of_protocol finished_with_def Let_def)
  have items: "p_verification_items q = p_verification_items p" using f(10) u1(1) n(6) by simp
  have st: "wt_status u = TAwaitingApproval" using f(7) u1(3) by simp
  show thesis
  proof (rule that [OF dn])
    show "tree_ids u = tree_ids w" using f(6) n(5) ids_cong [OF u1(6)] by simp
    show "node_by_id u j = map_option (complete_node (now_of e) (n_id c)
        (finished_with e w (n_id c) confirm) ?summary refs) (node_by_id w j)" for j
      using f(11) n(7) lookup_cong [OF u1(6)] u1(3) by (simp add: option.map_ident)
  qed (use f rt u1 items st in
        \<open>simp_all add: plain_transition_def protocol_status_from_work_tree_status_def\<close>)
qed


text \<open>Failing: the first normalization leaves the failed node alone.\<close>

lemma failed_lookup:
  assumes "tree_wf w"
  shows "node_by_id (failed_tree e w c failure) j =
      map_option (mark_failed (now_of e) (n_id c) failure) (node_by_id w j)"
    and "tree_ids (failed_tree e w c failure) = tree_ids w"
proof -
  note safe = mark_failed_safe [OF assms, of "now_of e" "n_id c" failure]
  show "node_by_id (failed_tree e w c failure) j =
      map_option (mark_failed (now_of e) (n_id c) failure) (node_by_id w j)"
    by (rule safe_edit_lookup [OF safe]) (simp add: failed_tree_def)
  show "tree_ids (failed_tree e w c failure) = tree_ids w"
    by (rule safe_edit_ids [OF safe]) (simp add: failed_tree_def)
qed

lemma fail_ready:
  assumes "p_work_tree p = Some w" "tree_wf w" "norm_ok t" "wt_current_node_id w = Some (n_id c)"
    and "node_by_id w (n_id c) = Some c"
  obtains q s u where "normalize_runtime_state e (validate_protocol (dg_of e) (now_of e)
      (p\<lparr>p_status := (if n_parent_node_id c = None then PNeedsClarification else PExecuting),
         p_work_tree := Some (failed_tree e w c failure)\<rparr>)) t r stack = (q, Some s)"
    "p_work_tree q = Some u" "tree_wf u" "wt_current_node_id u = Some (n_id c)"
    "wt_root_node_id u = wt_root_node_id w" "tree_ids u = tree_ids w"
    "wt_status u = (if n_parent_node_id c = None then TFailed else TActive)"
    "p_status q = (if n_parent_node_id c = None then PNeedsClarification else PExecuting)"
    "p_current_phase q = PhExecute" "p_verification_items q = p_verification_items p"
    "\<And>j. node_by_id u j = map_option (mark_failed (now_of e) (n_id c) failure) (node_by_id w j)"
proof -
  let ?v = "failed_tree e w c failure"
  let ?p = "p\<lparr>p_status := (if n_parent_node_id c = None then PNeedsClarification else PExecuting),
      p_work_tree := Some (settled ?v)\<rparr>"
  have val: "validate_protocol (dg_of e) (now_of e)
      (p\<lparr>p_status := (if n_parent_node_id c = None then PNeedsClarification else PExecuting),
         p_work_tree := Some ?v\<rparr>) = ?p"
    by (subst validate_protocol_settled [where w = ?v])
       (simp_all add: failed_tree_wf [OF assms(2)])
  have v: "wt_current_node_id (settled ?v) = Some (n_id c)" "wt_root_node_id (settled ?v) = wt_root_node_id w"
    "wt_status (settled ?v) = (if n_parent_node_id c = None then TFailed else TActive)"
    using assms(4) by (simp_all add: failed_tree_def)
  have sc: "map_option (start_current_node (now_of e) (wt_status (settled ?v)) (n_id c))
      (map_option (mark_failed (now_of e) (n_id c) failure) x) =
      map_option (mark_failed (now_of e) (n_id c) failure) x" for x
    by (cases x) (simp_all add: v(3) start_current_node_def mark_failed_def)
  obtain q s u where n: "normalize_runtime_state e ?p t r stack = (q, Some s)"
    "p_work_tree q = Some u" "tree_wf u" "wt_current_node_id u = Some (n_id c)"
    "wt_root_node_id u = wt_root_node_id (settled ?v)" "tree_ids u = tree_ids (settled ?v)"
    "wt_status u = (if wt_status (settled ?v) = TPlanned then TActive else wt_status (settled ?v))"
    "p_status q = protocol_status_from_work_tree_status (wt_status u) (p_status ?p)"
    "p_current_phase q = (if wt_status u \<in> {TAwaitingApproval, TCompleted} then PhDeliver else PhExecute)"
    "p_verification_items q = p_verification_items ?p"
    "\<And>i. node_by_id u i = map_option (start_current_node (now_of e) (wt_status (settled ?v)) (n_id c))
       (node_by_id (settled ?v) i)"
    using normalize_result [of ?p "settled ?v" t "n_id c" e r stack] failed_tree_wf [OF assms(2)] v(1)
      assms(3) by auto
  have st: "wt_status u = (if n_parent_node_id c = None then TFailed else TActive)"
    using n(7) v(3) by (cases "n_parent_node_id c") simp_all
  have ps: "p_status q = (if n_parent_node_id c = None then PNeedsClarification else PExecuting)"
    "p_current_phase q = PhExecute"
    using n(8,9) st by (simp_all add: protocol_status_from_work_tree_status_def)
  show thesis
  proof (rule that [of q s u])
    show "node_by_id u j = map_option (mark_failed (now_of e) (n_id c) failure) (node_by_id w j)" for j
      using n(11) sc by (simp add: failed_lookup [OF assms(2)])
  qed (use n(1-6,10) st ps v failed_lookup(2) [OF assms(2)] in \<open>simp_all add: val\<close>)
qed

lemma fail_root_result:
  assumes "p_work_tree p = Some w" "tree_wf w" "norm_ok t" "wt_current_node_id w = Some (n_id c)"
    and "node_by_id w (n_id c) = Some c" "n_parent_node_id c = None"
    and "normalize_excerpt (strip text) 240 \<noteq> []"
  obtains q s u tr where "fail_current_work_node e p t r text stack = Inr (q, Some s, tr)"
    "tr_transition tr = TrFailed" "\<not> tr_requires_continuation tr"
    "p_work_tree q = Some u" "tree_wf u" "wt_current_node_id u = Some (n_id c)"
    "tree_ids u = tree_ids w" "wt_status u = TFailed" "p_status q = PNeedsClarification"
    "\<And>j. node_by_id u j = map_option
       (mark_failed (now_of e) (n_id c) (normalize_excerpt (strip text) 240)) (node_by_id w j)"
proof -
  have c: "current_node_of_tree w = Some c" using assms(4,5) by (simp add: current_node_of_tree_def)
  show thesis
    by (rule fail_ready [OF assms(1-5), of e "normalize_excerpt (strip text) 240" r stack],
        rule that [of _ _ "(plain_transition TrFailed False
          (str_or (normalize_excerpt (failed_label @ n_title c) 96) (lit ''failed'')))
            \<lparr>tr_current_node_id := Some (n_id c)\<rparr>"])
       (use assms c in \<open>auto simp: fail_current_work_node_def current_of_protocol Let_def tree_current_def
          plain_transition_def\<close>)
qed

lemma fail_child_result:
  assumes "p_work_tree p = Some w" "tree_wf w" "norm_ok t" "wt_current_node_id w = Some (n_id c)"
    and "node_by_id w (n_id c) = Some c" "n_parent_node_id c = Some pa"
    and "normalize_excerpt (strip text) 240 \<noteq> []"
  obtains q s u tr where "fail_current_work_node e p t r text stack = Inr (q, Some s, tr)"
    "tr_transition tr = TrBubbleParentAfterFailure" "tr_requires_continuation tr"
    "p_work_tree q = Some u" "tree_wf u" "wt_current_node_id u = Some pa"
    "tree_ids u = tree_ids w" "wt_status u = TActive" "p_status q = PExecuting"
    "\<And>j. node_by_id u j = map_option (start_if_waiting (now_of e) pa \<circ>
       mark_failed (now_of e) (n_id c) (normalize_excerpt (strip text) 240)) (node_by_id w j)"
proof -
  let ?failure = "normalize_excerpt (strip text) 240"
  have c: "current_node_of_tree w = Some c" using assms(4,5) by (simp add: current_node_of_tree_def)
  obtain q0 s0 u0 where n: "normalize_runtime_state e (validate_protocol (dg_of e) (now_of e)
      (p\<lparr>p_status := (if n_parent_node_id c = None then PNeedsClarification else PExecuting),
         p_work_tree := Some (failed_tree e w c ?failure)\<rparr>)) t r stack = (q0, Some s0)"
    "p_work_tree q0 = Some u0" "tree_wf u0" "tree_ids u0 = tree_ids w"
    "\<And>j. node_by_id u0 j = map_option (mark_failed (now_of e) (n_id c) ?failure) (node_by_id w j)"
    using fail_ready [OF assms(1-5), of e ?failure r stack] by metis
  have c0: "node_by_id u0 (n_id c) = Some (mark_failed (now_of e) (n_id c) ?failure c)"
    using assms(5) n(5) by simp
  have pa: "n_parent_node_id (mark_failed (now_of e) (n_id c) ?failure c) = Some pa"
    using assms(6) by (simp add: mark_failed_def)
  let ?s1 = "append_child_completion_summary e s0 pa
     \<lparr>cs_child_node_id = n_id c, cs_completed = False, cs_summary = ?failure,
      cs_summary_type = FailureReason, cs_evidence_refs = [], cs_completed_at = now_of e\<rparr>"
  obtain q s u where b: "bubble_to_parent_work_node e q0 t r (Some ?s1) (Some (n_id c))
       (Some (lit ''resume-parent-after-child-failure'')) = Inr (q, Some s)"
    "p_work_tree q = Some u" "tree_wf u" "wt_current_node_id u = Some pa"
    "tree_ids u = tree_ids u0" "wt_status u = TActive" "p_status q = PExecuting"
    "\<And>j. node_by_id u j = map_option (start_if_waiting (now_of e) pa) (node_by_id u0 j)"
    using bubble_result [OF n(2,3) assms(3) c0 pa] by metis
  let ?tr = "(plain_transition TrBubbleParentAfterFailure True (work_tree_focus_label (Some q)))
     \<lparr>tr_current_node_id := tree_current q, tr_next_node_id := tree_current q\<rparr>"
  have "fail_current_work_node e p t r text stack = Inr (q, Some s, ?tr)"
    using assms n(1,2) b(1) c by (simp add: fail_current_work_node_def current_of_protocol Let_def)
  then show thesis
    using b n that [of q s ?tr u] by (simp add: plain_transition_def option.map_comp)
qed

lemma split_skips_none:
  "fst (split_skips w confirm ids) = [] \<Longrightarrow> snd (split_skips w confirm ids) = ids
     \<and> (\<forall>i\<in>set ids. node_unfinished_descendant_ids w i = []
          \<and> (node_terminal_descendant_ids w i = [] \<or> confirm))"
  by (induction ids) (auto simp: Let_def split: prod.splits if_splits)

lemma skip_effect:
  assumes "skip_work_tree_nodes e p t r ids reason stack confirm = Inr (q, s, tr)"
    and "p_work_tree p = Some w" "tree_wf w" "norm_ok t"
  obtains (asked) u c where "tr_transition tr = TrPruneConfirmRequired" "tr_skipped_node_ids tr = []"
      "p_work_tree q = Some u" "tree_wf u" "tree_ids u = tree_ids w" "wt_root_node_id u = wt_root_node_id w"
      "\<And>j. node_by_id u j = map_option (start_current_node (now_of e) (wt_status w) c) (node_by_id w j)"
  | (skipped) u c where "tr_transition tr = TrSkip" "tr_skipped_node_ids tr = ordered_ids ids"
      "wt_root_node_id w \<notin> Some ` set (ordered_ids ids)"
      "\<forall>i\<in>set (ordered_ids ids). node_unfinished_descendant_ids w i = []
         \<and> (node_terminal_descendant_ids w i = [] \<or> confirm) \<and> i \<in> tree_ids w"
      "p_work_tree q = Some u" "tree_wf u" "tree_ids u = tree_ids w" "wt_root_node_id u = wt_root_node_id w"
      "\<And>j. node_by_id u j = map_option (start_current_node (now_of e) TActive c
         \<circ> mark_skipped (now_of e) (ordered_ids ids) (normalize_excerpt (strip reason) 240)) (node_by_id w j)"
proof -
  let ?ids = "ordered_ids ids" and ?reason = "normalize_excerpt (strip reason) 240"
  obtain ask sk where sp: "split_skips w confirm ?ids = (ask, sk)" by fastforce
  have errs: "?reason \<noteq> []" "?ids \<noteq> []" "filter (\<lambda>i. i \<notin> tree_ids w) ?ids = []"
    "wt_root_node_id w \<notin> Some ` set ?ids"
    using assms(1,2) by (auto simp: skip_work_tree_nodes_def Let_def sp split: if_splits)
  show thesis
  proof (cases "ask = []")
    case False
    obtain c where c: "wt_current_node_id w = Some c" using tree_wf_pointers [OF assms(3)] by metis
    obtain q' s' u where n: "normalize_runtime_state e p t r stack = (q', Some s')"
      "p_work_tree q' = Some u" "tree_wf u" "wt_root_node_id u = wt_root_node_id w" "tree_ids u = tree_ids w"
      "\<And>i. node_by_id u i = map_option (start_current_node (now_of e) (wt_status w) c) (node_by_id w i)"
      using normalize_result [OF assms(2-4) c, of e r stack] by metis
    have "q = q'" "tr_transition tr = TrPruneConfirmRequired" "tr_skipped_node_ids tr = []"
      using assms(1,2) errs n(1) False
      by (auto simp: skip_work_tree_nodes_def Let_def sp plain_transition_def)
    with n show thesis by (intro asked [of u c]) simp_all
  next
    case True
    with sp have sk: "sk = ?ids" "\<forall>i\<in>set ?ids. node_unfinished_descendant_ids w i = []
        \<and> (node_terminal_descendant_ids w i = [] \<or> confirm)"
      using split_skips_none [of w confirm ?ids] by simp_all
    obtain c where c: "current_after_skip w ?ids = Some c" using skip_target_exists [OF assms(3)] by blast
    let ?v = "skipped_tree e w ?ids ?reason"
    note safe = mark_skipped_safe [OF assms(3), of "now_of e" ?ids ?reason]
    have lk: "node_by_id ?v j = map_option (mark_skipped (now_of e) ?ids ?reason) (node_by_id w j)" for j
      by (rule safe_edit_lookup [OF safe]) (simp add: skipped_tree_def)
    have ids: "tree_ids ?v = tree_ids w" by (rule safe_edit_ids [OF safe]) (simp add: skipped_tree_def)
    have v: "wt_current_node_id ?v = Some c" "wt_status ?v = TActive" "wt_root_node_id ?v = wt_root_node_id w"
      using c by (simp_all add: skipped_tree_def)
    obtain q' s' u where n: "normalize_runtime_state e (executing_with e p ?v) t r stack = (q', Some s')"
      "p_work_tree q' = Some u" "tree_wf u" "wt_root_node_id u = wt_root_node_id ?v" "tree_ids u = tree_ids ?v"
      "\<And>i. node_by_id u i = map_option (start_current_node (now_of e) TActive c) (node_by_id ?v i)"
      using executing_result [OF skipped_tree_wf [OF assms(3), of e ?ids ?reason] assms(4) v(1,2), of e p r stack]
      by metis
    have "q = q'" "tr_transition tr = TrSkip" "tr_skipped_node_ids tr = ?ids"
      using assms(1,2) errs n(1) True c
      by (auto simp: skip_work_tree_nodes_def Let_def sp sk plain_transition_def)
    with n lk ids v(3) sk(2) errs(3,4) show thesis
      by (intro skipped [of u c]) (auto simp: option.map_comp filter_empty_conv)
  qed
qed

lemma reopen_effect:
  assumes "reopen_takeover_work_node_for_revision e p t r node_id reason stack = Inr (q, s)"
    and "p_work_tree p = Some w" "tree_wf w" "norm_ok t"
  obtains u i where "resolve_revision_target_node_id w node_id = Some i" "i \<in> tree_ids w"
    "p_work_tree q = Some u" "tree_wf u" "tree_ids u = tree_ids w" "wt_current_node_id u = Some i"
    "wt_root_node_id u = wt_root_node_id w" "wt_status u = TActive" "p_status q = PExecuting"
    "\<And>j. node_by_id u j = map_option (reopen_node (now_of e) i) (node_by_id w j)"
proof -
  obtain i n where i: "resolve_revision_target_node_id w node_id = Some i" "node_by_id w i = Some n"
    using assms(1,2) by (auto simp: reopen_takeover_work_node_for_revision_def split: option.splits)
  have ni: "n_id n = i" using node_by_id_Some [OF i(2)] by simp
  let ?v = "reopened_tree e w i reason"
  note safe = reopen_node_safe [OF assms(3), of "now_of e" i]
  have lk: "node_by_id ?v j = map_option (reopen_node (now_of e) i) (node_by_id w j)" for j
    by (rule safe_edit_lookup [OF safe]) (simp add: reopened_tree_def)
  have ids: "tree_ids ?v = tree_ids w" by (rule safe_edit_ids [OF safe]) (simp add: reopened_tree_def)
  have v: "wt_current_node_id ?v = Some i" "wt_status ?v = TActive" "wt_root_node_id ?v = wt_root_node_id w"
    by (simp_all add: reopened_tree_def)
  have sc: "map_option (start_current_node (now_of e) TActive i) (map_option (reopen_node (now_of e) i) x) =
      map_option (reopen_node (now_of e) i) x" for x
    by (cases x) (simp_all add: start_current_node_def reopen_node_def)
  obtain q' s' u where m: "normalize_runtime_state e (executing_with e p ?v) t r stack = (q', Some s')"
    "p_work_tree q' = Some u" "tree_wf u" "wt_current_node_id u = Some i"
    "wt_root_node_id u = wt_root_node_id ?v" "tree_ids u = tree_ids ?v" "wt_status u = TActive"
    "p_status q' = PExecuting"
    "\<And>j. node_by_id u j = map_option (start_current_node (now_of e) TActive i) (node_by_id ?v j)"
    using executing_result [OF reopened_tree_wf [OF assms(3) i(2), of e reason] assms(4) v(1,2), of e p r stack]
    by metis
  have "q = q'" using assms(1,2) i m(1) ni by (simp add: reopen_takeover_work_node_for_revision_def)
  with m lk ids v(3) sc i node_by_id_in_ids [OF i(2)] show thesis by (intro that [of i u]) simp_all
qed

lemma approve_effect:
  assumes "p_work_tree p = Some w" "tree_wf w"
  shows "approve_takeover_completion e (Some p) = Some p \<and> wt_status w \<notin> {TAwaitingApproval, TCompleted}
    \<or> (\<exists>q u. approve_takeover_completion e (Some p) = Some q \<and> p_work_tree q = Some u \<and> tree_wf u
         \<and> wt_status w \<in> {TAwaitingApproval, TCompleted} \<and> wt_status u = TCompleted
         \<and> p_status q = PCompleted \<and> p_current_phase q = PhDeliver \<and> wt_nodes u = wt_nodes w
         \<and> wt_current_node_id u = wt_root_node_id w \<and> wt_root_node_id u = wt_root_node_id w)"
proof (cases "wt_status w \<in> {TAwaitingApproval, TCompleted}")
  case True
  obtain rt where rt: "wt_root_node_id w = Some rt" "rt \<in> tree_ids w" "norm_ok rt"
    using tree_wf_pointers [OF assms(2)] by metis
  let ?v = "w\<lparr>wt_status := TCompleted, wt_current_node_id := Some rt, wt_updated_at := now_of e\<rparr>"
  have "w\<lparr>wt_status := TCompleted, wt_current_node_id := Some rt, wt_pc_memo := wt_pc_memo w,
      wt_updated_at := now_of e\<rparr> = ?v" by (cases w) simp
  then have wf: "tree_wf (settled ?v)"
    using approved_tree_wf [OF assms(2) rt(2), where st = TCompleted and memo = "wt_pc_memo w" and t = "now_of e"] by simp
  have "approve_takeover_completion e (Some p) = Some
      (p\<lparr>p_status := PCompleted, p_current_phase := PhDeliver, p_work_tree := Some (settled ?v)\<rparr>)"
    using True assms(1) rt wf
    by (auto simp: approve_takeover_completion_def validate_tree_settled
        protocol_wf_validate [where w = "settled ?v"])
  with wf rt True show ?thesis by (intro disjI2) simp
qed (use assms in \<open>auto simp: approve_takeover_completion_def\<close>)

lemma merge_effect:
  assumes "merge_child_takeover_completion_into_parent e (Some p) parent child ctask crun text refs stack =
      Inr (Some q, s)"
    and "p_work_tree p = Some w" "tree_wf w"
    and "\<And>i. opt_or parent (wt_current_node_id w) = Some i \<Longrightarrow> i \<in> tree_ids w"
  obtains u i merged where "opt_or parent (wt_current_node_id w) = Some i" "p_work_tree q = Some u"
    "tree_wf u" "wt_nodes u = map (summarize_parent (now_of e) i merged) (wt_nodes w)"
proof -
  obtain c where "wt_current_node_id w = Some c" using tree_wf_pointers [OF assms(3)] by metis
  then obtain i where i: "opt_or parent (wt_current_node_id w) = Some i"
    by (cases "opt_or parent (wt_current_node_id w)") (auto simp: opt_or_eq split: if_splits)
  define merged where "merged = work_tree_delivery_summary text
      (case child of Some c \<Rightarrow> p_objective_summary c | None \<Rightarrow> p_objective_summary p)"
  note m = merged_tree_eq [OF assms(3) assms(4) [OF i], of e merged]
  have q: "p_work_tree q = Some (merged_tree e w i merged)"
    using assms(1,2) i m
    by (auto simp: merge_child_takeover_completion_into_parent_def Let_def merged_def [symmetric]
        protocol_wf_validate [where w = "merged_tree e w i merged"] split: option.splits)
  show thesis by (rule that [OF i q conjunct1 [OF m] conjunct2 [OF m]])
qed

lemma create_result:
  assumes "p_work_tree p = Some w" "tree_wf w" "norm_ok t"
    and "opt_or node_id (Some fresh) = Some i" "norm_ok i" "i \<notin> tree_ids w"
    and "norm_ok title" "\<forall>x\<in>set questions. norm_ok x"
    and "child_parent_id p w parent = Some pa" "node_by_id w pa = Some parent'"
  obtains q s child u c where
    "create_child_work_node e fresh p t r title ph parent questions goal ev stack act node_id =
      Inr (q, s, child)"
    "n_id child = i" "n_parent_node_id child = Some pa"
    "p_work_tree q = Some u" "tree_wf u" "tree_ids u = insert i (tree_ids w)"
    "wt_current_node_id u = Some c" "c = (if act then i else the (wt_current_node_id w))"
    "wt_root_node_id u = wt_root_node_id w" "wt_status u = TActive" "p_status q = PExecuting"
    "\<And>j. node_by_id u j = map_option (start_current_node (now_of e) TActive c)
       (if j = i then Some child else map_option (adopt_child (now_of e) pa i) (node_by_id w j))"
proof -
  have pid: "n_id parent' = pa" using node_by_id_Some [OF assms(10)] by simp
  let ?c = "child_node e i pa parent' title ph questions goal ev act"
  note k = child_node_keys [OF assms(5,7,8), of e pa parent' ph goal ev act]
  obtain wc where wc: "wt_current_node_id w = Some wc" "wc \<in> tree_ids w"
    using tree_wf_pointers [OF assms(2)] by metis
  let ?cur = "if act then i else wc"
  let ?v = "w\<lparr>wt_nodes := map (adopt_child (now_of e) pa i) (wt_nodes w) @ [?c],
      wt_current_node_id := Some ?cur, wt_status := TActive,
      wt_pc_memo := (if act then Some (lit ''continue:'' @ i) else wt_pc_memo w),
      wt_version_counter := wt_version_counter w + 1, wt_updated_at := now_of e\<rparr>"
  note safe = adopt_child_safe [OF assms(2,5,6), of "now_of e" pa]
  have fresh: "n_id ?c \<notin> tree_ids w" using assms(6) k(1) by simp
  have "?cur \<in> insert (n_id ?c) (tree_ids w)" using wc k(1) by simp
  then have wf: "tree_wf (settled ?v)"
    by (rule appended_wf [OF assms(2) safe k(5) fresh k(2) node_by_id_in_ids [OF assms(10)] k(4)])
  have v: "wt_current_node_id ?v = Some ?cur" "wt_status ?v = TActive" "wt_root_node_id ?v = wt_root_node_id w"
    by simp_all
  have ids0: "n_id ` set (map (adopt_child (now_of e) pa i) (wt_nodes w)) = tree_ids w"
    using safe by (simp add: tree_ids_def safe_edit_def image_image cong: image_cong)
  have ids: "tree_ids ?v = insert i (tree_ids w)" using ids0 k(1) by (simp add: tree_ids_def)
  have lk0: "index_by n_id (map (adopt_child (now_of e) pa i) (wt_nodes w)) j =
      map_option (adopt_child (now_of e) pa i) (node_by_id w j)" for j
    using safe by (simp add: node_by_id_def safe_edit_def index_by_map)
  have lk: "node_by_id ?v j = (if j = i then Some ?c
      else map_option (adopt_child (now_of e) pa i) (node_by_id w j))" for j
    using index_by_append_fresh [of n_id ?c "map (adopt_child (now_of e) pa i) (wt_nodes w)" j]
      ids0 fresh k(1) lk0 by (simp add: node_by_id_def)
  obtain q' s' u where n: "normalize_runtime_state e (executing_with e p ?v) t r stack = (q', Some s')"
    "p_work_tree q' = Some u" "tree_wf u" "wt_current_node_id u = Some ?cur"
    "wt_root_node_id u = wt_root_node_id ?v" "tree_ids u = tree_ids ?v" "wt_status u = TActive"
    "p_status q' = PExecuting"
    "\<And>j. node_by_id u j = map_option (start_current_node (now_of e) TActive ?cur) (node_by_id ?v j)"
    using executing_result [OF wf assms(3) v(1,2), of e p r stack] by metis
  let ?raw = "w\<lparr>wt_nodes := map (adopt_child (now_of e) (n_id parent') (n_id ?c)) (wt_nodes w) @ [?c],
      wt_current_node_id := (if act then Some (n_id ?c) else wt_current_node_id w),
      wt_status := TActive,
      wt_pc_memo := (if act then Some (lit ''continue:'' @ n_id ?c) else wt_pc_memo w),
      wt_version_counter := wt_version_counter w + 1, wt_updated_at := now_of e\<rparr>"
  have vv: "?raw = ?v" using k(1) pid wc by (cases act) simp_all
  have "create_child_work_node e fresh p t r title ph parent questions goal ev stack act node_id =
      (case normalize_runtime_state e (executing_with e p ?raw) t r stack of
         (q, None) \<Rightarrow> Inl (ValueError (lit ''Failed to normalize new child node runtime state.''))
       | (q, Some s) \<Rightarrow> Inr (q, s, ?c))"
    using assms(9,10) assms(1,4) pid by (cases act) (simp_all add: create_child_work_node_def Let_def split: prod.split option.split)
  then have "create_child_work_node e fresh p t r title ph parent questions goal ev stack act node_id =
      Inr (q', s', ?c)" unfolding vv n(1) by simp
  with n lk ids v(3) k wc show thesis
    by (intro that [of q' s' ?c u ?cur]) simp_all
qed

lemma create_effect:
  assumes "create_child_work_node e fresh p t r title ph parent questions goal ev stack act node_id =
      Inr (q, s, child)"
    and "p_work_tree p = Some w" "tree_wf w" "norm_ok t"
    and "opt_or node_id (Some fresh) = Some i" "norm_ok i" "i \<notin> tree_ids w"
    and "norm_ok title" "\<forall>x\<in>set questions. norm_ok x"
  obtains u pa c where "child_parent_id p w parent = Some pa" "pa \<in> tree_ids w"
    "n_id child = i" "n_parent_node_id child = Some pa"
    "p_work_tree q = Some u" "tree_wf u" "tree_ids u = insert i (tree_ids w)"
    "wt_current_node_id u = Some c" "c = (if act then i else the (wt_current_node_id w))"
    "wt_root_node_id u = wt_root_node_id w" "wt_status u = TActive" "p_status q = PExecuting"
    "\<And>j. node_by_id u j = map_option (start_current_node (now_of e) TActive c)
       (if j = i then Some child else map_option (adopt_child (now_of e) pa i) (node_by_id w j))"
proof -
  obtain pa parent' where pa: "child_parent_id p w parent = Some pa" "node_by_id w pa = Some parent'"
    using assms(1,2)
    by (cases "Option.bind (child_parent_id p w parent) (node_by_id w)")
       (simp_all add: create_child_work_node_def Let_def bind_eq_Some_conv, blast)
  show thesis
    by (rule create_result [OF assms(2-9) pa, of e r ph goal ev stack act])
       (use assms(1) pa node_by_id_in_ids [OF pa(2)] that in auto)
qed

text \<open>Updating a node: the edited node is validated with the protocol.\<close>

lemma validate_tree_raw:
  assumes "tree_wf (settled (v\<lparr>wt_nodes := map validate_node (wt_nodes v)\<rparr>))"
    and "\<forall>n\<in>set (wt_nodes v). norm_ok (n_id n)"
  shows "validate_tree dg now v = settled (v\<lparr>wt_nodes := map validate_node (wt_nodes v)\<rparr>)"
proof -
  let ?u = "v\<lparr>wt_nodes := map validate_node (wt_nodes v)\<rparr>"
  let ?m = "v\<lparr>wt_pc_memo := norm_opt (wt_pc_memo v)\<rparr>"
  have "upgrade_tree dg now ?m = upgrade_tree dg now v"
    by (cases v) (simp add: upgrade_tree_def Let_def split: prod.split)
  then have m: "validate_tree dg now v = validate_tree dg now ?m" by (simp add: validate_tree_def)
  have a: "settled_anchor ?u \<noteq> wt_recovery_anchor v \<Longrightarrow> wt_recovery_anchor v = None"
    by (auto simp: settled_anchor_def split: option.splits)
  have "fields_ok (?m\<lparr>wt_nodes := map validate_node (wt_nodes ?m)\<rparr>)"
    using assms(1) a unfolding tree_wf_def tree_ok_def fields_ok_def settled_def
    by (cases "settled_anchor ?u = wt_recovery_anchor v") auto
  then have "payload_ok ?m" using assms(2) by (simp add: payload_ok_def)
  moreover have "settled_anchor (?m\<lparr>wt_nodes := map validate_node (wt_nodes v)\<rparr>) = settled_anchor ?u"
    by (simp add: settled_anchor_def cong: option.case_cong)
  ultimately have "validate_tree dg now ?m = settled ?u"
    by (simp add: validate_tree_payload Let_def settled_def)
  with m show ?thesis by simp
qed

lemma clean_texts_ok: "q \<in> set (clean_texts ts) \<Longrightarrow> norm_ok q"
  by (auto simp: clean_texts_def List.map_filter_def dest: norm_str_Some)

lemma updated_node_ok:
  assumes "node_ok n"
  shows "node_ok (validate_node (updated_node now title goal (clean_texts qs) ev st n))"
proof (rule validate_node_ok)
  have "normalized_string_list (clean_texts qs) = [] \<Longrightarrow> clean_texts qs = []"
    using set_normalized_string_list [of "clean_texts qs"] clean_texts_ok [of _ qs]
    by (cases "clean_texts qs") auto
  moreover have "normalized_string_list (n_questions_it_answers n) = n_questions_it_answers n"
    "n_questions_it_answers n \<noteq> []" using assms by (simp_all add: node_ok_def)
  ultimately show "normalized_string_list
      (n_questions_it_answers (updated_node now title goal (clean_texts qs) ev st n)) = [] \<longrightarrow>
      n_questions_it_answers (updated_node now title goal (clean_texts qs) ev st n) = []"
    by (auto simp: updated_node_def list_or_def)
qed (use assms in \<open>simp add: updated_node_def node_ok_def\<close>)

lemma update_effect:
  assumes "update_work_node e p t r node_id title goal qs ev st0 stack = Inr (q, s, n')"
    and "p_work_tree p = Some w" "tree_wf w" "norm_ok t"
  obtains u target st c where "target \<in> tree_ids w" "parse_update_status st0 = Inr st"
    "p_work_tree q = Some u" "tree_wf u" "tree_ids u = tree_ids w"
    "wt_root_node_id u = wt_root_node_id w" "node_by_id u target = Some n'"
    "\<And>j. node_by_id u j = map_option (start_current_node (now_of e) TActive c \<circ>
       (\<lambda>n. if n_id n = target
            then validate_node (updated_node (now_of e) title goal (clean_texts qs) (clean_texts ev) st n)
            else n)) (node_by_id w j)"
proof -
  obtain c where c: "wt_current_node_id w = Some c" "c \<in> tree_ids w"
    using tree_wf_pointers [OF assms(3)] by metis
  have cn: "norm_ok c" using c(2) tree_wf_ids [OF assms(3)] by (auto simp: tree_ids_def)
  obtain target st where target: "opt_or (opt_or node_id (wt_current_node_id w)) None = Some target"
    "node_by_id w target \<noteq> None" and st: "parse_update_status st0 = Inr st"
    using assms(1,2) by (auto simp: update_work_node_def split: option.splits if_splits sum.splits)
  let ?f = "updated_node (now_of e) title goal (clean_texts qs) (clean_texts ev) st"
  let ?g = "\<lambda>n. if n_id n = target then validate_node (?f n) else n"
  have fid: "n_id (?f n) = n_id n" "n_parent_node_id (?f n) = n_parent_node_id n"
    "n_recovery_anchor (?f n) = n_recovery_anchor n" for n by (simp_all add: updated_node_def)
  have safe: "safe_edit w ?g"
    unfolding safe_edit_def
  proof
    fix n assume "n \<in> set (wt_nodes w)"
    then have "node_ok n" "norm_ok (n_id n)" using tree_wf_nodes tree_wf_ids assms(3) by blast+
    then have "n_id (validate_node (?f n)) = n_id n"
      "node_ok (validate_node (?f n))" "node_ok n"
      using updated_node_ok by (simp_all add: fid(1))
    then show "n_id (?g n) = n_id n \<and> n_parent_node_id (?g n) = n_parent_node_id n
        \<and> n_recovery_anchor (?g n) = n_recovery_anchor n \<and> node_ok (?g n)"
      by (simp add: fid(2,3))
  qed
  obtain cnode where cnode: "node_by_id w c = Some cnode" using c(2) node_by_id_None [of w c] by auto
  note path = path_to_node [OF assms(3) cnode]
  let ?v = "w\<lparr>wt_nodes := map (\<lambda>n. if n_id n = target then ?f n else n) (wt_nodes w),
      wt_status := TActive, wt_current_node_id := Some c,
      wt_active_path_node_ids := work_tree_active_path_node_ids w (Some c),
      wt_pc_memo := Some (lit ''updated:'' @ target), wt_updated_at := now_of e\<rparr>"
  let ?u = "?v\<lparr>wt_nodes := map ?g (wt_nodes w)\<rparr>"
  have nodes: "map validate_node (wt_nodes ?v) = map ?g (wt_nodes w)"
    using tree_wf_nodes [OF assms(3)] by (auto simp: validate_node_id)
  have e1: "?u = w\<lparr>wt_nodes := map ?g (wt_nodes w), wt_status := TActive, wt_current_node_id := Some c,
      wt_active_path_node_ids := work_tree_active_path_node_ids w (Some c),
      wt_pc_memo := Some (lit ''updated:'' @ target), wt_recovery_anchor := wt_recovery_anchor w,
      wt_version_counter := wt_version_counter w, wt_updated_at := now_of e\<rparr>" by (cases w) simp
  have wf: "tree_wf (settled ?u)"
    unfolding e1 by (intro edited_wf assms(3) safe path tree_wf_anchors tree_wf_version)
  have ids: "\<forall>n\<in>set (wt_nodes ?v). norm_ok (n_id n)" using tree_wf_ids [OF assms(3)] fid by auto
  have val: "validate_tree dg now ?v = settled ?u" for dg now
    using validate_tree_raw [OF _ ids] wf by (simp only: nodes)
  have tid: "\<exists>x. norm_opt (wt_task_id w) = Some x"
    using tree_wf_pointers [OF assms(3)] by (metis norm_opt_simps(2))
  have ex: "executing_with e p ?v = executing_with e p (settled ?u)"
  proof -
    have "executing_with e p ?v =
        p\<lparr>p_status := PExecuting, p_current_phase := PhExecute, p_work_tree := Some (settled ?u)\<rparr>"
      using tid by (auto simp: executing_with_def validate_protocol_def backfill_work_tree_task_id_def
          Let_def val split: option.split)
    then show ?thesis using executing_with_eq [of "settled ?u"] wf by (simp add: settled_id)
  qed
  define v where "v = settled ?u"
  have v: "wt_current_node_id v = Some c" "wt_status v = TActive"
    "wt_root_node_id v = wt_root_node_id w" by (simp_all add: v_def)
  have ids': "tree_ids v = tree_ids w" by (simp add: v_def) (rule safe_edit_ids [OF safe], simp)
  have lk: "node_by_id v j = map_option ?g (node_by_id w j)" for j
    by (simp add: v_def) (rule safe_edit_lookup [OF safe], simp)
  have wf2: "tree_wf (settled v)" using wf by (simp add: settled_id v_def)
  note ex = ex [folded v_def]
  obtain q' s' u where n: "normalize_runtime_state e (executing_with e p v) t r stack = (q', Some s')"
    "p_work_tree q' = Some u" "tree_wf u" "wt_root_node_id u = wt_root_node_id v"
    "tree_ids u = tree_ids v"
    "\<And>j. node_by_id u j = map_option (start_current_node (now_of e) TActive c) (node_by_id v j)"
    using executing_result [OF wf2 assms(4) v(1,2), of e p r stack] by metis
  have cur: "(case opt_or (wt_current_node_id w) (Some target) of Some c \<Rightarrow> c | None \<Rightarrow> target) = c"
    using c cn by simp
  have ch: "\<not> nothing_to_update title goal (clean_texts qs) (clean_texts ev) st"
    using assms(1,2) target st by (auto simp: update_work_node_def Let_def)
  obtain m where "node_by_id w target = Some m" using target(2) by blast
  then have "update_work_node e p t r node_id title goal qs ev st0 stack =
      (case normalize_runtime_state e (executing_with e p ?v) t r stack of
         (q, None) \<Rightarrow> Inl (ValueError (lit ''Failed to normalize updated work-tree runtime state.''))
       | (q, Some s) \<Rightarrow>
           (case Option.bind (p_work_tree q) (\<lambda>v. node_by_id v target) of
              None \<Rightarrow> Inl (ValueError (lit ''Updated work-tree node disappeared during normalization.''))
            | Some n \<Rightarrow> Inr (q, s, n)))"
    using assms(2) target(1) st ch cur by (simp add: update_work_node_def Let_def)
  then have "q = q' \<and> node_by_id u target = Some n'"
    unfolding ex n(1) using assms(1) n(2) by (simp split: option.splits)
  with n ids' lk v(3) target st node_by_id_in_ids show thesis
    by (intro that [of target st u c]) (auto simp: option.map_comp)
qed

end
