(* ===== verification/TakeoverMachine.thy ===== *)
theory TakeoverMachine
  imports TakeoverFacts
begin

text \<open>
  The takeover of \<open>takeover.py\<close> as a state machine: one step per operation that a worker
  calls, and what the steps that only move the takeover on keep of the tree.
\<close>

section \<open>The takeover as a state machine\<close>

type_synonym takeover_state = "takeover_protocol \<times> work_context_stack option"

text \<open>
  The steps that only move a takeover on: they never change the shape of the tree. A merge is
  taken at a node of the tree.
\<close>

inductive progress_step :: "ustr \<Rightarrow> ustr \<Rightarrow> takeover_state \<Rightarrow> takeover_state \<Rightarrow> bool"
  for task_id run_id where
  normalize: "normalize_runtime_state e p task_id run_id s = (q, s') \<Longrightarrow>
     progress_step task_id run_id (p, s) (q, s')"
| switch: "switch_current_work_node e p task_id run_id i s cursor = Inr (q, s') \<Longrightarrow>
     progress_step task_id run_id (p, s) (q, Some s')"
| bubble: "bubble_to_parent_work_node e p task_id run_id s i cursor = Inr (q, s') \<Longrightarrow>
     progress_step task_id run_id (p, s) (q, s')"
| complete: "complete_current_work_node e p task_id run_id text s refs confirm = Inr (q, s', tr) \<Longrightarrow>
     progress_step task_id run_id (p, s) (q, s')"
| failing: "fail_current_work_node e p task_id run_id text s = Inr (q, s', tr) \<Longrightarrow>
     progress_step task_id run_id (p, s) (q, s')"
| skip: "skip_work_tree_nodes e p task_id run_id ids reason s confirm = Inr (q, s', tr) \<Longrightarrow>
     progress_step task_id run_id (p, s) (q, Some s')"
| advance: "advance_takeover_after_delivery e (Some p) task_id run_id text s refs res =
       Inr (Some q, s', tr) \<Longrightarrow> progress_step task_id run_id (p, s) (q, s')"
| approve: "approve_takeover_completion e (Some p) = Some q \<Longrightarrow>
     progress_step task_id run_id (p, s) (q, s)"
| merge: "merge_child_takeover_completion_into_parent e (Some p) parent child ctask crun text refs s =
       Inr (Some q, s') \<Longrightarrow>
     (\<And>w i. p_work_tree p = Some w \<Longrightarrow> opt_or parent (wt_current_node_id w) = Some i \<Longrightarrow> i \<in> tree_ids w)
     \<Longrightarrow> progress_step task_id run_id (p, s) (q, s')"

text \<open>
  All steps: also updating a node, creating a child with a fresh id, and reopening a node. The
  texts a new child is made of are assumed to be stripped, as the directive parser hands them.
\<close>

definition fresh_id :: "takeover_protocol \<Rightarrow> ustr \<Rightarrow> bool" where
  "fresh_id p i \<longleftrightarrow> norm_ok i \<and> (case p_work_tree p of None \<Rightarrow> True | Some w \<Rightarrow> i \<notin> tree_ids w)"

inductive takeover_step :: "ustr \<Rightarrow> ustr \<Rightarrow> takeover_state \<Rightarrow> takeover_state \<Rightarrow> bool"
  for task_id run_id where
  progress: "progress_step task_id run_id x y \<Longrightarrow> takeover_step task_id run_id x y"
| update: "update_work_node e p task_id run_id i title goal qs ev st s = Inr (q, s', n) \<Longrightarrow>
     takeover_step task_id run_id (p, s) (q, Some s')"
| create: "create_child_work_node e drawn p task_id run_id title ph parent qs goal ev s act i =
       Inr (q, s', n) \<Longrightarrow> opt_or i (Some drawn) = Some j \<Longrightarrow> fresh_id p j \<Longrightarrow> norm_ok title \<Longrightarrow>
     \<forall>x\<in>set qs. norm_ok x \<Longrightarrow> takeover_step task_id run_id (p, s) (q, Some s')"
| reopen: "reopen_takeover_work_node_for_revision e p task_id run_id i reason s = Inr (q, s') \<Longrightarrow>
     takeover_step task_id run_id (p, s) (q, Some s')"

inductive_cases progress_stepE: "progress_step t r x y"
inductive_cases takeover_stepE: "takeover_step t r x y"

section \<open>What progress keeps\<close>

definition terminal_in :: "work_tree \<Rightarrow> ustr \<Rightarrow> bool" where
  "terminal_in w i \<longleftrightarrow> (\<exists>n. node_by_id w i = Some n \<and> n_status n \<in> terminal_statuses)"

definition same_shape :: "work_tree \<Rightarrow> work_tree \<Rightarrow> bool" where
  "same_shape w u \<longleftrightarrow> tree_ids u = tree_ids w
     \<and> (\<forall>i. Option.bind (node_by_id u i) n_parent_node_id = Option.bind (node_by_id w i) n_parent_node_id)"

definition progressed :: "takeover_protocol \<Rightarrow> takeover_protocol \<Rightarrow> bool" where
  "progressed p q \<longleftrightarrow> (\<forall>w. p_work_tree p = Some w \<longrightarrow>
     (\<exists>u. p_work_tree q = Some u \<and> same_shape w u \<and> (\<forall>i. terminal_in w i \<longrightarrow> terminal_in u i)))"

lemma progressed_refl: "progressed p p"
  by (auto simp: progressed_def same_shape_def)

lemma progressed_trans: "progressed p q \<Longrightarrow> progressed q r \<Longrightarrow> progressed p r"
  unfolding progressed_def same_shape_def by metis

definition progress_edit :: "(work_tree_node \<Rightarrow> work_tree_node) \<Rightarrow> bool" where
  "progress_edit g \<longleftrightarrow> (\<forall>n. n_parent_node_id (g n) = n_parent_node_id n
     \<and> (n_status n \<in> terminal_statuses \<longrightarrow> n_status (g n) \<in> terminal_statuses))"

named_theorems progress_edits \<open>edits that keep parents and terminal nodes\<close>

lemma progress_edit_start [progress_edits]: "progress_edit (start_current_node now st i)"
  by (simp add: progress_edit_def start_current_node_def terminal_statuses_def)

lemma progress_edit_waiting [progress_edits]: "progress_edit (start_if_waiting now i)"
  by (simp add: progress_edit_def start_if_waiting_def terminal_statuses_def)

lemma progress_edit_complete [progress_edits]: "progress_edit (complete_node now i ids summary refs)"
  by (simp add: progress_edit_def complete_node_def terminal_statuses_def)

lemma progress_edit_failed [progress_edits]: "progress_edit (mark_failed now i failure)"
  by (simp add: progress_edit_def mark_failed_def terminal_statuses_def)

lemma progress_edit_skipped [progress_edits]: "progress_edit (mark_skipped now ids reason)"
  by (simp add: progress_edit_def mark_skipped_def terminal_statuses_def)

lemma progress_edit_summarize [progress_edits]: "progress_edit (summarize_parent now i merged)"
  by (simp add: progress_edit_def summarize_parent_def terminal_statuses_def)

lemma progress_edit_comp [progress_edits]: "progress_edit f \<Longrightarrow> progress_edit g \<Longrightarrow> progress_edit (f \<circ> g)"
  by (simp add: progress_edit_def)

lemma progressedI:
  assumes "p_work_tree p = Some w" "p_work_tree q = Some u" "tree_ids u = tree_ids w"
    and "\<And>i. node_by_id u i = map_option g (node_by_id w i)" "progress_edit g"
  shows "progressed p q"
proof -
  have "Option.bind (node_by_id u i) n_parent_node_id = Option.bind (node_by_id w i) n_parent_node_id" for i
    using assms(4,5) by (cases "node_by_id w i") (simp_all add: progress_edit_def)
  moreover have "terminal_in u i" if "terminal_in w i" for i
    using that assms(4,5) by (auto simp: terminal_in_def progress_edit_def)
  ultimately show ?thesis using assms(1-3) by (simp add: progressed_def same_shape_def)
qed

text \<open>The invariant of the machine: a protocol with a well-formed tree.\<close>

definition good_progress :: "takeover_protocol \<Rightarrow> takeover_protocol \<Rightarrow> bool" where
  "good_progress p q \<longleftrightarrow> protocol_wf q \<and> progressed p q"

lemma good_progressI:
  assumes "p_work_tree p = Some w" "p_work_tree q = Some u" "tree_wf u" "tree_ids u = tree_ids w"
    and "\<And>i. node_by_id u i = map_option g (node_by_id w i)" "progress_edit g"
  shows "good_progress p q"
  using progressedI [OF assms(1,2,4-6)] assms(2,3) by (auto simp: good_progress_def protocol_wf_def)

lemma normalize_progress:
  assumes "normalize_runtime_state e p t r s = (q, s')" "protocol_wf p" "norm_ok t"
  shows "good_progress p q"
proof -
  obtain w where w: "p_work_tree p = Some w" "tree_wf w" using assms(2) by (auto simp: protocol_wf_def)
  obtain c where c: "wt_current_node_id w = Some c" using tree_wf_pointers [OF w(2)] by metis
  obtain q' s'' u where "normalize_runtime_state e p t r s = (q', Some s'')" and u: "p_work_tree q' = Some u"
    "tree_wf u" "tree_ids u = tree_ids w"
    "\<And>i. node_by_id u i = map_option (start_current_node (now_of e) (wt_status w) c) (node_by_id w i)"
    using normalize_result [OF w assms(3) c, of e r s] by metis
  then have "q' = q" using assms(1) by simp
  then show ?thesis using good_progressI [OF w(1) u progress_edit_start] by simp
qed

lemma switch_progress:
  assumes "switch_current_work_node e p t r i s cursor = Inr (q, s')" "protocol_wf p" "norm_ok t"
  shows "good_progress p q"
proof -
  obtain w where w: "p_work_tree p = Some w" "tree_wf w" using assms(2) by (auto simp: protocol_wf_def)
  obtain n where n: "node_by_id w i = Some n"
    using assms(1) w(1) by (auto simp: switch_current_work_node_def split: option.splits)
  obtain q' s'' u where "switch_current_work_node e p t r i s cursor = Inr (q', s'')"
    and u: "p_work_tree q' = Some u" "tree_wf u" "tree_ids u = tree_ids w"
    "\<And>j. node_by_id u j = map_option (start_if_waiting (now_of e) i) (node_by_id w j)"
    using switch_result [OF w assms(3) n, of e r s cursor] by metis
  then have "q' = q" using assms(1) by simp
  then show ?thesis using good_progressI [OF w(1) u progress_edit_waiting] by simp
qed

lemma bubble_progress:
  assumes "bubble_to_parent_work_node e p t r s i cursor = Inr (q, s')" "protocol_wf p" "norm_ok t"
  shows "good_progress p q"
proof -
  obtain w where w: "p_work_tree p = Some w" "tree_wf w" using assms(2) by (auto simp: protocol_wf_def)
  from assms(1) consider "normalize_runtime_state e p t r s = (q, s')"
    | pa s2 where "switch_current_work_node e p t r pa s cursor = Inr (q, s2)"
    by (auto simp: bubble_to_parent_work_node_def Let_def w(1) map_sum_Inr split: option.splits)
  then show ?thesis
    using normalize_progress switch_progress assms(2,3) by cases blast+
qed


text \<open>Completing, failing: by the cases of a node with and without parent.\<close>

lemma complete_inputs:
  assumes "complete_current_work_node e p t r text s refs confirm = Inr res"
    and "p_work_tree p = Some w" "current_node_of_tree w = Some c"
  shows "normalize_excerpt (strip text) 240 \<noteq> []"
    and "confirm \<or> node_unfinished_descendant_ids w (n_id c) = []"
  using assms
  by (auto simp: complete_current_work_node_def current_of_protocol Let_def split: if_splits)

lemma complete_progress:
  assumes "complete_current_work_node e p t r text s refs confirm = Inr (q, s', tr)"
    and "protocol_wf p" "norm_ok t"
  shows "good_progress p q"
proof -
  obtain w where w: "p_work_tree p = Some w" "tree_wf w" using assms(2) by (auto simp: protocol_wf_def)
  obtain c where c: "node_by_id w (n_id c) = Some c" "wt_current_node_id w = Some (n_id c)"
    "current_node_of_tree w = Some c" using current_of_wf [OF w(2)] by metis
  note i = complete_inputs [OF assms(1) w(1) c(3)]
  show ?thesis
  proof (cases "n_parent_node_id c")
    case None
    obtain q' s'' tr' u where
      "complete_current_work_node e p t r text s refs confirm = Inr (q', Some s'', tr')"
      and u: "p_work_tree q' = Some u" "tree_wf u" "tree_ids u = tree_ids w"
      "\<And>j. node_by_id u j = map_option (complete_node (now_of e) (n_id c)
         (finished_with e w (n_id c) confirm) (normalize_excerpt (strip text) 240) refs) (node_by_id w j)"
      using complete_root_result [OF w assms(3) c(2,1) None i, of e r s refs] by metis
    then have "q' = q" using assms(1) by simp
    then show ?thesis using good_progressI [OF w(1) u progress_edit_complete] by simp
  next
    case (Some pa)
    obtain q' s'' tr' u where
      "complete_current_work_node e p t r text s refs confirm = Inr (q', Some s'', tr')"
      and u: "p_work_tree q' = Some u" "tree_wf u" "tree_ids u = tree_ids w"
      "\<And>j. node_by_id u j = map_option (start_if_waiting (now_of e) pa \<circ> complete_node (now_of e) (n_id c)
         (finished_with e w (n_id c) confirm) (normalize_excerpt (strip text) 240) refs) (node_by_id w j)"
      using complete_child_result [OF w assms(3) c(2,1) Some i, of e r s refs] by metis
    then have "q' = q" using assms(1) by simp
    then show ?thesis
      using good_progressI [OF w(1) u progress_edit_comp [OF progress_edit_waiting progress_edit_complete]] by simp
  qed
qed

lemma fail_progress:
  assumes "fail_current_work_node e p t r text s = Inr (q, s', tr)"
    and "protocol_wf p" "norm_ok t"
  shows "good_progress p q"
proof -
  obtain w where w: "p_work_tree p = Some w" "tree_wf w" using assms(2) by (auto simp: protocol_wf_def)
  obtain c where c: "node_by_id w (n_id c) = Some c" "wt_current_node_id w = Some (n_id c)"
    "current_node_of_tree w = Some c" using current_of_wf [OF w(2)] by metis
  have i: "normalize_excerpt (strip text) 240 \<noteq> []"
    using assms(1) w(1) by (auto simp: fail_current_work_node_def Let_def split: if_splits)
  show ?thesis
  proof (cases "n_parent_node_id c")
    case None
    obtain q' s'' tr' u where
      "fail_current_work_node e p t r text s = Inr (q', Some s'', tr')"
      and u: "p_work_tree q' = Some u" "tree_wf u" "tree_ids u = tree_ids w"
      "\<And>j. node_by_id u j = map_option
         (mark_failed (now_of e) (n_id c) (normalize_excerpt (strip text) 240)) (node_by_id w j)"
      using fail_root_result [OF w assms(3) c(2,1) None i, of e r s] by metis
    then have "q' = q" using assms(1) by simp
    then show ?thesis using good_progressI [OF w(1) u progress_edit_failed] by simp
  next
    case (Some pa)
    obtain q' s'' tr' u where
      "fail_current_work_node e p t r text s = Inr (q', Some s'', tr')"
      and u: "p_work_tree q' = Some u" "tree_wf u" "tree_ids u = tree_ids w"
      "\<And>j. node_by_id u j = map_option (start_if_waiting (now_of e) pa \<circ>
         mark_failed (now_of e) (n_id c) (normalize_excerpt (strip text) 240)) (node_by_id w j)"
      using fail_child_result [OF w assms(3) c(2,1) Some i, of e r s] by metis
    then have "q' = q" using assms(1) by simp
    then show ?thesis
      using good_progressI [OF w(1) u progress_edit_comp [OF progress_edit_waiting progress_edit_failed]] by simp
  qed
qed

lemma skip_progress:
  assumes "skip_work_tree_nodes e p t r ids reason s confirm = Inr (q, s', tr)"
    and "protocol_wf p" "norm_ok t"
  shows "good_progress p q"
proof -
  obtain w where w: "p_work_tree p = Some w" "tree_wf w" using assms(2) by (auto simp: protocol_wf_def)
  show ?thesis
  proof (rule skip_effect [OF assms(1) w assms(3)])
    fix u c assume u: "p_work_tree q = Some u" "tree_wf u" "tree_ids u = tree_ids w"
      "\<And>j. node_by_id u j = map_option (start_current_node (now_of e) (wt_status w) c) (node_by_id w j)"
    show ?thesis by (rule good_progressI [OF w(1) u progress_edit_start])
  next
    fix u c assume u: "p_work_tree q = Some u" "tree_wf u" "tree_ids u = tree_ids w"
      "\<And>j. node_by_id u j = map_option (start_current_node (now_of e) TActive c
         \<circ> mark_skipped (now_of e) (ordered_ids ids) (normalize_excerpt (strip reason) 240)) (node_by_id w j)"
    show ?thesis
      by (rule good_progressI [OF w(1) u progress_edit_comp [OF progress_edit_start progress_edit_skipped]])
  qed
qed

lemma unchanged_progress: "protocol_wf p \<Longrightarrow> good_progress p p"
  by (simp add: good_progress_def progressed_refl)

lemma advance_cases:
  assumes "advance_takeover_after_delivery e (Some p) t r text s refs res = Inr (Some q, s', tr)"
    and "p_work_tree p = Some w" "current_node_of_tree w = Some c"
  obtains (kept) "q = p" "tr_transition tr = TrCompleted" "p_status p = PCompleted \<or> wt_status w = TCompleted"
  | (normalized) s2 where "normalize_runtime_state e p t r s = (q, s2)"
      "tr_transition tr \<in> {TrParentOrchestrationRequired, TrResolutionBlocked}"
      "tr_transition tr = TrParentOrchestrationRequired \<longleftrightarrow> pending_child_ids w c \<noteq> []"
      "pending_child_ids w c \<noteq> [] \<Longrightarrow> tr_next_node_id tr = Some (hd (pending_child_ids w c))"
  | (gated) "q = p" "tr_transition tr = TrDeliveryGateBlocked" "\<not> check_delivery_hard_gates p"
      "tr_blocked_gates tr = blocked_gate_labels p" "pending_child_ids w c = []"
  | (delivered) summary where "complete_current_work_node e p t r summary s refs False = Inr (q, s', tr)"
      "check_delivery_hard_gates p" "pending_child_ids w c = []"
      "p_status p \<noteq> PCompleted" "wt_status w \<noteq> TCompleted"
      "\<And>x. res = Some x \<Longrightarrow> readiness_blockers_of w c x refs = []"
proof (cases "p_status p = PCompleted \<or> wt_status w = TCompleted")
  case True
  with assms kept show thesis
    by (auto simp: advance_takeover_after_delivery_def plain_transition_def)
next
  case False
  define blockers where "blockers = (case res of None \<Rightarrow> [] | Some x \<Rightarrow> readiness_blockers_of w c x refs)"
  have eq: "advance_takeover_after_delivery e (Some p) t r text s refs res =
     (if pending_child_ids w c \<noteq> [] then Inr (orchestrate_parent e p t r s w c (pending_child_ids w c))
      else if blockers \<noteq> [] then Inr (block_resolution e p t r s c blockers)
      else deliver_current e p t r text s refs)"
    using False assms(2,3)
    by (simp add: advance_takeover_after_delivery_def current_of_protocol blockers_def Let_def)
  show thesis
  proof (cases "pending_child_ids w c \<noteq> [] \<or> blockers \<noteq> []")
    case True
    with assms(1) normalized show thesis
      unfolding eq by (auto simp: orchestrate_parent_def block_resolution_def plain_transition_def Let_def
          split: if_splits prod.splits)
  next
    case no: False
    then have d: "deliver_current e p t r text s refs = Inr (Some q, s', tr)"
      using assms(1) unfolding eq by simp
    show thesis
    proof (cases "check_delivery_hard_gates p")
      case True
      have "readiness_blockers_of w c x refs = []" if "res = Some x" for x
        using that no by (simp add: blockers_def)
      with d no False True delivered show thesis
        by (auto simp: deliver_current_def Let_def map_sum_Inr)
    next
      case ng: False
      with d no gated show thesis by (auto simp: deliver_current_def plain_transition_def)
    qed
  qed
qed

lemma advance_progress:
  assumes "advance_takeover_after_delivery e (Some p) t r text s refs res = Inr (Some q, s', tr)"
    and "protocol_wf p" "norm_ok t"
  shows "good_progress p q"
proof -
  obtain w where w: "p_work_tree p = Some w" "tree_wf w" using assms(2) by (auto simp: protocol_wf_def)
  obtain c where c: "current_node_of_tree w = Some c" using current_of_wf [OF w(2)] by metis
  show ?thesis
    by (rule advance_cases [OF assms(1) w(1) c])
       (use assms unchanged_progress normalize_progress complete_progress in blast)+
qed

lemma approve_progress:
  assumes "approve_takeover_completion e (Some p) = Some q" "protocol_wf p"
  shows "good_progress p q"
proof -
  obtain w where w: "p_work_tree p = Some w" "tree_wf w" using assms(2) by (auto simp: protocol_wf_def)
  from approve_effect [OF w, of e] assms(1) consider "q = p"
    | u where "p_work_tree q = Some u" "tree_wf u" "wt_nodes u = wt_nodes w" by auto
  then show ?thesis
  proof cases
    case (2 u)
    have "progress_edit (\<lambda>n. n)" by (simp add: progress_edit_def)
    with 2 w show ?thesis
      using good_progressI [OF w(1) 2(1,2) ids_cong [OF 2(3)], of "\<lambda>n. n"] lookup_cong [OF 2(3)]
      by (simp add: option.map_ident)
  qed (use assms unchanged_progress in simp)
qed

lemma merge_progress:
  assumes "merge_child_takeover_completion_into_parent e (Some p) parent child ctask crun text refs s =
      Inr (Some q, s')"
    and "\<And>w i. p_work_tree p = Some w \<Longrightarrow> opt_or parent (wt_current_node_id w) = Some i \<Longrightarrow> i \<in> tree_ids w"
    and "protocol_wf p"
  shows "good_progress p q"
proof -
  obtain w where w: "p_work_tree p = Some w" "tree_wf w" using assms(3) by (auto simp: protocol_wf_def)
  obtain u i merged where u: "p_work_tree q = Some u" "tree_wf u"
    "wt_nodes u = map (summarize_parent (now_of e) i merged) (wt_nodes w)"
    using merge_effect [OF assms(1) w assms(2) [OF w(1)]] by metis
  note safe = summarize_parent_safe [OF w(2), of "now_of e" i merged]
  show ?thesis
    by (rule good_progressI [OF w(1) u(1,2) safe_edit_ids [OF safe u(3)] safe_edit_lookup [OF safe u(3)]
          progress_edit_summarize])
qed

section \<open>Every step keeps the tree well formed\<close>

lemma progress_step_good:
  assumes "progress_step t r x y" "protocol_wf (fst x)" "norm_ok t"
  shows "good_progress (fst x) (fst y)"
  using assms
proof (induction rule: progress_step.induct)
  case (normalize e p s q s')
  then show ?case using normalize_progress by simp
next
  case (switch e p i s cursor q s')
  then show ?case using switch_progress by simp
next
  case (bubble e p s i cursor q s')
  then show ?case using bubble_progress by simp
next
  case (complete e p txt0 s refs confirm q s' tr)
  then show ?case using complete_progress by simp
next
  case (failing e p txt0 s q s' tr)
  then show ?case using fail_progress by simp
next
  case (skip e p ids reason s confirm q s' tr)
  then show ?case using skip_progress by simp
next
  case (advance e p txt0 s refs res q s' tr)
  then show ?case using advance_progress by simp
next
  case (approve e p q s)
  then show ?case using approve_progress by simp
next
  case (merge e p parent child ctask crun txt0 refs s q s')
  then show ?case using merge_progress by simp
qed

lemma takeover_step_wf:
  assumes "takeover_step t r x y" "protocol_wf (fst x)" "norm_ok t"
  shows "protocol_wf (fst y)"
  using assms
proof (induction rule: takeover_step.induct)
  case (progress x y)
  then show ?case using progress_step_good by (simp add: good_progress_def)
next
  case (update e p i title goal qs ev st s q s' n)
  from update.prems obtain w where w: "p_work_tree p = Some w" "tree_wf w" by (auto simp: protocol_wf_def)
  show ?case
    by (rule update_effect [OF update.hyps w update.prems(2)]) (auto simp: protocol_wf_def)
next
  case (create e drawn p title ph parent qs goal ev s act i q s' n j)
  from create.prems obtain w where w: "p_work_tree p = Some w" "tree_wf w" by (auto simp: protocol_wf_def)
  from create.hyps(3) w(1) have j: "norm_ok j" "j \<notin> tree_ids w" by (auto simp: fresh_id_def)
  show ?case
    by (rule create_effect [OF create.hyps(1) w create.prems(2) create.hyps(2) j create.hyps(4,5)])
      (auto simp: protocol_wf_def)
next
  case (reopen e p i reason s q s')
  from reopen.prems obtain w where w: "p_work_tree p = Some w" "tree_wf w" by (auto simp: protocol_wf_def)
  show ?case
    by (rule reopen_effect [OF reopen.hyps w reopen.prems(2)]) (auto simp: protocol_wf_def)
qed

text \<open>
  The machines satisfy the contracts of the prelude: well-formedness is an invariant of every
  step, and a step that moves the takeover on never goes back on a terminal node.
\<close>

definition machine_step :: "ustr \<Rightarrow> takeover_state \<Rightarrow> takeover_state \<Rightarrow> bool" where
  "machine_step r x y \<longleftrightarrow> (\<exists>t. norm_ok t \<and> takeover_step t r x y)"

definition machine_progress :: "ustr \<Rightarrow> takeover_state \<Rightarrow> takeover_state \<Rightarrow> bool" where
  "machine_progress r x y \<longleftrightarrow> (\<exists>t. norm_ok t \<and> progress_step t r x y)"

definition good_state :: "takeover_state \<Rightarrow> bool" where
  "good_state x \<longleftrightarrow> protocol_wf (fst x)"

interpretation machine: invariant_system "machine_step r" good_state for r
  by unfold_locales (auto simp: machine_step_def good_state_def intro: takeover_step_wf)

interpretation forward: progress_system "machine_progress r" good_state
  "\<lambda>x y. progressed (fst x) (fst y)" for r
proof unfold_locales
  fix x y assume "machine_progress r x y" "good_state x"
  then have g: "good_progress (fst x) (fst y)"
    using progress_step_good [of _ r x y] by (auto simp: machine_progress_def good_state_def simp del: split_paired_All)
  then show "good_state y" "progressed (fst x) (fst y)" by (simp_all add: good_progress_def good_state_def)
qed (rule progressed_refl, rule progressed_trans)

end
