(* ===== verification/TakeoverProps.thy ===== *)
theory TakeoverProps
  imports TakeoverMachine
begin

text \<open>
  What the operations of a takeover promise: completing, failing, skipping, delivering, approving,
  reopening, creating and bootstrapping, each on every well-formed protocol.
\<close>

section \<open>The sample tree, evaluated\<close>

lemma sample_node_children:
  "n_child_node_ids (sample_node i p [] st) = []"
  "n_child_node_ids (sample_node i p [''a'', ''b''] st) = [lit ''a'', lit ''b'']"
  by (simp_all add: sample_node_def validate_node_def new_node_def Let_def norm_list_ok_def norm_ok_lit is_space_def)

lemma sample_node_id:
  "n_id (sample_node ''r'' p cs st) = lit ''r''" "n_id (sample_node ''a'' p cs st) = lit ''a''"
  "n_id (sample_node ''b'' p cs st) = lit ''b''"
  by (simp_all add: sample_node_keys is_space_def)

lemma sample_lookup:
  "node_by_id (sample_tree sr sa sb c) (lit ''r'') = Some (sample_node ''r'' None [''a'', ''b''] sr)"
  "node_by_id (sample_tree sr sa sb c) (lit ''a'') = Some (sample_node ''a'' (Some ''r'') [] sa)"
  "node_by_id (sample_tree sr sa sb c) (lit ''b'') = Some (sample_node ''b'' (Some ''r'') [] sb)"
  by (simp_all add: sample_tree_def node_by_id_def index_by_def sample_node_id)

lemma sample_child_ids:
  "work_tree_child_ids (sample_tree sr sa sb c) (sample_node ''r'' p [''a'', ''b''] st) = [lit ''a'', lit ''b'']"
  "work_tree_child_ids (sample_tree sr sa sb c) (sample_node ''a'' p [] st) = []"
  "work_tree_child_ids (sample_tree sr sa sb c) (sample_node ''b'' p [] st) = []"
  by (simp_all add: work_tree_child_ids_def sample_node_children sample_node_id list_or_def
      sample_tree_def sample_node_keys(2))

lemma sample_descendants:
  "node_descendant_ids (sample_tree sr sa sb c) (lit ''r'') = [lit ''a'', lit ''b'']"
  "node_descendant_ids (sample_tree sr sa sb c) (lit ''a'') = []"
  by (simp_all add: descendants_of_node [OF sample_lookup(1)] descendants_of_node [OF sample_lookup(2)]
      sample_child_ids sample_lookup)

lemma sample_unfinished:
  "node_unfinished_descendant_ids (sample_tree sr sa sb c) (lit ''r'') =
     (if sa \<in> terminal_statuses then [] else [lit ''a'']) @ (if sb \<in> terminal_statuses then [] else [lit ''b''])"
  "node_unfinished_descendant_ids (sample_tree sr sa sb c) (lit ''a'') = []"
  by (simp_all add: node_unfinished_descendant_ids_def sample_descendants sample_lookup sample_node_keys(3))

section \<open>Text that is not blank\<close>

lemma split_from_nonempty: "(\<exists>c\<in>set s. \<not> is_space c) \<or> cur \<noteq> [] \<Longrightarrow> split_from cur s \<noteq> []"
  by (induction cur s rule: split_from.induct) auto

lemma join_nonempty: "ws \<noteq> [] \<Longrightarrow> \<forall>w\<in>set ws. w \<noteq> [] \<Longrightarrow> join sep ws \<noteq> []"
  by (induction sep ws rule: join.induct) auto

lemma excerpt_nonempty: "c \<in> set s \<Longrightarrow> \<not> is_space c \<Longrightarrow> normalize_excerpt s n \<noteq> []"
  using join_nonempty [of "split_ws s"] split_from_nonempty [of s "[]"] split_from_words [of "[]" s]
  by (auto simp: normalize_excerpt_def compact_def Let_def split_ws_def)

lemma excerpt_norm_ok: "norm_ok s \<Longrightarrow> normalize_excerpt (strip s) n \<noteq> []"
  using excerpt_nonempty [of "hd s" s] by (auto simp: norm_ok_def)

section \<open>Completing the current node\<close>

lemma sum_cases: "(\<forall>err. r \<noteq> Inl err) \<longleftrightarrow> (\<exists>v. r = Inr v)"
  by (cases r) auto

lemma wf_current_node:
  assumes "tree_wf w" "wt_current_node_id w = Some i"
  obtains c where "node_by_id w i = Some c" "n_id c = i" "current_node_of_tree w = Some c"
  using current_of_wf [OF assms(1)] assms(2) by (metis option.inject)

lemma complete_defined:
  assumes "p_work_tree p = Some w" "tree_wf w" "norm_ok t" "wt_current_node_id w = Some i"
    and "normalize_excerpt (strip msg) 240 \<noteq> []"
    and "confirm \<or> node_unfinished_descendant_ids w i = []"
  obtains q s tr where "complete_current_work_node e p t r msg stack refs confirm = Inr (q, Some s, tr)"
proof -
  obtain c where c: "node_by_id w i = Some c" "n_id c = i" using wf_current_node assms(2,4) by metis
  note i = assms(4)[folded c(2)] c(1)[folded c(2)]
  note ok = assms(5) assms(6)[folded c(2)]
  show thesis
  proof (cases "n_parent_node_id c")
    case None
    then show thesis using complete_root_result [OF assms(1-3) i None ok, of e r stack refs] that by metis
  next
    case (Some pa)
    then show thesis using complete_child_result [OF assms(1-3) i Some ok, of e r stack refs] that by metis
  qed
qed

text \<open>C8: completing the current node of a well-formed takeover fails exactly when the execution
  summary is blank or when a descendant is unfinished and the parent has not confirmed it;
  otherwise it succeeds and returns a stack.\<close>

theorem complete_errors_exactly:
  assumes "p_work_tree p = Some w" "tree_wf w" "norm_ok t" "wt_current_node_id w = Some i"
  shows "(\<exists>err. complete_current_work_node e p t r msg stack refs confirm = Inl err) \<longleftrightarrow>
    normalize_excerpt (strip msg) 240 = []
    \<or> \<not> confirm \<and> node_unfinished_descendant_ids w i \<noteq> []"
proof -
  obtain c where c: "current_node_of_tree w = Some c" "n_id c = i"
    using wf_current_node assms(2,4) by metis
  have "(\<exists>res. complete_current_work_node e p t r msg stack refs confirm = Inr res) \<longleftrightarrow>
    normalize_excerpt (strip msg) 240 \<noteq> [] \<and> (confirm \<or> node_unfinished_descendant_ids w i = [])"
    using complete_inputs [OF _ assms(1) c(1)] c(2) complete_defined [OF assms, of msg confirm e r stack refs]
    by metis
  then show ?thesis using sum_cases by metis
qed

lemma sample_wf:
  "c = ''r'' \<or> c = ''a'' \<or> c = ''b'' \<Longrightarrow>
     p_work_tree (sample_protocol (Some (sample_tree sr sa sb c))) = Some (sample_tree sr sa sb c)
     \<and> tree_wf (sample_tree sr sa sb c) \<and> norm_ok (lit ''t'')
     \<and> wt_current_node_id (sample_tree sr sa sb c) = Some (lit c)"
  by (simp add: sample_tree_wf norm_ok_lit is_space_def sample_protocol_def) (simp add: sample_tree_def)

theorem complete_errors_exactly_witness:
  "\<exists>err. complete_current_work_node sample_env
      (sample_protocol (Some (sample_tree NInProgress NPending NCompleted ''r'')))
      (lit ''t'') (lit ''run'') (lit ''all is well'') None [] False = Inl err"
proof -
  let ?w = "sample_tree NInProgress NPending NCompleted ''r''"
  have "node_unfinished_descendant_ids ?w (lit ''r'') \<noteq> []"
    by (simp add: sample_unfinished terminal_statuses_def)
  then show ?thesis
    using complete_errors_exactly [of "sample_protocol (Some ?w)" ?w "lit ''t''" "lit ''r''" sample_env
        "lit ''run''" "lit ''all is well''" None "[]" False]
      sample_wf [of "''r''" NInProgress NPending NCompleted] by simp
qed

text \<open>The nodes a completion finishes: the current one and, when confirmed, all below it.\<close>

lemma complete_node_settles:
  "n_id n \<in> ids \<Longrightarrow> n_status (complete_node now i ids summary refs n) \<in> terminal_statuses"
  by (simp add: complete_node_def terminal_statuses_def)

lemma start_if_waiting_terminal:
  "n_status n \<in> terminal_statuses \<Longrightarrow> n_status (start_if_waiting now i n) \<in> terminal_statuses"
  using progress_edit_waiting [of now i] by (simp add: progress_edit_def)

text \<open>Completing a node that has a parent moves the takeover to that parent: the parent is the
  current node of an active tree, the completed node carries the summary, every other node that
  is neither the parent nor a confirmed descendant is unchanged, and after a confirmed
  completion no descendant is left open.\<close>

theorem complete_child_bubbles_to_parent:
  assumes "p_work_tree p = Some w" "tree_wf w" "norm_ok t" "wt_current_node_id w = Some i"
    and "node_by_id w i = Some c" "n_parent_node_id c = Some pa" "n_status c \<notin> terminal_statuses"
    and "normalize_excerpt (strip msg) 240 \<noteq> []"
    and "confirm \<or> node_unfinished_descendant_ids w i = []"
  shows "\<exists>q s tr u. complete_current_work_node e p t r msg stack refs confirm = Inr (q, Some s, tr)
    \<and> tr_transition tr = TrBubbleParent \<and> tr_requires_continuation tr \<and> tr_current_node_id tr = Some pa
    \<and> p_work_tree q = Some u \<and> tree_wf u \<and> wt_status u = TActive \<and> wt_current_node_id u = Some pa
    \<and> p_status q = PExecuting
    \<and> (\<exists>n. node_by_id u i = Some n \<and> n_status n = NCompleted
         \<and> n_execution_summary n = Some (normalize_excerpt (strip msg) 240))
    \<and> (\<forall>j\<in>set (node_unfinished_descendant_ids w i). \<forall>n. node_by_id u j = Some n \<longrightarrow>
         n_status n \<in> terminal_statuses)
    \<and> (\<forall>j. j \<noteq> i \<and> j \<noteq> pa \<and> j \<notin> set (node_unfinished_descendant_ids w i) \<longrightarrow>
         node_by_id u j = node_by_id w j)"
proof -
  have c: "n_id c = i" using node_by_id_Some [OF assms(5)] by simp
  obtain q s u tr where u:
    "complete_current_work_node e p t r msg stack refs confirm = Inr (q, Some s, tr)"
    "tr_transition tr = TrBubbleParent" "tr_current_node_id tr = Some pa" "tr_requires_continuation tr"
    "p_work_tree q = Some u" "tree_wf u" "wt_current_node_id u = Some pa" "wt_status u = TActive"
    "p_status q = PExecuting"
    and lk: "\<And>j. node_by_id u j = map_option (start_if_waiting (now_of e) pa \<circ>
       complete_node (now_of e) (n_id c) (finished_with e w (n_id c) confirm)
         (normalize_excerpt (strip msg) 240) refs) (node_by_id w j)"
    using complete_child_result [OF assms(1-3) assms(4,5)[folded c] assms(6,8) assms(9)[folded c], of e r stack refs]
    by metis
  have "\<exists>n. node_by_id u i = Some n \<and> n_status n = NCompleted
         \<and> n_execution_summary n = Some (normalize_excerpt (strip msg) 240)"
    using lk [of i] assms(5,7) c by (simp add: complete_node_def finished_with_def start_if_waiting_def)
  moreover have "n_status n \<in> terminal_statuses"
    if "j \<in> set (node_unfinished_descendant_ids w i)" "node_by_id u j = Some n" for j n
  proof -
    from that(1) assms(9) have "confirm" by auto
    with that(1) c have "j \<in> finished_with e w (n_id c) confirm" by (simp add: finished_with_def)
    with that(2) lk [of j] node_by_id_Some [of w j] show ?thesis
      by (auto intro!: start_if_waiting_terminal complete_node_settles)
  qed
  moreover have "node_by_id u j = node_by_id w j"
    if "j \<noteq> i" "j \<noteq> pa" "j \<notin> set (node_unfinished_descendant_ids w i)" for j
    using that c lk [of j] node_by_id_Some [of w j]
    by (cases "node_by_id w j")
      (auto simp: complete_node_def start_if_waiting_def finished_with_def split: if_splits)
  ultimately show ?thesis using u by blast
qed

theorem complete_child_bubbles_to_parent_witness:
  "\<exists>q s tr u. complete_current_work_node sample_env
      (sample_protocol (Some (sample_tree NInProgress NInProgress NPending ''a'')))
      (lit ''t'') (lit ''run'') (lit ''well done'') None [] False = Inr (q, Some s, tr)
    \<and> p_work_tree q = Some u \<and> wt_current_node_id u = Some (lit ''r'')
    \<and> node_by_id u (lit ''b'') = Some (sample_node ''b'' (Some ''r'') [] NPending)"
proof -
  let ?w = "sample_tree NInProgress NInProgress NPending ''a''"
  have n: "node_by_id ?w (lit ''a'') = Some (sample_node ''a'' (Some ''r'') [] NInProgress)"
    "node_by_id ?w (lit ''b'') = Some (sample_node ''b'' (Some ''r'') [] NPending)"
    "node_unfinished_descendant_ids ?w (lit ''a'') = []"
    by (rule sample_lookup sample_unfinished)+
  have x: "normalize_excerpt (strip (lit ''well done'')) 240 \<noteq> []"
    by (rule excerpt_norm_ok) (simp add: norm_ok_lit is_space_def)
  note ok = sample_wf [of "''a''" NInProgress NInProgress NPending, simplified]
  from complete_child_bubbles_to_parent [OF conjunct1 [OF ok] conjunct1 [OF conjunct2 [OF ok]]
      conjunct1 [OF conjunct2 [OF conjunct2 [OF ok]]] conjunct2 [OF conjunct2 [OF conjunct2 [OF ok]]] n(1) _ _ x,
      of "lit ''r''" False sample_env "lit ''run''" None "[]"]
  obtain q s tr u where "complete_current_work_node sample_env (sample_protocol (Some ?w)) (lit ''t'')
      (lit ''run'') (lit ''well done'') None [] False = Inr (q, Some s, tr)"
    "p_work_tree q = Some u" "wt_current_node_id u = Some (lit ''r'')"
    "\<forall>j. j \<noteq> lit ''a'' \<and> j \<noteq> lit ''r'' \<and> j \<notin> set (node_unfinished_descendant_ids ?w (lit ''a'')) \<longrightarrow>
       node_by_id u j = node_by_id ?w j"
    by (auto simp: sample_node_keys terminal_statuses_def n(3))
  moreover from this(4) have "node_by_id u (lit ''b'') = node_by_id ?w (lit ''b'')" by (simp add: n(3))
  ultimately show ?thesis using n(2) by auto
qed

lemma sample_inputs:
  "p_work_tree (sample_protocol (Some w)) = Some w" "norm_ok (lit ''t'')"
  "wt_current_node_id (sample_tree sr sa sb c) = Some (lit c)"
  "wt_root_node_id (sample_tree sr sa sb c) = Some (lit ''r'')"
  "wt_status (sample_tree sr sa sb c) = TActive"
  by (simp_all add: norm_ok_lit is_space_def sample_protocol_def sample_tree_def)

lemma sample_text: "normalize_excerpt (strip (lit ''well done'')) 240 \<noteq> []"
  by (rule excerpt_norm_ok) (simp add: norm_ok_lit is_space_def)

lemma approve_awaiting:
  assumes "p_work_tree p = Some w" "tree_wf w" "wt_status w \<in> {TAwaitingApproval, TCompleted}"
  obtains q u where "approve_takeover_completion e (Some p) = Some q" "p_work_tree q = Some u"
    "tree_wf u" "wt_status u = TCompleted" "p_status q = PCompleted" "wt_nodes u = wt_nodes w"
  using approve_effect [OF assms(1,2), of e] assms(3) by auto

lemma advance_completed:
  "p_work_tree p = Some w \<Longrightarrow> wt_status w = TCompleted \<Longrightarrow>
     advance_takeover_after_delivery e (Some p) t r msg s refs res =
       Inr (Some p, s, (plain_transition TrCompleted False (lit ''completed''))\<lparr>tr_current_node_id := tree_current p\<rparr>)"
  by (simp add: advance_takeover_after_delivery_def)

text \<open>Completing the root ends the work but not the takeover: the tree awaits approval at its
  root and the protocol is verified; the approval completes both and touches no node; a delivery
  after that changes nothing.\<close>

theorem complete_root_then_approve:
  assumes "p_work_tree p = Some w" "tree_wf w" "norm_ok t" "wt_current_node_id w = Some i"
    and "node_by_id w i = Some c" "n_parent_node_id c = None"
    and "normalize_excerpt (strip msg) 240 \<noteq> []"
    and "confirm \<or> node_unfinished_descendant_ids w i = []"
  shows "\<exists>q s tr u z v. complete_current_work_node e p t r msg stack refs confirm = Inr (q, Some s, tr)
    \<and> tr_transition tr = TrAwaitingApproval \<and> \<not> tr_requires_continuation tr
    \<and> p_work_tree q = Some u \<and> wt_status u = TAwaitingApproval \<and> p_status q = PVerified
    \<and> wt_current_node_id u = wt_root_node_id w
    \<and> approve_takeover_completion e (Some q) = Some z \<and> p_work_tree z = Some v \<and> tree_wf v
    \<and> wt_status v = TCompleted \<and> p_status z = PCompleted \<and> wt_nodes v = wt_nodes u
    \<and> (\<forall>k. \<exists>tr'. advance_takeover_after_delivery e (Some z) t r k (Some s) refs None = Inr (Some z, Some s, tr')
         \<and> tr_transition tr' = TrCompleted \<and> \<not> tr_requires_continuation tr')"
proof -
  have c: "n_id c = i" using node_by_id_Some [OF assms(5)] by simp
  obtain q s u tr where u: "complete_current_work_node e p t r msg stack refs confirm = Inr (q, Some s, tr)"
    "tr_transition tr = TrAwaitingApproval" "\<not> tr_requires_continuation tr"
    "p_work_tree q = Some u" "tree_wf u" "wt_current_node_id u = wt_root_node_id w"
    "wt_status u = TAwaitingApproval" "p_status q = PVerified"
    using complete_root_result [OF assms(1-3) assms(4,5)[folded c] assms(6,7) assms(8)[folded c], of e r stack refs]
    by metis
  obtain z v where "approve_takeover_completion e (Some q) = Some z" "p_work_tree z = Some v"
    "tree_wf v" "wt_status v = TCompleted" "p_status z = PCompleted" "wt_nodes v = wt_nodes u"
    using approve_awaiting [OF u(4,5), of e] u(7) by auto
  moreover from advance_completed [OF this(2,4)]
  have "\<exists>tr'. advance_takeover_after_delivery e (Some z) t r k (Some s) refs None = Inr (Some z, Some s, tr')
         \<and> tr_transition tr' = TrCompleted \<and> \<not> tr_requires_continuation tr'" for k
    by (simp add: plain_transition_def)
  ultimately show ?thesis using u by blast
qed

theorem complete_root_then_approve_witness:
  "\<exists>q s tr z v. complete_current_work_node sample_env
      (sample_protocol (Some (sample_tree NInProgress NCompleted NSkipped ''r'')))
      (lit ''t'') (lit ''run'') (lit ''well done'') None [] False = Inr (q, Some s, tr)
    \<and> tr_transition tr = TrAwaitingApproval
    \<and> approve_takeover_completion sample_env (Some q) = Some z
    \<and> p_work_tree z = Some v \<and> wt_status v = TCompleted"
proof -
  let ?w = "sample_tree NInProgress NCompleted NSkipped ''r''"
  have u: "False \<or> node_unfinished_descendant_ids ?w (lit ''r'') = []"
    by (simp add: sample_unfinished terminal_statuses_def)
  have par: "n_parent_node_id (sample_node ''r'' None [''a'', ''b''] NInProgress) = None"
    by (simp add: sample_node_keys)
  show ?thesis
    using complete_root_then_approve [OF sample_inputs(1) sample_tree_wf sample_inputs(2,3) sample_lookup(1) par
      sample_text u, of sample_env "lit ''run''" None "[]"] by blast
qed

text \<open>An edit leaves the nodes alone that it is not about.\<close>

lemma edit_elsewhere:
  assumes "\<And>j. node_by_id u j = map_option g (node_by_id w j)"
    and "\<And>n. n_id n \<notin> X \<Longrightarrow> g n = n" and "j \<notin> X"
  shows "node_by_id u j = node_by_id w j"
  using assms node_by_id_Some [of w j] by (cases "node_by_id w j") auto

text \<open>Failing the current node needs a reason; with one, the node is failed and keeps the
  reason, no other node but its parent changes, and the takeover goes on at the parent, or, when
  the node has none, stops as failed and asks for clarification.\<close>

theorem fail_current_exact:
  assumes "p_work_tree p = Some w" "tree_wf w" "norm_ok t" "wt_current_node_id w = Some i"
    and "node_by_id w i = Some c"
  shows "case fail_current_work_node e p t r msg stack of
      Inl err \<Rightarrow> normalize_excerpt (strip msg) 240 = []
    | Inr (q, s, tr) \<Rightarrow> normalize_excerpt (strip msg) 240 \<noteq> [] \<and> s \<noteq> None
        \<and> (\<exists>u n. p_work_tree q = Some u \<and> tree_wf u \<and> node_by_id u i = Some n \<and> n_status n = NFailed
           \<and> n_failure_summary n = Some (normalize_excerpt (strip msg) 240)
           \<and> (\<forall>j. j \<noteq> i \<and> n_parent_node_id c \<noteq> Some j \<longrightarrow> node_by_id u j = node_by_id w j)
           \<and> (if n_parent_node_id c = None
              then wt_status u = TFailed \<and> p_status q = PNeedsClarification \<and> wt_current_node_id u = Some i
                \<and> tr_transition tr = TrFailed \<and> \<not> tr_requires_continuation tr
              else wt_status u = TActive \<and> p_status q = PExecuting
                \<and> wt_current_node_id u = n_parent_node_id c
                \<and> tr_transition tr = TrBubbleParentAfterFailure \<and> tr_requires_continuation tr))"
proof (cases "normalize_excerpt (strip msg) 240 = []")
  case True
  then show ?thesis using assms(1) by (simp add: fail_current_work_node_def)
next
  case False
  have c: "n_id c = i" using node_by_id_Some [OF assms(5)] by simp
  let ?f = "normalize_excerpt (strip msg) 240"
  show ?thesis
  proof (cases "n_parent_node_id c")
    case None
    obtain q s u tr where u: "fail_current_work_node e p t r msg stack = Inr (q, Some s, tr)"
      "tr_transition tr = TrFailed" "\<not> tr_requires_continuation tr" "p_work_tree q = Some u" "tree_wf u"
      "wt_current_node_id u = Some (n_id c)" "wt_status u = TFailed" "p_status q = PNeedsClarification"
      and lk: "\<And>j. node_by_id u j = map_option (mark_failed (now_of e) (n_id c) ?f) (node_by_id w j)"
      using fail_root_result [OF assms(1-3) assms(4,5)[folded c] None False, of e r stack] by metis
    have "node_by_id u j = node_by_id w j" if "j \<noteq> i" for j
      by (rule edit_elsewhere [OF lk, of "{i}"]) (use that c in \<open>auto simp: mark_failed_def\<close>)
    moreover have "\<exists>n. node_by_id u i = Some n \<and> n_status n = NFailed \<and> n_failure_summary n = Some ?f"
      using lk [of i] assms(5) c by (simp add: mark_failed_def)
    ultimately show ?thesis using u c None False by auto
  next
    case (Some pa)
    obtain q s u tr where u: "fail_current_work_node e p t r msg stack = Inr (q, Some s, tr)"
      "tr_transition tr = TrBubbleParentAfterFailure" "tr_requires_continuation tr"
      "p_work_tree q = Some u" "tree_wf u" "wt_current_node_id u = Some pa"
      "wt_status u = TActive" "p_status q = PExecuting"
      and lk: "\<And>j. node_by_id u j = map_option (start_if_waiting (now_of e) pa \<circ>
         mark_failed (now_of e) (n_id c) ?f) (node_by_id w j)"
      using fail_child_result [OF assms(1-3) assms(4,5)[folded c] Some False, of e r stack] by metis
    have "node_by_id u j = node_by_id w j" if "j \<noteq> i" "pa \<noteq> j" for j
      by (rule edit_elsewhere [OF lk, of "{i, pa}"])
        (use that c in \<open>auto simp: mark_failed_def start_if_waiting_def\<close>)
    moreover have "\<exists>n. node_by_id u i = Some n \<and> n_status n = NFailed \<and> n_failure_summary n = Some ?f"
      using lk [of i] assms(5) c by (simp add: mark_failed_def start_if_waiting_def)
    ultimately show ?thesis using u c Some False by auto
  qed
qed

theorem fail_current_exact_witness:
  "\<exists>q s tr u n. fail_current_work_node sample_env
      (sample_protocol (Some (sample_tree NInProgress NInProgress NPending ''a'')))
      (lit ''t'') (lit ''run'') (lit ''well done'') None = Inr (q, s, tr)
    \<and> p_work_tree q = Some u \<and> wt_current_node_id u = Some (lit ''r'')
    \<and> node_by_id u (lit ''a'') = Some n \<and> n_status n = NFailed"
  using fail_current_exact [OF sample_inputs(1) sample_tree_wf sample_inputs(2,3) sample_lookup(2)
      [of NInProgress NInProgress NPending "''a''"],
      where e = sample_env and r = "lit ''run''" and msg = "lit ''well done''" and stack = None] sample_text
  by (auto simp: sample_node_keys split: sum.splits)

section \<open>Skipping, advancing, reopening\<close>

lemma skip_defined:
  assumes "p_work_tree p = Some w" "tree_wf w" "norm_ok t"
    and "normalize_excerpt (strip reason) 240 \<noteq> []" "ordered_ids ids \<noteq> []"
    and "\<forall>i\<in>set (ordered_ids ids). i \<in> tree_ids w" "wt_root_node_id w \<notin> Some ` set (ordered_ids ids)"
  obtains q s tr where "skip_work_tree_nodes e p t r ids reason stack confirm = Inr (q, s, tr)"
    "tr_transition tr = TrSkip \<longleftrightarrow> fst (split_skips w confirm (ordered_ids ids)) = []"
proof -
  let ?ids = "ordered_ids ids" and ?reason = "normalize_excerpt (strip reason) 240"
  obtain ask sk where sp: "split_skips w confirm ?ids = (ask, sk)" by fastforce
  have known: "filter (\<lambda>i. i \<notin> tree_ids w) ?ids = []" using assms(6) by (simp add: filter_empty_conv)
  note open_def = skip_work_tree_nodes_def Let_def sp plain_transition_def
  show thesis
  proof (cases "ask = []")
    case False
    obtain c where c: "wt_current_node_id w = Some c" using tree_wf_pointers [OF assms(2)] by metis
    obtain q' s' where "normalize_runtime_state e p t r stack = (q', Some s')"
      using normalize_result [OF assms(1-3) c, of e r stack] by metis
    with assms(1,4,5,7) known False show thesis by (intro that) (auto simp: open_def)
  next
    case True
    with sp have sk: "sk = ?ids" using split_skips_none [of w confirm ?ids] by simp
    obtain c where c: "current_after_skip w ?ids = Some c" using skip_target_exists [OF assms(2)] by blast
    let ?v = "skipped_tree e w ?ids ?reason"
    have v: "wt_current_node_id ?v = Some c" "wt_status ?v = TActive"
      using c by (simp_all add: skipped_tree_def)
    obtain q' s' where "normalize_runtime_state e (executing_with e p ?v) t r stack = (q', Some s')"
      using executing_result [OF skipped_tree_wf [OF assms(2), of e ?ids ?reason] assms(3) v, of e p r stack]
      by metis
    with assms(1,4,5,7) known True sk c show thesis by (intro that) (auto simp: open_def)
  qed
qed

text \<open>C10: skipping is all or nothing and loses no work: a call that skips anything skips exactly the
  requested nodes, none of which is the root, is unknown or has an open descendant, and finished
  descendants only go when that is confirmed; any other accepted call skips nothing and asks for
  confirmation. Nodes that are neither skipped nor the new current one are unchanged.\<close>

theorem skip_loses_no_work:
  assumes "skip_work_tree_nodes e p t r ids reason stack confirm = Inr (q, s, tr)"
    and "p_work_tree p = Some w" "tree_wf w" "norm_ok t"
  shows "tr_transition tr = TrPruneConfirmRequired \<and> tr_skipped_node_ids tr = []
      \<or> tr_transition tr = TrSkip \<and> tr_skipped_node_ids tr = ordered_ids ids
    \<and> (\<exists>u. p_work_tree q = Some u \<and> tree_wf u
        \<and> (\<forall>i\<in>set (tr_skipped_node_ids tr). wt_root_node_id w \<noteq> Some i \<and> i \<in> tree_ids w
             \<and> node_unfinished_descendant_ids w i = []
             \<and> (node_terminal_descendant_ids w i = [] \<or> confirm)
             \<and> (\<exists>n. node_by_id u i = Some n \<and> n_status n = NSkipped
                  \<and> n_failure_summary n = Some (normalize_excerpt (strip reason) 240)))
        \<and> (\<exists>c. \<forall>j. j \<notin> set (tr_skipped_node_ids tr) \<and> j \<noteq> c \<longrightarrow> node_by_id u j = node_by_id w j))"
proof (rule skip_effect [OF assms])
  fix u c
  assume skip: "tr_transition tr = TrSkip" "tr_skipped_node_ids tr = ordered_ids ids"
    "wt_root_node_id w \<notin> Some ` set (ordered_ids ids)"
    "\<forall>i\<in>set (ordered_ids ids). node_unfinished_descendant_ids w i = []
       \<and> (node_terminal_descendant_ids w i = [] \<or> confirm) \<and> i \<in> tree_ids w"
    and u: "p_work_tree q = Some u" "tree_wf u"
    and lk: "\<And>j. node_by_id u j = map_option (start_current_node (now_of e) TActive c
       \<circ> mark_skipped (now_of e) (ordered_ids ids) (normalize_excerpt (strip reason) 240)) (node_by_id w j)"
  have "node_by_id u j = node_by_id w j" if "j \<notin> set (ordered_ids ids)" "j \<noteq> c" for j
    by (rule edit_elsewhere [OF lk, of "insert c (set (ordered_ids ids))"])
      (use that in \<open>auto simp: mark_skipped_def start_current_node_def\<close>)
  moreover have "\<exists>n. node_by_id u i = Some n \<and> n_status n = NSkipped
      \<and> n_failure_summary n = Some (normalize_excerpt (strip reason) 240)"
    if i: "i \<in> set (ordered_ids ids)" for i
  proof -
    obtain n where "node_by_id w i = Some n" "n_id n = i"
      using i skip(4) node_by_id_None [of w i] node_by_id_Some [of w i] by (cases "node_by_id w i") auto
    with i lk [of i] show ?thesis by (simp add: mark_skipped_def start_current_node_def)
  qed
  ultimately show ?thesis using skip u by auto
qed auto

theorem skip_loses_no_work_witness:
  "\<exists>q s tr u n. skip_work_tree_nodes sample_env
      (sample_protocol (Some (sample_tree NInProgress NPending NPending ''r'')))
      (lit ''t'') (lit ''run'') [lit ''a''] (lit ''well done'') None False = Inr (q, s, tr)
    \<and> p_work_tree q = Some u \<and> node_by_id u (lit ''a'') = Some n \<and> n_status n = NSkipped"
proof -
  let ?w = "sample_tree NInProgress NPending NPending ''r''"
  have ids: "ordered_ids [lit ''a''] = [lit ''a'']"
    by (simp add: ordered_ids_def dedup_def List.map_filter_simps norm_str_def norm_ok_lit is_space_def)
  have sp: "split_skips ?w False [lit ''a''] = ([], [lit ''a''])"
    by (simp add: sample_unfinished node_terminal_descendant_ids_def sample_descendants)
  have a: "lit ''a'' \<in> tree_ids ?w" by (simp add: sample_tree_def tree_ids_def sample_node_id)
  have root: "wt_root_node_id ?w \<notin> Some ` set (ordered_ids [lit ''a''])"
    by (simp add: ids sample_inputs)
  obtain q s tr where r: "skip_work_tree_nodes sample_env (sample_protocol (Some ?w))
      (lit ''t'') (lit ''run'') [lit ''a''] (lit ''well done'') None False = Inr (q, s, tr)"
    "tr_transition tr = TrSkip"
    by (rule skip_defined [OF sample_inputs(1) sample_tree_wf sample_inputs(2) sample_text _ _ root,
          where e = sample_env and r = "lit ''run''" and stack = None and confirm = False])
      (use ids sp a in auto)
  from skip_loses_no_work [OF r(1) sample_inputs(1) sample_tree_wf sample_inputs(2)] r show ?thesis
    by (auto simp: ids)
qed

text \<open>C11: a delivery completes the current node only when it is time: if the takeover moves to the
  parent or awaits approval, then the current node had no open child and no unfinished descendant,
  every hard gate had passed and the resolution left no blocker; in every other case the
  completed nodes are the ones that were completed before.\<close>

theorem advance_completes_only_ready:
  assumes "advance_takeover_after_delivery e (Some p) t r msg s refs res = Inr (Some q, s', tr)"
    and "p_work_tree p = Some w" "tree_wf w" "norm_ok t" "current_node_of_tree w = Some c"
  shows "pending_child_ids w c = [] \<and> node_unfinished_descendant_ids w (n_id c) = []
      \<and> check_delivery_hard_gates p \<and> (\<forall>x. res = Some x \<longrightarrow> readiness_blockers_of w c x refs = [])
    \<or> tr_transition tr \<notin> {TrBubbleParent, TrAwaitingApproval}
      \<and> (\<exists>u. p_work_tree q = Some u \<and> tree_wf u \<and> (\<forall>j.
           map_option (\<lambda>n. n_status n = NCompleted) (node_by_id u j) =
           map_option (\<lambda>n. n_status n = NCompleted) (node_by_id w j)))"
proof (rule advance_cases [OF assms(1,2,5)])
  fix s2 assume n: "normalize_runtime_state e p t r s = (q, s2)"
    "tr_transition tr \<in> {TrParentOrchestrationRequired, TrResolutionBlocked}"
  obtain i where i: "wt_current_node_id w = Some i" using tree_wf_pointers [OF assms(3)] by metis
  obtain q' s2' v where "normalize_runtime_state e p t r s = (q', Some s2')" and
    v: "p_work_tree q' = Some v" "tree_wf v"
      "\<And>j. node_by_id v j = map_option (start_current_node (now_of e) (wt_status w) i) (node_by_id w j)"
    using normalize_result [OF assms(2,3,4) i, of e r s] by metis
  have "map_option (\<lambda>n. n_status n = NCompleted) (node_by_id v j) =
      map_option (\<lambda>n. n_status n = NCompleted) (node_by_id w j)" for j
    unfolding v(3) by (cases "node_by_id w j") (simp_all add: start_current_node_def)
  with n v \<open>normalize_runtime_state e p t r s = (q', Some s2')\<close> show ?thesis by auto
next
  fix summary assume d: "complete_current_work_node e p t r summary s refs False = Inr (q, s', tr)"
    "check_delivery_hard_gates p" "pending_child_ids w c = []"
    "\<And>x. res = Some x \<Longrightarrow> readiness_blockers_of w c x refs = []"
  with complete_inputs(2) [OF d(1) assms(2,5)] show ?thesis by blast
qed (use assms(2,3) in auto)


theorem advance_completes_only_ready_witness:
  "\<exists>q s tr u. advance_takeover_after_delivery sample_env
      (Some (sample_protocol (Some (sample_tree NInProgress NPending NCompleted ''r''))))
      (lit ''t'') (lit ''run'') (lit ''well done'') None [] None = Inr (Some q, s, tr)
    \<and> tr_transition tr = TrParentOrchestrationRequired
    \<and> p_work_tree q = Some u \<and> map_option (\<lambda>n. n_status n = NCompleted) (node_by_id u (lit ''r'')) = Some False"
proof -
  let ?w = "sample_tree NInProgress NPending NCompleted ''r''"
  let ?n = "sample_node ''r'' None [''a'', ''b''] NInProgress"
  have c: "current_node_of_tree ?w = Some ?n"
    using wf_current_node [OF sample_tree_wf sample_inputs(3)] sample_lookup(1) by (metis option.inject)
  have pend: "pending_child_ids ?w ?n = [lit ''a'']"
    by (simp add: pending_child_ids_def sample_child_ids sample_lookup sample_node_keys(3) terminal_statuses_def)
  have r: "advance_takeover_after_delivery sample_env (Some (sample_protocol (Some ?w)))
      (lit ''t'') (lit ''run'') (lit ''well done'') None [] None =
      Inr (orchestrate_parent sample_env (sample_protocol (Some ?w)) (lit ''t'') (lit ''run'') None ?w ?n [lit ''a''])"
    by (simp add: advance_takeover_after_delivery_def sample_inputs c current_of_protocol pend)
      (simp add: sample_protocol_def)
  then obtain q s tr where o: "advance_takeover_after_delivery sample_env (Some (sample_protocol (Some ?w)))
      (lit ''t'') (lit ''run'') (lit ''well done'') None [] None = Inr (Some q, s, tr)"
    "tr_transition tr = TrParentOrchestrationRequired"
    by (simp add: orchestrate_parent_def plain_transition_def Let_def split: prod.splits)
  obtain u where u: "p_work_tree q = Some u" "\<forall>j. map_option (\<lambda>n. n_status n = NCompleted) (node_by_id u j) =
      map_option (\<lambda>n. n_status n = NCompleted) (node_by_id ?w j)"
    using advance_completes_only_ready [OF o(1) sample_inputs(1) sample_tree_wf sample_inputs(2) c] pend by auto
  from u(2) have "map_option (\<lambda>n. n_status n = NCompleted) (node_by_id u (lit ''r'')) = Some False"
    by (simp only: sample_lookup) (simp add: sample_node_keys(3))
  with o u(1) show ?thesis by blast
qed

lemma reopen_defined:
  assumes "p_work_tree p = Some w" "tree_wf w" "norm_ok t"
    and "resolve_revision_target_node_id w node_id = Some i" "node_by_id w i = Some n"
  obtains q s where "reopen_takeover_work_node_for_revision e p t r node_id reason stack = Inr (q, s)"
proof -
  have "n_id n = i" using node_by_id_Some [OF assms(5)] by simp
  moreover have "wt_current_node_id (reopened_tree e w i reason) = Some i"
    "wt_status (reopened_tree e w i reason) = TActive" by (simp_all add: reopened_tree_def)
  from executing_result [OF reopened_tree_wf [OF assms(2,5), of e reason] assms(3) this, of e p r stack]
  obtain q s where "normalize_runtime_state e (executing_with e p (reopened_tree e w i reason)) t r stack =
    (q, Some s)" by metis
  ultimately show thesis
    using assms(1,4,5) that by (simp add: reopen_takeover_work_node_for_revision_def)
qed

text \<open>Reopening for a revision resolves a node of the tree, makes it the current node in progress
  without failure, of an active tree and an executing protocol, and leaves every other node as
  it was; an approved delivery can thus be taken back.\<close>

theorem reopen_exact:
  assumes "reopen_takeover_work_node_for_revision e p t r node_id reason stack = Inr (q, s)"
    and "p_work_tree p = Some w" "tree_wf w" "norm_ok t"
  shows "\<exists>u i n. resolve_revision_target_node_id w node_id = Some i \<and> i \<in> tree_ids w
    \<and> p_work_tree q = Some u \<and> tree_wf u \<and> wt_current_node_id u = Some i \<and> wt_status u = TActive
    \<and> p_status q = PExecuting \<and> node_by_id u i = Some n \<and> n_status n = NInProgress
    \<and> n_failure_summary n = None \<and> (\<forall>j. j \<noteq> i \<longrightarrow> node_by_id u j = node_by_id w j)"
proof (rule reopen_effect [OF assms])
  fix u i assume u: "resolve_revision_target_node_id w node_id = Some i" "i \<in> tree_ids w"
    "p_work_tree q = Some u" "tree_wf u" "wt_current_node_id u = Some i" "wt_status u = TActive"
    "p_status q = PExecuting"
    and lk: "\<And>j. node_by_id u j = map_option (reopen_node (now_of e) i) (node_by_id w j)"
  obtain n where "node_by_id w i = Some n" "n_id n = i"
    using u(2) node_by_id_None [of w i] node_by_id_Some [of w i] by (cases "node_by_id w i") auto
  with lk [of i] have "\<exists>n. node_by_id u i = Some n \<and> n_status n = NInProgress \<and> n_failure_summary n = None"
    by (simp add: reopen_node_def)
  moreover have "node_by_id u j = node_by_id w j" if "j \<noteq> i" for j
    by (rule edit_elsewhere [OF lk, of "{i}"]) (use that in \<open>auto simp: reopen_node_def\<close>)
  ultimately show ?thesis using u by blast
qed


theorem reopen_exact_witness:
  "\<exists>q s u. reopen_takeover_work_node_for_revision sample_env
      (sample_protocol (Some (sample_tree NCompleted NCompleted NSkipped ''r'')))
      (lit ''t'') (lit ''run'') (Some (lit ''a'')) None None = Inr (q, s)
    \<and> p_work_tree q = Some u \<and> wt_current_node_id u = Some (lit ''a'')
    \<and> node_by_id u (lit ''b'') = Some (sample_node ''b'' (Some ''r'') [] NSkipped)"
proof -
  let ?w = "sample_tree NCompleted NCompleted NSkipped ''r''"
  have i: "resolve_revision_target_node_id ?w (Some (lit ''a'')) = Some (lit ''a'')"
    by (simp add: resolve_revision_target_node_id_def auto_unfinished_revision_node_ids_def Let_def
        norm_ok_lit is_space_def normalize_revision_start_node_id_def)
  obtain q s where r: "reopen_takeover_work_node_for_revision sample_env (sample_protocol (Some ?w))
      (lit ''t'') (lit ''run'') (Some (lit ''a'')) None None = Inr (q, s)"
    by (rule reopen_defined [OF sample_inputs(1) sample_tree_wf sample_inputs(2) i sample_lookup(2)]) auto
  from reopen_exact [OF r sample_inputs(1) sample_tree_wf sample_inputs(2)] r i show ?thesis
    by (auto simp: sample_lookup)
qed

section \<open>Completing up to the root\<close>

text \<open>
  A run that completes the current node over and over, each time confirming what is left below;
  \<open>steps_up w i k\<close> says that \<open>k\<close> parent links lead from \<open>i\<close> to a node without parent.
\<close>

definition parent_in :: "work_tree \<Rightarrow> ustr \<Rightarrow> ustr option" where
  "parent_in w i = Option.bind (node_by_id w i) n_parent_node_id"

fun steps_up :: "work_tree \<Rightarrow> ustr \<Rightarrow> nat \<Rightarrow> bool" where
  "steps_up w i 0 \<longleftrightarrow> parent_in w i = None"
| "steps_up w i (Suc k) \<longleftrightarrow> (case parent_in w i of None \<Rightarrow> False | Some j \<Rightarrow> steps_up w j k)"

primrec complete_rounds :: "env \<Rightarrow> ustr \<Rightarrow> ustr \<Rightarrow> ustr \<Rightarrow> nat \<Rightarrow> takeover_state \<Rightarrow> takeover_state res" where
  "complete_rounds e t r msg 0 x = Inr x"
| "complete_rounds e t r msg (Suc k) x =
     (case complete_current_work_node e (fst x) t r msg (snd x) [] True of
        Inl err \<Rightarrow> Inl err
      | Inr (q, s, tr) \<Rightarrow> complete_rounds e t r msg k (q, s))"

lemma steps_up_cong: "parent_in u = parent_in w \<Longrightarrow> steps_up u i k = steps_up w i k"
  by (induction k arbitrary: i) (auto split: option.splits)

lemma complete_rounds_up:
  assumes "normalize_excerpt (strip msg) 240 \<noteq> []" "norm_ok t"
  shows "p_work_tree p = Some w \<Longrightarrow> tree_wf w \<Longrightarrow> wt_current_node_id w = Some i \<Longrightarrow> steps_up w i k \<Longrightarrow>
    \<exists>q s u. complete_rounds e t r msg (Suc k) (p, stack) = Inr (q, s) \<and> p_work_tree q = Some u
      \<and> tree_wf u \<and> wt_status u = TAwaitingApproval \<and> p_status q = PVerified
      \<and> wt_current_node_id u = wt_root_node_id w"
proof (induction k arbitrary: p w i stack)
  case 0
  then obtain c where c: "node_by_id w i = Some c" "n_id c = i" using wf_current_node by metis
  then have "n_parent_node_id c = None" using 0(4) by (simp add: parent_in_def)
  then obtain q s u tr where "complete_current_work_node e p t r msg stack [] True = Inr (q, Some s, tr)"
    "p_work_tree q = Some u" "tree_wf u" "wt_current_node_id u = wt_root_node_id w"
    "wt_status u = TAwaitingApproval" "p_status q = PVerified"
    using complete_root_result [OF 0(1,2) assms(2) 0(3)[folded c(2)] c(1)[folded c(2)] _ assms(1),
        of True e r stack "[]"] by metis
  then show ?case by auto
next
  case (Suc k)
  then obtain c where c: "node_by_id w i = Some c" "n_id c = i" using wf_current_node by metis
  with Suc.prems(4) obtain pa where pa: "n_parent_node_id c = Some pa" "steps_up w pa k"
    by (auto simp: parent_in_def split: option.splits)
  obtain q s u tr where u: "complete_current_work_node e p t r msg stack [] True = Inr (q, Some s, tr)"
    "p_work_tree q = Some u" "tree_wf u" "wt_current_node_id u = Some pa" "wt_root_node_id u = wt_root_node_id w"
    "\<And>j. node_by_id u j = map_option (start_if_waiting (now_of e) pa \<circ>
       complete_node (now_of e) (n_id c) (finished_with e w (n_id c) True)
         (normalize_excerpt (strip msg) 240) []) (node_by_id w j)"
    using complete_child_result [OF Suc.prems(1,2) assms(2) Suc.prems(3)[folded c(2)] c(1)[folded c(2)] pa(1)
        assms(1), of True e r stack "[]"] by metis
  have "parent_in u j = parent_in w j" for j
    unfolding parent_in_def u(6)
    by (cases "node_by_id w j") (simp_all add: start_if_waiting_def complete_node_def)
  then have "parent_in u = parent_in w" by (rule ext)
  from steps_up_cong [OF this] pa(2) have "steps_up u pa k" by simp
  from Suc.IH [OF u(2-4) this, of "Some s"] u(1,5) show ?case by auto
qed

text \<open>C9: a run that keeps completing its current node, confirming each time, gets through: from a node
  that is \<open>k\<close> parent links below a node without parent it takes exactly \<open>k + 1\<close> completions, none of
  which fails, to reach a verified protocol whose tree awaits approval at its root.\<close>

theorem confirmed_completion_reaches_approval:
  assumes "p_work_tree p = Some w" "tree_wf w" "norm_ok t" "wt_current_node_id w = Some i"
    and "steps_up w i k" "normalize_excerpt (strip msg) 240 \<noteq> []"
  shows "\<exists>q s u. complete_rounds e t r msg (Suc k) (p, stack) = Inr (q, s) \<and> p_work_tree q = Some u
    \<and> tree_wf u \<and> wt_status u = TAwaitingApproval \<and> p_status q = PVerified
    \<and> wt_current_node_id u = wt_root_node_id w"
  by (rule complete_rounds_up [OF assms(6,3,1,2,4,5)])

theorem confirmed_completion_reaches_approval_witness:
  "\<exists>q s u. complete_rounds sample_env (lit ''t'') (lit ''run'') (lit ''well done'') 2
      (sample_protocol (Some (sample_tree NInProgress NInProgress NPending ''a'')), None) = Inr (q, s)
    \<and> p_work_tree q = Some u \<and> wt_status u = TAwaitingApproval"
proof -
  let ?w = "sample_tree NInProgress NInProgress NPending ''a''"
  have "steps_up ?w (lit ''a'') 1"
    by (simp add: parent_in_def sample_lookup sample_node_keys(2))
  from confirmed_completion_reaches_approval [OF sample_inputs(1) sample_tree_wf sample_inputs(2,3) this sample_text,
      of sample_env "lit ''run''" None]
  show ?thesis by (auto simp: numeral_2_eq_2)
qed

section \<open>The witnesses of the machine\<close>


lemma sample_step:
  obtains q s' tr where "machine_progress (lit ''run'')
     (sample_protocol (Some (sample_tree NInProgress NCompleted NPending ''b'')), None) (q, Some s')"
    "complete_current_work_node sample_env (sample_protocol (Some (sample_tree NInProgress NCompleted NPending ''b'')))
      (lit ''t'') (lit ''run'') (lit ''well done'') None [] True = Inr (q, Some s', tr)"
proof -
  obtain q s' tr where "complete_current_work_node sample_env
      (sample_protocol (Some (sample_tree NInProgress NCompleted NPending ''b'')))
      (lit ''t'') (lit ''run'') (lit ''well done'') None [] True = Inr (q, Some s', tr)"
    by (rule complete_defined [OF sample_inputs(1) sample_tree_wf [of "''b''"] sample_inputs(2,3) sample_text,
          where confirm = True and e = sample_env and r = "lit ''run''" and stack = None and refs = "[]"]) auto
  then show thesis
    using that progress_step.complete sample_inputs(2) by (fastforce simp: machine_progress_def)
qed


text \<open>C7: a node that is completed, failed, skipped or superseded stays so through every sequence
  of normalizations, switches, completions, failures, skips, advances, approvals and merges, and
  no node appears, disappears or changes its parent.\<close>

theorem takeover_progress_keeps_terminal:
  assumes "(machine_progress r)\<^sup>*\<^sup>* (p, s) (q, s')" and "p_work_tree p = Some w" and "tree_wf w"
  shows "\<exists>u. p_work_tree q = Some u \<and> tree_ids u = tree_ids w
    \<and> (\<forall>i. Option.bind (node_by_id u i) n_parent_node_id = Option.bind (node_by_id w i) n_parent_node_id)
    \<and> (\<forall>i n. node_by_id w i = Some n \<and> n_status n \<in> terminal_statuses \<longrightarrow>
         (\<exists>m. node_by_id u i = Some m \<and> n_status m \<in> terminal_statuses))"
proof -
  have "good_state (p, s)" using assms(2,3) by (auto simp: good_state_def protocol_wf_def)
  from forward.reachable_below [OF assms(1) this] assms(2) show ?thesis
    by (auto simp: progressed_def same_shape_def terminal_in_def)
qed

theorem takeover_progress_keeps_terminal_witness:
  "\<exists>q s' u m. (machine_progress (lit ''run''))\<^sup>*\<^sup>*
      (sample_protocol (Some (sample_tree NInProgress NCompleted NPending ''b'')), None) (q, s')
    \<and> p_work_tree q = Some u \<and> node_by_id u (lit ''a'') = Some m \<and> n_status m \<in> terminal_statuses"
proof -
  obtain q s' where step: "machine_progress (lit ''run'')
     (sample_protocol (Some (sample_tree NInProgress NCompleted NPending ''b'')), None) (q, Some s')"
    by (rule sample_step)
  have "n_status (sample_node ''a'' (Some ''r'') [] NCompleted) \<in> terminal_statuses"
    by (simp add: sample_node_keys(3) terminal_statuses_def)
  with takeover_progress_keeps_terminal [OF r_into_rtranclp [where r = "machine_progress (lit ''run'')", OF step]
      sample_inputs(1) sample_tree_wf] step
  show ?thesis using sample_lookup(2) by (metis r_into_rtranclp)
qed

section \<open>A child's summary reaches its parent's frame\<close>

definition summaries_of :: "work_context_stack option \<Rightarrow> ustr \<Rightarrow> child_completion_summary list" where
  "summaries_of stack i =
     (case existing_frame stack i of None \<Rightarrow> [] | Some f \<Rightarrow> f_child_completion_summaries f)"

definition good_digest :: "env \<Rightarrow> bool" where
  "good_digest e \<longleftrightarrow> (\<forall>j. norm_ok (dg_of e j))"

lemma path_frames_summaries:
  "\<forall>f\<in>set (path_frames stack p d ns). f_child_completion_summaries f = summaries_of stack (f_node_id f)"
  by (induction ns arbitrary: p d)
     (auto simp: Let_def summaries_of_def blank_frame_def split: option.splits)

lemma climb_parent:
  assumes "node_by_id w i = Some n" "n_parent_node_id n = Some pa" "node_by_id w pa = Some m"
  shows "pa \<in> set (climb w {} i)"
proof (cases "pa = i")
  case True
  with assms(1) show ?thesis by (subst climb.simps) simp
next
  case False
  then have "climb w {i} pa \<noteq> []" using climb_nonempty [OF assms(3)] by blast
  with climb_hd [of w "{i}" pa] have "pa \<in> set (climb w {i} pa)" by (metis list.set_sel(1))
  with assms(1,2) show ?thesis by (subst climb.simps) simp
qed

lemma normalized_frames:
  assumes "p_work_tree p = Some w" "tree_wf w" "norm_ok t" "wt_current_node_id w = Some i"
    and "stack_option_ok stack" "good_digest e"
  obtains q s where "normalize_runtime_state e p t r stack = (q, Some s)" "stack_ok s"
    "f_node_id ` set (s_frames s) = set (work_tree_active_path_node_ids w (Some i))"
    "\<forall>f\<in>set (s_frames s). f_child_completion_summaries f = summaries_of stack (f_node_id f)"
proof -
  obtain c where c: "current_node_of_tree w = Some c" "n_id c = i"
    using wf_current_node [OF assms(2,4)] by metis
  let ?v = "normalized_payload e w t c"
  let ?fs = "path_frames stack None 0 (path_nodes w ?v c)"
  have n: "normalize_runtime_state e p t r stack = (fst (normalize_runtime_state e p t r stack),
      Some (normalized_stack e stack t r ?fs))"
    using normalize_wf [OF assms(1-3) c(1), of e r stack] by (simp add: Let_def)
  have ids: "map n_id (path_nodes w ?v c) = work_tree_active_path_node_ids w (Some i)"
    using path_nodes_ids [OF assms(2) c(1), of e t] c(2) by simp
  note path = active_path_props [OF tree_wf_lookup [OF assms(2) current_node_mem [OF c(1)]]
      norm_ok_nonempty [OF tree_wf_ids [OF assms(2) current_node_mem [OF c(1)]]]]
  have ok: "\<forall>n\<in>set (path_nodes w ?v c). norm_ok (n_id n)"
  proof
    fix n assume "n \<in> set (path_nodes w ?v c)"
    then have "n_id n \<in> set (work_tree_active_path_node_ids w (Some i))"
      unfolding ids [symmetric] by simp
    moreover have "set (work_tree_active_path_node_ids w (Some i)) \<subseteq> tree_ids w"
      using path unfolding c(2) by simp
    ultimately obtain m where "m \<in> set (wt_nodes w)" "n_id n = n_id m" by (auto simp: tree_ids_def)
    then show "norm_ok (n_id n)" using tree_wf_ids [OF assms(2)] by simp
  qed
  have vf: "f_node_id (validate_frame (dg_of e) f) = f_node_id f" if "f \<in> set ?fs" for f
  proof -
    have "f_node_id f \<in> set (map n_id (path_nodes w ?v c))"
      using that path_frames_nodes [of stack None 0 "path_nodes w ?v c"] by (metis image_eqI list.set_map)
    with ok show ?thesis by (auto simp: validate_frame_keys)
  qed
  have "f_node_id ` set (s_frames (normalized_stack e stack t r ?fs)) = f_node_id ` set ?fs"
    using vf by (simp add: image_image)
  also have "\<dots> = set (work_tree_active_path_node_ids w (Some i))"
    using path_frames_nodes [of stack None 0 "path_nodes w ?v c"] ids by (metis list.set_map)
  finally have "f_node_id ` set (s_frames (normalized_stack e stack t r ?fs)) =
      set (work_tree_active_path_node_ids w (Some i))" .
  moreover have "\<forall>f\<in>set (s_frames (normalized_stack e stack t r ?fs)).
      f_child_completion_summaries f = summaries_of stack (f_node_id f)"
    using vf path_frames_summaries [of stack None 0 "path_nodes w ?v c"] by (auto simp: validate_frame_keys)
  moreover have "stack_ok (normalized_stack e stack t r ?fs)"
    using assms(6) unfolding normalized_stack_def good_digest_def by (blast intro: validate_stack_ok)
  ultimately show thesis using that n by blast
qed

lemma update_cursor_frames:
  assumes "stack_ok s"
  shows "s_frames (update_cursor_state e s i c) =
    map (\<lambda>f. if f_node_id f = i then f\<lparr>f_cursor_state := c\<rparr> else f) (s_frames s)"
  using assms
  by (simp add: update_cursor_state_def validate_stack_def Let_def stack_ok_def
      normalize_work_context_frames_payload_def validate_frames_id)

lemma append_summary_ok:
  assumes "stack_ok s" "good_digest e"
  shows "stack_ok (append_child_completion_summary e s i cs)"
    and "s_frames (append_child_completion_summary e s i cs) =
      map (\<lambda>f. if f_node_id f = i
               then f\<lparr>f_child_completion_summaries :=
                       filter (\<lambda>c. cs_child_node_id c \<noteq> cs_child_node_id cs)
                         (f_child_completion_summaries f) @ [cs]\<rparr> else f) (s_frames s)"
  using assms
  by (simp_all add: append_child_completion_summary_def validate_stack_ok good_digest_def)
     (simp add: validate_stack_def Let_def stack_ok_def normalize_work_context_frames_payload_def validate_frames_id)

lemma append_summary_read:
  assumes "stack_ok s" "good_digest e" "i \<in> f_node_id ` set (s_frames s)"
  obtains before where "summaries_of (Some (append_child_completion_summary e s i cs)) i = before @ [cs]"
    "\<forall>c\<in>set before. cs_child_node_id c \<noteq> cs_child_node_id cs"
proof -
  let ?fs = "s_frames (append_child_completion_summary e s i cs)"
  have "map f_node_id ?fs = map f_node_id (s_frames s)"
    by (simp add: append_summary_ok(2) [OF assms(1,2)])
  then have "i \<in> f_node_id ` set ?fs" using assms(3) by (metis list.set_map)
  then obtain f where f: "index_by f_node_id ?fs i = Some f"
    using index_by_None [of f_node_id ?fs i] by (cases "index_by f_node_id ?fs i") auto
  let ?add = "\<lambda>f. f\<lparr>f_child_completion_summaries := filter (\<lambda>c. cs_child_node_id c \<noteq> cs_child_node_id cs)
                      (f_child_completion_summaries f) @ [cs]\<rparr>"
  have "f \<in> (\<lambda>f. if f_node_id f = i then ?add f else f) ` set (s_frames s)" "f_node_id f = i"
    using index_by_Some [OF f] by (simp_all only: append_summary_ok(2) [OF assms(1,2)] set_map)
  then obtain h where "f = (if f_node_id h = i then ?add h else h)" "f_node_id f = i" by blast
  then have g: "f_child_completion_summaries f =
      filter (\<lambda>c. cs_child_node_id c \<noteq> cs_child_node_id cs) (f_child_completion_summaries h) @ [cs]"
    by (cases "f_node_id h = i") auto
  have "summaries_of (Some (append_child_completion_summary e s i cs)) i = f_child_completion_summaries f"
    by (simp add: summaries_of_def existing_frame_def f)
  then show thesis unfolding g by (rule that) simp
qed

lemma complete_parent: "n_parent_node_id (complete_node now i ids summary refs n) = n_parent_node_id n"
  by (simp add: complete_node_def)

lemma switch_frames:
  assumes "switch_current_work_node e p t r i stack cursor = Inr (q, s)"
    and "p_work_tree p = Some w" "tree_wf w" "norm_ok t" "node_by_id w i = Some n"
    and "stack_option_ok stack" "good_digest e"
  shows "\<exists>f\<in>set (s_frames s). f_node_id f = i \<and> f_child_completion_summaries f = summaries_of stack i"
proof -
  let ?v = "settled (switched_tree e w n i)"
  let ?p = "executing_with e p (switched_tree e w n i)"
  have v: "tree_wf ?v" using switched_tree_wf [OF assms(3,5), of e] .
  have pv: "p_work_tree ?p = Some ?v" using executing_with_eq [OF v] by simp
  have cv: "wt_current_node_id ?v = Some i" by (simp add: switched_tree_def)
  obtain q' s' where n: "normalize_runtime_state e ?p t r stack = (q', Some s')" "stack_ok s'"
    "f_node_id ` set (s_frames s') = set (work_tree_active_path_node_ids ?v (Some i))"
    "\<forall>f\<in>set (s_frames s'). f_child_completion_summaries f = summaries_of stack (f_node_id f)"
    using normalized_frames [OF pv v assms(4) cv assms(6,7), of r] by metis
  obtain c where c: "node_by_id ?v i = Some c" using wf_current_node [OF v cv] by metis
  have "i \<noteq> []" using tree_wf_ids [OF v] c node_by_id_Some [OF c] norm_ok_nonempty by metis
  from active_path_props [OF c this] have "i \<in> set (work_tree_active_path_node_ids ?v (Some i))"
    by (metis last_in_set)
  then have "i \<in> f_node_id ` set (s_frames s')" by (simp only: n(3))
  then obtain f where "f \<in> set (s_frames s')" "f_node_id f = i" by blast
  with n(4) have f: "f \<in> set (s_frames s')" "f_node_id f = i" "f_child_completion_summaries f = summaries_of stack i"
    by auto
  have "s = (if cursor = None then s' else update_cursor_state e s' i cursor)"
    using assms(1,2,5) n(1) by (simp add: switch_current_work_node_def)
  moreover have "f\<lparr>f_cursor_state := cursor\<rparr> \<in> set (s_frames (update_cursor_state e s' i cursor))"
    unfolding update_cursor_frames [OF n(2)] using f by (force intro: image_eqI [of _ _ f])
  ultimately show ?thesis
    using f by (cases "cursor = None") (auto intro: bexI [of _ "f\<lparr>f_cursor_state := cursor\<rparr>"])
qed

text \<open>The result of a completed child reaches its parent: after the completion the frame of the
  parent lists the child's summary last, with the evidence and the time of the completion, and
  no older summary of the same child.\<close>

theorem child_summary_reaches_parent:
  assumes "p_work_tree p = Some w" "tree_wf w" "norm_ok t" "wt_current_node_id w = Some i"
    and "node_by_id w i = Some c" "n_parent_node_id c = Some pa"
    and "normalize_excerpt (strip msg) 240 \<noteq> []"
    and "confirm \<or> node_unfinished_descendant_ids w i = []"
    and "stack_option_ok stack" "good_digest e"
  shows "\<exists>q s tr f before. complete_current_work_node e p t r msg stack refs confirm = Inr (q, Some s, tr)
    \<and> f \<in> set (s_frames s) \<and> f_node_id f = pa
    \<and> f_child_completion_summaries f = before @
        [\<lparr>cs_child_node_id = i, cs_completed = True, cs_summary = normalize_excerpt (strip msg) 240,
          cs_summary_type = ExecutionResult, cs_evidence_refs = refs, cs_completed_at = now_of e\<rparr>]
    \<and> (\<forall>b\<in>set before. cs_child_node_id b \<noteq> i)"
proof -
  have c: "n_id c = i" using node_by_id_Some [OF assms(5)] by simp
  let ?x = "normalize_excerpt (strip msg) 240" and ?ids = "finished_with e w i confirm"
  let ?v = "settled (completed_tree e w i ?ids ?x refs)"
  let ?p = "executing_with e p (completed_tree e w i ?ids ?x refs)"
  let ?cs = "\<lparr>cs_child_node_id = i, cs_completed = True, cs_summary = ?x, cs_summary_type = ExecutionResult,
    cs_evidence_refs = refs, cs_completed_at = now_of e\<rparr>"
  obtain q s tr q0 s0 where res: "complete_current_work_node e p t r msg stack refs confirm = Inr (q, Some s, tr)"
    "normalize_runtime_state e ?p t r stack = (q0, Some s0)"
    "switch_current_work_node e q0 t r pa (Some (append_child_completion_summary e s0 pa ?cs))
       (Some (lit ''resume-parent-after-child-completion'')) = Inr (q, s)"
    using complete_child_result [OF assms(1-3) assms(4,5)[folded c] assms(6,7) assms(8)[folded c], of e r stack refs]
    unfolding c by metis
  have v: "tree_wf ?v" by (rule completed_tree_wf [OF assms(2)])
  have pv: "p_work_tree ?p = Some ?v" using executing_with_eq [OF v] by simp
  have cv: "wt_current_node_id ?v = Some i" using assms(4) by (simp add: completed_tree_def)
  obtain q1 s1 where n: "normalize_runtime_state e ?p t r stack = (q1, Some s1)" "stack_ok s1"
    "f_node_id ` set (s_frames s1) = set (work_tree_active_path_node_ids ?v (Some i))"
    using normalized_frames [OF pv v assms(3) cv assms(9,10), of r] by metis
  with res(2) have s0: "stack_ok s0" "f_node_id ` set (s_frames s0) = set (work_tree_active_path_node_ids ?v (Some i))"
    by simp_all
  have lk: "node_by_id ?v j = map_option (complete_node (now_of e) i ?ids ?x refs) (node_by_id w j)" for j
    using safe_edit_lookup [OF complete_node_safe [OF assms(2)], of "completed_tree e w i ?ids ?x refs"]
    by (simp add: completed_tree_def)
  obtain m where m: "node_by_id w pa = Some m"
    using tree_wf_parent [OF assms(2) conjunct1 [OF node_by_id_Some [OF assms(5)]] assms(6)] by blast
  have "pa \<in> set (climb ?v {} i)"
    by (rule climb_parent [of ?v i "complete_node (now_of e) i ?ids ?x refs c" pa
          "complete_node (now_of e) i ?ids ?x refs m"]) (simp_all only: lk assms(5) m option.map complete_parent assms(6))
  moreover have "norm_ok i" using tree_wf_ids [OF assms(2)] node_by_id_Some [OF assms(5)] by auto
  ultimately have pa: "pa \<in> f_node_id ` set (s_frames s0)"
    by (simp add: s0(2) work_tree_active_path_node_ids_def norm_ok_nonempty)
  obtain before where b: "summaries_of (Some (append_child_completion_summary e s0 pa ?cs)) pa = before @ [?cs]"
    "\<forall>d\<in>set before. cs_child_node_id d \<noteq> i"
    using append_summary_read [OF s0(1) assms(10) pa, of ?cs] by auto
  obtain q2 w2 where "q0 = q2" "p_work_tree q2 = Some w2" "tree_wf w2" "tree_ids w2 = tree_ids ?v"
    using normalize_result [OF pv v assms(3) cv, of e r stack] res(2) by (metis prod.inject)
  then have w2: "p_work_tree q0 = Some w2" "tree_wf w2" "pa \<in> tree_ids w2"
    using lk [of pa] m node_by_id_in_ids [of ?v pa] by simp_all
  then obtain m2 where m2: "node_by_id w2 pa = Some m2" using node_by_id_None [of w2 pa] by auto
  have "stack_option_ok (Some (append_child_completion_summary e s0 pa ?cs))"
    using append_summary_ok(1) [OF s0(1) assms(10)] by (simp add: stack_option_ok_def)
  from switch_frames [OF res(3) w2(1,2) assms(3) m2 this assms(10)] res(1) b show ?thesis by auto
qed


theorem child_summary_reaches_parent_witness:
  "\<exists>q s tr f before. complete_current_work_node sample_env
      (sample_protocol (Some (sample_tree NInProgress NInProgress NPending ''a'')))
      (lit ''t'') (lit ''run'') (lit ''well done'') None [] False = Inr (q, Some s, tr)
    \<and> f \<in> set (s_frames s) \<and> f_node_id f = lit ''r''
    \<and> map cs_child_node_id (f_child_completion_summaries f) = before @ [lit ''a'']"
proof -
  let ?w = "sample_tree NInProgress NInProgress NPending ''a''"
  have par: "n_parent_node_id (sample_node ''a'' (Some ''r'') [] NInProgress) = Some (lit ''r'')"
    by (simp add: sample_node_keys(2))
  have u: "False \<or> node_unfinished_descendant_ids ?w (lit ''a'') = []" by (simp add: sample_unfinished)
  have d: "stack_option_ok None" "good_digest sample_env"
    by (simp_all add: stack_option_ok_def good_digest_def sample_digest)
  from child_summary_reaches_parent [OF sample_inputs(1) sample_tree_wf [of "''a''"] sample_inputs(2,3)
      sample_lookup(2) par sample_text u d, of "lit ''run''" "[]"]
  obtain q s tr f before where r: "complete_current_work_node sample_env (sample_protocol (Some ?w))
      (lit ''t'') (lit ''run'') (lit ''well done'') None [] False = Inr (q, Some s, tr)"
    "f \<in> set (s_frames s)" "f_node_id f = lit ''r''"
    "f_child_completion_summaries f = before @
      [\<lparr>cs_child_node_id = lit ''a'', cs_completed = True,
        cs_summary = normalize_excerpt (strip (lit ''well done'')) 240,
        cs_summary_type = ExecutionResult, cs_evidence_refs = [], cs_completed_at = now_of sample_env\<rparr>]"
    by blast
  have "map cs_child_node_id (f_child_completion_summaries f) = map cs_child_node_id before @ [lit ''a'']"
    unfolding r(4) by simp
  with r(1-3) show ?thesis by blast
qed

section \<open>Creating a child and bootstrapping\<close>

text \<open>A new work node is added below an existing one and nothing is lost: it is the only new id,
  its parent is a node of the tree that now lists it as a child and is in progress, every node but
  the parent and the current one is unchanged, and the new node is current exactly when it was
  asked to be activated.\<close>

theorem create_child_extends:
  assumes "create_child_work_node e drawn p t r title ph parent questions goal ev stack act node_id =
      Inr (q, s, child)"
    and "p_work_tree p = Some w" "tree_wf w" "norm_ok t"
    and "opt_or node_id (Some drawn) = Some i" "norm_ok i" "i \<notin> tree_ids w"
    and "norm_ok title" "\<forall>x\<in>set questions. norm_ok x"
  shows "\<exists>u pa m c. child_parent_id p w parent = Some pa \<and> pa \<in> tree_ids w
    \<and> n_id child = i \<and> n_parent_node_id child = Some pa
    \<and> p_work_tree q = Some u \<and> tree_wf u \<and> tree_ids u = insert i (tree_ids w)
    \<and> node_by_id u pa = Some m \<and> i \<in> set (n_child_node_ids m) \<and> n_status m = NInProgress
    \<and> wt_current_node_id u = Some c \<and> (c = i \<longleftrightarrow> act)
    \<and> (\<forall>j\<in>tree_ids w. j \<noteq> pa \<and> j \<noteq> c \<longrightarrow> node_by_id u j = node_by_id w j)"
proof (rule create_effect [OF assms])
  fix u pa c
  assume u: "child_parent_id p w parent = Some pa" "pa \<in> tree_ids w" "n_id child = i"
    "n_parent_node_id child = Some pa" "p_work_tree q = Some u" "tree_wf u"
    "tree_ids u = insert i (tree_ids w)" "wt_current_node_id u = Some c"
    and c: "c = (if act then i else the (wt_current_node_id w))"
    and lk: "\<And>j. node_by_id u j = map_option (start_current_node (now_of e) TActive c)
       (if j = i then Some child else map_option (adopt_child (now_of e) pa i) (node_by_id w j))"
  have act: "c = i \<longleftrightarrow> act" using c tree_wf_pointers [OF assms(3)] assms(7) by force
  obtain n where n: "node_by_id w pa = Some n" "n_id n = pa"
    using u(2) node_by_id_None [of w pa] node_by_id_Some [of w pa] by (cases "node_by_id w pa") auto
  have "pa \<noteq> i" using u(2) assms(7) by auto
  with lk [of pa] n have "\<exists>m. node_by_id u pa = Some m \<and> i \<in> set (n_child_node_ids m) \<and> n_status m = NInProgress"
    by (simp add: adopt_child_def start_current_node_def)
  moreover have "node_by_id u j = node_by_id w j" if "j \<in> tree_ids w" "j \<noteq> pa" "j \<noteq> c" for j
    using that lk [of j] assms(7) node_by_id_Some [of w j]
    by (cases "node_by_id w j") (auto simp: adopt_child_def start_current_node_def)
  ultimately show ?thesis using u act by blast
qed

text \<open>The candidate of a bootstrap and its validation.\<close>

lemma bootstrap_node_keys:
  assumes "norm_ok i" "norm_ok focus"
  shows "node_ok (bootstrap_node now i focus)" "n_id (bootstrap_node now i focus) = i"
    "n_parent_node_id (bootstrap_node now i focus) = None" "n_status (bootstrap_node now i focus) = NInProgress"
    "n_recovery_anchor (bootstrap_node now i focus) = Some (lit ''resume:'' @ i)"
proof -
  show "node_ok (bootstrap_node now i focus)" unfolding bootstrap_node_def
    by (rule validate_node_ok) (use assms in \<open>simp_all add: new_node_def norm_list_ok_def\<close>)
qed (use assms in \<open>simp_all add: bootstrap_node_def new_node_def norm_ok_append norm_ok_def is_space_def\<close>)

lemma bootstrap_protocol_wf:
  assumes "norm_ok t" "norm_ok i" "norm_ok focus" "norm_ok objective" "norm_ok (sid_of e ''worktree'' [t, i])"
  obtains w where "p_work_tree (bootstrap_protocol e t objective i focus) = Some w" "tree_wf w"
    "wt_current_node_id w = Some i" "wt_root_node_id w = Some i" "wt_status w = TActive"
    "wt_nodes w = [bootstrap_node (now_of e) i focus]"
    "p_status (bootstrap_protocol e t objective i focus) = PExecuting"
proof -
  let ?w = "\<lparr>wt_version = lit ''0.2.0'', wt_id = sid_of e ''worktree'' [t, i],
            wt_task_id = Some t, wt_root_node_id = Some i, wt_root_objective = objective,
            wt_status = TActive, wt_current_node_id = Some i,
            wt_nodes = [bootstrap_node (now_of e) i focus],
            wt_loaded_node_ids = [i], wt_active_path_node_ids = [i],
            wt_index_map_refs = [], wt_pc_memo = Some (lit ''continue:'' @ i),
            wt_recovery_anchor = Some (lit ''resume:'' @ i),
            wt_entropy_budget_remaining = 0, wt_version_counter = 1,
            wt_updated_at = now_of e\<rparr>"
  have pre: "norm_ok (lit ''continue:'' @ i)" "norm_ok (lit ''resume:'' @ i)"
    using assms(2) by (simp_all add: norm_ok_append norm_ok_def is_space_def)
  have "settled ?w = ?w" using pre by (simp add: settled_def settled_anchor_def)
  moreover have twf: "tree_wf ?w"
    using assms pre bootstrap_node_keys [OF assms(2,3), of "now_of e"]
    by (simp add: tree_wf_def tree_ok_def fields_ok_def tree_ids_def norm_list_ok_def settled_anchor_def)
  ultimately have w: "tree_wf (settled ?w)" "settled ?w = ?w" by simp_all
  then have vt: "validate_tree (dg_of e) (now_of e) ?w = ?w" using validate_tree_settled by simp
  have o: "str_or objective focus = objective" using norm_ok_nonempty [OF assms(4)] by (simp add: str_or_def)
  show thesis
  proof (rule that)
    show "p_work_tree (bootstrap_protocol e t objective i focus) = Some ?w"
      unfolding bootstrap_protocol_def Let_def o vt
      by (subst validate_protocol_settled [where w = ?w]) (simp_all add: w(2) twf)
    show "p_status (bootstrap_protocol e t objective i focus) = PExecuting"
      unfolding bootstrap_protocol_def Let_def o vt
      by (subst validate_protocol_settled [where w = ?w]) (simp_all add: w(2) twf)
    show "tree_wf ?w" by (rule twf)
  qed simp_all
qed

text \<open>A takeover can be bootstrapped for any single work node: the result is a well-formed protocol
  in execution whose tree is that node, in progress, as root and current node, with the stack
  of that node's frame.\<close>

theorem bootstrap_starts_wf:
  assumes "norm_ok t" "norm_ok i" "norm_ok objective" "norm_ok (sid_of e ''worktree'' [t, i])" "good_digest e"
  shows "\<exists>q s u n. bootstrap_takeover_state_for_work_node e t r objective i focus = Inr (q, s)
    \<and> p_work_tree q = Some u \<and> tree_wf u \<and> p_status q = PExecuting \<and> wt_status u = TActive
    \<and> wt_root_node_id u = Some i \<and> wt_current_node_id u = Some i \<and> tree_ids u = {i}
    \<and> node_by_id u i = Some n \<and> n_status n = NInProgress \<and> n_parent_node_id n = None
    \<and> f_node_id ` set (s_frames s) = {i}"
proof -
  define f where "f = str_or (normalize_excerpt (case opt_or focus (Some (str_or objective i)) of
      None \<Rightarrow> [] | Some f \<Rightarrow> f) 160) i"
  define p where "p = bootstrap_protocol e t objective i f"
  have f: "norm_ok f" unfolding f_def
    using norm_ok_compact [OF normalize_excerpt_compact] assms(2) by (simp add: str_or_def)
  obtain w where w: "p_work_tree p = Some w" "tree_wf w"
    "wt_current_node_id w = Some i" "wt_root_node_id w = Some i" "wt_status w = TActive"
    "wt_nodes w = [bootstrap_node (now_of e) i f]" "p_status p = PExecuting"
    unfolding p_def using bootstrap_protocol_wf [OF assms(1,2) f assms(3,4)] by metis
  note keys = bootstrap_node_keys [OF assms(2) f]
  have n: "node_by_id w i = Some (bootstrap_node (now_of e) i f)"
    by (simp add: node_by_id_def index_by_def w(6) keys)
  have ids: "tree_ids w = {i}" by (simp add: tree_ids_def w(6) keys)
  obtain q s v where q: "normalize_runtime_state e p t r None = (q, Some s)" "p_work_tree q = Some v"
    "tree_wf v" "wt_current_node_id v = Some i" "wt_root_node_id v = Some i"
    "tree_ids v = {i}" "wt_status v = TActive"
    "p_status q = protocol_status_from_work_tree_status TActive PExecuting"
    "\<And>j. node_by_id v j = map_option (start_current_node (now_of e) TActive i) (node_by_id w j)"
    by (rule normalize_result [OF w(1,2) assms(1) w(3), of e r None]) (simp add: w ids)
  have m: "node_by_id v i = Some (bootstrap_node (now_of e) i f)"
    using q(9) [of i] n by (simp add: start_current_node_def keys)
  have none: "stack_option_ok None" by (simp add: stack_option_ok_def)
  obtain q1 s1 where s1: "normalize_runtime_state e p t r None = (q1, Some s1)" "stack_ok s1"
    "f_node_id ` set (s_frames s1) = set (work_tree_active_path_node_ids w (Some i))"
    using normalized_frames [OF w(1,2) assms(1) w(3) none assms(5), of r] by metis
  have "climb w {} i = [i]" using n by (subst climb.simps) (simp add: keys)
  then have "f_node_id ` set (s_frames s) = {i}"
    using s1 q(1) assms(2) by (simp add: work_tree_active_path_node_ids_def norm_ok_nonempty)
  moreover have "map f_node_id (s_frames (update_cursor_state e s i c)) = map f_node_id (s_frames s)" for c
    using s1 q(1) by (simp add: update_cursor_frames)
  ultimately have "f_node_id ` set (s_frames (update_cursor_state e s i c)) = {i}" for c
    by (metis list.set_map)
  moreover have "bootstrap_takeover_state_for_work_node e t r objective i focus =
      Inr (q, update_cursor_state e s i (Some (normalize_excerpt (lit ''await-child:'' @ i) 96)))"
    unfolding bootstrap_takeover_state_for_work_node_def f_def [symmetric] Let_def p_def [symmetric] q(1) by simp
  ultimately show ?thesis
    using q m keys by (auto simp: protocol_status_from_work_tree_status_def)
qed


theorem bootstrap_starts_wf_witness:
  "\<exists>q s u. bootstrap_takeover_state_for_work_node sample_env (lit ''t'') (lit ''run'') (lit ''o'') (lit ''n'') None =
      Inr (q, s) \<and> p_work_tree q = Some u \<and> tree_wf u \<and> wt_current_node_id u = Some (lit ''n'')"
proof -
  have ok: "norm_ok (lit ''t'')" "norm_ok (lit ''n'')" "norm_ok (lit ''o'')"
    by (simp_all add: norm_ok_lit is_space_def)
  moreover have "norm_ok (sid_of sample_env ''worktree'' [lit ''t'', lit ''n''])"
    by (simp add: sample_env_def) (simp add: norm_ok_def lit_def is_space_def)
  moreover have "good_digest sample_env" by (simp add: good_digest_def sample_digest)
  ultimately show ?thesis
    using bootstrap_starts_wf [of "lit ''t''" "lit ''n''" "lit ''o''" sample_env "lit ''run''" None] by blast
qed

theorem create_child_extends_witness:
  "\<exists>q s child u. create_child_work_node sample_env (lit ''c'')
      (sample_protocol (Some (sample_tree NInProgress NPending NPending ''a''))) (lit ''t'') (lit ''run'')
      (lit ''new'') Executing (Some (lit ''b'')) [] None [] None True None = Inr (q, s, child)
    \<and> p_work_tree q = Some u \<and> wt_current_node_id u = Some (lit ''c'')
    \<and> n_parent_node_id child = Some (lit ''b'')"
proof -
  let ?w = "sample_tree NInProgress NPending NPending ''a''"
  let ?p = "sample_protocol (Some ?w)"
  have ok: "norm_ok (lit ''c'')" "norm_ok (lit ''new'')" "norm_ok (lit ''b'')"
    by (simp_all add: norm_ok_lit is_space_def)
  have c: "lit ''c'' \<notin> tree_ids ?w" by (simp add: tree_ids_def sample_tree_def sample_node_id)
  have pid: "child_parent_id ?p ?w (Some (lit ''b'')) = Some (lit ''b'')" by (simp add: child_parent_id_def)
  have i: "opt_or None (Some (lit ''c'')) = Some (lit ''c'')" by (simp add: ok)
  have qs: "\<forall>x\<in>set []. norm_ok x" by simp
  obtain q s child u where r: "create_child_work_node sample_env (lit ''c'') ?p (lit ''t'') (lit ''run'')
      (lit ''new'') Executing (Some (lit ''b'')) [] None [] None True None = Inr (q, s, child)"
    by (rule create_result [OF sample_inputs(1) sample_tree_wf [of "''a''"] sample_inputs(2) i ok(1) c ok(2) qs
          pid sample_lookup(3), where e = sample_env and r = "lit ''run''" and ph = Executing and goal = None
          and ev = "[]" and stack = None and act = True]) auto
  from create_child_extends [OF r sample_inputs(1) sample_tree_wf [of "''a''"] sample_inputs(2) i ok(1) c ok(2) qs]
  obtain u c where u: "n_parent_node_id child = Some (lit ''b'')" "p_work_tree q = Some u"
    "wt_current_node_id u = Some c" "(c = lit ''c'') = True"
    by (auto simp: pid)
  from u(4) have "c = lit ''c''" by simp
  with r u(1-3) show ?thesis by blast
qed

end
