(* ===== verification/Tables.thy ===== *)
theory Tables
  imports Prelude
begin

text \<open>
  The tables behind the repositories of \<open>persistence/repositories\<close>: a table is the list of its
  rows in insertion order, a row is a record with a primary key. \<open>find_row\<close> is
  \<open>session.get\<close>, \<open>add_row\<close> is \<open>session.add\<close> with the flush that checks the primary key,
  \<open>edit_row\<close> is the assignment to the attributes of a loaded row. The theory also holds the
  contract of a table from which consumers claim rows.
\<close>

section \<open>Rows by key\<close>

definition find_row :: "('r \<Rightarrow> ustr) \<Rightarrow> 'r list \<Rightarrow> ustr \<Rightarrow> 'r option" where
  "find_row key rows i = find (\<lambda>r. key r = i) rows"

definition row_keys :: "('r \<Rightarrow> ustr) \<Rightarrow> 'r list \<Rightarrow> ustr set" where
  "row_keys key rows = key ` set rows"

definition add_row :: "('r \<Rightarrow> ustr) \<Rightarrow> 'r \<Rightarrow> 'r list \<Rightarrow> 'r list res" where
  "add_row key r rows =
     (if key r \<in> row_keys key rows then Inl (IntegrityError (key r)) else Inr (rows @ [r]))"

definition edit_row :: "('r \<Rightarrow> ustr) \<Rightarrow> ustr \<Rightarrow> ('r \<Rightarrow> 'r) \<Rightarrow> 'r list \<Rightarrow> 'r list" where
  "edit_row key i f rows = map (\<lambda>r. if key r = i then f r else r) rows"

definition table_ok :: "('r \<Rightarrow> ustr) \<Rightarrow> 'r list \<Rightarrow> bool" where
  "table_ok key rows \<longleftrightarrow> distinct (map key rows)"

named_theorems table_simps \<open>lookups after insertions and edits\<close>

lemma find_row_None: "find_row key rows i = None \<longleftrightarrow> i \<notin> row_keys key rows"
  by (auto simp: find_row_def row_keys_def find_None_iff)

lemma find_row_Some: "find_row key rows i = Some r \<Longrightarrow> r \<in> set rows \<and> key r = i"
  by (auto simp: find_row_def find_Some_iff)

lemma find_row_mem: "table_ok key rows \<Longrightarrow> r \<in> set rows \<Longrightarrow> find_row key rows (key r) = Some r"
  unfolding find_row_def table_ok_def by (induction rows) auto

lemma find_row_iff: "table_ok key rows \<Longrightarrow> find_row key rows i = Some r \<longleftrightarrow> r \<in> set rows \<and> key r = i"
  using find_row_Some find_row_mem by metis

lemma add_row_Inr [table_simps]:
  "add_row key r rows = Inr rows' \<longleftrightarrow> key r \<notin> row_keys key rows \<and> rows' = rows @ [r]"
  by (auto simp: add_row_def)

lemma find_row_append [table_simps]:
  "key r \<notin> row_keys key rows \<Longrightarrow>
     find_row key (rows @ [r]) i = (if i = key r then Some r else find_row key rows i)"
  unfolding find_row_def row_keys_def by (induction rows) auto

lemma keys_append [table_simps]: "row_keys key (rows @ [r]) = insert (key r) (row_keys key rows)"
  by (simp add: row_keys_def)

lemma table_ok_append [table_simps]:
  "table_ok key (rows @ [r]) \<longleftrightarrow> table_ok key rows \<and> key r \<notin> row_keys key rows"
  by (auto simp: table_ok_def row_keys_def)

text \<open>An edit that keeps the key of every row.\<close>

definition keeps :: "('r \<Rightarrow> ustr) \<Rightarrow> ('r \<Rightarrow> 'r) \<Rightarrow> bool" where
  "keeps key f \<longleftrightarrow> (\<forall>r. key (f r) = key r)"

lemma edit_row_cong: "(\<And>r. r \<in> set rows \<Longrightarrow> key r = i \<Longrightarrow> f r = g r) \<Longrightarrow> edit_row key i f rows = edit_row key i g rows"
  by (auto simp: edit_row_def)

lemma edit_row_map: "keeps key f \<Longrightarrow> map key (edit_row key i f rows) = map key rows"
  by (simp add: edit_row_def keeps_def comp_def)

lemma edit_row_keys [table_simps]: "keeps key f \<Longrightarrow> row_keys key (edit_row key i f rows) = row_keys key rows"
  using edit_row_map [of key f i rows] unfolding row_keys_def by (metis list.set_map)

lemma table_ok_edit [table_simps]: "keeps key f \<Longrightarrow> table_ok key (edit_row key i f rows) = table_ok key rows"
  by (simp add: table_ok_def edit_row_map)

lemma find_row_edit [table_simps]:
  "keeps key f \<Longrightarrow>
     find_row key (edit_row key i f rows) j =
       (if j = i then map_option f (find_row key rows i) else find_row key rows j)"
  unfolding find_row_def edit_row_def keeps_def by (induction rows) auto

lemma map_edit: "(\<And>r. g (f r) = g r) \<Longrightarrow> map g (edit_row key i f rows) = map g rows"
  by (simp add: edit_row_def)

lemma set_edit: "set (edit_row key i f rows) = (\<lambda>r. if key r = i then f r else r) ` set rows"
  by (simp add: edit_row_def)

lemma map_where_find:
  "(\<And>r. key (f r) = key r) \<Longrightarrow> find_row key (map f rows) i = map_option f (find_row key rows i)"
  unfolding find_row_def by (induction rows) auto

section \<open>The order of a queue\<close>

text \<open>Queries order by creation time, ties by id: the key is a linear order.\<close>

datatype queue_key = QueueKey (qk_created: nat) (qk_id: ustr)

fun id_le :: "ustr \<Rightarrow> ustr \<Rightarrow> bool" where
  "id_le [] t = True"
| "id_le (c # s) [] = False"
| "id_le (c # s) (d # t) = (c < d \<or> c = d \<and> id_le s t)"

lemma id_le_refl [simp]: "id_le s s"
  by (induction s) auto

lemma id_le_trans: "id_le s t \<Longrightarrow> id_le t u \<Longrightarrow> id_le s u"
proof (induction s t arbitrary: u rule: id_le.induct)
  case (3 c s d t)
  then show ?case by (cases u) auto
qed auto

lemma id_le_antisym: "id_le s t \<Longrightarrow> id_le t s \<Longrightarrow> s = t"
proof (induction s t rule: id_le.induct)
  case (1 t)
  then show ?case by (cases t) auto
qed auto

lemma id_le_linear: "id_le s t \<or> id_le t s"
  by (induction s t rule: id_le.induct) auto

instantiation queue_key :: linorder
begin

definition less_eq_queue_key :: "queue_key \<Rightarrow> queue_key \<Rightarrow> bool" where
  "less_eq_queue_key x y \<longleftrightarrow>
     qk_created x < qk_created y \<or> qk_created x = qk_created y \<and> id_le (qk_id x) (qk_id y)"

definition less_queue_key :: "queue_key \<Rightarrow> queue_key \<Rightarrow> bool" where
  "less_queue_key x y \<longleftrightarrow> x \<le> y \<and> \<not> y \<le> x"

instance
proof
  fix x y z :: queue_key
  show "x < y \<longleftrightarrow> x \<le> y \<and> \<not> y \<le> x" by (rule less_queue_key_def)
  show "x \<le> x" by (simp add: less_eq_queue_key_def)
  show "x \<le> y \<Longrightarrow> y \<le> z \<Longrightarrow> x \<le> z"
    unfolding less_eq_queue_key_def using id_le_trans by fastforce
  show "x \<le> y \<Longrightarrow> y \<le> x \<Longrightarrow> x = y"
    unfolding less_eq_queue_key_def using id_le_antisym by (cases x; cases y) auto
  show "x \<le> y \<or> y \<le> x"
    unfolding less_eq_queue_key_def using id_le_linear by fastforce
qed

end

section \<open>Claiming\<close>

text \<open>
  Consumers claim rows of a shared table one after the other. \<open>claim_all\<close> runs a list of
  claims and returns what each of them got.
\<close>

primrec claim_all :: "('c \<Rightarrow> 'q \<Rightarrow> 'q \<times> ustr list) \<Rightarrow> 'c list \<Rightarrow> 'q \<Rightarrow> 'q \<times> ustr list list" where
  "claim_all claim [] q = (q, [])"
| "claim_all claim (c # cs) q =
     (let (q1, got) = claim c q; (q2, rest) = claim_all claim cs q1 in (q2, got # rest))"

text \<open>The contract: a claim hands out rows that are free, each once, and they are free no more.\<close>

locale claim_queue =
  fixes free :: "'q \<Rightarrow> ustr set" and claim :: "'c \<Rightarrow> 'q \<Rightarrow> 'q \<times> ustr list" and ok :: "'q \<Rightarrow> bool"
  assumes claimed_free: "ok q \<Longrightarrow> claim c q = (q', got) \<Longrightarrow> set got \<subseteq> free q"
    and claimed_once: "ok q \<Longrightarrow> claim c q = (q', got) \<Longrightarrow> distinct got"
    and claim_takes: "ok q \<Longrightarrow> claim c q = (q', got) \<Longrightarrow> free q' = free q - set got"
    and claim_ok: "ok q \<Longrightarrow> claim c q = (q', got) \<Longrightarrow> ok q'"
begin

lemma claims_disjoint:
  "ok q \<Longrightarrow> claim_all claim cs q = (q', gots) \<Longrightarrow>
     distinct (concat gots) \<and> set (concat gots) \<subseteq> free q \<and> free q' = free q - set (concat gots) \<and> ok q'"
proof (induction cs arbitrary: q q' gots)
  case (Cons c cs)
  obtain q1 got where c: "claim c q = (q1, got)" by fastforce
  obtain rest where r: "claim_all claim cs q1 = (q', rest)" and g: "gots = got # rest"
    using Cons.prems(2) c by (auto split: prod.splits)
  note law = claimed_free [OF Cons.prems(1) c] claimed_once [OF Cons.prems(1) c]
    claim_takes [OF Cons.prems(1) c] claim_ok [OF Cons.prems(1) c]
  from Cons.IH [OF law(4) r] law(1-3) show ?case unfolding g by auto
qed simp

end

text \<open>A queue of finitely many rows whose claims take something whenever something is free.\<close>

locale live_queue = claim_queue +
  assumes finite_free: "ok q \<Longrightarrow> finite (free q)"
    and claim_some: "ok q \<Longrightarrow> free q \<noteq> {} \<Longrightarrow> claim c q = (q', got) \<Longrightarrow> got \<noteq> []"
begin

lemma claims_drain:
  "ok q \<Longrightarrow> card (free q) \<le> length cs \<Longrightarrow> claim_all claim cs q = (q', gots) \<Longrightarrow>
     free q' = {} \<and> set (concat gots) = free q"
proof (induction cs arbitrary: q q' gots)
  case Nil
  then show ?case using finite_free by auto
next
  case (Cons c cs)
  obtain q1 got where c: "claim c q = (q1, got)" by fastforce
  obtain rest where r: "claim_all claim cs q1 = (q', rest)" and g: "gots = got # rest"
    using Cons.prems(3) c by (auto split: prod.splits)
  note law = claimed_free [OF Cons.prems(1) c] claim_takes [OF Cons.prems(1) c] claim_ok [OF Cons.prems(1) c]
  have "card (free q1) \<le> length cs"
  proof (cases "free q = {}")
    case False
    then have "got \<noteq> []" using claim_some [OF Cons.prems(1) _ c] by blast
    then have "free q1 \<subset> free q" using law(1,2) by (cases got) auto
    then have "card (free q1) < card (free q)" using finite_free [OF Cons.prems(1)] by (rule psubset_card_mono [rotated])
    with Cons.prems(2) show ?thesis by simp
  qed (use law in simp)
  from Cons.IH [OF law(3) this r] law(1,2) show ?case unfolding g by auto
qed

end

end
