(* ===== verification/WorkQueue.thy ===== *)
theory WorkQueue
  imports Contracts Tables
begin

text \<open>
  The runtime work queue: the rows of \<open>runtime_work_items\<close> with the operations of
  \<open>TaskRepository\<close> (\<open>persistence/repositories/task.py\<close>) and the worker loop of
  \<open>services/worker/src/yggdrasil_worker/registry.py\<close> that claims a row, runs its activity and
  settles the row by the activity's result.

  The payload dictionary is a record of the keys the code reads, \<open>None\<close> for an absent key or
  null, and \<open>wp_body\<close> for the rest. Lists of rows are in insertion order. The clock and the
  random id of \<open>new_id\<close> are arguments. An operation is one step: the sessions of the code run one
  transaction each, and the model takes these transactions as serialized by the database.
\<close>

section \<open>Work items\<close>

datatype work_item_status = WQueued | WLeased | WCompleted | WFailed | WCancelled | WReclaimable

record work_payload =
  wp_work_item_id :: "ustr option"
  wp_task_id :: "ustr option"
  wp_activity :: "ustr option"
  wp_intent :: "ustr option"
  wp_command :: "ustr option"
  wp_attempt :: "int option"
  wp_body :: json

record work_item =
  wi_id :: ustr
  wi_queue :: ustr
  wi_task_id :: "ustr option"
  wi_activity :: ustr
  wi_intent :: ustr
  wi_payload :: work_payload
  wi_status :: work_item_status
  wi_lease_owner :: "ustr option"
  wi_lease_until :: "nat option"
  wi_attempt :: int
  wi_last_error :: "ustr option"
  wi_created_at :: nat
  wi_updated_at :: nat
  wi_completed_at :: "nat option"

text \<open>\<open>str(v or d)\<close> and \<open>int(v or d)\<close> on an optional value.\<close>

definition text_or :: "ustr option \<Rightarrow> ustr \<Rightarrow> ustr" where
  "text_or v d = (case v of None \<Rightarrow> d | Some s \<Rightarrow> if s = [] then d else s)"

definition int_or :: "int option \<Rightarrow> int \<Rightarrow> int" where
  "int_or v d = (case v of None \<Rightarrow> d | Some n \<Rightarrow> if n = 0 then d else n)"

definition create_work_item ::
  "nat \<Rightarrow> ustr \<Rightarrow> ustr \<Rightarrow> work_payload \<Rightarrow> work_item list \<Rightarrow> (work_item list \<times> work_item) res" where
  "create_work_item now fresh queue payload items =
     (let item =
        \<lparr>wi_id = text_or (wp_work_item_id payload) fresh, wi_queue = queue,
         wi_task_id = wp_task_id payload,
         wi_activity = text_or (wp_activity payload) (lit ''core.agent.main.execute''),
         wi_intent = text_or (wp_intent payload) (text_or (wp_command payload) (lit ''start'')),
         wi_payload = payload, wi_status = WQueued, wi_lease_owner = None, wi_lease_until = None,
         wi_attempt = max (int_or (wp_attempt payload) 1) 1, wi_last_error = None,
         wi_created_at = now, wi_updated_at = now, wi_completed_at = None\<rparr>
      in map_sum id (\<lambda>rows. (rows, item)) (add_row wi_id item items))"

definition get_work_item :: "ustr \<Rightarrow> work_item list \<Rightarrow> work_item option" where
  "get_work_item i items = find_row wi_id items i"

text \<open>The \<open>where\<close> and the \<open>order_by\<close> of the claim, and the edit of the claimed row.\<close>

definition claimable :: "ustr \<Rightarrow> nat \<Rightarrow> work_item \<Rightarrow> bool" where
  "claimable queue now r \<longleftrightarrow>
     wi_queue r = queue \<and> wi_status r \<in> {WQueued, WReclaimable, WLeased}
     \<and> (case wi_lease_until r of None \<Rightarrow> True | Some t \<Rightarrow> t \<le> now)"

definition claim_order :: "work_item \<Rightarrow> queue_key" where
  "claim_order r = QueueKey (wi_created_at r) (wi_id r)"

definition lease_item :: "nat \<Rightarrow> ustr \<Rightarrow> nat \<Rightarrow> work_item \<Rightarrow> work_item" where
  "lease_item now owner until r =
     r\<lparr>wi_attempt := (if wi_status r \<in> {WLeased, WReclaimable} \<or> wi_lease_until r \<noteq> None
                     then wi_attempt r + 1 else wi_attempt r),
       wi_status := WLeased, wi_lease_owner := Some owner, wi_lease_until := Some until,
       wi_updated_at := now\<rparr>"

definition claim_work_item ::
  "nat \<Rightarrow> ustr \<Rightarrow> ustr \<Rightarrow> nat \<Rightarrow> work_item list \<Rightarrow> work_item list \<times> work_item option" where
  "claim_work_item now queue owner until items =
     (case sort_key claim_order (filter (claimable queue now) items) of
        [] \<Rightarrow> (items, None)
      | r # _ \<Rightarrow> (edit_row wi_id (wi_id r) (lease_item now owner until) items,
                  Some (lease_item now owner until r)))"

definition edit_work_item ::
  "ustr \<Rightarrow> (work_item \<Rightarrow> work_item) \<Rightarrow> work_item list \<Rightarrow> (work_item list \<times> work_item) res" where
  "edit_work_item i f items =
     (case find_row wi_id items i of
        None \<Rightarrow> Inl (KeyError (lit ''Work item '' @ i @ lit '' not found.''))
      | Some r \<Rightarrow> Inr (edit_row wi_id i f items, f r))"

definition update_work_item ::
  "nat \<Rightarrow> ustr \<Rightarrow> work_item_status \<Rightarrow> ustr option \<Rightarrow> nat option \<Rightarrow> work_item list
     \<Rightarrow> (work_item list \<times> work_item) res" where
  "update_work_item now i status last_error completed_at items =
     edit_work_item i (\<lambda>r. r\<lparr>wi_status := status, wi_last_error := last_error, wi_updated_at := now,
                             wi_completed_at := completed_at\<rparr>) items"

definition release_work_item_for_reclaim ::
  "nat \<Rightarrow> ustr \<Rightarrow> ustr option \<Rightarrow> work_item list \<Rightarrow> (work_item list \<times> work_item) res" where
  "release_work_item_for_reclaim now i last_error items =
     edit_work_item i (\<lambda>r. r\<lparr>wi_status := WReclaimable, wi_last_error := last_error,
                             wi_lease_owner := None, wi_lease_until := None,
                             wi_updated_at := now\<rparr>) items"

definition cancellable :: "ustr \<Rightarrow> ustr option \<Rightarrow> work_item \<Rightarrow> bool" where
  "cancellable task_id intent r \<longleftrightarrow>
     wi_task_id r = Some task_id \<and> wi_status r \<in> {WQueued, WReclaimable}
     \<and> (intent = None \<or> intent = Some (wi_intent r))"

definition cancel_queued_work_items ::
  "nat \<Rightarrow> ustr \<Rightarrow> ustr option \<Rightarrow> ustr option \<Rightarrow> work_item list \<Rightarrow> work_item list \<times> nat" where
  "cancel_queued_work_items now task_id intent reason items =
     (map (\<lambda>r. if cancellable task_id intent r
               then r\<lparr>wi_status := WCancelled, wi_last_error := reason, wi_updated_at := now,
                      wi_completed_at := Some now\<rparr> else r) items,
      length (filter (cancellable task_id intent) items))"

section \<open>The worker\<close>

text \<open>What an activity returns; the keys the worker reads.\<close>

record work_result =
  rs_status :: ustr
  rs_retryable :: bool
  rs_detail :: "ustr option"

definition dispatch_work_item ::
  "(work_payload \<Rightarrow> work_result) \<Rightarrow> (work_payload \<Rightarrow> work_result) \<Rightarrow> work_payload \<Rightarrow> work_result" where
  "dispatch_work_item main sub payload =
     (let activity = text_or (wp_activity payload) []
      in if activity = lit ''core.agent.main.execute'' then main payload
         else if activity = lit ''core.agent.subagent.execute'' then sub payload
         else \<lparr>rs_status = lit ''ignored'', rs_retryable = False,
               rs_detail = Some (lit ''Unsupported activity: '' @ activity)\<rparr>)"

text \<open>
  \<open>pop_work_item\<close>: claim, and after an empty claim with a timeout wait on the wake-up queue and
  claim again, at \<open>later\<close>, with the lease computed at the start.
\<close>

definition popped_payload :: "work_item \<Rightarrow> work_payload" where
  "popped_payload r = (wi_payload r)\<lparr>wp_work_item_id := Some (wi_id r), wp_attempt := Some (wi_attempt r)\<rparr>"

definition pop_work_item ::
  "nat \<Rightarrow> nat \<Rightarrow> int option \<Rightarrow> ustr \<Rightarrow> ustr \<Rightarrow> bool \<Rightarrow> work_item list
     \<Rightarrow> work_item list \<times> work_item option" where
  "pop_work_item now later lease_seconds queue owner wait items =
     (let until = now + nat (max (int_or lease_seconds 120) 30)
      in case claim_work_item now queue owner until items of
           (items', Some r) \<Rightarrow> (items', Some r)
         | (items', None) \<Rightarrow>
             if wait then claim_work_item later queue owner until items' else (items', None))"

datatype worker_outcome = Empty | Requeued | Retried | Processed | WorkerError

definition retry_error :: "work_result \<Rightarrow> ustr" where
  "retry_error result = text_or (rs_detail result) (str_or (rs_status result) (lit ''failed''))"

definition max_retry_attempts :: "int option \<Rightarrow> int" where
  "max_retry_attempts setting = max (int_or setting 2) 0"

definition should_retry :: "int \<Rightarrow> bool \<Rightarrow> int \<Rightarrow> work_result \<Rightarrow> bool" where
  "should_retry max_retry activity_retryable attempt result \<longleftrightarrow>
     rs_status result = lit ''failed'' \<and> rs_retryable result \<and> activity_retryable
     \<and> attempt \<le> max_retry"

text \<open>The tail of \<open>run_worker_once\<close>, after the activity has returned; \<open>fresh\<close> is the id of a
  re-enqueued payload without a work-item id.\<close>

definition settle_work_item ::
  "nat \<Rightarrow> ustr \<Rightarrow> int \<Rightarrow> bool \<Rightarrow> ustr \<Rightarrow> work_payload \<Rightarrow> work_result \<Rightarrow> work_item list
     \<Rightarrow> (work_item list \<times> worker_outcome) res" where
  "settle_work_item now fresh max_retry activity_retryable queue payload result items =
     (let i = text_or (wp_work_item_id payload) [];
          attempt = max (int_or (wp_attempt payload) 1) 1
      in if rs_status result = lit ''locked'' \<and> i \<noteq> [] then
           map_sum id (\<lambda>(rows, r). (rows, Requeued))
             (release_work_item_for_reclaim now i (Some (lit ''task-lock-miss'')) items)
         else if should_retry max_retry activity_retryable attempt result then
           (if i \<noteq> [] then
              map_sum id (\<lambda>(rows, r). (rows, Retried))
                (release_work_item_for_reclaim now i (Some (retry_error result)) items)
            else
              (case create_work_item now fresh queue (payload\<lparr>wp_attempt := Some (attempt + 1)\<rparr>) items of
                 Inl _ \<Rightarrow> Inr (items, Retried)
               | Inr (rows, _) \<Rightarrow> Inr (rows, Retried)))
         else
           (let failed = rs_status result \<in> {lit ''error'', lit ''failed''};
                outcome = (if rs_status result = lit ''error'' then WorkerError else Processed)
            in if i \<noteq> [] then
                 map_sum id (\<lambda>(rows, r). (rows, outcome))
                   (update_work_item now i (if failed then WFailed else WCompleted)
                      (if failed then Some (text_or (rs_detail result) []) else None) (Some now) items)
               else Inr (items, outcome)))"

text \<open>
  One round of a worker: the times of the claim, of the second claim and of the settlement, the
  name of the worker, and the activities it runs.
\<close>

record worker_round =
  wk_now :: nat
  wk_later :: nat
  wk_settled :: nat
  wk_owner :: ustr
  wk_wait :: bool
  wk_fresh :: ustr

record worker_config =
  wc_queue :: ustr
  wc_lease_seconds :: "int option"
  wc_max_retry :: "int option"
  wc_retryable :: "ustr \<Rightarrow> bool" \<comment> \<open>the activity is registered and retryable\<close>
  wc_main :: "work_payload \<Rightarrow> work_result"
  wc_sub :: "work_payload \<Rightarrow> work_result"

definition run_worker_once ::
  "worker_config \<Rightarrow> worker_round \<Rightarrow> work_item list \<Rightarrow> (work_item list \<times> worker_outcome) res" where
  "run_worker_once c k items =
     (case pop_work_item (wk_now k) (wk_later k) (wc_lease_seconds c) (wc_queue c) (wk_owner k)
             (wk_wait k) items of
        (items', None) \<Rightarrow> Inr (items', Empty)
      | (items', Some r) \<Rightarrow>
          let payload = popped_payload r;
              result = dispatch_work_item (wc_main c) (wc_sub c) payload
          in settle_work_item (wk_settled k) (wk_fresh k) (max_retry_attempts (wc_max_retry c))
               (wc_retryable c (text_or (wp_activity payload) [])) (wc_queue c) payload result items')"

text \<open>\<open>drain_work_queue\<close>: one round per element, until the queue is empty or a round ends in error.\<close>

fun drain_work_queue ::
  "worker_config \<Rightarrow> worker_round list \<Rightarrow> work_item list
     \<Rightarrow> (work_item list \<times> worker_outcome list) res" where
  "drain_work_queue c [] items = Inr (items, [])"
| "drain_work_queue c (k # ks) items =
     (case run_worker_once c k items of
        Inl err \<Rightarrow> Inl err
      | Inr (items', outcome) \<Rightarrow>
          if outcome \<in> {Empty, WorkerError} then Inr (items', [outcome])
          else map_sum id (\<lambda>(rows, os). (rows, outcome # os)) (drain_work_queue c ks items'))"

definition processed_count :: "worker_outcome list \<Rightarrow> nat" where
  "processed_count os = length (filter (\<lambda>x. x = Processed) os)"

end
