(* ===== verification/WorkQueueProps.thy ===== *)
theory WorkQueueProps
  imports WorkQueue
begin

text \<open>
  What the work queue and the worker promise: exclusive leases and fair claims (by the contract of
  a claimed table), the invariant of the table, exact cancellation, bounded retries, and what
  lock misses, missing activities and late settlements do.
\<close>

section \<open>Claiming\<close>

lemma sort_key_hd:
  assumes "sort_key f xs = y # ys" shows "y \<in> set xs \<and> (\<forall>x\<in>set xs. f y \<le> f x)"
proof -
  have "sorted (map f (y # ys))" unfolding assms [symmetric] by simp
  moreover have "set xs = set (y # ys)" unfolding assms [symmetric] by simp
  ultimately show ?thesis by auto
qed

lemma lease_item_keeps [simp]: "keeps wi_id (lease_item now owner until)"
  by (simp add: keeps_def lease_item_def)

lemma claim_None:
  "claim_work_item now queue owner until items = (items', None) \<longleftrightarrow>
     items' = items \<and> filter (claimable queue now) items = []"
proof -
  have "sort_key claim_order (filter (claimable queue now) items) = [] \<longleftrightarrow> filter (claimable queue now) items = []"
    by (metis length_0_conv length_sort)
  then show ?thesis by (auto simp: claim_work_item_def split: list.split)
qed

lemma claim_Some:
  assumes "claim_work_item now queue owner until items = (items', Some got)"
  obtains r where "r \<in> set items" "claimable queue now r" "got = lease_item now owner until r"
    "items' = edit_row wi_id (wi_id r) (lease_item now owner until) items"
    "\<forall>s\<in>set items. claimable queue now s \<longrightarrow> claim_order r \<le> claim_order s"
proof -
  obtain r rs where r: "sort_key claim_order (filter (claimable queue now) items) = r # rs"
    "got = lease_item now owner until r"
    "items' = edit_row wi_id (wi_id r) (lease_item now owner until) items"
    using assms by (auto simp: claim_work_item_def split: list.splits)
  from sort_key_hd [OF r(1)] r(2,3) show thesis by (intro that) auto
qed

text \<open>The ids of the rows that a claim at time \<open>now\<close> may take.\<close>

definition waiting :: "ustr \<Rightarrow> nat \<Rightarrow> work_item list \<Rightarrow> ustr set" where
  "waiting queue now items = wi_id ` set (filter (claimable queue now) items)"

lemma claimable_later: "claimable queue now r \<Longrightarrow> now \<le> later \<Longrightarrow> claimable queue later r"
  by (auto simp: claimable_def split: option.splits)

lemma claimable_leased: "claimable queue now (lease_item n owner until r) \<longleftrightarrow> wi_queue r = queue \<and> until \<le> now"
  by (simp add: claimable_def lease_item_def)

lemma waiting_map:
  assumes "\<And>r. wi_id (g r) = wi_id r"
  shows "waiting queue now (map g items) = wi_id ` {r \<in> set items. claimable queue now (g r)}"
proof -
  have "set (filter (claimable queue now) (map g items)) = g ` {r \<in> set items. claimable queue now (g r)}"
    by auto
  then show ?thesis using assms by (simp add: waiting_def image_image)
qed

lemma lease_item_id [simp]: "wi_id (lease_item now owner until r) = wi_id r"
  by (simp add: lease_item_def)

lemma waiting_edit:
  assumes "now < until"
  shows "waiting queue now (edit_row wi_id i (lease_item n owner until) items) = waiting queue now items - {i}"
proof -
  have "{r \<in> set items. claimable queue now (if wi_id r = i then lease_item n owner until r else r)} =
      {r \<in> set items. claimable queue now r \<and> wi_id r \<noteq> i}"
    using assms by (auto simp: claimable_leased)
  then have "waiting queue now (edit_row wi_id i (lease_item n owner until) items) =
      wi_id ` {r \<in> set items. claimable queue now r \<and> wi_id r \<noteq> i}"
    by (simp add: edit_row_def waiting_map)
  also have "\<dots> = waiting queue now items - {i}" by (auto simp: waiting_def)
  finally show ?thesis .
qed

text \<open>
  A claim as an action: the name of the worker, how long before the horizon \<open>h\<close> it happens and
  how long after it the lease ends.
\<close>

definition claim_ids ::
  "ustr \<Rightarrow> (ustr \<times> nat \<times> nat) \<Rightarrow> work_item list \<Rightarrow> work_item list \<times> ustr list" where
  "claim_ids queue c items =
     (case c of (owner, now, until) \<Rightarrow>
        (case claim_work_item now queue owner until items of
           (items', None) \<Rightarrow> (items', [])
         | (items', Some r) \<Rightarrow> (items', [wi_id r])))"

lemma claim_ids_cases:
  assumes "claim_ids queue (owner, now, until) items = (items', got)"
  obtains (none) "items' = items" "got = []" "filter (claimable queue now) items = []"
  | (some) r where "got = [wi_id r]" "r \<in> set items" "claimable queue now r"
      "items' = edit_row wi_id (wi_id r) (lease_item now owner until) items"
proof (cases "claim_work_item now queue owner until items")
  case (Pair a b)
  show thesis
  proof (cases b)
    case None
    with Pair have n: "claim_work_item now queue owner until items = (a, None)" by simp
    with assms have "items' = a" "got = []" by (simp_all add: claim_ids_def)
    with n none show thesis by (simp add: claim_None)
  next
    case (Some x)
    obtain r where "r \<in> set items" "claimable queue now r" "x = lease_item now owner until r"
      "a = edit_row wi_id (wi_id r) (lease_item now owner until) items"
      using claim_Some Pair Some by metis
    with Pair Some assms some show thesis by (auto simp: claim_ids_def lease_item_def)
  qed
qed

lemma claim_ids_step:
  assumes "table_ok wi_id items" "claim_ids queue (owner, now, until) items = (items', got)"
    and "now \<le> h" "h < until"
  shows "set got \<subseteq> waiting queue h items" "distinct got"
    "waiting queue h items' = waiting queue h items - set got" "table_ok wi_id items'"
proof -
  have "set got \<subseteq> waiting queue h items \<and> distinct got
      \<and> waiting queue h items' = waiting queue h items - set got \<and> table_ok wi_id items'"
    using assms(2)
  proof (cases rule: claim_ids_cases)
    case (some r)
    with claimable_later [OF some(3) assms(3)] show ?thesis
      using assms(1) waiting_edit [OF assms(4)] some(2)
      by (auto simp: table_simps waiting_def)
  qed (use assms(1) in simp)
  then show "set got \<subseteq> waiting queue h items" "distinct got"
    "waiting queue h items' = waiting queue h items - set got" "table_ok wi_id items'" by simp_all
qed


definition claim_at :: "ustr \<Rightarrow> nat \<Rightarrow> (ustr \<times> nat) \<Rightarrow> work_item list \<Rightarrow> work_item list \<times> ustr list" where
  "claim_at queue h c = (case c of (owner, ahead) \<Rightarrow> claim_ids queue (owner, h, h + 1 + ahead))"


interpretation workers: live_queue "waiting queue h" "claim_at queue h" "table_ok wi_id" for queue h
proof unfold_locales
  fix q c q' got assume q: "table_ok wi_id q" "claim_at queue h c q = (q', got)"
  obtain owner ahead where c: "c = (owner, ahead)" by (cases c) auto
  have s: "claim_ids queue (owner, h, h + 1 + ahead) q = (q', got)"
    using q(2) by (simp add: claim_at_def c)
  show "set got \<subseteq> waiting queue h q" "distinct got" "waiting queue h q' = waiting queue h q - set got"
    "table_ok wi_id q'"
    using claim_ids_step [OF q(1) s, of h] by simp_all
  show "got \<noteq> []" if "waiting queue h q \<noteq> {}"
    using s that by (cases rule: claim_ids_cases) (auto simp: waiting_def)
qed (simp add: waiting_def)

lemma claim_all_conv:
  assumes "\<forall>c\<in>set cs. f (g c) = f' c" shows "claim_all f (map g cs) q = claim_all f' cs q"
  using assms by (induction cs arbitrary: q) simp_all


text \<open>The queue is fair and loses nothing: as many claims as there are waiting items hand out every
  waiting item, and each claim takes the oldest one.\<close>

theorem claims_hand_out_everything:
  assumes "table_ok wi_id items" "card (waiting queue h items) \<le> length claims"
    and "\<forall>(owner, now, until)\<in>set claims. now = h \<and> h < until"
    and "claim_all (claim_ids queue) claims items = (items', gots)"
  shows "set (concat gots) = waiting queue h items \<and> waiting queue h items' = {}"
proof -
  let ?g = "\<lambda>(owner, now, until). (owner, until - (h + 1))"
  have "claim_at queue h (?g c) = claim_ids queue c" if "c \<in> set claims" for c
  proof -
    obtain owner now until where c: "c = (owner, now, until)" by (cases c) auto
    with that assms(3) have "now = h" "h < until" by auto
    then show ?thesis by (simp add: claim_at_def c)
  qed
  then have "claim_all (claim_at queue h) (map ?g claims) items = (items', gots)"
    using claim_all_conv [of claims "claim_at queue h" ?g "claim_ids queue" items] assms(4) by simp
  from workers.claims_drain [OF assms(1) _ this] assms(2) show ?thesis by simp
qed

text \<open>A claim finds nothing exactly when no item of the queue is free; otherwise it leases the
  oldest free item to the worker, counts the attempt when the item has been leased or released
  before, and leaves every other item as it was.\<close>

theorem claim_takes_oldest:
  assumes "table_ok wi_id items" "claim_work_item now queue owner until items = (items', got)"
  shows "case got of
      None \<Rightarrow> items' = items \<and> (\<forall>r\<in>set items. \<not> claimable queue now r)
    | Some x \<Rightarrow> (\<exists>r\<in>set items. claimable queue now r
        \<and> (\<forall>s\<in>set items. claimable queue now s \<longrightarrow> claim_order r \<le> claim_order s)
        \<and> wi_id x = wi_id r \<and> wi_status x = WLeased \<and> wi_lease_owner x = Some owner
        \<and> wi_lease_until x = Some until
        \<and> wi_attempt x = (if wi_status r = WQueued \<and> wi_lease_until r = None then wi_attempt r
                          else wi_attempt r + 1)
        \<and> find_row wi_id items' (wi_id r) = Some x
        \<and> (\<forall>j. j \<noteq> wi_id r \<longrightarrow> find_row wi_id items' j = find_row wi_id items j))"
proof (cases got)
  case None
  with assms(2) claim_None show ?thesis by (auto simp: filter_empty_conv)
next
  case (Some x)
  obtain r where r: "r \<in> set items" "claimable queue now r" "x = lease_item now owner until r"
    "items' = edit_row wi_id (wi_id r) (lease_item now owner until) items"
    "\<forall>s\<in>set items. claimable queue now s \<longrightarrow> claim_order r \<le> claim_order s"
    using claim_Some assms(2) Some by metis
  have "wi_status r = WQueued \<or> wi_status r \<in> {WLeased, WReclaimable}"
    using r(2) by (auto simp: claimable_def)
  with r find_row_mem [OF assms(1) r(1)] Some show ?thesis
    by (auto simp: table_simps lease_item_def intro!: bexI [of _ r])
qed

section \<open>The life of a work item\<close>

text \<open>The steps the repository and the worker take on the table.\<close>

inductive work_step :: "work_item list \<Rightarrow> work_item list \<Rightarrow> bool" where
  create: "create_work_item now fresh queue payload items = Inr (items', r) \<Longrightarrow> work_step items items'"
| claim: "claim_work_item now queue owner until items = (items', got) \<Longrightarrow> work_step items items'"
| finish: "st \<in> {WCompleted, WFailed} \<Longrightarrow> update_work_item now i st err (Some now) items = Inr (items', r) \<Longrightarrow>
     work_step items items'"
| release: "release_work_item_for_reclaim now i err items = Inr (items', r) \<Longrightarrow> work_step items items'"
| cancel: "cancel_queued_work_items now task_id intent reason items = (items', n) \<Longrightarrow> work_step items items'"

inductive_cases work_stepE: "work_step items items'"

definition item_ok :: "work_item \<Rightarrow> bool" where
  "item_ok r \<longleftrightarrow> 1 \<le> wi_attempt r
     \<and> (wi_status r = WLeased \<longrightarrow> wi_lease_owner r \<noteq> None \<and> wi_lease_until r \<noteq> None)
     \<and> (wi_status r \<in> {WQueued, WReclaimable} \<longrightarrow> wi_lease_owner r = None \<and> wi_lease_until r = None)
     \<and> (wi_status r \<in> {WCompleted, WFailed, WCancelled} \<longrightarrow> wi_completed_at r \<noteq> None)"

definition items_ok :: "work_item list \<Rightarrow> bool" where
  "items_ok items \<longleftrightarrow> table_ok wi_id items \<and> (\<forall>r\<in>set items. item_ok r)"

lemma items_ok_edit:
  assumes "items_ok items" "keeps wi_id f" "\<And>r. item_ok r \<Longrightarrow> item_ok (f r)"
  shows "items_ok (edit_row wi_id i f items)"
  using assms by (auto simp: items_ok_def table_simps set_edit)

lemma items_ok_map:
  assumes "items_ok items" "\<And>r. wi_id (f r) = wi_id r" "\<And>r. item_ok r \<Longrightarrow> item_ok (f r)"
  shows "items_ok (map f items)"
  using assms by (auto simp: items_ok_def table_ok_def comp_def)

lemma edit_work_item_Inr:
  "edit_work_item i f items = Inr (items', r') \<longleftrightarrow>
     (\<exists>r. find_row wi_id items i = Some r \<and> items' = edit_row wi_id i f items \<and> r' = f r)"
  by (auto simp: edit_work_item_def split: option.splits)

lemma work_step_ok:
  assumes "work_step items items'" "items_ok items" shows "items_ok items'"
  using assms
proof (induction rule: work_step.induct)
  case (create now fresh queue payload items items' r)
  then show ?case
    by (auto simp: create_work_item_def Let_def map_sum_Inr table_simps items_ok_def item_ok_def)
next
  case (claim now queue owner until items items' got)
  show ?case
  proof (cases got)
    case None
    with claim claim_None show ?thesis by simp
  next
    case (Some x)
    with claim.hyps have c: "claim_work_item now queue owner until items = (items', Some x)" by simp
    show ?thesis
    proof (rule claim_Some [OF c])
      fix r assume r: "items' = edit_row wi_id (wi_id r) (lease_item now owner until) items"
      show ?thesis unfolding r
        by (rule items_ok_edit [OF claim.prems lease_item_keeps]) (simp add: item_ok_def lease_item_def)
    qed
  qed
next
  case (finish st now i err items items' r)
  let ?f = "\<lambda>r. r\<lparr>wi_status := st, wi_last_error := err, wi_updated_at := now, wi_completed_at := Some now\<rparr>"
  have "items' = edit_row wi_id i ?f items"
    using finish.hyps(2) by (auto simp: update_work_item_def edit_work_item_Inr)
  then show ?case
    using finish.hyps(1) by (auto simp: keeps_def item_ok_def intro!: items_ok_edit [OF finish.prems])
next
  case (release now i err items items' r)
  let ?f = "\<lambda>r. r\<lparr>wi_status := WReclaimable, wi_last_error := err, wi_lease_owner := None,
      wi_lease_until := None, wi_updated_at := now\<rparr>"
  have "items' = edit_row wi_id i ?f items"
    using release.hyps by (auto simp: release_work_item_for_reclaim_def edit_work_item_Inr)
  then show ?case by (auto simp: keeps_def item_ok_def intro!: items_ok_edit [OF release.prems])
next
  case (cancel now task_id intent reason items items' n)
  let ?f = "\<lambda>r. if cancellable task_id intent r then r\<lparr>wi_status := WCancelled, wi_last_error := reason,
      wi_updated_at := now, wi_completed_at := Some now\<rparr> else r"
  have "items' = map ?f items" using cancel.hyps by (simp add: cancel_queued_work_items_def)
  then show ?case by (auto simp: item_ok_def intro!: items_ok_map [OF cancel.prems])
qed

interpretation work_items: invariant_system work_step items_ok
  by unfold_locales (rule work_step_ok)

text \<open>C13: however workers, producers and cancellations interleave, the table keeps its sense: ids are
  unique, attempts count from one, a leased item has an owner and an end of its lease, a queued
  or reclaimable one has neither, and a finished one has a completion time.\<close>

theorem work_queue_reachable_ok:
  assumes "work_step\<^sup>*\<^sup>* [] items"
  shows "distinct (map wi_id items) \<and> (\<forall>r\<in>set items. 1 \<le> wi_attempt r
    \<and> (wi_status r = WLeased \<longrightarrow> wi_lease_owner r \<noteq> None \<and> wi_lease_until r \<noteq> None)
    \<and> (wi_status r \<in> {WQueued, WReclaimable} \<longrightarrow> wi_lease_owner r = None \<and> wi_lease_until r = None)
    \<and> (wi_status r \<in> {WCompleted, WFailed, WCancelled} \<longrightarrow> wi_completed_at r \<noteq> None))"
proof -
  have "items_ok []" by (simp add: items_ok_def table_ok_def)
  from work_items.reachable_inv [OF assms this] show ?thesis
    by (simp add: items_ok_def table_ok_def item_ok_def)
qed

definition sample_payload :: "work_payload" where
  "sample_payload =
     \<lparr>wp_work_item_id = None, wp_task_id = Some (lit ''t''), wp_activity = None, wp_intent = None,
      wp_command = None, wp_attempt = None, wp_body = JNull\<rparr>"

definition sample_item :: "string \<Rightarrow> nat \<Rightarrow> work_item" where
  "sample_item i created =
     \<lparr>wi_id = lit i, wi_queue = lit ''q'', wi_task_id = Some (lit ''t''),
      wi_activity = lit ''core.agent.main.execute'', wi_intent = lit ''start'', wi_payload = sample_payload,
      wi_status = WQueued, wi_lease_owner = None, wi_lease_until = None, wi_attempt = 1,
      wi_last_error = None, wi_created_at = created, wi_updated_at = created, wi_completed_at = None\<rparr>"

lemma sample_claimable [simp]: "claimable queue now (sample_item i created) \<longleftrightarrow> queue = lit ''q''"
  by (auto simp: claimable_def sample_item_def)

lemma sample_item_simps [simp]:
  "wi_id (sample_item i c) = lit i" "wi_created_at (sample_item i c) = c" "wi_status (sample_item i c) = WQueued"
  "wi_lease_until (sample_item i c) = None" "wi_attempt (sample_item i c) = 1"
  by (simp_all add: sample_item_def)

lemma sample_create:
  "create_work_item c (lit i) (lit ''q'') sample_payload [] = Inr ([sample_item i c], sample_item i c)"
  by (simp add: create_work_item_def sample_payload_def sample_item_def text_or_def int_or_def add_row_def row_keys_def Let_def)

theorem work_queue_reachable_ok_witness:
  "work_step\<^sup>*\<^sup>* [] [sample_item ''i'' 2] \<and> 1 \<le> wi_attempt (sample_item ''i'' 2)"
proof -
  have "work_step\<^sup>*\<^sup>* [] [sample_item ''i'' 2]"
    by (rule r_into_rtranclp) (rule work_step.create [OF sample_create])
  with work_queue_reachable_ok [OF this] show ?thesis by auto
qed


theorem claims_hand_out_everything_witness:
  "\<exists>items' gots. claim_all (claim_ids (lit ''q'')) [(lit ''w1'', 9, 130), (lit ''w2'', 9, 140)]
      [sample_item ''i'' 2, sample_item ''j'' 3] = (items', gots)
    \<and> set (concat gots) = {lit ''i'', lit ''j''}"
proof -
  obtain items' gots where c: "claim_all (claim_ids (lit ''q'')) [(lit ''w1'', 9, 130), (lit ''w2'', 9, 140)]
      [sample_item ''i'' 2, sample_item ''j'' 3] = (items', gots)" by fastforce
  have ok: "table_ok wi_id [sample_item ''i'' 2, sample_item ''j'' 3]" by (simp add: table_ok_def)
  have w: "waiting (lit ''q'') 9 [sample_item ''i'' 2, sample_item ''j'' 3] = {lit ''i'', lit ''j''}"
    by (simp add: waiting_def)
  from claims_hand_out_everything [OF ok _ _ c, of 9] c show ?thesis by (auto simp: w)
qed

theorem claim_takes_oldest_witness:
  "\<exists>items' x. claim_work_item 9 (lit ''q'') (lit ''w'') 130 [sample_item ''j'' 3, sample_item ''i'' 2] =
      (items', Some x) \<and> wi_id x = lit ''i'' \<and> wi_lease_owner x = Some (lit ''w'')"
proof -
  let ?items = "[sample_item ''j'' 3, sample_item ''i'' 2]"
  obtain items' got where c: "claim_work_item 9 (lit ''q'') (lit ''w'') 130 ?items = (items', got)" by fastforce
  have ok: "table_ok wi_id ?items" by (simp add: table_ok_def)
  from claim_takes_oldest [OF ok c] c show ?thesis
    by (cases got) (auto simp: claim_order_def less_eq_queue_key_def)
qed

text \<open>Cancelling cancels exactly the waiting items of the task (of the intent, when one is given),
  reports how many, and no claim takes them afterwards; a leased item runs on.\<close>

theorem cancel_exact:
  assumes "cancel_queued_work_items now task_id intent reason items = (items', n)"
  shows "map wi_id items' = map wi_id items
    \<and> n = length (filter (cancellable task_id intent) items)
    \<and> (\<forall>i. find_row wi_id items' i = map_option (\<lambda>r. if cancellable task_id intent r
         then r\<lparr>wi_status := WCancelled, wi_last_error := reason, wi_updated_at := now, wi_completed_at := Some now\<rparr>
         else r) (find_row wi_id items i))
    \<and> (\<forall>i. i \<in> waiting queue later items' \<longrightarrow>
         (\<exists>r\<in>set items. wi_id r = i \<and> claimable queue later r \<and> \<not> cancellable task_id intent r))"
  using assms unfolding cancel_queued_work_items_def
  by (auto simp: comp_def map_where_find waiting_def claimable_def split: if_splits)

theorem cancel_exact_witness:
  "\<exists>items'. cancel_queued_work_items 9 (lit ''t'') None None [sample_item ''i'' 2] = (items', 1)
    \<and> waiting (lit ''q'') 10 items' = {}"
proof -
  have c: "cancellable (lit ''t'') None (sample_item ''i'' 2)"
    by (simp add: cancellable_def) (simp add: sample_item_def)
  obtain items' n where r: "cancel_queued_work_items 9 (lit ''t'') None None [sample_item ''i'' 2] = (items', n)"
    by fastforce
  from cancel_exact [OF r, of "lit ''q''" 10] r c show ?thesis by auto
qed

section \<open>The worker loop\<close>

text \<open>A table with one item that no worker holds, and the attempt its next claim will count.\<close>

definition idle :: "ustr \<Rightarrow> work_item \<Rightarrow> bool" where
  "idle queue r \<longleftrightarrow> wi_queue r = queue \<and> wi_status r \<in> {WQueued, WReclaimable}
     \<and> wi_lease_owner r = None \<and> wi_lease_until r = None \<and> wi_id r \<noteq> [] \<and> 1 \<le> wi_attempt r
     \<and> wp_activity (wi_payload r) = Some (lit ''core.agent.main.execute'')"

definition next_attempt :: "work_item \<Rightarrow> int" where
  "next_attempt r = (if wi_status r = WQueued then wi_attempt r else wi_attempt r + 1)"

lemma pop_idle:
  assumes "idle queue r"
  shows "pop_work_item now later lease queue owner wait [r] =
    (let x = lease_item now owner (now + nat (max (int_or lease 120) 30)) r in ([x], Some x))"
  using assms by (auto simp: pop_work_item_def claim_work_item_def claimable_def idle_def edit_row_def Let_def)


text \<open>One round on an idle item, by the result of its activity.\<close>

lemma idle_round:
  fixes c k r
  defines "res \<equiv> wc_main c (popped_payload (lease_item (wk_now k) (wk_owner k)
      (wk_now k + nat (max (int_or (wc_lease_seconds c) 120) 30)) r))"
  assumes "idle (wc_queue c) r" "wc_retryable c (lit ''core.agent.main.execute'')"
  obtains r' where "run_worker_once c k [r] = Inr ([r'],
      if rs_status res = lit ''locked'' then Requeued
      else if should_retry (max_retry_attempts (wc_max_retry c)) True (next_attempt r) res then Retried
      else if rs_status res = lit ''error'' then WorkerError else Processed)"
    "wi_id r' = wi_id r" "wi_payload r' = wi_payload r" "wi_attempt r' = next_attempt r"
    "wi_queue r' = wi_queue r"
    "wi_status r' = (if rs_status res = lit ''locked''
        \<or> should_retry (max_retry_attempts (wc_max_retry c)) True (next_attempt r) res then WReclaimable
      else if rs_status res \<in> {lit ''error'', lit ''failed''} then WFailed else WCompleted)"
    "wi_status r' = WReclaimable \<longrightarrow> wi_lease_owner r' = None \<and> wi_lease_until r' = None"
proof -
  define x where "x = lease_item (wk_now k) (wk_owner k)
      (wk_now k + nat (max (int_or (wc_lease_seconds c) 120) 30)) r"
  have x: "wi_id x = wi_id r" "wi_payload x = wi_payload r" "wi_attempt x = next_attempt r" "wi_queue x = wi_queue r"
    using assms(2) by (auto simp: x_def lease_item_def next_attempt_def idle_def)
  have i: "text_or (wp_work_item_id (popped_payload x)) [] = wi_id r" "wi_id r \<noteq> []"
    using assms(2) x by (auto simp: popped_payload_def text_or_def idle_def)
  have a: "max (int_or (wp_attempt (popped_payload x)) 1) 1 = next_attempt r"
    using assms(2) x by (auto simp: popped_payload_def int_or_def idle_def next_attempt_def)
  have act: "text_or (wp_activity (popped_payload x)) [] = lit ''core.agent.main.execute''"
    using assms(2) x by (auto simp: popped_payload_def text_or_def idle_def)
  have run: "run_worker_once c k [r] = settle_work_item (wk_settled k) (wk_fresh k)
      (max_retry_attempts (wc_max_retry c)) True (wc_queue c) (popped_payload x) res [x]"
    using pop_idle [OF assms(2)] assms(3)
    by (simp add: run_worker_once_def Let_def dispatch_work_item_def res_def act flip: x_def)
  have f: "find_row wi_id [x] (wi_id r) = Some x" by (simp add: find_row_def x)
  consider (locked) "rs_status res = lit ''locked''"
    | (retry) "rs_status res \<noteq> lit ''locked''" "should_retry (max_retry_attempts (wc_max_retry c)) True (next_attempt r) res"
    | (final) "rs_status res \<noteq> lit ''locked''" "\<not> should_retry (max_retry_attempts (wc_max_retry c)) True (next_attempt r) res"
    by blast
  then show thesis
  proof cases
    case locked
    then show thesis
      using run f i x by (intro that [of "x\<lparr>wi_status := WReclaimable, wi_last_error := Some (lit ''task-lock-miss''),
          wi_lease_owner := None, wi_lease_until := None, wi_updated_at := wk_settled k\<rparr>"]) (simp_all add: settle_work_item_def Let_def release_work_item_for_reclaim_def
          edit_work_item_def edit_row_def)
  next
    case retry
    then show thesis
      using run f i x a by (intro that [of "x\<lparr>wi_status := WReclaimable, wi_last_error := Some (retry_error res),
          wi_lease_owner := None, wi_lease_until := None, wi_updated_at := wk_settled k\<rparr>"])
        (simp_all add: settle_work_item_def Let_def release_work_item_for_reclaim_def
          edit_work_item_def edit_row_def)
  next
    case final
    then show thesis
      using run f i x a by (intro that [of "x\<lparr>wi_status := (if rs_status res \<in> {lit ''error'', lit ''failed''}
            then WFailed else WCompleted), wi_last_error := (if rs_status res \<in> {lit ''error'', lit ''failed''}
            then Some (text_or (rs_detail res) []) else None), wi_updated_at := wk_settled k,
          wi_completed_at := Some (wk_settled k)\<rparr>"]) (simp_all add: settle_work_item_def Let_def update_work_item_def
          edit_work_item_def edit_row_def)
  qed
qed


text \<open>An activity that fails and may be retried, one that always finds the task locked.\<close>

definition always_fails :: "worker_config \<Rightarrow> bool" where
  "always_fails c \<longleftrightarrow> (\<forall>x. rs_status (wc_main c x) = lit ''failed'' \<and> rs_retryable (wc_main c x))"

definition always_locked :: "worker_config \<Rightarrow> bool" where
  "always_locked c \<longleftrightarrow> (\<forall>x. rs_status (wc_main c x) = lit ''locked'')"




lemma locked_drain:
  assumes "always_locked c" "wc_retryable c (lit ''core.agent.main.execute'')"
  shows "idle (wc_queue c) r \<Longrightarrow> ks \<noteq> [] \<Longrightarrow>
    \<exists>r'. drain_work_queue c ks [r] = Inr ([r'], replicate (length ks) Requeued) \<and> idle (wc_queue c) r'
      \<and> wi_status r' = WReclaimable \<and> wi_attempt r' = next_attempt r + int (length ks) - 1"
proof (induction ks arbitrary: r)
  case (Cons k ks)
  obtain r' where r: "run_worker_once c k [r] = Inr ([r'], Requeued)" "wi_id r' = wi_id r"
    "wi_payload r' = wi_payload r" "wi_attempt r' = next_attempt r" "wi_queue r' = wi_queue r"
    "wi_status r' = WReclaimable" "wi_lease_owner r' = None" "wi_lease_until r' = None"
    by (rule idle_round [OF Cons.prems(1) assms(2), of k]) (use assms(1) in \<open>auto simp: always_locked_def\<close>)
  have idle: "idle (wc_queue c) r'" using Cons.prems(1) r by (auto simp: idle_def next_attempt_def)
  have n: "next_attempt r' = next_attempt r + 1" using r by (simp add: next_attempt_def)
  show ?case
  proof (cases "ks = []")
    case True
    with r idle show ?thesis by simp
  next
    case False
    with Cons.IH [OF idle] r n show ?thesis by auto
  qed
qed simp

text \<open>A missed task lock costs a retry: an item whose worker found the task locked as often as
  retries are configured, and that was never run, is failed at its first retryable failure.\<close>

theorem lock_misses_use_up_retries:
  assumes "always_locked c" "always_fails d" "wc_queue d = wc_queue c" "wc_max_retry d = wc_max_retry c"
    and "wc_retryable c (lit ''core.agent.main.execute'')" "wc_retryable d (lit ''core.agent.main.execute'')"
    and "idle (wc_queue c) r" "wi_status r = WQueued" "wi_attempt r = 1"
    and "int (length rounds) = max_retry_attempts (wc_max_retry c)" "rounds \<noteq> []"
  shows "\<exists>r' r''. drain_work_queue c rounds [r] = Inr ([r'], replicate (length rounds) Requeued)
    \<and> run_worker_once d k [r'] = Inr ([r''], Processed) \<and> wi_status r'' = WFailed"
proof -
  obtain r' where r: "drain_work_queue c rounds [r] = Inr ([r'], replicate (length rounds) Requeued)"
    "idle (wc_queue c) r'" "wi_status r' = WReclaimable" "wi_attempt r' = next_attempt r + int (length rounds) - 1"
    using locked_drain [OF assms(1,5,7,11)] by blast
  have a: "next_attempt r' = max_retry_attempts (wc_max_retry d) + 1"
    using r(3,4) assms(4,8-10) by (simp add: next_attempt_def)
  have "\<exists>r''. run_worker_once d k [r'] = Inr ([r''], Processed) \<and> wi_status r'' = WFailed"
    by (rule idle_round [OF r(2) [folded assms(3)] assms(6), of k])
       (use assms(2) a in \<open>auto simp: always_fails_def should_retry_def\<close>)
  with r(1) show ?thesis by blast
qed


definition sample_config :: "string \<Rightarrow> worker_config" where
  "sample_config st =
     \<lparr>wc_queue = lit ''q'', wc_lease_seconds = None, wc_max_retry = None, wc_retryable = (\<lambda>_. True),
      wc_main = (\<lambda>_. \<lparr>rs_status = lit st, rs_retryable = True, rs_detail = None\<rparr>),
      wc_sub = (\<lambda>_. \<lparr>rs_status = lit st, rs_retryable = True, rs_detail = None\<rparr>)\<rparr>"

definition sample_round :: "nat \<Rightarrow> worker_round" where
  "sample_round now =
     \<lparr>wk_now = now, wk_later = now, wk_settled = now + 1, wk_owner = lit ''w'', wk_wait = False,
      wk_fresh = lit ''f''\<rparr>"

definition sample_main_item :: work_item where
  "sample_main_item = (sample_item ''i'' 2)
     \<lparr>wi_payload := sample_payload\<lparr>wp_activity := Some (lit ''core.agent.main.execute'')\<rparr>\<rparr>"

lemma sample_config_simps [simp]:
  "wc_queue (sample_config st) = lit ''q''" "wc_max_retry (sample_config st) = None"
  "wc_retryable (sample_config st) a" "always_fails (sample_config ''failed'')"
  "always_locked (sample_config ''locked'')"
  by (simp_all add: sample_config_def always_fails_def always_locked_def)

lemma sample_main_item_idle:
  "idle (lit ''q'') sample_main_item" "wi_status sample_main_item = WQueued" "wi_attempt sample_main_item = 1"
  by (simp_all add: idle_def sample_main_item_def) (simp add: sample_item_def)

lemma default_retries [simp]: "max_retry_attempts None = 2"
  by (simp add: max_retry_attempts_def int_or_def)


theorem lock_misses_use_up_retries_witness:
  "\<exists>r' r''. drain_work_queue (sample_config ''locked'') (map sample_round [10, 20]) [sample_main_item] =
      Inr ([r'], [Requeued, Requeued])
    \<and> run_worker_once (sample_config ''failed'') (sample_round 30) [r'] = Inr ([r''], Processed)
    \<and> wi_status r'' = WFailed"
  using lock_misses_use_up_retries [of "sample_config ''locked''" "sample_config ''failed''" sample_main_item
      "map sample_round [10, 20]" "sample_round 30"] sample_main_item_idle
  by (auto simp: numeral_2_eq_2)

text \<open>A payload without an activity is stored under the default activity, but the worker reads the
  activity of the payload: it runs nothing, and the item is completed all the same.\<close>

theorem default_activity_is_not_run:
  assumes "wp_activity payload = None" "wp_work_item_id payload \<noteq> Some []" "fresh \<noteq> []"
    and "create_work_item now fresh (wc_queue c) payload [] = Inr (items, r)"
  shows "wi_activity r = lit ''core.agent.main.execute''
    \<and> (\<exists>r'. run_worker_once c k items = Inr ([r'], Processed) \<and> wi_status r' = WCompleted
          \<and> run_worker_once (c\<lparr>wc_main := m, wc_sub := s\<rparr>) k items = Inr ([r'], Processed))"
proof -
  have r: "items = [r]" "wi_activity r = lit ''core.agent.main.execute''" "wi_queue r = wc_queue c"
    "wi_status r = WQueued" "wi_lease_until r = None" "wi_payload r = payload" "wi_id r \<noteq> []"
    using assms by (auto simp: create_work_item_def Let_def map_sum_Inr add_row_def text_or_def row_keys_def
        split: option.splits)
  have pop: "pop_work_item n l ls (wc_queue c) o' w [r] =
      (let x = lease_item n o' (n + nat (max (int_or ls 120) 30)) r in ([x], Some x))" for n l ls o' w
    using r by (simp add: pop_work_item_def claim_work_item_def claimable_def edit_row_def Let_def)
  show ?thesis
    using r(2,6,7) assms(1) unfolding r(1)
    by (simp add: run_worker_once_def pop Let_def dispatch_work_item_def popped_payload_def text_or_def
        lease_item_def settle_work_item_def should_retry_def update_work_item_def edit_work_item_def
        find_row_def edit_row_def)
qed

theorem default_activity_is_not_run_witness:
  "\<exists>items r r'. create_work_item 2 (lit ''i'') (wc_queue (sample_config ''failed'')) sample_payload [] = Inr (items, r)
    \<and> wi_activity r = lit ''core.agent.main.execute''
    \<and> run_worker_once (sample_config ''failed'') (sample_round 10) items = Inr ([r'], Processed)
    \<and> wi_status r' = WCompleted"
  using default_activity_is_not_run [of sample_payload "lit ''i''" 2 "sample_config ''failed''" "[sample_item ''i'' 2]"
      "sample_item ''i'' 2" "sample_round 10"] sample_create [of 2 "''i''"]
  by (auto simp: sample_payload_def)

text \<open>The settlement of a worker whose lease has run out is not refused: whoever holds the item by
  then, a late failure puts it back into the queue, even when the holder has completed it.\<close>

theorem late_release_reopens:
  assumes "find_row wi_id items i = Some r" "table_ok wi_id items"
  shows "\<exists>items' r'. release_work_item_for_reclaim now i err items = Inr (items', r')
    \<and> wi_completed_at r' = wi_completed_at r \<and> wi_status r' = WReclaimable
    \<and> find_row wi_id items' i = Some r' \<and> i \<in> waiting (wi_queue r) later items'"
proof -
  let ?f = "\<lambda>r. r\<lparr>wi_status := WReclaimable, wi_last_error := err, wi_lease_owner := None,
      wi_lease_until := None, wi_updated_at := now\<rparr>"
  have k: "keeps wi_id ?f" by (simp add: keeps_def)
  have rel: "release_work_item_for_reclaim now i err items = Inr (edit_row wi_id i ?f items, ?f r)"
    using assms(1) by (simp add: release_work_item_for_reclaim_def edit_work_item_def)
  have "?f r \<in> set (edit_row wi_id i ?f items)"
    using find_row_Some [OF assms(1)] unfolding set_edit by (auto intro!: image_eqI [of _ _ r])
  moreover have "claimable (wi_queue r) later (?f r)" "wi_id (?f r) = i"
    using find_row_Some [OF assms(1)] by (simp_all add: claimable_def)
  ultimately have "i \<in> waiting (wi_queue r) later (edit_row wi_id i ?f items)"
    unfolding waiting_def by (force intro: image_eqI [of _ _ "?f r"])
  with rel assms(1) show ?thesis by (simp add: find_row_edit [OF k])
qed

theorem late_release_reopens_witness:
  "\<exists>items' r'. release_work_item_for_reclaim 9 (lit ''i'') None
      [(sample_item ''i'' 2)\<lparr>wi_status := WCompleted, wi_completed_at := Some 7\<rparr>] = Inr (items', r')
    \<and> wi_completed_at r' = Some 7 \<and> lit ''i'' \<in> waiting (lit ''q'') 10 items'"
proof -
  let ?r = "(sample_item ''i'' 2)\<lparr>wi_status := WCompleted, wi_completed_at := Some 7\<rparr>"
  have f: "find_row wi_id [?r] (lit ''i'') = Some ?r" by (simp add: find_row_def)
  have "wi_queue ?r = lit ''q''" by (simp add: sample_item_def)
  with late_release_reopens [OF f, of 9 None 10] show ?thesis by (auto simp: table_ok_def)
qed

end
