(* ===== verification/Outbox.thy ===== *)
theory Outbox
  imports Contracts Tables
begin

text \<open>
  The outbox: the rows of \<open>outbox_records\<close> with the operations of \<open>OutboxRepository\<close>
  (\<open>persistence/repositories/platform_core.py\<close>) and \<open>OutboxPublisher.publish_pending\<close>
  (\<open>persistence/eventing.py\<close>). The event bus is a parameter: \<open>bus i\<close> is the error text of
  publishing the event with id \<open>i\<close>, \<open>None\<close> when the bus acknowledges it. A row's payload
  reference is carried unread.
\<close>

section \<open>The repository\<close>

datatype publish_status = OPending | OPublishing | OPublished | ODeadLetter

record outbox_record =
  ob_id :: ustr
  ob_project_id :: "ustr option"
  ob_aggregate_type :: ustr
  ob_aggregate_id :: ustr
  ob_event_type :: ustr
  ob_event_version :: int
  ob_payload_ref :: "ustr \<times> ustr" \<comment> \<open>type and locator\<close>
  ob_publish_status :: publish_status
  ob_attempts :: int
  ob_available_at :: nat
  ob_published_at :: "nat option"
  ob_last_error :: "ustr option"
  ob_created_at :: nat

text \<open>The payload of \<open>record_event\<close>: \<open>None\<close> for an absent key or null.\<close>

record event_payload =
  ep_id :: "ustr option"
  ep_project_id :: "ustr option"
  ep_aggregate_type :: "ustr option"
  ep_aggregate_id :: "ustr option"
  ep_event_type :: "ustr option"
  ep_event_version :: "int option"
  ep_payload_ref :: "(ustr \<times> ustr) option"
  ep_publish_status :: "publish_status option"
  ep_attempts :: "int option"
  ep_available_at :: "nat option"
  ep_published_at :: "nat option"
  ep_last_error :: "ustr option"
  ep_created_at :: "nat option"

definition value_or :: "'a option \<Rightarrow> 'a \<Rightarrow> 'a" where
  "value_or v d = (case v of None \<Rightarrow> d | Some x \<Rightarrow> x)"

definition nonempty_or :: "ustr option \<Rightarrow> ustr \<Rightarrow> ustr" where
  "nonempty_or v d = str_or (value_or v []) d"

definition record_event ::
  "nat \<Rightarrow> ustr \<Rightarrow> event_payload \<Rightarrow> outbox_record list \<Rightarrow> (outbox_record list \<times> outbox_record) res" where
  "record_event now fresh p rows =
     (let r = \<lparr>ob_id = nonempty_or (ep_id p) fresh, ob_project_id = ep_project_id p,
               ob_aggregate_type = nonempty_or (ep_aggregate_type p) (lit ''unknown''),
               ob_aggregate_id = nonempty_or (ep_aggregate_id p) (lit ''unknown''),
               ob_event_type = nonempty_or (ep_event_type p) (lit ''unknown''),
               ob_event_version = value_or (ep_event_version p) 1,
               ob_payload_ref = value_or (ep_payload_ref p) (lit ''package-entry'', lit ''system/unknown''),
               ob_publish_status = value_or (ep_publish_status p) OPending,
               ob_attempts = value_or (ep_attempts p) 0,
               ob_available_at = value_or (ep_available_at p) now,
               ob_published_at = ep_published_at p, ob_last_error = ep_last_error p,
               ob_created_at = value_or (ep_created_at p) now\<rparr>
      in map_sum id (\<lambda>rows. (rows, r)) (add_row ob_id r rows))"

definition list_events ::
  "publish_status option \<Rightarrow> nat \<Rightarrow> outbox_record list \<Rightarrow> outbox_record list" where
  "list_events status limit rows =
     take limit (rev (sort_key ob_created_at
       (filter (\<lambda>r. status = None \<or> status = Some (ob_publish_status r)) rows)))"

definition get_event :: "ustr \<Rightarrow> outbox_record list \<Rightarrow> outbox_record option" where
  "get_event i rows = find_row ob_id rows i"

text \<open>Claiming: the oldest pending events that are available become publishing.\<close>

definition due :: "nat \<Rightarrow> outbox_record \<Rightarrow> bool" where
  "due now r \<longleftrightarrow> ob_publish_status r = OPending \<and> ob_available_at r \<le> now"

definition due_events :: "nat \<Rightarrow> nat \<Rightarrow> outbox_record list \<Rightarrow> outbox_record list" where
  "due_events limit now rows = take limit (sort_key ob_created_at (filter (due now) rows))"

definition start_publishing :: "outbox_record \<Rightarrow> outbox_record" where
  "start_publishing r = r\<lparr>ob_publish_status := OPublishing, ob_attempts := ob_attempts r + 1\<rparr>"

definition claim_events ::
  "nat \<Rightarrow> nat \<Rightarrow> outbox_record list \<Rightarrow> outbox_record list \<times> outbox_record list" where
  "claim_events limit now rows =
     (let claimed = map ob_id (due_events limit now rows)
      in (map (\<lambda>r. if ob_id r \<in> set claimed then start_publishing r else r) rows,
          map start_publishing (due_events limit now rows)))"

definition edit_event ::
  "ustr \<Rightarrow> (outbox_record \<Rightarrow> outbox_record) \<Rightarrow> outbox_record list
     \<Rightarrow> (outbox_record list \<times> outbox_record) res" where
  "edit_event i f rows =
     (case find_row ob_id rows i of
        None \<Rightarrow> Inl (KeyError i)
      | Some r \<Rightarrow> Inr (edit_row ob_id i f rows, f r))"

definition published :: "nat \<Rightarrow> outbox_record \<Rightarrow> outbox_record" where
  "published now r =
     r\<lparr>ob_publish_status := OPublished, ob_published_at := Some now, ob_last_error := None\<rparr>"

definition pending_again :: "nat \<Rightarrow> ustr option \<Rightarrow> outbox_record \<Rightarrow> outbox_record" where
  "pending_again available_at err r =
     r\<lparr>ob_publish_status := OPending, ob_available_at := available_at, ob_last_error := err\<rparr>"

definition dead :: "ustr \<Rightarrow> outbox_record \<Rightarrow> outbox_record" where
  "dead err r = r\<lparr>ob_publish_status := ODeadLetter, ob_last_error := Some err\<rparr>"

definition mark_published ::
  "nat \<Rightarrow> ustr \<Rightarrow> outbox_record list \<Rightarrow> (outbox_record list \<times> outbox_record) res" where
  "mark_published now i rows = edit_event i (published now) rows"

definition mark_pending ::
  "nat \<Rightarrow> ustr option \<Rightarrow> ustr \<Rightarrow> outbox_record list \<Rightarrow> (outbox_record list \<times> outbox_record) res" where
  "mark_pending available_at err i rows = edit_event i (pending_again available_at err) rows"

definition mark_dead_letter ::
  "ustr \<Rightarrow> ustr \<Rightarrow> outbox_record list \<Rightarrow> (outbox_record list \<times> outbox_record) res" where
  "mark_dead_letter err i rows = edit_event i (dead err) rows"

section \<open>Publishing\<close>

text \<open>The loop over the claimed events; \<open>now\<close> is the time of the round.\<close>

datatype publish_outcome = PubOk ustr | PubFailed ustr ustr

fun publish_claimed ::
  "(ustr \<Rightarrow> ustr option) \<Rightarrow> nat \<Rightarrow> outbox_record list \<Rightarrow> outbox_record list
     \<Rightarrow> (outbox_record list \<times> publish_outcome list) res" where
  "publish_claimed bus now [] rows = Inr (rows, [])"
| "publish_claimed bus now (r # rs) rows =
     (case bus (ob_id r) of
        None \<Rightarrow>
          (case mark_published now (ob_id r) rows of
             Inl err \<Rightarrow> Inl err
           | Inr (rows', _) \<Rightarrow>
               map_sum id (\<lambda>(rows, os). (rows, PubOk (ob_id r) # os)) (publish_claimed bus now rs rows'))
      | Some err \<Rightarrow>
          (case (if 5 \<le> ob_attempts r then mark_dead_letter err (ob_id r) rows
                 else mark_pending now (Some err) (ob_id r) rows) of
             Inl e \<Rightarrow> Inl e
           | Inr (rows', _) \<Rightarrow>
               map_sum id (\<lambda>(rows, os). (rows, PubFailed (ob_id r) err # os))
                 (publish_claimed bus now rs rows')))"

text \<open>\<open>publish_pending\<close>; \<open>None\<close> when the stream cannot be set up.\<close>

definition publish_pending ::
  "bool \<Rightarrow> (ustr \<Rightarrow> ustr option) \<Rightarrow> nat \<Rightarrow> nat \<Rightarrow> outbox_record list
     \<Rightarrow> (outbox_record list \<times> publish_outcome list option) res" where
  "publish_pending stream_ok bus limit now rows =
     (if \<not> stream_ok then Inr (rows, None)
      else let (rows', claimed) = claim_events limit now rows
           in map_sum id (\<lambda>(rows, os). (rows, Some os)) (publish_claimed bus now claimed rows'))"

definition published_count :: "publish_outcome list \<Rightarrow> nat" where
  "published_count os = length (filter (\<lambda>x. case x of PubOk _ \<Rightarrow> True | PubFailed _ _ \<Rightarrow> False) os)"

end
