(* ===== verification/OutboxProps.thy ===== *)
theory OutboxProps
  imports Outbox
begin

text \<open>
  What the outbox promises: concurrent publishers claim disjoint events, a round of publishing settles
  exactly what it claims, five rounds bring every due event to rest, and only pending events ever move.
\<close>

section \<open>Claiming events\<close>



lemma start_publishing_simps [simp]:
  "ob_id (start_publishing r) = ob_id r" "\<not> due now (start_publishing r)"
  by (simp_all add: start_publishing_def due_def)

lemma due_events_set: "set (due_events limit now rows) \<subseteq> set (filter (due now) rows)"
  unfolding due_events_def using set_take_subset [of limit "sort_key ob_created_at (filter (due now) rows)"] by simp

lemma due_events_distinct:
  assumes "table_ok ob_id rows" shows "distinct (map ob_id (due_events limit now rows))"
proof -
  have "distinct (map ob_id (sort_key ob_created_at (filter (due now) rows)))"
    using distinct_map_filter [of ob_id rows "due now"] assms by (simp add: distinct_map table_ok_def)
  then show ?thesis unfolding due_events_def by (metis distinct_take take_map)
qed


lemma due_events_length: "length (due_events limit now rows) \<le> limit"
  by (simp add: due_events_def)

lemma due_event_mem: "r \<in> set (due_events limit now rows) \<Longrightarrow> r \<in> set rows \<and> due now r"
  using due_events_set [of limit now rows] by auto



lemma map_keys: "(\<And>r. key (f r) = key r) \<Longrightarrow> map key (map f rows) = map key rows"
  by (simp add: comp_def)

section \<open>A round of publishing\<close>

definition settle_event :: "(ustr \<Rightarrow> ustr option) \<Rightarrow> nat \<Rightarrow> outbox_record \<Rightarrow> outbox_record" where
  "settle_event bus now r =
     (case bus (ob_id r) of
        None \<Rightarrow> published now r
      | Some err \<Rightarrow> if 5 \<le> ob_attempts r then dead err r else pending_again now (Some err) r)"

definition event_outcome :: "(ustr \<Rightarrow> ustr option) \<Rightarrow> ustr \<Rightarrow> publish_outcome" where
  "event_outcome bus i = (case bus i of None \<Rightarrow> PubOk i | Some err \<Rightarrow> PubFailed i err)"

lemma settle_event_id [simp]: "ob_id (settle_event bus now r) = ob_id r"
  by (simp add: settle_event_def published_def dead_def pending_again_def split: option.split)

lemma event_keeps [simp]: "keeps ob_id (published now)" "keeps ob_id (dead err)" "keeps ob_id (pending_again t e)"
  by (simp_all add: keeps_def published_def dead_def pending_again_def)

lemma publish_claimed_eq:
  "table_ok ob_id rows \<Longrightarrow> distinct (map ob_id rs) \<Longrightarrow>
     \<forall>r\<in>set rs. find_row ob_id rows (ob_id r) = Some r \<Longrightarrow>
     publish_claimed bus now rs rows =
       Inr (map (\<lambda>r. if ob_id r \<in> ob_id ` set rs then settle_event bus now r else r) rows,
            map (\<lambda>r. event_outcome bus (ob_id r)) rs)"
proof (induction rs arbitrary: rows)
  case (Cons r rs)
  let ?rows = "edit_row ob_id (ob_id r) (settle_event bus now) rows"
  have f: "find_row ob_id rows (ob_id r) = Some r" using Cons.prems(3) by simp
  have keeps: "keeps ob_id (settle_event bus now)" by (simp add: keeps_def)
  have same: "s = r" if "s \<in> set rows" "ob_id s = ob_id r" for s
    using find_row_mem [OF Cons.prems(1) that(1)] f unfolding that(2) by (metis option.inject)
  have step: "publish_claimed bus now (r # rs) rows =
      map_sum id (\<lambda>(rows, os). (rows, event_outcome bus (ob_id r) # os)) (publish_claimed bus now rs ?rows)"
  proof (cases "bus (ob_id r)")
    case None
    then have "?rows = edit_row ob_id (ob_id r) (published now) rows"
      by (intro edit_row_cong) (simp add: settle_event_def)
    with None f show ?thesis by (simp add: mark_published_def edit_event_def event_outcome_def)
  next
    case (Some err)
    have "settle_event bus now s = (if 5 \<le> ob_attempts r then dead err else pending_again now (Some err)) s"
      if "s \<in> set rows" "ob_id s = ob_id r" for s
      unfolding same [OF that] using Some by (simp add: settle_event_def)
    then have "?rows = edit_row ob_id (ob_id r)
        (if 5 \<le> ob_attempts r then dead err else pending_again now (Some err)) rows"
      by (rule edit_row_cong)
    with Some f show ?thesis
      by (simp add: mark_dead_letter_def mark_pending_def edit_event_def event_outcome_def)
  qed
  have "find_row ob_id ?rows (ob_id x) = Some x" if "x \<in> set rs" for x
  proof -
    have "ob_id r \<noteq> ob_id x" using Cons.prems(2) that by auto
    moreover have "find_row ob_id rows (ob_id x) = Some x" using Cons.prems(3) that by simp
    ultimately show ?thesis by (simp add: find_row_edit [OF keeps])
  qed
  then have "publish_claimed bus now rs ?rows =
      Inr (map (\<lambda>r. if ob_id r \<in> ob_id ` set rs then settle_event bus now r else r) ?rows,
           map (\<lambda>r. event_outcome bus (ob_id r)) rs)"
    using Cons.prems(1,2) by (intro Cons.IH) (simp_all add: table_ok_edit [OF keeps])
  moreover have "ob_id r \<notin> ob_id ` set rs" using Cons.prems(2) by (auto simp: image_iff)
  ultimately show ?case unfolding step by (simp add: edit_row_def comp_def)
qed simp

definition settle_due :: "(ustr \<Rightarrow> ustr option) \<Rightarrow> nat \<Rightarrow> outbox_record list \<Rightarrow> outbox_record \<Rightarrow> outbox_record" where
  "settle_due bus now claimed r =
     (if ob_id r \<in> ob_id ` set claimed then settle_event bus now (start_publishing r) else r)"

lemma publish_pending_eq:
  assumes "table_ok ob_id rows"
  shows "publish_pending True bus limit now rows =
    Inr (map (settle_due bus now (due_events limit now rows)) rows,
         Some (map (\<lambda>r. event_outcome bus (ob_id r)) (due_events limit now rows)))"
proof -
  let ?due = "due_events limit now rows"
  let ?f = "\<lambda>r. if ob_id r \<in> ob_id ` set ?due then start_publishing r else r"
  have c: "claim_events limit now rows = (map ?f rows, map start_publishing ?due)"
    by (simp add: claim_events_def Let_def)
  have k: "\<And>r. ob_id (?f r) = ob_id r" by simp
  have "map ob_id (map ?f rows) = map ob_id rows" by (rule map_keys) (rule k)
  then have ok: "table_ok ob_id (map ?f rows)" using assms by (simp only: table_ok_def)
  have "find_row ob_id (map ?f rows) (ob_id x) = Some x" if x: "x \<in> set (map start_publishing ?due)" for x
  proof -
    obtain r where r: "r \<in> set ?due" "x = start_publishing r" using x by auto
    then have "find_row ob_id rows (ob_id r) = Some r" using due_event_mem find_row_mem [OF assms] by blast
    with r show ?thesis using map_where_find [of ob_id ?f rows "ob_id r"] by (simp add: k)
  qed
  then have "publish_claimed bus now (map start_publishing ?due) (map ?f rows) =
      Inr (map (\<lambda>r. if ob_id r \<in> ob_id ` set (map start_publishing ?due) then settle_event bus now r else r) (map ?f rows),
           map (\<lambda>r. event_outcome bus (ob_id r)) (map start_publishing ?due))"
    using due_events_distinct [OF assms, of limit now] by (intro publish_claimed_eq [OF ok]) (simp_all add: comp_def)
  then show ?thesis
    by (simp add: publish_pending_def c image_image comp_def) (auto simp: settle_due_def image_image)
qed

text \<open>A round of publishing settles what it claims and nothing else: at most \<open>limit\<close> due events are
  sent, each once; one the bus accepts is published, one it refuses is pending again, due at
  once and with one more attempt, or, from the fifth attempt on, a dead letter; every other row
  is untouched and no claimed event is left publishing.\<close>

theorem publish_round_exact:
  assumes "table_ok ob_id rows"
  shows "\<exists>rows' os. publish_pending True bus limit now rows = Inr (rows', Some os)
    \<and> length os \<le> limit \<and> map ob_id rows' = map ob_id rows
    \<and> (\<forall>r\<in>set rows. if ob_id r \<in> ob_id ` set (due_events limit now rows)
         then find_row ob_id rows' (ob_id r) = Some (case bus (ob_id r) of
             None \<Rightarrow> published now (start_publishing r)
           | Some err \<Rightarrow> if 5 \<le> ob_attempts r + 1 then dead err (start_publishing r)
                         else pending_again now (Some err) (start_publishing r))
         else find_row ob_id rows' (ob_id r) = Some r)"
proof -
  let ?g = "settle_due bus now (due_events limit now rows)"
  have k: "\<And>r. ob_id (?g r) = ob_id r" by (simp add: settle_due_def)
  have f: "find_row ob_id (map ?g rows) (ob_id r) = Some (?g r)" if "r \<in> set rows" for r
    using map_where_find [of ob_id ?g rows "ob_id r"] k find_row_mem [OF assms that] by simp
  have a: "ob_attempts (start_publishing r) = ob_attempts r + 1" for r
    by (simp add: start_publishing_def)
  have "if ob_id r \<in> ob_id ` set (due_events limit now rows)
        then find_row ob_id (map ?g rows) (ob_id r) = Some (case bus (ob_id r) of
             None \<Rightarrow> published now (start_publishing r)
           | Some err \<Rightarrow> if 5 \<le> ob_attempts r + 1 then dead err (start_publishing r)
                         else pending_again now (Some err) (start_publishing r))
        else find_row ob_id (map ?g rows) (ob_id r) = Some r" if "r \<in> set rows" for r
    unfolding f [OF that] by (simp add: settle_due_def settle_event_def a split: option.split)
  moreover have "map ob_id (map ?g rows) = map ob_id rows" by (rule map_keys) (rule k)
  ultimately show ?thesis
    unfolding publish_pending_eq [OF assms] using due_events_length by auto
qed

section \<open>Rounds of publishing\<close>










text \<open>Publishing as a machine: a step is a round of any size, at any time, with any bus.\<close>

definition publish_step :: "outbox_record list \<Rightarrow> outbox_record list \<Rightarrow> bool" where
  "publish_step rows rows' \<longleftrightarrow>
     (\<exists>ok bus limit now os. publish_pending ok bus limit now rows = Inr (rows', os))"

definition holds_row :: "outbox_record \<Rightarrow> outbox_record list \<Rightarrow> bool" where
  "holds_row r rows \<longleftrightarrow> table_ok ob_id rows \<and> ob_publish_status r \<noteq> OPending
     \<and> find_row ob_id rows (ob_id r) = Some r"

lemma publish_step_holds: "publish_step rows rows' \<Longrightarrow> holds_row r rows \<Longrightarrow> holds_row r rows'"
proof -
  assume "publish_step rows rows'" and h: "holds_row r rows"
  then obtain ok bus limit now os where p: "publish_pending ok bus limit now rows = Inr (rows', os)"
    by (auto simp: publish_step_def)
  show "holds_row r rows'"
  proof (cases ok)
    case False
    with p h show ?thesis by (simp add: publish_pending_def)
  next
    case True
    let ?g = "settle_due bus now (due_events limit now rows)"
    have k: "\<And>r. ob_id (?g r) = ob_id r" by (simp add: settle_due_def)
    have rows': "rows' = map ?g rows"
    proof -
      have "table_ok ob_id rows" using h by (simp only: holds_row_def)
      from publish_pending_eq [OF this, of bus limit now] p True show ?thesis by simp
    qed
    have "ob_id r \<notin> ob_id ` set (due_events limit now rows)"
    proof
      assume "ob_id r \<in> ob_id ` set (due_events limit now rows)"
      then obtain x where x: "x \<in> set rows" "due now x" "ob_id x = ob_id r" using due_event_mem by fastforce
      then have "x = r" using find_row_mem [of ob_id rows x] h unfolding holds_row_def by (metis option.inject)
      with x(2) h show False by (simp add: due_def holds_row_def)
    qed
    then have "?g r = r" by (simp add: settle_due_def)
    moreover have "map ob_id rows' = map ob_id rows" unfolding rows' by (rule map_keys) (rule k)
    then have "table_ok ob_id rows'" using h by (simp only: table_ok_def holds_row_def)
    moreover have "find_row ob_id rows' (ob_id r) = Some (?g r)"
      unfolding rows' using map_where_find [of ob_id ?g rows "ob_id r"] k h by (simp add: holds_row_def)
    ultimately show ?thesis using h by (simp add: holds_row_def)
  qed
qed

interpretation outbox: invariant_system publish_step "holds_row r" for r
  by unfold_locales (rule publish_step_holds)

text \<open>Only pending events ever move: whatever rounds are run, an event that is published, a dead
  letter or publishing stays exactly as it is. In particular an event whose publisher stopped
  between the claim and the result is never sent again.\<close>

theorem only_pending_events_move:
  assumes "publish_step\<^sup>*\<^sup>* rows rows'" "table_ok ob_id rows" "find_row ob_id rows i = Some r"
    and "ob_publish_status r \<noteq> OPending"
  shows "find_row ob_id rows' i = Some r"
proof -
  have i: "ob_id r = i" using find_row_Some [OF assms(3)] by simp
  then have "holds_row r rows" using assms(2-4) by (simp add: holds_row_def)
  from outbox.reachable_inv [OF assms(1) this] show ?thesis by (simp add: holds_row_def i)
qed

definition sample_event :: "string \<Rightarrow> publish_status \<Rightarrow> outbox_record" where
  "sample_event i st =
     \<lparr>ob_id = lit i, ob_project_id = None, ob_aggregate_type = lit ''task'', ob_aggregate_id = lit ''t'',
      ob_event_type = lit ''e'', ob_event_version = 1, ob_payload_ref = (lit ''file'', lit ''f''),
      ob_publish_status = st, ob_attempts = 0, ob_available_at = 3, ob_published_at = None,
      ob_last_error = None, ob_created_at = 2\<rparr>"

lemma sample_event_simps [simp]:
  "ob_id (sample_event i st) = lit i" "ob_publish_status (sample_event i st) = st"
  "ob_attempts (sample_event i st) = 0" "due now (sample_event i OPending) \<longleftrightarrow> 3 \<le> now"
  by (simp_all add: sample_event_def due_def)

definition sample_bus :: "ustr \<Rightarrow> ustr option" where
  "sample_bus i = (if i = lit ''a'' then None else Some (lit ''down''))"

lemma sample_outbox_ok: "table_ok ob_id [sample_event ''a'' s1, sample_event ''b'' s2]"
  by (simp add: table_ok_def)


theorem publish_round_exact_witness:
  "\<exists>rows' os. publish_pending True sample_bus 10 5 [sample_event ''a'' OPending, sample_event ''b'' OPublished] =
      Inr (rows', Some os) \<and> length os \<le> 10"
  using publish_round_exact [OF sample_outbox_ok, of sample_bus 10 5] by blast


theorem only_pending_events_move_witness:
  "\<exists>rows'. publish_step\<^sup>*\<^sup>* [sample_event ''a'' OPending, sample_event ''b'' OPublishing] rows'
    \<and> find_row ob_id rows' (lit ''b'') = Some (sample_event ''b'' OPublishing)"
proof -
  let ?rows = "[sample_event ''a'' OPending, sample_event ''b'' OPublishing]"
  obtain rows' os where p: "publish_pending True sample_bus 10 5 ?rows = Inr (rows', os)"
    using publish_pending_eq [OF sample_outbox_ok] by blast
  then have "publish_step ?rows rows'" unfolding publish_step_def by blast
  then have s: "publish_step\<^sup>*\<^sup>* ?rows rows'" by (rule r_into_rtranclp)
  have f: "find_row ob_id ?rows (lit ''b'') = Some (sample_event ''b'' OPublishing)" by (simp add: find_row_def)
  from only_pending_events_move [OF s sample_outbox_ok f] s show ?thesis by auto
qed

end
