(* ===== verification/TaskStore.thy ===== *)
theory TaskStore
  imports WorkQueue Outbox
begin

text \<open>
  Tasks and agent runs of \<open>TaskRepository\<close> (\<open>persistence/repositories/task.py\<close>). A payload
  is a record with one field per key the code reads: for a key tested with \<open>in\<close>, \<open>None\<close> is
  the absent key and \<open>Some None\<close> the key with a null; for a key read with \<open>get\<close>,
  \<open>None\<close> is either. Costs are rationals. Statuses and run types are the literals of
  \<open>domain.py\<close>, so a payload carries one of them.
\<close>

section \<open>Rows\<close>

datatype task_status = TkDraft | TkQueued | TkRunning | TkPaused | TkResumeBlocked
  | TkRestartRequested | TkRestarting | TkCancelling | TkAwaitingApproval | TkCompleted
  | TkFailed | TkCancelled

datatype run_type = RtMain | RtSubagent | RtFork | RtMaintenance | RtEvaluation

datatype run_status = RnInitializing | RnMounting | RnRunning | RnWaitingTool | RnDraining
  | RnPausing | RnPaused | RnCompleted | RnFailed | RnAborted

datatype child_budget_mode = Inherit | Fixed | Capped

record budget_state =
  bs_token_budget_total :: "int option"
  bs_token_budget_used :: int
  bs_cost_budget_total :: "rat option"
  bs_cost_budget_used :: rat
  bs_self_think_token_limit :: "int option"
  bs_child_budget_mode :: child_budget_mode
  bs_max_sub_agents :: "int option"

definition default_budget :: budget_state where
  "default_budget =
     \<lparr>bs_token_budget_total = None, bs_token_budget_used = 0, bs_cost_budget_total = None,
      bs_cost_budget_used = 0, bs_self_think_token_limit = None, bs_child_budget_mode = Inherit,
      bs_max_sub_agents = None\<rparr>"

record task_row =
  tk_id :: ustr
  tk_app_id :: ustr
  tk_project_id :: ustr
  tk_space_id :: ustr
  tk_branch_id :: ustr
  tk_title :: ustr
  tk_goal :: ustr
  tk_status :: task_status
  tk_current_focus :: "ustr option"
  tk_current_objective :: "ustr option"
  tk_resume_message :: "ustr option"
  tk_restart_message :: "ustr option"
  tk_owner_profile_id :: ustr
  tk_execution_root_node_id :: "ustr option"
  tk_active_snapshot_id :: "ustr option"
  tk_active_resume_attempt_id :: "ustr option"
  tk_resume_blocked_reason :: "ustr option"
  tk_pending_control_intent :: "ustr option"
  tk_window_index :: int
  tk_restart_count :: int
  tk_cumulative_window_span_tokens :: int
  tk_carry_forward_loss_count :: int
  tk_budget :: budget_state
  tk_pause_requested :: bool
  tk_last_safe_stop_at :: "nat option"
  tk_started_at :: "nat option"
  tk_ended_at :: "nat option"
  tk_created_at :: nat
  tk_updated_at :: nat

record run_row =
  ru_id :: ustr
  ru_app_id :: ustr
  ru_task_id :: ustr
  ru_project_id :: ustr
  ru_branch_id :: ustr
  ru_parent_run_id :: "ustr option"
  ru_run_type :: run_type
  ru_fork_root_run_id :: "ustr option"
  ru_fork_depth :: int
  ru_assigned_work_tree_node_id :: "ustr option"
  ru_parent_context_anchor :: "ustr option"
  ru_fork_group_id :: "ustr option"
  ru_selected_model :: ustr
  ru_selected_provider :: "ustr option"
  ru_route_decision_id :: "ustr option"
  ru_status :: run_status
  ru_next_objective :: "ustr option"
  ru_window_index :: int
  ru_restart_count :: int
  ru_cumulative_window_span_tokens :: int
  ru_input_tokens_used :: int
  ru_output_tokens_used :: int
  ru_cost_used :: rat
  ru_started_at :: nat
  ru_ended_at :: "nat option"

section \<open>Tasks\<close>

record task_payload =
  tp_id :: "ustr option"
  tp_title :: "ustr option"
  tp_goal :: "ustr option"
  tp_objective :: "ustr option"
  tp_status :: "task_status option"
  tp_app_id :: "ustr option"
  tp_project_id :: "ustr option"
  tp_space_id :: "ustr option"
  tp_branch_id :: "ustr option"
  tp_current_focus :: "ustr option"
  tp_current_objective :: "ustr option"
  tp_resume_message :: "ustr option"
  tp_restart_message :: "ustr option"
  tp_owner_profile_id :: "ustr option"
  tp_execution_root_node_id :: "ustr option"
  tp_window_index :: "int option"
  tp_restart_count :: "int option"
  tp_cumulative_window_span_tokens :: "int option"
  tp_carry_forward_loss_count :: "int option"
  tp_budget :: "budget_state option"
  tp_budget_state :: "budget_state option"
  tp_pause_requested :: "bool option"

definition default_app_id :: ustr where
  "default_app_id = lit ''yggdrasil.app.base''"

text \<open>\<open>payload.get("budget") or payload.get("budgetState") or {}\<close>, validated; an empty dictionary
  counts as \<open>None\<close>.\<close>

definition budget_of :: "budget_state option \<Rightarrow> budget_state option \<Rightarrow> budget_state" where
  "budget_of budget state = (case budget of Some b \<Rightarrow> b | None \<Rightarrow> value_or state default_budget)"

text \<open>
  \<open>create_task\<close>. \<open>workspace\<close> is the outcome of \<open>_ensure_task_workspace\<close>: its error, or
  the id of the execution root of the branch. \<open>fresh_root\<close> is the stable id that stands in for an
  empty one.
\<close>

definition create_task ::
  "nat \<Rightarrow> ustr \<Rightarrow> ustr \<Rightarrow> ustr option res \<Rightarrow> task_payload \<Rightarrow> task_row list
     \<Rightarrow> (task_row list \<times> task_row) res" where
  "create_task now fresh fresh_root workspace p tasks =
     (case workspace of
        Inl err \<Rightarrow> Inl err
      | Inr rid \<Rightarrow>
          (let t = \<lparr>tk_id = text_or (tp_id p) fresh, tk_app_id = text_or (tp_app_id p) default_app_id,
                    tk_project_id = text_or (tp_project_id p) (lit ''project_default''),
                    tk_space_id = text_or (tp_space_id p) (lit ''space_default''),
                    tk_branch_id = text_or (tp_branch_id p) (lit ''branch_main''),
                    tk_title = text_or (tp_title p) (lit ''Untitled Task''),
                    tk_goal = text_or (tp_goal p) (text_or (tp_objective p) []),
                    tk_status = value_or (tp_status p) TkDraft,
                    tk_current_focus = tp_current_focus p, tk_current_objective = tp_current_objective p,
                    tk_resume_message = tp_resume_message p, tk_restart_message = tp_restart_message p,
                    tk_owner_profile_id = text_or (tp_owner_profile_id p) (lit ''identity_profile_default''),
                    tk_execution_root_node_id =
                      Some (text_or (tp_execution_root_node_id p) (text_or rid fresh_root)),
                    tk_active_snapshot_id = None, tk_active_resume_attempt_id = None,
                    tk_resume_blocked_reason = None, tk_pending_control_intent = None,
                    tk_window_index = max (value_or (tp_window_index p) 1) 1,
                    tk_restart_count = max (value_or (tp_restart_count p) 0) 0,
                    tk_cumulative_window_span_tokens =
                      max (value_or (tp_cumulative_window_span_tokens p) 0) 0,
                    tk_carry_forward_loss_count = max (value_or (tp_carry_forward_loss_count p) 0) 0,
                    tk_budget = budget_of (tp_budget p) (tp_budget_state p),
                    tk_pause_requested = value_or (tp_pause_requested p) False,
                    tk_last_safe_stop_at = None, tk_started_at = None, tk_ended_at = None,
                    tk_created_at = now, tk_updated_at = now\<rparr>
           in map_sum id (\<lambda>rows. (rows, t)) (add_row tk_id t tasks)))"

record task_update =
  tu_updated_at :: "nat option"
  tu_status :: "task_status option"
  tu_started_at :: "nat option"
  tu_ended_at :: "nat option"
  tu_current_focus :: "ustr option option"
  tu_current_objective :: "ustr option option"
  tu_resume_message :: "ustr option option"
  tu_restart_message :: "ustr option option"
  tu_app_id :: "ustr option option"
  tu_execution_root_node_id :: "ustr option option"
  tu_active_snapshot_id :: "ustr option option"
  tu_active_resume_attempt_id :: "ustr option option"
  tu_resume_blocked_reason :: "ustr option option"
  tu_pending_control_intent :: "ustr option option"
  tu_window_index :: "int option"
  tu_restart_count :: "int option"
  tu_cumulative_window_span_tokens :: "int option"
  tu_carry_forward_loss_count :: "int option"
  tu_pause_requested :: "bool option"
  tu_last_safe_stop_at :: "nat option option"
  tu_budget :: "budget_state option option"
  tu_budget_state :: "budget_state option option"

text \<open>The update without any key.\<close>

definition no_update :: task_update where
  "no_update =
     \<lparr>tu_updated_at = None, tu_status = None, tu_started_at = None, tu_ended_at = None,
      tu_current_focus = None, tu_current_objective = None, tu_resume_message = None,
      tu_restart_message = None, tu_app_id = None, tu_execution_root_node_id = None,
      tu_active_snapshot_id = None, tu_active_resume_attempt_id = None,
      tu_resume_blocked_reason = None, tu_pending_control_intent = None, tu_window_index = None,
      tu_restart_count = None, tu_cumulative_window_span_tokens = None,
      tu_carry_forward_loss_count = None, tu_pause_requested = None, tu_last_safe_stop_at = None,
      tu_budget = None, tu_budget_state = None\<rparr>"

definition set_task_status :: "nat \<Rightarrow> task_update \<Rightarrow> task_row \<Rightarrow> task_row" where
  "set_task_status now u t =
     (case tu_status u of
        None \<Rightarrow> t
      | Some s \<Rightarrow>
          t\<lparr>tk_status := s,
            tk_started_at := (if s \<in> {TkRunning, TkRestarting}
              then Some (value_or (tu_started_at u) (value_or (tk_started_at t) now))
              else tk_started_at t),
            tk_ended_at := (if s \<in> {TkCompleted, TkFailed, TkCancelled}
              then Some (value_or (tu_ended_at u) now) else tk_ended_at t)\<rparr>)"

definition apply_task_update :: "nat \<Rightarrow> task_update \<Rightarrow> task_row \<Rightarrow> task_row" where
  "apply_task_update clock u t =
     (let now = value_or (tu_updated_at u) clock; t = set_task_status now u t
      in t\<lparr>tk_current_focus := value_or (tu_current_focus u) (tk_current_focus t),
           tk_current_objective := value_or (tu_current_objective u) (tk_current_objective t),
           tk_resume_message := value_or (tu_resume_message u) (tk_resume_message t),
           tk_restart_message := value_or (tu_restart_message u) (tk_restart_message t),
           tk_app_id := (case tu_app_id u of None \<Rightarrow> tk_app_id t | Some a \<Rightarrow> value_or a default_app_id),
           tk_execution_root_node_id :=
             value_or (tu_execution_root_node_id u) (tk_execution_root_node_id t),
           tk_active_snapshot_id := value_or (tu_active_snapshot_id u) (tk_active_snapshot_id t),
           tk_active_resume_attempt_id :=
             value_or (tu_active_resume_attempt_id u) (tk_active_resume_attempt_id t),
           tk_resume_blocked_reason :=
             value_or (tu_resume_blocked_reason u) (tk_resume_blocked_reason t),
           tk_pending_control_intent :=
             value_or (tu_pending_control_intent u) (tk_pending_control_intent t),
           tk_window_index :=
             (case tu_window_index u of None \<Rightarrow> tk_window_index t | Some n \<Rightarrow> max n 1),
           tk_restart_count :=
             (case tu_restart_count u of None \<Rightarrow> tk_restart_count t | Some n \<Rightarrow> max n 0),
           tk_cumulative_window_span_tokens :=
             (case tu_cumulative_window_span_tokens u of
                None \<Rightarrow> tk_cumulative_window_span_tokens t | Some n \<Rightarrow> max n 0),
           tk_carry_forward_loss_count :=
             (case tu_carry_forward_loss_count u of
                None \<Rightarrow> tk_carry_forward_loss_count t | Some n \<Rightarrow> max n 0),
           tk_pause_requested := value_or (tu_pause_requested u) (tk_pause_requested t),
           tk_last_safe_stop_at := value_or (tu_last_safe_stop_at u) (tk_last_safe_stop_at t),
           tk_budget := (if tu_budget u = None \<and> tu_budget_state u = None then tk_budget t
             else budget_of (value_or (tu_budget u) None) (value_or (tu_budget_state u) None)),
           tk_updated_at := now\<rparr>)"

definition task_not_found :: "ustr \<Rightarrow> py_error" where
  "task_not_found i = KeyError (lit ''Task '' @ i @ lit '' not found.'')"

definition get_task :: "ustr \<Rightarrow> task_row list \<Rightarrow> task_row option" where
  "get_task i tasks = find_row tk_id tasks i"

definition list_tasks :: "task_status option \<Rightarrow> ustr option \<Rightarrow> nat \<Rightarrow> task_row list \<Rightarrow> task_row list" where
  "list_tasks status app limit tasks =
     take limit (rev (sort_key tk_created_at
       (filter (\<lambda>t. (status = None \<or> status = Some (tk_status t))
          \<and> (value_or app [] = [] \<or> app = Some (tk_app_id t))) tasks)))"

definition update_task ::
  "nat \<Rightarrow> ustr \<Rightarrow> task_update \<Rightarrow> task_row list \<Rightarrow> (task_row list \<times> task_row) res" where
  "update_task now i u tasks =
     (case find_row tk_id tasks i of
        None \<Rightarrow> Inl (task_not_found i)
      | Some t \<Rightarrow> Inr (edit_row tk_id i (apply_task_update now u) tasks, apply_task_update now u t))"

section \<open>Agent runs\<close>

text \<open>The payload of a new run, and the six fields a fork needs.\<close>

record run_payload =
  rp_id :: "ustr option"
  rp_app_id :: "ustr option"
  rp_run_type :: "run_type option"
  rp_parent_run_id :: "ustr option"
  rp_fork_root_run_id :: "ustr option"
  rp_fork_depth :: "int option"
  rp_assigned_work_tree_node_id :: "ustr option"
  rp_parent_context_anchor :: "ustr option"
  rp_fork_group_id :: "ustr option"
  rp_selected_model :: "ustr option"
  rp_selected_provider :: "ustr option"
  rp_route_decision_id :: "ustr option"
  rp_status :: "run_status option"
  rp_next_objective :: "ustr option"
  rp_window_index :: "int option"
  rp_restart_count :: "int option"
  rp_cumulative_window_span_tokens :: "int option"
  rp_input_tokens_used :: "int option"
  rp_output_tokens_used :: "int option"
  rp_cost_used :: "rat option"

definition required_str :: "string \<Rightarrow> ustr option \<Rightarrow> unit res" where
  "required_str key v =
     (if strip (value_or v []) = [] then Inl (ValueError (lit (''runType=fork requires '' @ key @ ''.'')))
      else Inr ())"

fun check_all :: "unit res list \<Rightarrow> unit res" where
  "check_all [] = Inr ()"
| "check_all (c # cs) = (case c of Inl err \<Rightarrow> Inl err | Inr _ \<Rightarrow> check_all cs)"

definition validate_fork_agent_run_fields ::
  "run_type option \<Rightarrow> ustr option \<Rightarrow> ustr option \<Rightarrow> ustr option \<Rightarrow> ustr option \<Rightarrow> ustr option
     \<Rightarrow> int option \<Rightarrow> unit res" where
  "validate_fork_agent_run_fields run_type parent root_run node anchor grp depth =
     (if value_or run_type RtMain \<noteq> RtFork then Inr ()
      else check_all
        [required_str ''parentRunId'' parent, required_str ''forkRootRunId'' root_run,
         required_str ''assignedWorkTreeNodeId'' node, required_str ''parentContextAnchor'' anchor,
         required_str ''forkGroupId'' grp,
         if int_or depth 0 < 1 then Inl (ValueError (lit ''runType=fork requires forkDepth >= 1.''))
         else Inr ()])"

text \<open>The run of \<open>create_agent_run\<close>, and the task it wakes.\<close>

definition new_run :: "nat \<Rightarrow> ustr \<Rightarrow> ustr \<Rightarrow> run_payload \<Rightarrow> task_row \<Rightarrow> run_row" where
  "new_run now fresh app p t =
     \<lparr>ru_id = text_or (rp_id p) fresh, ru_app_id = app, ru_task_id = tk_id t,
      ru_project_id = tk_project_id t, ru_branch_id = tk_branch_id t,
      ru_parent_run_id = rp_parent_run_id p, ru_run_type = value_or (rp_run_type p) RtMain,
      ru_fork_root_run_id = rp_fork_root_run_id p, ru_fork_depth = max (value_or (rp_fork_depth p) 0) 0,
      ru_assigned_work_tree_node_id = rp_assigned_work_tree_node_id p,
      ru_parent_context_anchor = rp_parent_context_anchor p, ru_fork_group_id = rp_fork_group_id p,
      ru_selected_model = text_or (rp_selected_model p) (lit ''gpt-5.4''),
      ru_selected_provider = rp_selected_provider p, ru_route_decision_id = rp_route_decision_id p,
      ru_status = value_or (rp_status p) RnInitializing, ru_next_objective = rp_next_objective p,
      ru_window_index = max (value_or (rp_window_index p) 1) 1,
      ru_restart_count = max (value_or (rp_restart_count p) 0) 0,
      ru_cumulative_window_span_tokens = max (value_or (rp_cumulative_window_span_tokens p) 0) 0,
      ru_input_tokens_used = value_or (rp_input_tokens_used p) 0,
      ru_output_tokens_used = value_or (rp_output_tokens_used p) 0,
      ru_cost_used = value_or (rp_cost_used p) 0, ru_started_at = now, ru_ended_at = None\<rparr>"

definition wake_task :: "nat \<Rightarrow> run_row \<Rightarrow> task_row \<Rightarrow> task_row" where
  "wake_task now r t =
     (if tk_status t \<in> {TkDraft, TkQueued} \<and> ru_status r \<in> {RnInitializing, RnMounting, RnRunning}
      then t\<lparr>tk_status := TkRunning, tk_started_at := Some (value_or (tk_started_at t) now),
             tk_updated_at := now\<rparr>
      else t)"

definition create_agent_run ::
  "nat \<Rightarrow> ustr \<Rightarrow> ustr \<Rightarrow> run_payload \<Rightarrow> task_row list \<Rightarrow> run_row list
     \<Rightarrow> (task_row list \<times> run_row list \<times> run_row) res" where
  "create_agent_run now fresh task_id p tasks runs =
     (case find_row tk_id tasks task_id of
        None \<Rightarrow> Inl (task_not_found task_id)
      | Some t \<Rightarrow>
          (case validate_fork_agent_run_fields (rp_run_type p) (rp_parent_run_id p) (rp_fork_root_run_id p)
                  (rp_assigned_work_tree_node_id p) (rp_parent_context_anchor p) (rp_fork_group_id p)
                  (rp_fork_depth p) of
             Inl err \<Rightarrow> Inl err
           | Inr _ \<Rightarrow>
               (let app = text_or (rp_app_id p) (str_or (tk_app_id t) default_app_id);
                    r = new_run now fresh app p t
                in if tk_app_id t \<noteq> [] \<and> app \<noteq> tk_app_id t then
                     Inl (ValueError (lit ''Agent run appId '' @ app @ lit '' does not match task ''
                       @ task_id @ lit '' appId '' @ tk_app_id t @ lit ''.''))
                   else map_sum id (\<lambda>runs'. (edit_row tk_id task_id (wake_task now r) tasks, runs', r))
                     (add_row ru_id r runs))))"

record run_update =
  xu_parent_run_id :: "ustr option option"
  xu_run_type :: "run_type option"
  xu_fork_root_run_id :: "ustr option option"
  xu_fork_depth :: "int option"
  xu_assigned_work_tree_node_id :: "ustr option option"
  xu_parent_context_anchor :: "ustr option option"
  xu_fork_group_id :: "ustr option option"
  xu_selected_model :: "ustr option"
  xu_selected_provider :: "ustr option option"
  xu_route_decision_id :: "ustr option option"
  xu_status :: "run_status option"
  xu_ended_at :: "nat option"
  xu_next_objective :: "ustr option option"
  xu_window_index :: "int option"
  xu_restart_count :: "int option"
  xu_cumulative_window_span_tokens :: "int option"
  xu_input_tokens_used :: "int option"
  xu_output_tokens_used :: "int option"
  xu_cost_used :: "rat option"

definition no_run_update :: run_update where
  "no_run_update =
     \<lparr>xu_parent_run_id = None, xu_run_type = None, xu_fork_root_run_id = None, xu_fork_depth = None,
      xu_assigned_work_tree_node_id = None, xu_parent_context_anchor = None, xu_fork_group_id = None,
      xu_selected_model = None, xu_selected_provider = None, xu_route_decision_id = None,
      xu_status = None, xu_ended_at = None, xu_next_objective = None, xu_window_index = None,
      xu_restart_count = None, xu_cumulative_window_span_tokens = None, xu_input_tokens_used = None,
      xu_output_tokens_used = None, xu_cost_used = None\<rparr>"

text \<open>The assignments of \<open>update_agent_run\<close>; the run type is validated but never assigned.\<close>

definition apply_run_update :: "nat \<Rightarrow> run_update \<Rightarrow> run_row \<Rightarrow> run_row" where
  "apply_run_update now u r =
     r\<lparr>ru_parent_run_id := value_or (xu_parent_run_id u) (ru_parent_run_id r),
       ru_fork_root_run_id := value_or (xu_fork_root_run_id u) (ru_fork_root_run_id r),
       ru_fork_depth := (case xu_fork_depth u of None \<Rightarrow> ru_fork_depth r | Some n \<Rightarrow> max n 0),
       ru_assigned_work_tree_node_id :=
         value_or (xu_assigned_work_tree_node_id u) (ru_assigned_work_tree_node_id r),
       ru_parent_context_anchor := value_or (xu_parent_context_anchor u) (ru_parent_context_anchor r),
       ru_fork_group_id := value_or (xu_fork_group_id u) (ru_fork_group_id r),
       ru_selected_model := value_or (xu_selected_model u) (ru_selected_model r),
       ru_selected_provider := value_or (xu_selected_provider u) (ru_selected_provider r),
       ru_route_decision_id := value_or (xu_route_decision_id u) (ru_route_decision_id r),
       ru_status := value_or (xu_status u) (ru_status r),
       ru_ended_at := (if xu_status u \<in> {Some RnCompleted, Some RnFailed, Some RnAborted}
         then Some (value_or (xu_ended_at u) now) else ru_ended_at r),
       ru_next_objective := value_or (xu_next_objective u) (ru_next_objective r),
       ru_window_index := (case xu_window_index u of None \<Rightarrow> ru_window_index r | Some n \<Rightarrow> max n 1),
       ru_restart_count := (case xu_restart_count u of None \<Rightarrow> ru_restart_count r | Some n \<Rightarrow> max n 0),
       ru_cumulative_window_span_tokens :=
         (case xu_cumulative_window_span_tokens u of
            None \<Rightarrow> ru_cumulative_window_span_tokens r | Some n \<Rightarrow> max n 0),
       ru_input_tokens_used := value_or (xu_input_tokens_used u) (ru_input_tokens_used r),
       ru_output_tokens_used := value_or (xu_output_tokens_used u) (ru_output_tokens_used r),
       ru_cost_used := value_or (xu_cost_used u) (ru_cost_used r)\<rparr>"

definition update_agent_run ::
  "nat \<Rightarrow> ustr \<Rightarrow> run_update \<Rightarrow> run_row list \<Rightarrow> (run_row list \<times> run_row) res" where
  "update_agent_run now i u runs =
     (case find_row ru_id runs i of
        None \<Rightarrow> Inl (KeyError (lit ''Agent run '' @ i @ lit '' not found.''))
      | Some r \<Rightarrow>
          (case validate_fork_agent_run_fields (Some (value_or (xu_run_type u) (ru_run_type r)))
                  (value_or (xu_parent_run_id u) (ru_parent_run_id r))
                  (value_or (xu_fork_root_run_id u) (ru_fork_root_run_id r))
                  (value_or (xu_assigned_work_tree_node_id u) (ru_assigned_work_tree_node_id r))
                  (value_or (xu_parent_context_anchor u) (ru_parent_context_anchor r))
                  (value_or (xu_fork_group_id u) (ru_fork_group_id r))
                  (Some (value_or (xu_fork_depth u) (ru_fork_depth r))) of
             Inl err \<Rightarrow> Inl err
           | Inr _ \<Rightarrow> Inr (edit_row ru_id i (apply_run_update now u) runs, apply_run_update now u r)))"

definition get_agent_run :: "ustr \<Rightarrow> run_row list \<Rightarrow> run_row option" where
  "get_agent_run i runs = find_row ru_id runs i"

text \<open>The order of the run lists: latest start first, then latest end, then largest id; a run
  without an end sorts as the database sorts nulls, here last.\<close>

definition run_order :: "run_row \<Rightarrow> nat \<times> nat \<times> ustr" where
  "run_order r = (ru_started_at r, (case ru_ended_at r of None \<Rightarrow> 0 | Some t \<Rightarrow> t + 1), ru_id r)"

definition runs_of :: "ustr \<Rightarrow> run_row list \<Rightarrow> run_row list" where
  "runs_of task_id runs = rev (sort_key run_order (filter (\<lambda>r. ru_task_id r = task_id) runs))"

definition list_agent_runs :: "ustr \<Rightarrow> nat \<Rightarrow> run_row list \<Rightarrow> run_row list" where
  "list_agent_runs task_id limit runs = take limit (runs_of task_id runs)"

definition get_latest_agent_run ::
  "ustr \<Rightarrow> run_status set option \<Rightarrow> run_row list \<Rightarrow> run_row option" where
  "get_latest_agent_run task_id statuses runs =
     find (\<lambda>r. case statuses of None \<Rightarrow> True | Some ss \<Rightarrow> ru_status r \<in> ss)
       (list_agent_runs task_id 20 runs)"

definition active_fork_run_statuses :: "run_status set" where
  "active_fork_run_statuses = {RnInitializing, RnMounting, RnRunning, RnWaitingTool}"

definition active_fork :: "ustr \<Rightarrow> run_row \<Rightarrow> bool" where
  "active_fork task_id r \<longleftrightarrow>
     ru_task_id r = task_id \<and> ru_run_type r = RtFork \<and> ru_status r \<in> active_fork_run_statuses"

definition count_active_fork_runs :: "ustr \<Rightarrow> ustr option \<Rightarrow> run_row list \<Rightarrow> nat" where
  "count_active_fork_runs task_id root_run runs =
     length (filter (\<lambda>r. active_fork task_id r
       \<and> (case root_run of None \<Rightarrow> True | Some x \<Rightarrow> ru_fork_root_run_id r = Some x)) runs)"

end
