(* ===== verification/TaskSnapshots.thy ===== *)
theory TaskSnapshots
  imports TaskStore
begin

text \<open>
  Task snapshots, resume attempts and task branches of \<open>TaskRepository\<close>
  (\<open>persistence/repositories/task.py\<close>). The columns that the operations carry unread (references,
  pending actions and writes, the runtime pointer) are the one field \<open>sn_body\<close>. The digest of the
  resume token is a parameter \<open>sha\<close>.
\<close>

section \<open>Snapshots\<close>

datatype snapshot_type = SnPause | SnPreStart | SnBudgetExhausted | SnCrashRecovery | SnAudit
  | SnLegacyRestart | SnRestart | SnCheckpoint

datatype snapshot_status = SCreated | SCommitting | SFlushed | SRestorable | SLeased | SConsumed
  | SSuperseded | SBlockedSnapshot | SInvalid | SArchived

datatype retention_class = ActivePaused | LatestAuto | UserSaved | CancelAudit

record snapshot_row =
  sn_id :: ustr
  sn_app_id :: ustr
  sn_task_id :: ustr
  sn_agent_run_id :: "ustr option"
  sn_project_id :: ustr
  sn_branch_id :: ustr
  sn_type :: snapshot_type
  sn_status :: snapshot_status
  sn_retention_class :: retention_class
  sn_storage_manifest_ref :: "(ustr \<times> ustr) option"
  sn_manifest_checksum :: "ustr option"
  sn_resume_token_hash :: "ustr option"
  sn_resume_token :: "ustr option"
  sn_resume_message :: "ustr option"
  sn_safe_stop_reason :: ustr
  sn_blocker_code :: "ustr option"
  sn_blocker_message :: "ustr option"
  sn_saved_label :: "ustr option"
  sn_saved_by_user_id :: "ustr option"
  sn_expires_at :: "nat option"
  sn_created_at :: nat
  sn_verified_at :: "nat option"
  sn_leased_until :: "nat option"
  sn_consumed_at :: "nat option"
  sn_superseded_by :: "ustr option"
  sn_safe_to_pause :: bool
  sn_blockers :: "ustr list"
  sn_body :: json

text \<open>\<open>_hash_resume_token\<close>\<close>

definition hash_resume_token :: "(ustr \<Rightarrow> ustr) \<Rightarrow> ustr option \<Rightarrow> ustr option" where
  "hash_resume_token sha v =
     (let token = strip (value_or v []) in if token = [] then None else Some (sha token))"

text \<open>The row stored for a summary, and the task that points to it.\<close>

definition stored_snapshot :: "(ustr \<Rightarrow> ustr) \<Rightarrow> snapshot_row \<Rightarrow> snapshot_row" where
  "stored_snapshot sha s =
     s\<lparr>sn_resume_token_hash :=
         (case sn_resume_token_hash s of
            None \<Rightarrow> hash_resume_token sha (sn_resume_token s)
          | Some h \<Rightarrow> if h = [] then hash_resume_token sha (sn_resume_token s) else Some h),
       sn_resume_token := None, sn_consumed_at := None\<rparr>"

definition point_to_snapshot :: "snapshot_row \<Rightarrow> task_row \<Rightarrow> task_row" where
  "point_to_snapshot s t =
     (if sn_retention_class s \<in> {ActivePaused, LatestAuto}
      then t\<lparr>tk_active_snapshot_id := Some (sn_id s),
             tk_last_safe_stop_at := (if sn_safe_to_pause s then Some (sn_created_at s)
                                      else tk_last_safe_stop_at t),
             tk_updated_at := sn_created_at s\<rparr>
      else t)"

definition create_snapshot ::
  "(ustr \<Rightarrow> ustr) \<Rightarrow> snapshot_row \<Rightarrow> task_row list \<Rightarrow> run_row list \<Rightarrow> snapshot_row list
     \<Rightarrow> (task_row list \<times> snapshot_row list \<times> snapshot_row) res" where
  "create_snapshot sha s tasks runs snaps =
     (case find_row tk_id tasks (sn_task_id s) of
        None \<Rightarrow> Inl (task_not_found (sn_task_id s))
      | Some t \<Rightarrow>
          (let run = (case sn_agent_run_id s of None \<Rightarrow> None | Some i \<Rightarrow> find_row ru_id runs i)
           in if sn_agent_run_id s \<noteq> None \<and> run = None then
                Inl (KeyError (lit ''Agent run '' @ value_or (sn_agent_run_id s) [] @ lit '' not found.''))
              else if sn_app_id s \<noteq> tk_app_id t
                  \<or> (case run of None \<Rightarrow> False | Some r \<Rightarrow> sn_app_id s \<noteq> ru_app_id r) then
                Inl (ValueError (lit ''Snapshot appId '' @ sn_app_id s
                  @ lit '' does not match task/run app ids '' @ tk_app_id t @ lit ''/''
                  @ (case run of None \<Rightarrow> lit ''None'' | Some r \<Rightarrow> ru_app_id r) @ lit ''.''))
              else map_sum id
                (\<lambda>rows. (edit_row tk_id (sn_task_id s) (point_to_snapshot s) tasks, rows, stored_snapshot sha s))
                (add_row sn_id (stored_snapshot sha s) snaps)))"

definition get_snapshot :: "ustr \<Rightarrow> snapshot_row list \<Rightarrow> snapshot_row option" where
  "get_snapshot i snaps = find_row sn_id snaps i"

text \<open>\<open>scalar_one_or_none\<close> of a query: nothing, the one row, or an error.\<close>

fun scalar_one_or_none :: "'r list \<Rightarrow> 'r option res" where
  "scalar_one_or_none [] = Inr None"
| "scalar_one_or_none [r] = Inr (Some r)"
| "scalar_one_or_none (r # s # rs) = Inl MultipleResultsFound"

definition get_snapshot_by_resume_token ::
  "(ustr \<Rightarrow> ustr) \<Rightarrow> ustr \<Rightarrow> snapshot_row list \<Rightarrow> snapshot_row option res" where
  "get_snapshot_by_resume_token sha token snaps =
     scalar_one_or_none (filter (\<lambda>s. (case hash_resume_token sha (Some token) of
         None \<Rightarrow> sn_resume_token_hash s = None
       | Some h \<Rightarrow> sn_resume_token_hash s = Some h) \<or> sn_resume_token s = Some token) snaps)"

text \<open>\<open>update_snapshot\<close>: an argument that is null is not assigned.\<close>

record snapshot_update =
  su_status :: "snapshot_status option"
  su_consumed_at :: "nat option"
  su_blockers :: "ustr list option"
  su_retention_class :: "retention_class option"
  su_blocker_code :: "ustr option"
  su_blocker_message :: "ustr option"
  su_saved_label :: "ustr option"
  su_saved_by_user_id :: "ustr option"
  su_expires_at :: "nat option"
  su_leased_until :: "nat option"
  su_manifest_checksum :: "ustr option"
  su_storage_manifest_ref :: "(ustr \<times> ustr) option"
  su_superseded_by :: "ustr option"

definition no_snapshot_update :: snapshot_update where
  "no_snapshot_update =
     \<lparr>su_status = None, su_consumed_at = None, su_blockers = None, su_retention_class = None,
      su_blocker_code = None, su_blocker_message = None, su_saved_label = None,
      su_saved_by_user_id = None, su_expires_at = None, su_leased_until = None,
      su_manifest_checksum = None, su_storage_manifest_ref = None, su_superseded_by = None\<rparr>"

definition assigned :: "'a option \<Rightarrow> 'a option \<Rightarrow> 'a option" where
  "assigned new old = (case new of None \<Rightarrow> old | Some x \<Rightarrow> Some x)"

definition apply_snapshot_update :: "snapshot_update \<Rightarrow> snapshot_row \<Rightarrow> snapshot_row" where
  "apply_snapshot_update u s =
     s\<lparr>sn_status := value_or (su_status u) (sn_status s),
       sn_retention_class := value_or (su_retention_class u) (sn_retention_class s),
       sn_consumed_at := assigned (su_consumed_at u) (sn_consumed_at s),
       sn_blockers := value_or (su_blockers u) (sn_blockers s),
       sn_blocker_code := assigned (su_blocker_code u) (sn_blocker_code s),
       sn_blocker_message := assigned (su_blocker_message u) (sn_blocker_message s),
       sn_saved_label := assigned (su_saved_label u) (sn_saved_label s),
       sn_saved_by_user_id := assigned (su_saved_by_user_id u) (sn_saved_by_user_id s),
       sn_expires_at := assigned (su_expires_at u) (sn_expires_at s),
       sn_leased_until := assigned (su_leased_until u) (sn_leased_until s),
       sn_manifest_checksum := assigned (su_manifest_checksum u) (sn_manifest_checksum s),
       sn_storage_manifest_ref := assigned (su_storage_manifest_ref u) (sn_storage_manifest_ref s),
       sn_superseded_by := assigned (su_superseded_by u) (sn_superseded_by s)\<rparr>"

definition update_snapshot ::
  "ustr \<Rightarrow> snapshot_update \<Rightarrow> snapshot_row list \<Rightarrow> (snapshot_row list \<times> snapshot_row) res" where
  "update_snapshot i u snaps =
     (case find_row sn_id snaps i of
        None \<Rightarrow> Inl (KeyError (lit ''Snapshot '' @ i @ lit '' not found.''))
      | Some s \<Rightarrow> Inr (edit_row sn_id i (apply_snapshot_update u) snaps, apply_snapshot_update u s))"

definition supersedable :: "ustr \<Rightarrow> ustr option \<Rightarrow> snapshot_row \<Rightarrow> bool" where
  "supersedable task_id keep s \<longleftrightarrow>
     sn_task_id s = task_id \<and> sn_status s \<in> {SCreated, SFlushed, SRestorable}
     \<and> keep \<noteq> Some (sn_id s) \<and> sn_retention_class s \<noteq> UserSaved"

definition supersede_snapshots ::
  "ustr \<Rightarrow> ustr option \<Rightarrow> snapshot_row list \<Rightarrow> snapshot_row list \<times> nat" where
  "supersede_snapshots task_id keep snaps =
     (map (\<lambda>s. if supersedable task_id keep s then s\<lparr>sn_status := SSuperseded\<rparr> else s) snaps,
      length (filter (supersedable task_id keep) snaps))"

definition list_snapshots :: "ustr \<Rightarrow> snapshot_row list \<Rightarrow> snapshot_row list" where
  "list_snapshots task_id snaps =
     rev (sort_key sn_created_at (filter (\<lambda>s. sn_task_id s = task_id) snaps))"

section \<open>Resume attempts\<close>

datatype attempt_status = RaQueued | RaLeased | RaRestoring | RaRunning | RaBlocked | RaCancelled
  | RaCompleted

record attempt_row =
  ra_id :: ustr
  ra_task_id :: ustr
  ra_snapshot_id :: ustr
  ra_requested_by :: "(ustr \<times> json) list"
  ra_status :: attempt_status
  ra_lease_owner :: "ustr option"
  ra_lease_until :: "nat option"
  ra_blocker_code :: "ustr option"
  ra_blocker_message :: "ustr option"
  ra_created_at :: nat
  ra_updated_at :: nat

definition active_attempt :: "ustr \<Rightarrow> attempt_row \<Rightarrow> bool" where
  "active_attempt task_id a \<longleftrightarrow>
     ra_task_id a = task_id
     \<and> ra_status a \<in> {RaQueued, RaLeased, RaRestoring, RaRunning, RaBlocked}"

definition active_attempts :: "ustr \<Rightarrow> attempt_row list \<Rightarrow> attempt_row list" where
  "active_attempts task_id attempts =
     rev (sort_key ra_created_at (filter (active_attempt task_id) attempts))"

record attempt_payload =
  ap_id :: "ustr option"
  ap_requested_by :: "(ustr \<times> json) list"
  ap_status :: "attempt_status option"

definition resume_task :: "nat \<Rightarrow> ustr \<Rightarrow> task_row \<Rightarrow> task_row" where
  "resume_task now i t =
     t\<lparr>tk_active_resume_attempt_id := Some i, tk_pending_control_intent := Some (lit ''resume''),
       tk_updated_at := now\<rparr>"

definition new_attempt :: "nat \<Rightarrow> ustr \<Rightarrow> ustr \<Rightarrow> ustr \<Rightarrow> attempt_payload \<Rightarrow> attempt_row" where
  "new_attempt now fresh task_id snapshot_id p =
     \<lparr>ra_id = text_or (ap_id p) fresh, ra_task_id = task_id, ra_snapshot_id = snapshot_id,
      ra_requested_by = (if ap_requested_by p = []
        then [(lit ''type'', JStr (lit ''user'')), (lit ''id'', JStr (lit ''operator''))]
        else ap_requested_by p),
      ra_status = value_or (ap_status p) RaQueued, ra_lease_owner = None, ra_lease_until = None,
      ra_blocker_code = None, ra_blocker_message = None, ra_created_at = now, ra_updated_at = now\<rparr>"

definition create_resume_attempt ::
  "nat \<Rightarrow> ustr \<Rightarrow> ustr \<Rightarrow> ustr \<Rightarrow> attempt_payload \<Rightarrow> task_row list \<Rightarrow> attempt_row list
     \<Rightarrow> (task_row list \<times> attempt_row list \<times> attempt_row) res" where
  "create_resume_attempt now fresh task_id snapshot_id p tasks attempts =
     (case scalar_one_or_none (active_attempts task_id attempts) of
        Inl err \<Rightarrow> Inl err
      | Inr (Some a) \<Rightarrow> Inr (tasks, attempts, a)
      | Inr None \<Rightarrow>
          (let a = new_attempt now fresh task_id snapshot_id p
           in map_sum id (\<lambda>rows. (edit_row tk_id task_id (resume_task now (ra_id a)) tasks, rows, a))
                (add_row ra_id a attempts)))"

definition get_resume_attempt :: "ustr \<Rightarrow> attempt_row list \<Rightarrow> attempt_row option" where
  "get_resume_attempt i attempts = find_row ra_id attempts i"

text \<open>The query has a limit of one, so it never finds two.\<close>

definition get_active_resume_attempt :: "ustr \<Rightarrow> attempt_row list \<Rightarrow> attempt_row option" where
  "get_active_resume_attempt task_id attempts =
     (case active_attempts task_id attempts of [] \<Rightarrow> None | a # _ \<Rightarrow> Some a)"

record attempt_update =
  au_status :: "attempt_status option"
  au_lease_owner :: "ustr option"
  au_lease_until :: "nat option"
  au_blocker_code :: "ustr option"
  au_blocker_message :: "ustr option"

definition no_attempt_update :: attempt_update where
  "no_attempt_update =
     \<lparr>au_status = None, au_lease_owner = None, au_lease_until = None, au_blocker_code = None,
      au_blocker_message = None\<rparr>"

definition apply_attempt_update :: "nat \<Rightarrow> attempt_update \<Rightarrow> attempt_row \<Rightarrow> attempt_row" where
  "apply_attempt_update now u a =
     a\<lparr>ra_status := value_or (au_status u) (ra_status a),
       ra_lease_owner := assigned (au_lease_owner u) (ra_lease_owner a),
       ra_lease_until := assigned (au_lease_until u) (ra_lease_until a),
       ra_blocker_code := assigned (au_blocker_code u) (ra_blocker_code a),
       ra_blocker_message := assigned (au_blocker_message u) (ra_blocker_message a),
       ra_updated_at := now\<rparr>"

definition update_resume_attempt ::
  "nat \<Rightarrow> ustr \<Rightarrow> attempt_update \<Rightarrow> attempt_row list \<Rightarrow> (attempt_row list \<times> attempt_row) res" where
  "update_resume_attempt now i u attempts =
     (case find_row ra_id attempts i of
        None \<Rightarrow> Inl (KeyError (lit ''Resume attempt '' @ i @ lit '' not found.''))
      | Some a \<Rightarrow> Inr (edit_row ra_id i (apply_attempt_update now u) attempts, apply_attempt_update now u a))"

section \<open>Task branches\<close>

record task_branch =
  tb_id :: ustr
  tb_parent_task_id :: ustr
  tb_child_task_id :: ustr
  tb_source_snapshot_id :: ustr
  tb_source_snapshot_checksum :: ustr
  tb_label :: "ustr option"
  tb_created_by_user_id :: ustr
  tb_created_at :: nat

record branch_payload =
  br_id :: "ustr option"
  br_parent_task_id :: ustr
  br_child_task_id :: ustr
  br_source_snapshot_id :: ustr
  br_source_snapshot_checksum :: ustr
  br_label :: "ustr option"
  br_created_by_user_id :: "ustr option"

definition create_task_branch ::
  "nat \<Rightarrow> ustr \<Rightarrow> branch_payload \<Rightarrow> task_branch list \<Rightarrow> (task_branch list \<times> task_branch) res" where
  "create_task_branch now fresh p branches =
     (let b = \<lparr>tb_id = text_or (br_id p) fresh, tb_parent_task_id = br_parent_task_id p,
               tb_child_task_id = br_child_task_id p, tb_source_snapshot_id = br_source_snapshot_id p,
               tb_source_snapshot_checksum = br_source_snapshot_checksum p, tb_label = br_label p,
               tb_created_by_user_id = text_or (br_created_by_user_id p) (lit ''operator''),
               tb_created_at = now\<rparr>
      in map_sum id (\<lambda>rows. (rows, b)) (add_row tb_id b branches))"

end
