(* ===== verification/ForkRuntime.thy ===== *)
theory ForkRuntime
  imports TaskStore WorkTreeGraph
begin

text \<open>
  \<open>runtime_kernel/fork_runtime.py\<close>: queueing a batch of forks (an agent run and a work item for
  each launch candidate) and merging the result of a fork into the work tree that its work item
  carries, with the next batch planned from the merged tree.

  The store is the part of the database the operations touch. The ids of \<open>new_id\<close> are supplied,
  run and item ids by their position in the batch. The JSON form of a fork request
  (\<open>model_dump\<close>) is the parameter \<open>enc\<close>.
\<close>

section \<open>Data\<close>

record fork_store =
  fs_tasks :: "task_row list"
  fs_runs :: "run_row list"
  fs_items :: "work_item list"

record fork_ids =
  fk_anchor :: ustr
  fk_group :: ustr
  fk_run :: "nat \<Rightarrow> ustr"
  fk_item :: "nat \<Rightarrow> ustr"

text \<open>The request of a fork: \<open>fork_request\<close> with its \<open>forkMergeContext\<close>.\<close>

record fork_request =
  fr_agent_run_id :: ustr
  fr_parent_run_id :: ustr
  fr_fork_root_run_id :: ustr
  fr_fork_depth :: int
  fr_assigned_work_tree_node_id :: ustr
  fr_working_node_annotation :: ustr
  fr_parent_context_anchor :: ustr
  fr_fork_group_id :: ustr
  fr_active_fork_count :: int
  fr_available_fork_slots :: int
  fr_pending_information_items :: "pending_information_item list"
  fr_parent_node_id :: ustr
  fr_work_tree_snapshot :: "work_tree option"
  fr_policy :: fork_launch_policy
  fr_auto_launch_next_batch :: bool

record queued_fork =
  qf_agent_run :: run_row
  qf_work_item :: work_item
  qf_assigned_work_tree_node_id :: ustr
  qf_request :: fork_request

record fork_batch_result =
  fbr_fork_group_id :: ustr
  fbr_parent_context_anchor :: ustr
  fbr_fork_root_run_id :: ustr
  fbr_fork_depth :: int
  fbr_active_fork_count :: int
  fbr_available_fork_slots :: int
  fbr_queued_forks :: "queued_fork list"
  fbr_batch_plan :: fork_batch_plan

text \<open>The arguments of \<open>queue_fork_batch\<close> besides the repository and the ready set.\<close>

record fork_batch_args =
  fa_task_id :: ustr
  fa_parent_run_id :: ustr
  fa_policy :: fork_launch_policy
  fa_fork_root_run_id :: "ustr option"
  fa_fork_depth :: int
  fa_parent_context_anchor :: "ustr option"
  fa_fork_group_id :: "ustr option"
  fa_queue :: ustr
  fa_selected_model :: "ustr option"
  fa_selected_provider :: "ustr option"
  fa_work_tree :: "work_tree option"
  fa_parent_node_id :: "ustr option"
  fa_auto_launch_next_batch :: bool

definition agent_runtime_queue :: ustr where
  "agent_runtime_queue = lit ''agent-runtime''"

section \<open>Queueing a batch\<close>

text \<open>The payload of \<open>create_agent_run\<close> for a candidate.\<close>

definition fork_run_payload ::
  "fork_batch_args \<Rightarrow> ustr \<Rightarrow> int \<Rightarrow> ustr \<Rightarrow> ustr \<Rightarrow> ustr \<Rightarrow> run_payload" where
  "fork_run_payload a root_run depth anchor grp node =
     \<lparr>rp_id = None, rp_app_id = None, rp_run_type = Some RtFork,
      rp_parent_run_id = Some (fa_parent_run_id a), rp_fork_root_run_id = Some root_run,
      rp_fork_depth = Some depth, rp_assigned_work_tree_node_id = Some node,
      rp_parent_context_anchor = Some anchor, rp_fork_group_id = Some grp,
      rp_selected_model = Some (text_or (fa_selected_model a) (lit ''gpt-5.4'')),
      rp_selected_provider = fa_selected_provider a, rp_route_decision_id = None,
      rp_status = Some RnInitializing, rp_next_objective = None, rp_window_index = None,
      rp_restart_count = None, rp_cumulative_window_span_tokens = None, rp_input_tokens_used = None,
      rp_output_tokens_used = None, rp_cost_used = None\<rparr>"

definition fork_request_of ::
  "fork_batch_args \<Rightarrow> ustr \<Rightarrow> int \<Rightarrow> ustr \<Rightarrow> ustr \<Rightarrow> fork_batch_plan \<Rightarrow> ustr \<Rightarrow> run_row \<Rightarrow> fork_launch_candidate \<Rightarrow> fork_request" where
  "fork_request_of a root_run depth anchor grp plan parent_node r c =
     \<lparr>fr_agent_run_id = ru_id r, fr_parent_run_id = fa_parent_run_id a, fr_fork_root_run_id = root_run,
      fr_fork_depth = depth, fr_assigned_work_tree_node_id = fc_assigned_work_tree_node_id c,
      fr_working_node_annotation =
        lit ''<Working_Node: '' @ fc_assigned_work_tree_node_id c @ lit ''>'',
      fr_parent_context_anchor = anchor, fr_fork_group_id = grp,
      fr_active_fork_count = bp_active_fork_count plan,
      fr_available_fork_slots = bp_available_fork_slots plan,
      fr_pending_information_items = fc_pending_information_items c,
      fr_parent_node_id = parent_node,
      fr_work_tree_snapshot = fa_work_tree a,
      fr_policy = fa_policy a, fr_auto_launch_next_batch = fa_auto_launch_next_batch a\<rparr>"

text \<open>\<open>_fork_work_item_payload\<close>\<close>

definition fork_work_item_payload ::
  "(fork_request \<Rightarrow> json) \<Rightarrow> ustr \<Rightarrow> fork_request \<Rightarrow> work_payload" where
  "fork_work_item_payload enc task_id q =
     \<lparr>wp_work_item_id = None, wp_task_id = Some task_id,
      wp_activity = Some (lit ''core.agent.main.execute''), wp_intent = Some (lit ''fork''),
      wp_command = Some (lit ''start''), wp_attempt = None, wp_body = enc q\<rparr>"

text \<open>The loop over the launch candidates; \<open>k\<close> counts them. \<open>mk\<close> builds the request of a run.\<close>

fun launch_forks ::
  "(fork_request \<Rightarrow> json) \<Rightarrow> nat \<Rightarrow> fork_ids \<Rightarrow> ustr \<Rightarrow> ustr \<Rightarrow> (ustr \<Rightarrow> run_payload)
     \<Rightarrow> (run_row \<Rightarrow> fork_launch_candidate \<Rightarrow> fork_request) \<Rightarrow> nat \<Rightarrow> fork_launch_candidate list
     \<Rightarrow> fork_store \<Rightarrow> (fork_store \<times> queued_fork list) res" where
  "launch_forks enc now ids task_id queue pay mk k [] s = Inr (s, [])"
| "launch_forks enc now ids task_id queue pay mk k (c # cs) s =
     (case create_agent_run now (fk_run ids k) task_id (pay (fc_assigned_work_tree_node_id c))
             (fs_tasks s) (fs_runs s) of
        Inl err \<Rightarrow> Inl err
      | Inr (tasks, runs, r) \<Rightarrow>
          (case create_work_item now (fk_item ids k) queue
                  (fork_work_item_payload enc task_id (mk r c)) (fs_items s) of
             Inl err \<Rightarrow> Inl err
           | Inr (items, item) \<Rightarrow>
               map_sum id
                 (\<lambda>(s', qs). (s', \<lparr>qf_agent_run = r, qf_work_item = item,
                     qf_assigned_work_tree_node_id = fc_assigned_work_tree_node_id c,
                     qf_request = mk r c\<rparr> # qs))
                 (launch_forks enc now ids task_id queue pay mk (Suc k) cs
                    \<lparr>fs_tasks = tasks, fs_runs = runs, fs_items = items\<rparr>)))"

definition queue_fork_batch ::
  "(fork_request \<Rightarrow> json) \<Rightarrow> nat \<Rightarrow> fork_ids \<Rightarrow> fork_batch_args \<Rightarrow> ready_set
     \<Rightarrow> fork_store \<Rightarrow> (fork_store \<times> fork_batch_result) res" where
  "queue_fork_batch enc now ids a ready s =
     (case plan_fork_batch ready (fa_policy a) (Some (rs_active_fork_count ready)) of
        Inl err \<Rightarrow> Inl err
      | Inr plan \<Rightarrow>
          (let root_run = text_or (fa_fork_root_run_id a) (fa_parent_run_id a);
               depth = max (fa_fork_depth a) 1;
               anchor = text_or (fa_parent_context_anchor a) (fk_anchor ids);
               grp = text_or (fa_fork_group_id a) (fk_group ids);
               parent_node = text_or (fa_parent_node_id a) (rs_parent_node_id ready)
           in map_sum id
                (\<lambda>(s', qs). (s', \<lparr>fbr_fork_group_id = grp, fbr_parent_context_anchor = anchor,
                    fbr_fork_root_run_id = root_run, fbr_fork_depth = depth,
                    fbr_active_fork_count = bp_active_fork_count plan,
                    fbr_available_fork_slots = bp_available_fork_slots plan,
                    fbr_queued_forks = qs, fbr_batch_plan = plan\<rparr>))
                (launch_forks enc now ids (fa_task_id a) (fa_queue a)
                   (fork_run_payload a root_run depth anchor grp)
                   (fork_request_of a root_run depth anchor grp plan parent_node)
                   0 (bp_launch_candidates plan) s)))"

section \<open>Merging a result\<close>

datatype fork_result_status = ForkCompleted | ForkFailed

datatype plan_impact = NoImpact | RequiresParentReplan

record fork_result =
  fe_assigned_work_tree_node_id :: ustr
  fe_status :: fork_result_status
  fe_summary :: ustr
  fe_evidence_refs :: "entity_ref list"
  fe_failure_summary :: "ustr option"
  fe_plan_impact :: plan_impact
  fe_pending_information_items :: "pending_information_item list"

definition merged_node :: "nat \<Rightarrow> fork_result \<Rightarrow> ustr option \<Rightarrow> work_tree_node \<Rightarrow> work_tree_node" where
  "merged_node now e run n =
     n\<lparr>n_status := (case fe_status e of ForkCompleted \<Rightarrow> NCompleted | ForkFailed \<Rightarrow> NFailed),
       n_phase := (case fe_status e of ForkCompleted \<Rightarrow> Delivery | ForkFailed \<Rightarrow> Recovering),
       n_execution_summary := Some (normalize_excerpt (fe_summary e) 240),
       n_failure_summary := (case fe_status e of ForkCompleted \<Rightarrow> None
         | ForkFailed \<Rightarrow> Some (normalize_excerpt (text_or (fe_failure_summary e) (fe_summary e)) 240)),
       n_produced_evidence_refs := fe_evidence_refs e,
       n_assigned_agent_run_id := (case run of None \<Rightarrow> n_assigned_agent_run_id n | Some i \<Rightarrow> Some i),
       n_updated_at := now\<rparr>"

text \<open>\<open>_merge_fork_result_into_work_tree\<close>\<close>

definition merge_fork_result_into_work_tree ::
  "(json \<Rightarrow> ustr) \<Rightarrow> nat \<Rightarrow> work_tree \<Rightarrow> fork_result \<Rightarrow> ustr option \<Rightarrow> work_tree res" where
  "merge_fork_result_into_work_tree dg now w e run =
     (let i = fe_assigned_work_tree_node_id e
      in if i \<notin> n_id ` set (wt_nodes w) then
           Inl (ValueError (lit ''Unknown assigned work tree node: '' @ i))
         else Inr (validate_tree dg now
           (w\<lparr>wt_nodes := map (\<lambda>n. if n_id n = i then merged_node now e run n else n) (wt_nodes w),
              wt_pc_memo := Some (normalize_excerpt (lit ''fork-result:'' @ i) 160),
              wt_updated_at := now\<rparr>)))"

text \<open>The rows of \<open>list_agent_runs\<close> as the ready set reads them.\<close>

definition run_type_text :: "run_type \<Rightarrow> ustr" where
  "run_type_text t = lit (case t of RtMain \<Rightarrow> ''main'' | RtSubagent \<Rightarrow> ''subagent'' | RtFork \<Rightarrow> ''fork''
     | RtMaintenance \<Rightarrow> ''maintenance'' | RtEvaluation \<Rightarrow> ''evaluation'')"

definition run_status_text :: "run_status \<Rightarrow> ustr" where
  "run_status_text s = lit (case s of RnInitializing \<Rightarrow> ''initializing'' | RnMounting \<Rightarrow> ''mounting''
     | RnRunning \<Rightarrow> ''running'' | RnWaitingTool \<Rightarrow> ''waiting-tool'' | RnDraining \<Rightarrow> ''draining''
     | RnPausing \<Rightarrow> ''pausing'' | RnPaused \<Rightarrow> ''paused'' | RnCompleted \<Rightarrow> ''completed''
     | RnFailed \<Rightarrow> ''failed'' | RnAborted \<Rightarrow> ''aborted'')"

definition active_run_of :: "run_row \<Rightarrow> active_run" where
  "active_run_of r =
     \<lparr>ar_run_type = run_type_text (ru_run_type r), ar_status = run_status_text (ru_status r),
      ar_assigned_work_tree_node_id = ru_assigned_work_tree_node_id r\<rparr>"

record fork_merge_args =
  fm_task_id :: ustr
  fm_parent_run_id :: ustr
  fm_parent_node_id :: ustr
  fm_policy :: fork_launch_policy
  fm_fork_run_id :: "ustr option"
  fm_fork_root_run_id :: "ustr option"
  fm_fork_depth :: int
  fm_auto_launch :: bool

record fork_merge_result =
  mr_envelope :: fork_result
  mr_work_tree :: work_tree
  mr_ready_set :: ready_set
  mr_next_batch :: "fork_batch_result option"
  mr_parent_replan_required :: bool

definition next_batch_args :: "fork_merge_args \<Rightarrow> work_tree \<Rightarrow> fork_batch_args" where
  "next_batch_args m w =
     \<lparr>fa_task_id = fm_task_id m, fa_parent_run_id = fm_parent_run_id m, fa_policy = fm_policy m,
      fa_fork_root_run_id = Some (text_or (fm_fork_root_run_id m) (fm_parent_run_id m)),
      fa_fork_depth = fm_fork_depth m, fa_parent_context_anchor = None, fa_fork_group_id = None,
      fa_queue = agent_runtime_queue, fa_selected_model = None, fa_selected_provider = None,
      fa_work_tree = Some w, fa_parent_node_id = Some (fm_parent_node_id m),
      fa_auto_launch_next_batch = fm_auto_launch m\<rparr>"

text \<open>The update of the fork's run.\<close>

definition settle_fork_run ::
  "nat \<Rightarrow> fork_merge_args \<Rightarrow> fork_result \<Rightarrow> run_row list \<Rightarrow> run_row list res" where
  "settle_fork_run now m e runs =
     (case fm_fork_run_id m of
        None \<Rightarrow> Inr runs
      | Some i \<Rightarrow> map_sum id fst
          (update_agent_run now i
             (no_run_update\<lparr>xu_status := Some (case fe_status e of ForkCompleted \<Rightarrow> RnCompleted
                                                | ForkFailed \<Rightarrow> RnFailed),
                xu_assigned_work_tree_node_id := Some (Some (fe_assigned_work_tree_node_id e)),
                xu_fork_root_run_id :=
                  Some (Some (text_or (fm_fork_root_run_id m) (fm_parent_run_id m))),
                xu_fork_depth := Some (fm_fork_depth m)\<rparr>) runs))"

text \<open>\<open>merge_fork_result_and_plan_next_batch\<close>; the limit of \<open>list_agent_runs\<close> is its default.\<close>

definition merge_fork_result_and_plan_next_batch ::
  "(json \<Rightarrow> ustr) \<Rightarrow> (fork_request \<Rightarrow> json) \<Rightarrow> nat \<Rightarrow> fork_ids \<Rightarrow> fork_merge_args \<Rightarrow> work_tree
     \<Rightarrow> fork_result \<Rightarrow> fork_store \<Rightarrow> (fork_store \<times> fork_merge_result) res" where
  "merge_fork_result_and_plan_next_batch dg enc now ids m w e s =
     (case merge_fork_result_into_work_tree dg now (validate_tree dg now w) e (fm_fork_run_id m) of
        Inl err \<Rightarrow> Inl err
      | Inr merged \<Rightarrow>
          (case settle_fork_run now m e (fs_runs s) of
             Inl err \<Rightarrow> Inl err
           | Inr runs \<Rightarrow>
               (let s1 = s\<lparr>fs_runs := runs\<rparr>
                in case compute_parent_ready_set merged (fm_parent_node_id m)
                          (map active_run_of (list_agent_runs (fm_task_id m) 100 runs))
                          (empty_graph_state\<lparr>gs_pending_information_items :=
                             fe_pending_information_items e\<rparr>) (fm_policy m) of
                     Inl err \<Rightarrow> Inl err
                   | Inr ready \<Rightarrow>
                       (let result = \<lparr>mr_envelope = e, mr_work_tree = merged, mr_ready_set = ready,
                              mr_next_batch = None, mr_parent_replan_required =
                                (fe_plan_impact e = RequiresParentReplan \<or> rs_parent_replan_required ready)\<rparr>
                        in if fm_auto_launch m \<and> fe_plan_impact e = NoImpact \<and> rs_can_auto_launch ready then
                             map_sum id (\<lambda>(s2, batch). (s2, result\<lparr>mr_next_batch := Some batch\<rparr>))
                               (queue_fork_batch enc now ids (next_batch_args m merged) ready s1)
                           else Inr (s1, result)))))"

text \<open>A fork's work item carries what its merge needs: the arguments of the call in
  \<open>execution_loop/transitions.py\<close>, read back from its request.\<close>

definition merge_args_of :: "ustr \<Rightarrow> fork_request \<Rightarrow> fork_merge_args" where
  "merge_args_of task_id q =
     \<lparr>fm_task_id = task_id, fm_parent_run_id = fr_parent_run_id q,
      fm_parent_node_id = strip (fr_parent_node_id q), fm_policy = fr_policy q,
      fm_fork_run_id = Some (fr_agent_run_id q), fm_fork_root_run_id = Some (fr_fork_root_run_id q),
      fm_fork_depth = fr_fork_depth q, fm_auto_launch = fr_auto_launch_next_batch q\<rparr>"

end
