(* ===== verification/ForkProps.thy ===== *)
theory ForkProps
  imports ForkRuntime TakeoverProps
begin

text \<open>
  What the fork runtime promises: a batch adds one run and one work item per launched child, active
  forks stay within the limit of the policy, and what a merge does with the siblings of its fork.
\<close>

section \<open>Launching\<close>

definition blank_text :: "ustr \<Rightarrow> bool" where
  "blank_text v \<longleftrightarrow> strip v = []"

lemma required_str_ok: "\<not> blank_text v \<Longrightarrow> required_str key (Some v) = Inr ()"
  by (simp add: required_str_def blank_text_def value_or_def)

text \<open>The fields of a fork, all set.\<close>

definition fork_fields_ok :: "fork_batch_args \<Rightarrow> ustr \<Rightarrow> int \<Rightarrow> ustr \<Rightarrow> ustr \<Rightarrow> bool" where
  "fork_fields_ok a root_run depth anchor grp \<longleftrightarrow>
     \<not> blank_text (fa_parent_run_id a) \<and> \<not> blank_text root_run \<and> 1 \<le> depth
     \<and> \<not> blank_text anchor \<and> \<not> blank_text grp"

definition fork_run ::
  "nat \<Rightarrow> ustr \<Rightarrow> fork_batch_args \<Rightarrow> ustr \<Rightarrow> int \<Rightarrow> ustr \<Rightarrow> ustr \<Rightarrow> ustr \<Rightarrow> task_row \<Rightarrow> run_row" where
  "fork_run now i a root_run depth anchor grp node t =
     new_run now i (str_or (tk_app_id t) default_app_id)
       (fork_run_payload a root_run depth anchor grp node) t"

lemma fork_run_simps [simp]:
  "ru_run_type (fork_run now i a rr d x g n t) = RtFork"
  "ru_status (fork_run now i a rr d x g n t) = RnInitializing"
  "ru_task_id (fork_run now i a rr d x g n t) = tk_id t"
  "ru_assigned_work_tree_node_id (fork_run now i a rr d x g n t) = Some n"
  "ru_fork_root_run_id (fork_run now i a rr d x g n t) = Some rr"
  "ru_fork_group_id (fork_run now i a rr d x g n t) = Some g"
  "ru_parent_run_id (fork_run now i a rr d x g n t) = Some (fa_parent_run_id a)"
  "1 \<le> d \<Longrightarrow> ru_fork_depth (fork_run now i a rr d x g n t) = d"
  "ru_id (fork_run now i a rr d x g n t) = i"
  by (simp_all add: fork_run_def new_run_def fork_run_payload_def value_or_def text_or_def)

lemma create_fork_run:
  assumes "find_row tk_id tasks tid = Some t" "fork_fields_ok a rr d x g" "\<not> blank_text node"
    and "i \<notin> row_keys ru_id runs"
  shows "create_agent_run now i tid (fork_run_payload a rr d x g node) tasks runs =
    (let r = fork_run now i a rr d x g node t
     in Inr (edit_row tk_id tid (wake_task now r) tasks, runs @ [r], r))"
proof -
  have "d \<noteq> 0" using assms(2) by (auto simp: fork_fields_ok_def)
  then have "validate_fork_agent_run_fields (Some RtFork) (Some (fa_parent_run_id a)) (Some rr) (Some node)
      (Some x) (Some g) (Some d) = Inr ()"
    using assms(2,3)
    by (simp add: validate_fork_agent_run_fields_def value_or_def required_str_ok fork_fields_ok_def int_or_def)
  then show ?thesis
    using assms(1,4)
    by (simp add: create_agent_run_def fork_run_payload_def [abs_def] text_or_def value_or_def Let_def
        add_row_def fork_run_def [unfolded fork_run_payload_def] new_run_def str_or_def)
qed

lemma wake_task_keeps [simp]: "keeps tk_id (wake_task now r)"
  by (simp add: keeps_def wake_task_def)

lemma wake_task_simps [simp]:
  "tk_id (wake_task now r t) = tk_id t" "tk_app_id (wake_task now r t) = tk_app_id t"
  "tk_project_id (wake_task now r t) = tk_project_id t" "tk_branch_id (wake_task now r t) = tk_branch_id t"
  by (simp_all add: wake_task_def)

lemma fork_run_wake [simp]:
  "fork_run now i a rr d x g n (wake_task m r t) = fork_run now i a rr d x g n t"
  by (simp add: fork_run_def new_run_def)

definition fork_item ::
  "(fork_request \<Rightarrow> json) \<Rightarrow> nat \<Rightarrow> ustr \<Rightarrow> ustr \<Rightarrow> ustr \<Rightarrow> fork_request \<Rightarrow> work_item" where
  "fork_item enc now i queue tid q =
     \<lparr>wi_id = i, wi_queue = queue, wi_task_id = Some tid,
      wi_activity = lit ''core.agent.main.execute'', wi_intent = lit ''fork'',
      wi_payload = fork_work_item_payload enc tid q, wi_status = WQueued, wi_lease_owner = None,
      wi_lease_until = None, wi_attempt = 1, wi_last_error = None, wi_created_at = now,
      wi_updated_at = now, wi_completed_at = None\<rparr>"

lemma create_fork_item:
  "i \<notin> row_keys wi_id items \<Longrightarrow>
    create_work_item now i queue (fork_work_item_payload enc tid q) items =
      Inr (items @ [fork_item enc now i queue tid q], fork_item enc now i queue tid q)"
  by (simp add: create_work_item_def fork_work_item_payload_def text_or_def int_or_def add_row_def
      fork_item_def Let_def)

text \<open>Ids supplied for \<open>n\<close> forks from position \<open>k\<close> on are new and different.\<close>

definition fresh_ids :: "fork_ids \<Rightarrow> nat \<Rightarrow> nat \<Rightarrow> fork_store \<Rightarrow> bool" where
  "fresh_ids ids k n s \<longleftrightarrow>
     inj (fk_run ids) \<and> inj (fk_item ids)
     \<and> (\<forall>j<n. fk_run ids (k + j) \<notin> row_keys ru_id (fs_runs s) \<and> fk_item ids (k + j) \<notin> row_keys wi_id (fs_items s))"

definition queued_forks_from ::
  "(fork_request \<Rightarrow> json) \<Rightarrow> nat \<Rightarrow> fork_ids \<Rightarrow> ustr \<Rightarrow> ustr \<Rightarrow> (nat \<Rightarrow> ustr \<Rightarrow> run_row)
     \<Rightarrow> (run_row \<Rightarrow> fork_launch_candidate \<Rightarrow> fork_request) \<Rightarrow> nat \<Rightarrow> fork_launch_candidate list
     \<Rightarrow> queued_fork list" where
  "queued_forks_from enc now ids tid queue run mk k cs =
     map (\<lambda>(j, c). let r = run j (fc_assigned_work_tree_node_id c)
            in \<lparr>qf_agent_run = r, qf_work_item = fork_item enc now (fk_item ids j) queue tid (mk r c),
                qf_assigned_work_tree_node_id = fc_assigned_work_tree_node_id c, qf_request = mk r c\<rparr>)
       (List.enumerate k cs)"

lemma launch_forks_eq:
  assumes "fork_fields_ok a rr d x g"
  shows "find_row tk_id (fs_tasks s) tid = Some t \<Longrightarrow>
    \<forall>c\<in>set cs. \<not> blank_text (fc_assigned_work_tree_node_id c) \<Longrightarrow> fresh_ids ids k (length cs) s \<Longrightarrow>
    (let qs = queued_forks_from enc now ids tid queue (\<lambda>j n. fork_run now (fk_run ids j) a rr d x g n t) mk k cs
     in \<exists>s'. launch_forks enc now ids tid queue (fork_run_payload a rr d x g) mk k cs s = Inr (s', qs)
          \<and> fs_runs s' = fs_runs s @ map qf_agent_run qs
          \<and> fs_items s' = fs_items s @ map qf_work_item qs)"
proof (induction cs arbitrary: k s t)
  case Nil
  then show ?case by (simp add: queued_forks_from_def)
next
  case (Cons c cs)
  let ?n = "fc_assigned_work_tree_node_id c"
  let ?r = "fork_run now (fk_run ids k) a rr d x g ?n t"
  let ?item = "fork_item enc now (fk_item ids k) queue tid (mk ?r c)"
  let ?s = "\<lparr>fs_tasks = edit_row tk_id tid (wake_task now ?r) (fs_tasks s), fs_runs = fs_runs s @ [?r],
      fs_items = fs_items s @ [?item]\<rparr>"
  have new: "fk_run ids k \<notin> row_keys ru_id (fs_runs s)" "fk_item ids k \<notin> row_keys wi_id (fs_items s)"
    using Cons.prems(3) by (auto simp: fresh_ids_def dest: spec [of _ 0])
  have inj: "fk_run ids (Suc (k + j)) \<noteq> fk_run ids k" "fk_item ids (Suc (k + j)) \<noteq> fk_item ids k" for j
    using Cons.prems(3) by (auto simp: fresh_ids_def inj_eq)
  have old: "fk_run ids (Suc (k + j)) \<notin> row_keys ru_id (fs_runs s)
      \<and> fk_item ids (Suc (k + j)) \<notin> row_keys wi_id (fs_items s)" if "j < length cs" for j
    using Cons.prems(3) that unfolding fresh_ids_def by (auto dest: spec [of _ "Suc j"])
  have fresh: "fresh_ids ids (Suc k) (length cs) ?s"
    using Cons.prems(3) inj old
    by (simp add: fresh_ids_def row_keys_def fork_item_def)
  have find: "find_row tk_id (fs_tasks ?s) tid = Some (wake_task now ?r t)"
    using Cons.prems(1) by (simp add: find_row_edit)
  have cs: "\<forall>c\<in>set cs. \<not> blank_text (fc_assigned_work_tree_node_id c)" using Cons.prems(2) by simp
  obtain s' where s': "launch_forks enc now ids tid queue (fork_run_payload a rr d x g) mk (Suc k) cs ?s =
        Inr (s', queued_forks_from enc now ids tid queue (\<lambda>j n. fork_run now (fk_run ids j) a rr d x g n t) mk (Suc k) cs)"
      "fs_runs s' = fs_runs ?s @ map qf_agent_run
        (queued_forks_from enc now ids tid queue (\<lambda>j n. fork_run now (fk_run ids j) a rr d x g n t) mk (Suc k) cs)"
      "fs_items s' = fs_items ?s @ map qf_work_item
        (queued_forks_from enc now ids tid queue (\<lambda>j n. fork_run now (fk_run ids j) a rr d x g n t) mk (Suc k) cs)"
    using Cons.IH [OF find cs fresh] unfolding Let_def fork_run_wake by blast
  have "launch_forks enc now ids tid queue (fork_run_payload a rr d x g) mk k (c # cs) s =
      Inr (s', queued_forks_from enc now ids tid queue (\<lambda>j n. fork_run now (fk_run ids j) a rr d x g n t) mk k (c # cs))"
    using Cons.prems(1,2) new s'(1)
    by (simp add: create_fork_run [OF _ assms] create_fork_item Let_def queued_forks_from_def)
  with s'(2,3) show ?case by (simp add: Let_def queued_forks_from_def)
qed

section \<open>The number of active forks\<close>

lemma count_append: "count_active_fork_runs t x (rs @ qs) = count_active_fork_runs t x rs + count_active_fork_runs t x qs"
  by (simp add: count_active_fork_runs_def)

lemma count_le_length: "count_active_fork_runs t x rs \<le> length rs"
  by (simp add: count_active_fork_runs_def)

lemma count_edit_le:
  assumes "\<And>r. ru_task_id (f r) = ru_task_id r" "\<And>r. ru_run_type (f r) = ru_run_type r"
    and "\<And>r. ru_status (f r) \<notin> active_fork_run_statuses"
  shows "count_active_fork_runs t None (edit_row ru_id i f rs) \<le> count_active_fork_runs t None rs"
proof (induction rs)
  case (Cons r rs)
  have "\<not> active_fork t (f r)" using assms(3) by (simp add: active_fork_def)
  with Cons show ?case by (simp add: count_active_fork_runs_def edit_row_def)
qed (simp add: count_active_fork_runs_def edit_row_def)

lemma is_active_fork_of [simp]:
  "is_active_fork (active_run_of r) \<longleftrightarrow> ru_run_type r = RtFork \<and> ru_status r \<in> active_fork_run_statuses"
  by (cases "ru_run_type r"; cases "ru_status r")
     (simp_all add: is_active_fork_def active_run_of_def run_type_text_def run_status_text_def
       active_fork_statuses_def active_fork_run_statuses_def)

lemma length_filter_runs_of:
  "length (filter P (runs_of t runs)) = length (filter (\<lambda>r. ru_task_id r = t \<and> P r) runs)"
proof -
  have "mset (runs_of t runs) = mset (filter (\<lambda>r. ru_task_id r = t) runs)" by (simp add: runs_of_def)
  then have "mset (filter P (runs_of t runs)) = mset (filter P (filter (\<lambda>r. ru_task_id r = t) runs))"
    by (metis mset_filter)
  then show ?thesis by (metis filter_filter mset_eq_length)
qed

text \<open>The active forks the ready set counts: all of them while a task has at most \<open>limit\<close> runs.\<close>

lemma counted_active_forks:
  assumes "length (filter (\<lambda>r. ru_task_id r = t) runs) \<le> limit"
  shows "length (filter is_active_fork (map active_run_of (list_agent_runs t limit runs)))
    = count_active_fork_runs t None runs"
proof -
  have "length (runs_of t runs) \<le> limit" using assms length_filter_runs_of [of "\<lambda>_. True" t runs] by simp
  then have "list_agent_runs t limit runs = runs_of t runs" by (simp add: list_agent_runs_def)
  then show ?thesis
    by (simp add: filter_map comp_def length_filter_runs_of count_active_fork_runs_def active_fork_def)
qed

lemma launch_forks_length:
  "launch_forks enc now ids tid queue pay mk k cs s = Inr (s', qs) \<Longrightarrow>
     \<exists>rs. fs_runs s' = fs_runs s @ rs \<and> length rs = length cs"
proof (induction cs arbitrary: k s s' qs)
  case (Cons c cs)
  then obtain tasks runs r items item s2 qs2 where
    run: "create_agent_run now (fk_run ids k) tid (pay (fc_assigned_work_tree_node_id c)) (fs_tasks s) (fs_runs s)
        = Inr (tasks, runs, r)"
    and rest: "launch_forks enc now ids tid queue pay mk (Suc k) cs
        \<lparr>fs_tasks = tasks, fs_runs = runs, fs_items = items\<rparr> = Inr (s', qs2)"
    by (auto simp: map_sum_Inr split: sum.splits prod.splits)
  have "runs = fs_runs s @ [r]"
    using run by (auto simp: create_agent_run_def Let_def map_sum_Inr add_row_Inr split: option.splits sum.splits if_splits)
  with Cons.IH [OF rest] show ?case by force
qed simp

lemma queue_fork_batch_count:
  assumes "queue_fork_batch enc now ids a ready s = Inr (s', res)"
    and "int (count_active_fork_runs t None (fs_runs s)) \<le> rs_active_fork_count ready"
  shows "count_active_fork_runs t None (fs_runs s')
    \<le> max (count_active_fork_runs t None (fs_runs s)) (fp_max_forks (fa_policy a))"
proof -
  obtain plan where plan: "plan_fork_batch ready (fa_policy a) (Some (rs_active_fork_count ready)) = Inr plan"
    "int (length (bp_launch_candidates plan)) =
         min (bp_available_fork_slots plan) (int (length (rs_ready_children ready)))"
    "bp_available_fork_slots plan = available_fork_slots (fa_policy a) (rs_active_fork_count ready)"
    using plan_fork_batch_total [of ready "fa_policy a" "Some (rs_active_fork_count ready)"] by auto
  obtain rs where rs: "fs_runs s' = fs_runs s @ rs" "length rs = length (bp_launch_candidates plan)"
    using assms(1) plan(1) launch_forks_length
    by (fastforce simp: queue_fork_batch_def Let_def map_sum_Inr)
  have "int (length rs) \<le> max (int (fp_max_forks (fa_policy a)) - rs_active_fork_count ready) 0"
    using rs(2) plan(2,3) by (simp add: available_fork_slots_def)
  moreover have "count_active_fork_runs t None (fs_runs s') \<le> count_active_fork_runs t None (fs_runs s) + length rs"
    unfolding rs(1) count_append using count_le_length by simp
  ultimately show ?thesis using assms(2) by linarith
qed

lemma length_filter_edit:
  "(\<And>r. P (f r) = P r) \<Longrightarrow> length (filter P (edit_row key i f rs)) = length (filter P rs)"
  by (induction rs) (simp_all add: edit_row_def)

lemma settle_fork_run_count:
  assumes "settle_fork_run now m e runs = Inr runs'"
  shows "count_active_fork_runs t None runs' \<le> count_active_fork_runs t None runs"
    and "length (filter (\<lambda>r. ru_task_id r = t) runs') = length (filter (\<lambda>r. ru_task_id r = t) runs)"
proof -
  have "runs' = runs \<or> (\<exists>i f. runs' = edit_row ru_id i f runs \<and> (\<forall>r. ru_task_id (f r) = ru_task_id r
      \<and> ru_run_type (f r) = ru_run_type r \<and> ru_status (f r) \<notin> active_fork_run_statuses))"
    using assms
    by (auto simp: settle_fork_run_def update_agent_run_def map_sum_Inr apply_run_update_def value_or_def
        no_run_update_def active_fork_run_statuses_def split: option.splits sum.splits fork_result_status.splits
        intro!: exI [of _ "apply_run_update _ _"])
  then show "count_active_fork_runs t None runs' \<le> count_active_fork_runs t None runs"
    "length (filter (\<lambda>r. ru_task_id r = t) runs') = length (filter (\<lambda>r. ru_task_id r = t) runs)"
    by (auto simp: length_filter_edit count_edit_le)
qed

lemma merge_cases:
  assumes "merge_fork_result_and_plan_next_batch dg enc now ids m w e s = Inr (s', res)"
  obtains merged runs ready where
    "merge_fork_result_into_work_tree dg now (validate_tree dg now w) e (fm_fork_run_id m) = Inr merged"
    "settle_fork_run now m e (fs_runs s) = Inr runs"
    "compute_parent_ready_set merged (fm_parent_node_id m)
        (map active_run_of (list_agent_runs (fm_task_id m) 100 runs))
        (empty_graph_state\<lparr>gs_pending_information_items := fe_pending_information_items e\<rparr>)
        (fm_policy m) = Inr ready"
    "mr_work_tree res = merged" "mr_ready_set res = ready"
    "(if fm_auto_launch m \<and> fe_plan_impact e = NoImpact \<and> rs_can_auto_launch ready
      then \<exists>batch. mr_next_batch res = Some batch
         \<and> queue_fork_batch enc now ids (next_batch_args m merged) ready (s\<lparr>fs_runs := runs\<rparr>) = Inr (s', batch)
      else mr_next_batch res = None \<and> s' = s\<lparr>fs_runs := runs\<rparr>)"
proof -
  from assms obtain merged where m: "merge_fork_result_into_work_tree dg now (validate_tree dg now w) e (fm_fork_run_id m) = Inr merged"
    by (auto simp: merge_fork_result_and_plan_next_batch_def split: sum.splits)
  from assms m obtain runs where r: "settle_fork_run now m e (fs_runs s) = Inr runs"
    by (auto simp: merge_fork_result_and_plan_next_batch_def split: sum.splits)
  from assms m r obtain ready where y: "compute_parent_ready_set merged (fm_parent_node_id m)
        (map active_run_of (list_agent_runs (fm_task_id m) 100 runs))
        (empty_graph_state\<lparr>gs_pending_information_items := fe_pending_information_items e\<rparr>)
        (fm_policy m) = Inr ready"
    by (auto simp: merge_fork_result_and_plan_next_batch_def Let_def split: sum.splits)
  from assms m r y show thesis
    by (intro that [OF m r y])
       (auto simp: merge_fork_result_and_plan_next_batch_def Let_def map_sum_Inr split: if_splits)
qed

lemma merge_respects_fork_limit:
  assumes "merge_fork_result_and_plan_next_batch dg enc now ids m w e s = Inr (s', res)"
    and "length (filter (\<lambda>r. ru_task_id r = fm_task_id m) (fs_runs s)) \<le> 100"
  shows "count_active_fork_runs (fm_task_id m) None (fs_runs s')
    \<le> max (count_active_fork_runs (fm_task_id m) None (fs_runs s)) (fp_max_forks (fm_policy m))"
  using assms(1)
proof (cases rule: merge_cases)
  case (1 merged runs ready)
  let ?t = "fm_task_id m"
  note settled = settle_fork_run_count [OF 1(2), of ?t]
  have "rs_active_fork_count ready = int (count_active_fork_runs ?t None runs)"
    using 1(3) counted_active_forks [of ?t runs 100] settled(2) assms(2) by (auto elim!: ready_setE)
  then have "count_active_fork_runs ?t None (fs_runs s')
      \<le> max (count_active_fork_runs ?t None runs) (fp_max_forks (fm_policy m))"
    using 1(6) queue_fork_batch_count [of enc now ids "next_batch_args m merged" ready "s\<lparr>fs_runs := runs\<rparr>" s' _ ?t]
    by (auto simp: next_batch_args_def split: if_splits)
  with settled(1) show ?thesis by linarith
qed

text \<open>The runs of a task as a machine: forks are merged, with any tree and any result and while the
  task has at most a hundred runs, or a run comes to its end.\<close>

inductive fork_step :: "ustr \<Rightarrow> nat \<Rightarrow> fork_store \<Rightarrow> fork_store \<Rightarrow> bool" for t n where
  merge: "merge_fork_result_and_plan_next_batch dg enc now ids m w e s = Inr (s', res) \<Longrightarrow>
    fm_task_id m = t \<Longrightarrow> fp_max_forks (fm_policy m) \<le> n \<Longrightarrow>
    length (filter (\<lambda>r. ru_task_id r = t) (fs_runs s)) \<le> 100 \<Longrightarrow> fork_step t n s s'"
| finish: "update_agent_run now i u (fs_runs s) = Inr (runs, r) \<Longrightarrow>
    xu_status u \<in> {Some RnCompleted, Some RnFailed, Some RnAborted} \<Longrightarrow>
    fork_step t n s (s\<lparr>fs_runs := runs\<rparr>)"

definition within_limit :: "ustr \<Rightarrow> nat \<Rightarrow> fork_store \<Rightarrow> bool" where
  "within_limit t n s \<longleftrightarrow> count_active_fork_runs t None (fs_runs s) \<le> n"

lemma fork_step_within: "fork_step t n s s' \<Longrightarrow> within_limit t n s \<Longrightarrow> within_limit t n s'"
proof (induction rule: fork_step.induct)
  case (merge dg enc now ids m w e s s' res)
  then show ?case using merge_respects_fork_limit [OF merge.hyps(1)] by (auto simp: within_limit_def)
next
  case (finish now i u s runs r)
  then have "runs = edit_row ru_id i (apply_run_update now u) (fs_runs s)"
    by (auto simp: update_agent_run_def split: option.splits sum.splits)
  then have "count_active_fork_runs t None runs \<le> count_active_fork_runs t None (fs_runs s)"
    using finish.hyps(2)
    by (auto simp: apply_run_update_def value_or_def active_fork_run_statuses_def intro!: count_edit_le)
  with finish.prems show ?case by (simp add: within_limit_def)
qed

interpretation forks: invariant_system "fork_step t n" "within_limit t n" for t n
  by unfold_locales (rule fork_step_within)

text \<open>C18: forks stay within the limit of the policy: however results are merged, batches launched and
  runs finished, and while the task has at most a hundred runs, there are never more active
  forks than the largest limit in use.\<close>

theorem fork_limit_invariant:
  assumes "(fork_step t n)\<^sup>*\<^sup>* s s'" "count_active_fork_runs t None (fs_runs s) \<le> n"
  shows "count_active_fork_runs t None (fs_runs s') \<le> n"
  using forks.reachable_inv [OF assms(1)] assms(2) by (simp add: within_limit_def)

lemma queued_forks_nodes:
  "map qf_assigned_work_tree_node_id (queued_forks_from enc now ids tid queue run mk k cs)
    = map fc_assigned_work_tree_node_id cs"
  unfolding queued_forks_from_def by (induction cs arbitrary: k) (simp_all add: Let_def)

lemma queued_forks_mem:
  "q \<in> set (queued_forks_from enc now ids tid queue run mk k cs) \<Longrightarrow>
    \<exists>j c. c \<in> set cs \<and> qf_agent_run q = run j (fc_assigned_work_tree_node_id c)
      \<and> qf_work_item q = fork_item enc now (fk_item ids j) queue tid (qf_request q)
      \<and> qf_assigned_work_tree_node_id q = fc_assigned_work_tree_node_id c
      \<and> qf_request q = mk (qf_agent_run q) c"
proof -
  assume "q \<in> set (queued_forks_from enc now ids tid queue run mk k cs)"
  then obtain j c where jc: "(j, c) \<in> set (List.enumerate k cs)"
    "q = (let r = run j (fc_assigned_work_tree_node_id c)
            in \<lparr>qf_agent_run = r, qf_work_item = fork_item enc now (fk_item ids j) queue tid (mk r c),
                qf_assigned_work_tree_node_id = fc_assigned_work_tree_node_id c, qf_request = mk r c\<rparr>)"
    unfolding queued_forks_from_def by auto
  then have "c \<in> set cs" by (auto simp: enumerate_eq_zip dest: set_zip_rightD)
  with jc(2) show ?thesis by (intro exI [of _ j] exI [of _ c]) (simp add: Let_def)
qed

lemma count_forks_all:
  "(\<And>q. q \<in> set qs \<Longrightarrow> active_fork t (qf_agent_run q)) \<Longrightarrow>
    count_active_fork_runs t None (map qf_agent_run qs) = length qs"
  by (induction qs) (simp_all add: count_active_fork_runs_def)

text \<open>C17: queueing a batch of forks does not fail on a known task with set parent fields: it adds, for
  the first ready children that fit the free slots and for no other, one initializing fork run
  and one queued work item that names this run and carries the parent's work tree; the number
  of active forks grows by exactly that many.\<close>

theorem fork_batch_exact:
  fixes a ids ready
  defines "root_run \<equiv> text_or (fa_fork_root_run_id a) (fa_parent_run_id a)"
    and "depth \<equiv> max (fa_fork_depth a) 1"
    and "anchor \<equiv> text_or (fa_parent_context_anchor a) (fk_anchor ids)"
    and "grp \<equiv> text_or (fa_fork_group_id a) (fk_group ids)"
    and "slots \<equiv> nat (available_fork_slots (fa_policy a) (rs_active_fork_count ready))"
  assumes "find_row tk_id (fs_tasks s) (fa_task_id a) = Some t"
    and "fork_fields_ok a root_run depth anchor grp"
    and "\<forall>c\<in>set (rs_ready_children ready). \<not> blank_text (rc_node_id c)"
    and "fresh_ids ids 0 (length (rs_ready_children ready)) s"
  shows "\<exists>s' res. queue_fork_batch enc now ids a ready s = Inr (s', res)
    \<and> map qf_assigned_work_tree_node_id (fbr_queued_forks res) = take slots (map rc_node_id (rs_ready_children ready))
    \<and> fs_runs s' = fs_runs s @ map qf_agent_run (fbr_queued_forks res)
    \<and> fs_items s' = fs_items s @ map qf_work_item (fbr_queued_forks res)
    \<and> (\<forall>q\<in>set (fbr_queued_forks res).
         ru_run_type (qf_agent_run q) = RtFork \<and> ru_status (qf_agent_run q) = RnInitializing
         \<and> ru_task_id (qf_agent_run q) = fa_task_id a \<and> ru_fork_depth (qf_agent_run q) = depth
         \<and> ru_assigned_work_tree_node_id (qf_agent_run q) = Some (qf_assigned_work_tree_node_id q)
         \<and> wi_status (qf_work_item q) = WQueued \<and> wi_queue (qf_work_item q) = fa_queue a
         \<and> wi_payload (qf_work_item q) = fork_work_item_payload enc (fa_task_id a) (qf_request q)
         \<and> fr_agent_run_id (qf_request q) = ru_id (qf_agent_run q)
         \<and> fr_work_tree_snapshot (qf_request q) = fa_work_tree a)
    \<and> count_active_fork_runs (fa_task_id a) None (fs_runs s') =
        count_active_fork_runs (fa_task_id a) None (fs_runs s) + min slots (length (rs_ready_children ready))"
proof -
  let ?tid = "fa_task_id a"
  obtain plan where plan: "plan_fork_batch ready (fa_policy a) (Some (rs_active_fork_count ready)) = Inr plan"
    "bp_launch_candidates plan @ bp_waiting_candidates plan = map candidate_of (rs_ready_children ready)"
    "int (length (bp_launch_candidates plan)) =
         min (bp_available_fork_slots plan) (int (length (rs_ready_children ready)))"
    "bp_available_fork_slots plan = available_fork_slots (fa_policy a) (rs_active_fork_count ready)"
    using plan_fork_batch_total [of ready "fa_policy a" "Some (rs_active_fork_count ready)"] by auto
  let ?cs = "bp_launch_candidates plan"
  have len: "length ?cs = min slots (length (rs_ready_children ready))"
    using plan(3,4) available_fork_slots_nonneg [of "fa_policy a" "rs_active_fork_count ready"]
    unfolding slots_def by (simp add: min_def nat_le_iff split: if_splits)
  have "?cs = take (length ?cs) (map candidate_of (rs_ready_children ready))"
    using plan(2) by (metis append_eq_conv_conj)
  then have cs: "?cs = take slots (map candidate_of (rs_ready_children ready))"
    unfolding len by (metis length_map min.commute take_all_iff take_take nle_le min_def)
  have "\<forall>c\<in>set ?cs. \<not> blank_text (fc_assigned_work_tree_node_id c)"
    using assms(8) unfolding cs by (auto simp: candidate_of_def dest!: in_set_takeD)
  moreover have "fresh_ids ids 0 (length ?cs) s" using assms(9) len by (auto simp: fresh_ids_def)
  moreover define mk where "mk = fork_request_of a root_run depth anchor grp plan
      (text_or (fa_parent_node_id a) (rs_parent_node_id ready))"
  moreover define qs where "qs = queued_forks_from enc now ids ?tid (fa_queue a)
      (\<lambda>j n. fork_run now (fk_run ids j) a root_run depth anchor grp n t) mk 0 ?cs"
  ultimately obtain s' where s': "launch_forks enc now ids ?tid (fa_queue a)
        (fork_run_payload a root_run depth anchor grp) mk 0 ?cs s = Inr (s', qs)"
      "fs_runs s' = fs_runs s @ map qf_agent_run qs" "fs_items s' = fs_items s @ map qf_work_item qs"
    using launch_forks_eq [OF assms(7,6), of ?cs ids 0] unfolding Let_def by blast
  then obtain res where res: "queue_fork_batch enc now ids a ready s = Inr (s', res)" "fbr_queued_forks res = qs"
    using plan(1) unfolding mk_def root_run_def depth_def anchor_def grp_def
    by (simp add: queue_fork_batch_def Let_def)
  have t: "tk_id t = ?tid" using find_row_Some [OF assms(6)] by simp
  have d: "1 \<le> depth" by (simp add: depth_def)
  have q: "ru_run_type (qf_agent_run q) = RtFork \<and> ru_status (qf_agent_run q) = RnInitializing
         \<and> ru_task_id (qf_agent_run q) = fa_task_id a \<and> ru_fork_depth (qf_agent_run q) = depth
         \<and> ru_assigned_work_tree_node_id (qf_agent_run q) = Some (qf_assigned_work_tree_node_id q)
         \<and> wi_status (qf_work_item q) = WQueued \<and> wi_queue (qf_work_item q) = fa_queue a
         \<and> wi_payload (qf_work_item q) = fork_work_item_payload enc (fa_task_id a) (qf_request q)
         \<and> fr_agent_run_id (qf_request q) = ru_id (qf_agent_run q)
         \<and> fr_work_tree_snapshot (qf_request q) = fa_work_tree a" if "q \<in> set qs" for q
    using queued_forks_mem [OF that [unfolded qs_def]] d t
    by (auto simp: fork_item_def mk_def fork_request_of_def)
  then have "count_active_fork_runs ?tid None (map qf_agent_run qs) = length qs"
    by (intro count_forks_all) (simp add: active_fork_def active_fork_run_statuses_def)
  moreover have n: "map qf_assigned_work_tree_node_id qs = map fc_assigned_work_tree_node_id ?cs"
    unfolding qs_def by (rule queued_forks_nodes)
  moreover have "length qs = length ?cs" using n by (metis length_map)
  moreover have "map fc_assigned_work_tree_node_id ?cs = take slots (map rc_node_id (rs_ready_children ready))"
    unfolding cs by (simp add: candidate_of_def take_map comp_def)
  ultimately show ?thesis
    using res s'(2,3) q len by (intro exI [of _ s'] exI [of _ res] conjI) (simp_all add: count_append)
qed

section \<open>The merged tree\<close>

lemma merged_node_simps [simp]:
  "n_id (merged_node now e run n) = n_id n" "n_child_node_ids (merged_node now e run n) = n_child_node_ids n"
  "n_parent_node_id (merged_node now e run n) = n_parent_node_id n"
  "n_recovery_anchor (merged_node now e run n) = n_recovery_anchor n"
  "node_ok (merged_node now e run n) = node_ok n"
  "has_no_parent (merged_node now e run n) = has_no_parent n"
  by (simp_all add: merged_node_def node_ok_def has_no_parent_def)

definition merge_at :: "nat \<Rightarrow> fork_result \<Rightarrow> ustr option \<Rightarrow> work_tree_node \<Rightarrow> work_tree_node" where
  "merge_at now e run n = (if n_id n = fe_assigned_work_tree_node_id e then merged_node now e run n else n)"

lemma merge_at_simps [simp]:
  "n_id (merge_at now e run n) = n_id n" "n_child_node_ids (merge_at now e run n) = n_child_node_ids n"
  "n_parent_node_id (merge_at now e run n) = n_parent_node_id n"
  "node_ok (merge_at now e run n) = node_ok n" "has_no_parent (merge_at now e run n) = has_no_parent n"
  by (simp_all add: merge_at_def)

lemma merged_tree:
  assumes "tree_ok w" "merge_fork_result_into_work_tree dg now w e run = Inr w'"
  shows "wt_nodes w' = map (merge_at now e run) (wt_nodes w)" "wt_root_node_id w' = wt_root_node_id w"
proof -
  let ?i = "fe_assigned_work_tree_node_id e"
  let ?memo = "normalize_excerpt (lit ''fork-result:'' @ ?i) 160"
  let ?w = "w\<lparr>wt_nodes := map (merge_at now e run) (wt_nodes w), wt_pc_memo := Some ?memo, wt_updated_at := now\<rparr>"
  have w': "w' = validate_tree dg now ?w"
    using assms(2) by (simp add: merge_fork_result_into_work_tree_def Let_def merge_at_def [abs_def] split: if_splits)
  have "of_char (CHR ''f'') \<in> set (lit ''fork-result:'' @ ?i)" by (simp add: lit_def)
  then have "?memo \<noteq> []" by (rule excerpt_nonempty) (simp add: is_space_def)
  then have "norm_ok ?memo" by (rule norm_ok_compact [OF normalize_excerpt_compact])
  moreover have "list_all has_no_parent (map (merge_at now e run) (wt_nodes w)) = list_all has_no_parent (wt_nodes w)"
    by (simp add: list.pred_map comp_def)
  moreover have "fields_ok w" using assms(1) by (simp add: tree_ok_def)
  ultimately have "fields_ok ?w" unfolding fields_ok_def by simp
  then show "wt_nodes w' = map (merge_at now e run) (wt_nodes w)" "wt_root_node_id w' = wt_root_node_id w"
    unfolding w' by (simp_all add: validate_tree_fields)
qed

lemma lookup_map_nodes:
  "wt_nodes w' = map f (wt_nodes w) \<Longrightarrow> (\<And>n. n_id (f n) = n_id n) \<Longrightarrow>
    node_by_id w' i = map_option f (node_by_id w i)"
  by (simp add: node_by_id_def index_by_map)

lemma direct_children_map_nodes:
  assumes "wt_nodes w' = map f (wt_nodes w)" "\<And>n. n_id (f n) = n_id n"
    and "\<And>n. n_child_node_ids (f n) = n_child_node_ids n" "\<And>n. n_parent_node_id (f n) = n_parent_node_id n"
  shows "direct_children w' (f p) = map f (direct_children w p)"
proof -
  have "List.map_filter (node_by_id w') is = map f (List.map_filter (node_by_id w) is)" for "is"
    using lookup_map_nodes [of w' f w] assms(1,2)
    by (induction "is") (simp_all add: List.map_filter_simps split: option.split)
  moreover have "filter (\<lambda>n. n_parent_node_id n = Some (n_id (f p))) (map f (wt_nodes w))
      = map f (filter (\<lambda>n. n_parent_node_id n = Some (n_id p)) (wt_nodes w))"
    using assms(2,4) by (simp add: filter_map comp_def)
  ultimately show ?thesis unfolding direct_children_def assms(1,3) by (simp add: list_or_def)
qed

lemma launch_forks_nodes:
  "launch_forks enc now ids tid queue pay mk k cs s = Inr (s', qs) \<Longrightarrow>
     map qf_assigned_work_tree_node_id qs = map fc_assigned_work_tree_node_id cs"
proof (induction cs arbitrary: k s s' qs)
  case (Cons c cs)
  then show ?case by (fastforce simp: map_sum_Inr split: sum.splits prod.splits)
qed simp

lemma queued_batch_nodes:
  assumes "queue_fork_batch enc now ids a ready s = Inr (s', res)"
  shows "map qf_assigned_work_tree_node_id (fbr_queued_forks res) =
    take (nat (available_fork_slots (fa_policy a) (rs_active_fork_count ready))) (map rc_node_id (rs_ready_children ready))"
proof -
  let ?k = "nat (available_fork_slots (fa_policy a) (rs_active_fork_count ready))"
  have len: "\<not> int (length (take ?k (map candidate_of (rs_ready_children ready)))) > available_fork_slots (fa_policy a) (rs_active_fork_count ready)"
    using available_fork_slots_nonneg [of "fa_policy a" "rs_active_fork_count ready"] by simp
  then have "\<exists>plan. plan_fork_batch ready (fa_policy a) (Some (rs_active_fork_count ready)) = Inr plan
      \<and> bp_launch_candidates plan = take ?k (map candidate_of (rs_ready_children ready))"
    by (simp add: plan_fork_batch_def validate_batch_plan_def Let_def)
  then show ?thesis
    using assms by (auto simp: queue_fork_batch_def Let_def map_sum_Inr candidate_of_def take_map comp_def
        dest!: launch_forks_nodes)
qed

section \<open>Siblings of a batch\<close>

lemma settled_runs_assigned:
  assumes "settle_fork_run now m e runs = Inr runs'" "i \<noteq> fe_assigned_work_tree_node_id e"
    and "\<forall>r\<in>set runs. ru_task_id r = t \<and> ru_assigned_work_tree_node_id r = Some i \<longrightarrow> ru_status r \<notin> active_fork_run_statuses"
  shows "\<forall>r\<in>set runs'. ru_task_id r = t \<and> ru_assigned_work_tree_node_id r = Some i \<longrightarrow> ru_status r \<notin> active_fork_run_statuses"
  using assms
  by (auto simp: settle_fork_run_def update_agent_run_def map_sum_Inr set_edit apply_run_update_def
      no_run_update_def value_or_def split: option.splits sum.splits)

lemma list_agent_runs_mem: "r \<in> set (list_agent_runs t n runs) \<Longrightarrow> r \<in> set runs \<and> ru_task_id r = t"
  unfolding list_agent_runs_def runs_of_def by (auto dest!: in_set_takeD)

lemma active_run_assigned [simp]: "ar_assigned_work_tree_node_id (active_run_of r) = ru_assigned_work_tree_node_id r"
  by (simp add: active_run_of_def)

lemma active_child_ids_of:
  "i \<in> active_child_ids (map active_run_of runs) \<Longrightarrow>
     \<exists>r\<in>set runs. ru_assigned_work_tree_node_id r = Some i \<and> ru_status r \<in> active_fork_run_statuses"
  unfolding active_child_ids_def List.map_filter_def by auto

text \<open>C19: the result of a sibling is forgotten: a fork merges into the tree its own work item was given
  when the batch was launched. A child that was open in this tree and whose own fork has since
  completed is ready again for this merge, and launched again when the free slots suffice.\<close>

theorem sibling_result_is_forgotten:
  assumes "merge_fork_result_and_plan_next_batch dg enc now ids m w e s = Inr (s', res)"
    and "tree_ok w" "fe_status e = ForkCompleted"
    and "node_by_id w (fm_parent_node_id m) = Some p" "a \<in> set (direct_children w p)"
    and "n_id a \<noteq> fe_assigned_work_tree_node_id e" "n_status a = NPending"
    and "\<forall>d\<in>set (n_depends_on a). \<exists>n. node_by_id w d = Some n \<and> n_status n = NCompleted"
    and "\<forall>r\<in>set (fs_runs s). ru_task_id r = fm_task_id m \<and> ru_assigned_work_tree_node_id r = Some (n_id a)
           \<longrightarrow> ru_status r = RnCompleted"
  shows "n_id a \<in> rc_node_id ` set (rs_ready_children (mr_ready_set res))
    \<and> (\<forall>batch. mr_next_batch res = Some batch
         \<and> int (length (rs_ready_children (mr_ready_set res))) \<le> fbr_available_fork_slots batch
         \<longrightarrow> n_id a \<in> set (map qf_assigned_work_tree_node_id (fbr_queued_forks batch)))"
  using assms(1)
proof (cases rule: merge_cases)
  case (1 merged runs ready)
  let ?f = "merge_at now e (fm_fork_run_id m)"
  let ?active = "active_child_ids (map active_run_of (list_agent_runs (fm_task_id m) 100 runs))"
  have nodes: "wt_nodes merged = map ?f (wt_nodes w)"
    using merged_tree(1) [OF assms(2), of dg now e "fm_fork_run_id m" merged] 1(1) assms(2) by simp
  have look: "node_by_id merged i = map_option ?f (node_by_id w i)" for i
    by (rule lookup_map_nodes [OF nodes]) simp
  have kids: "direct_children merged (?f p) = map ?f (direct_children w p)"
    by (rule direct_children_map_nodes [OF nodes]) simp_all
  have fa: "?f a = a" using assms(6) by (simp add: merge_at_def)
  have "\<forall>r\<in>set runs. ru_task_id r = fm_task_id m \<and> ru_assigned_work_tree_node_id r = Some (n_id a)
      \<longrightarrow> ru_status r \<notin> active_fork_run_statuses"
    by (rule settled_runs_assigned [OF 1(2) assms(6)])
       (use assms(9) in \<open>auto simp: active_fork_run_statuses_def\<close>)
  then have free: "n_id a \<notin> ?active"
    using active_child_ids_of [of "n_id a"] list_agent_runs_mem by blast
  have "n_status (?f n) = NCompleted" if "n_status n = NCompleted" for n
    using that assms(3) by (simp add: merge_at_def merged_node_def)
  then have "\<exists>n. node_by_id merged d = Some n \<and> n_status n = NCompleted" if "d \<in> set (n_depends_on a)" for d
    using that assms(8) by (auto simp: look)
  then have unblocked: "blocked_child_of (node_by_id merged) ?active a = None"
    using free assms(7) by (simp add: blocked_child_of_None)
  have ready: "n_id a \<in> rc_node_id ` set (rs_ready_children ready)"
    using 1(3)
  proof (rule ready_setE)
    fix parent ready_nodes
    assume p: "node_by_id merged (fm_parent_node_id m) = Some parent"
      and n: "ready_nodes = filter (\<lambda>c. blocked_child_of (node_by_id merged) ?active c = None)
        (sort_key child_order (direct_children merged parent))"
      and r: "rs_ready_children ready = map (ready_child_of
        (empty_graph_state\<lparr>gs_pending_information_items := fe_pending_information_items e\<rparr>)) ready_nodes"
    have "parent = ?f p" using p assms(4) by (simp add: look)
    then have "a \<in> set ready_nodes" using assms(5) fa unblocked unfolding n by (force simp: kids)
    then show ?thesis unfolding r by (force simp: ready_child_of_def)
  qed
  moreover have "n_id a \<in> set (map qf_assigned_work_tree_node_id (fbr_queued_forks batch))"
    if b: "mr_next_batch res = Some batch"
      "int (length (rs_ready_children ready)) \<le> fbr_available_fork_slots batch" for batch
  proof -
    have q: "queue_fork_batch enc now ids (next_batch_args m merged) ready (s\<lparr>fs_runs := runs\<rparr>) = Inr (s', batch)"
      using 1(6) b(1) by (auto split: if_splits)
    then have "fbr_available_fork_slots batch =
        available_fork_slots (fa_policy (next_batch_args m merged)) (rs_active_fork_count ready)"
      using plan_fork_batch_total [of ready "fa_policy (next_batch_args m merged)" "Some (rs_active_fork_count ready)"]
      by (auto simp: queue_fork_batch_def Let_def map_sum_Inr)
    then show ?thesis
      using ready b(2) unfolding queued_batch_nodes [OF q] by (auto simp: image_iff)
  qed
  ultimately show ?thesis unfolding 1(5) by blast
qed


section \<open>A sample batch\<close>

definition sample_task :: task_row where
  "sample_task =
     \<lparr>tk_id = lit ''t'', tk_app_id = lit ''app'', tk_project_id = lit ''p'', tk_space_id = lit ''s'',
      tk_branch_id = lit ''m'', tk_title = [], tk_goal = [], tk_status = TkRunning,
      tk_current_focus = None, tk_current_objective = None, tk_resume_message = None,
      tk_restart_message = None, tk_owner_profile_id = [], tk_execution_root_node_id = None,
      tk_active_snapshot_id = None, tk_active_resume_attempt_id = None,
      tk_resume_blocked_reason = None, tk_pending_control_intent = None, tk_window_index = 1,
      tk_restart_count = 0, tk_cumulative_window_span_tokens = 0, tk_carry_forward_loss_count = 0,
      tk_budget = default_budget, tk_pause_requested = False, tk_last_safe_stop_at = None,
      tk_started_at = None, tk_ended_at = None, tk_created_at = 0, tk_updated_at = 0\<rparr>"

definition sample_args :: fork_batch_args where
  "sample_args =
     \<lparr>fa_task_id = lit ''t'', fa_parent_run_id = lit ''main'', fa_policy = default_fork_launch_policy,
      fa_fork_root_run_id = None, fa_fork_depth = 1, fa_parent_context_anchor = None,
      fa_fork_group_id = None, fa_queue = agent_runtime_queue, fa_selected_model = None,
      fa_selected_provider = None, fa_work_tree = None, fa_parent_node_id = None,
      fa_auto_launch_next_batch = True\<rparr>"

definition sample_ids :: "nat \<Rightarrow> fork_ids" where
  "sample_ids n =
     \<lparr>fk_anchor = lit ''anchor'', fk_group = lit ''group'',
      fk_run = (\<lambda>k. replicate (n + k) 114), fk_item = (\<lambda>k. replicate (n + k) 105)\<rparr>"

text \<open>A fork run of the sample task, as \<open>create_agent_run\<close> makes it, in some state.\<close>

definition sample_fork :: "string \<Rightarrow> string \<Rightarrow> run_status \<Rightarrow> run_row" where
  "sample_fork i node st =
     (fork_run 2 (lit i) sample_args (lit ''main'') 1 (lit ''anchor'') (lit ''group'') (lit node) sample_task)
       \<lparr>ru_status := st\<rparr>"

definition sample_store :: "run_row list \<Rightarrow> fork_store" where
  "sample_store runs = \<lparr>fs_tasks = [sample_task], fs_runs = runs, fs_items = []\<rparr>"

definition sample_merge :: fork_merge_args where
  "sample_merge =
     \<lparr>fm_task_id = lit ''t'', fm_parent_run_id = lit ''main'', fm_parent_node_id = lit ''r'',
      fm_policy = default_fork_launch_policy, fm_fork_run_id = Some (lit ''rb''),
      fm_fork_root_run_id = None, fm_fork_depth = 1, fm_auto_launch = True\<rparr>"

definition sample_result :: fork_result where
  "sample_result =
     \<lparr>fe_assigned_work_tree_node_id = lit ''b'', fe_status = ForkCompleted, fe_summary = lit ''done'',
      fe_evidence_refs = [], fe_failure_summary = None, fe_plan_impact = NoImpact,
      fe_pending_information_items = []\<rparr>"

lemma not_blank: "norm_ok v \<Longrightarrow> \<not> blank_text v"
  by (auto simp: blank_text_def norm_ok_def)

lemma validated_tree_ok:
  assumes "tree_ok w" "merge_fork_result_into_work_tree dg now w e run = Inr w'" "n \<in> set (wt_nodes w')"
  shows "\<not> blank_text (n_id n)"
proof -
  obtain m where "m \<in> set (wt_nodes w)" "n = merge_at now e run m"
    using assms(3) unfolding merged_tree(1) [OF assms(1,2)] by auto
  then show ?thesis using assms(1) by (auto simp: tree_ok_def fields_ok_def node_ok_def intro!: not_blank)
qed

lemma ready_set_total:
  assumes "node_by_id w p \<noteq> None" shows "\<exists>rs. compute_parent_ready_set w p runs gs policy = Inr rs"
proof -
  obtain x where "node_by_id w p = Some x" using assms by auto
  then show ?thesis
    by (cases "classify_children (node_by_id w) (active_child_ids runs) (sort_key child_order (direct_children w x))")
       (simp add: compute_parent_ready_set_def Let_def)
qed

lemma merge_total:
  assumes "tree_ok w" "fe_assigned_work_tree_node_id e \<in> n_id ` set (wt_nodes w)"
    and "node_by_id w (fm_parent_node_id m) \<noteq> None"
    and "settle_fork_run now m e (fs_runs s) = Inr runs"
    and "find_row tk_id (fs_tasks s) (fm_task_id m) = Some t"
    and "\<not> blank_text (fm_parent_run_id m)" "\<not> blank_text (text_or (fm_fork_root_run_id m) (fm_parent_run_id m))"
    and "\<not> blank_text (fk_anchor ids)" "\<not> blank_text (fk_group ids)" "inj (fk_run ids)" "inj (fk_item ids)"
    and "\<forall>k. fk_run ids k \<notin> row_keys ru_id runs \<and> fk_item ids k \<notin> row_keys wi_id (fs_items s)"
  shows "\<exists>s' res. merge_fork_result_and_plan_next_batch dg enc now ids m w e s = Inr (s', res)"
proof -
  obtain merged where mg: "merge_fork_result_into_work_tree dg now w e (fm_fork_run_id m) = Inr merged"
    using assms(2) by (simp add: merge_fork_result_into_work_tree_def Let_def)
  have "node_by_id merged (fm_parent_node_id m) \<noteq> None"
    using lookup_map_nodes [OF merged_tree(1) [OF assms(1) mg]] assms(3) by simp
  then obtain ready where ready: "compute_parent_ready_set merged (fm_parent_node_id m)
        (map active_run_of (list_agent_runs (fm_task_id m) 100 runs))
        (empty_graph_state\<lparr>gs_pending_information_items := fe_pending_information_items e\<rparr>) (fm_policy m) = Inr ready"
    using ready_set_total by blast
  let ?a = "next_batch_args m merged"
  have "\<not> blank_text (rc_node_id c)" if "c \<in> set (rs_ready_children ready)" for c
    using ready_children_startable [OF ready that] validated_tree_ok [OF assms(1) mg] by metis
  moreover have "text_or (Some (text_or x y)) z = text_or x y" if "\<not> blank_text (text_or x y)" for x and y z :: ustr
    using that by (auto simp: text_or_def blank_text_def strip_def rstrip_def)
  ultimately have "\<exists>s' batch. queue_fork_batch enc now ids ?a ready (s\<lparr>fs_runs := runs\<rparr>) = Inr (s', batch)"
    using fork_batch_exact [of "s\<lparr>fs_runs := runs\<rparr>" ?a t ids ready enc now] assms(5-12)
    by (fastforce simp: fork_fields_ok_def next_batch_args_def fresh_ids_def text_or_def)
  then show ?thesis
    using assms(1,4) mg ready
    by (auto simp: merge_fork_result_and_plan_next_batch_def Let_def map_sum_Inr)
qed

definition sample_snapshot :: work_tree where
  "sample_snapshot = sample_tree NInProgress NPending NPending ''r''"

lemma sample_snapshot_ok: "tree_ok sample_snapshot"
  using sample_tree_wf [of "''r''" NInProgress NPending NPending] by (simp add: sample_snapshot_def tree_wf_def)

lemma sample_snapshot_lookup:
  "node_by_id sample_snapshot (lit ''r'') = Some (sample_node ''r'' None [''a'', ''b''] NInProgress)"
  by (simp add: sample_snapshot_def sample_lookup)

lemma sample_snapshot_ids: "n_id ` set (wt_nodes sample_snapshot) = {lit ''r'', lit ''a'', lit ''b''}"
  by (simp add: sample_snapshot_def sample_tree_def sample_node_id)

lemma sample_snapshot_children:
  "direct_children sample_snapshot (sample_node ''r'' None [''a'', ''b''] NInProgress) =
     [sample_node ''a'' (Some ''r'') [] NPending, sample_node ''b'' (Some ''r'') [] NPending]"
  by (simp add: direct_children_def sample_node_children dedup_def List.map_filter_simps list_or_def
      sample_snapshot_def sample_lookup)

definition sample_runs :: "run_row list" where
  "sample_runs = [sample_fork ''ra'' ''a'' RnCompleted, sample_fork ''rb'' ''b'' RnRunning]"

lemma sample_fork_simps [simp]:
  "ru_id (sample_fork i n st) = lit i" "ru_status (sample_fork i n st) = st"
  "ru_task_id (sample_fork i n st) = lit ''t''" "ru_run_type (sample_fork i n st) = RtFork"
  "ru_assigned_work_tree_node_id (sample_fork i n st) = Some (lit n)"
  "ru_parent_run_id (sample_fork i n st) = Some (lit ''main'')"
  "ru_parent_context_anchor (sample_fork i n st) = Some (lit ''anchor'')"
  "ru_fork_group_id (sample_fork i n st) = Some (lit ''group'')"
  by (simp_all add: sample_fork_def sample_args_def)
     (simp_all add: fork_run_def new_run_def fork_run_payload_def sample_task_def)

lemma texts_not_blank [simp]:
  "\<not> blank_text (lit ''main'')" "\<not> blank_text (lit ''anchor'')" "\<not> blank_text (lit ''group'')"
  "\<not> blank_text (lit ''b'')"
  by (auto intro!: not_blank norm_ok_lit simp: is_space_def)

lemma sample_settle: "\<exists>runs. settle_fork_run 9 sample_merge sample_result sample_runs = Inr runs
   \<and> map ru_id runs = [lit ''ra'', lit ''rb''] \<and> map ru_task_id runs = [lit ''t'', lit ''t'']
   \<and> map ru_status runs = [RnCompleted, RnCompleted]"
  by (simp add: settle_fork_run_def update_agent_run_def sample_merge_def sample_result_def sample_runs_def
      find_row_def value_or_def no_run_update_def validate_fork_agent_run_fields_def required_str_ok
      int_or_def edit_row_def apply_run_update_def text_or_def)

lemma sample_ids_simps [simp]:
  "inj (fk_run (sample_ids n))" "inj (fk_item (sample_ids n))"
  "fk_anchor (sample_ids n) = lit ''anchor''" "fk_group (sample_ids n) = lit ''group''"
  by (auto simp: sample_ids_def inj_def)

lemma sample_merge_result:
  "\<exists>s' res. merge_fork_result_and_plan_next_batch dg enc 9 (sample_ids 5) sample_merge sample_snapshot
      sample_result (sample_store sample_runs) = Inr (s', res)"
proof -
  from sample_settle obtain runs where rs: "settle_fork_run 9 sample_merge sample_result sample_runs = Inr runs
      \<and> map ru_id runs = [lit ''ra'', lit ''rb''] \<and> map ru_task_id runs = [lit ''t'', lit ''t'']
      \<and> map ru_status runs = [RnCompleted, RnCompleted]" ..
  note r = conjunct1 [OF rs] conjunct1 [OF conjunct2 [OF rs]]
  have keys: "row_keys ru_id runs = {lit ''ra'', lit ''rb''}"
    using arg_cong [OF r(2), of set] by (simp add: row_keys_def)
  have len: "length (fk_run (sample_ids 5) k) = 5 + k" for k by (simp add: sample_ids_def)
  have long: "u \<noteq> fk_run (sample_ids 5) k" if "length u = 2" for u k
  proof
    assume "u = fk_run (sample_ids 5) k"
    with len [of k] that show False by simp
  qed
  show ?thesis
  proof (rule merge_total [OF sample_snapshot_ok, where t = sample_task])
    show "settle_fork_run 9 sample_merge sample_result (fs_runs (sample_store sample_runs)) = Inr runs"
      using r(1) by (simp add: sample_store_def)
    show "fe_assigned_work_tree_node_id sample_result \<in> n_id ` set (wt_nodes sample_snapshot)"
      by (simp add: sample_snapshot_ids sample_result_def)
    show "node_by_id sample_snapshot (fm_parent_node_id sample_merge) \<noteq> None"
      by (simp add: sample_merge_def sample_snapshot_lookup)
    show "find_row tk_id (fs_tasks (sample_store sample_runs)) (fm_task_id sample_merge) = Some sample_task"
      by (simp add: sample_merge_def sample_store_def sample_task_def find_row_def)
    show "\<forall>k. fk_run (sample_ids 5) k \<notin> row_keys ru_id runs
        \<and> fk_item (sample_ids 5) k \<notin> row_keys wi_id (fs_items (sample_store sample_runs))"
      using long [of "lit ''ra''", THEN not_sym] long [of "lit ''rb''", THEN not_sym]
      unfolding keys by (simp add: sample_store_def row_keys_def)
  qed (simp_all add: sample_merge_def text_or_def)
qed


lemma sample_runs_done: "\<forall>r\<in>set (fs_runs (sample_store sample_runs)).
    ru_task_id r = fm_task_id sample_merge \<and> ru_assigned_work_tree_node_id r = Some (lit ''a'')
      \<longrightarrow> ru_status r = RnCompleted"
  by (simp add: sample_store_def sample_runs_def)

lemma sample_depends: "n_depends_on (sample_node i p cs st) = []"
  by (simp add: sample_node_def validate_node_def new_node_def Let_def)

definition sample_digest :: "json \<Rightarrow> ustr" where
  "sample_digest j = lit ''d''"

definition sample_enc :: "fork_request \<Rightarrow> json" where
  "sample_enc q = JStr (fr_agent_run_id q)"

theorem sibling_result_is_forgotten_witness:
  "\<exists>s' res. merge_fork_result_and_plan_next_batch sample_digest sample_enc 9 (sample_ids 5) sample_merge sample_snapshot
      sample_result (sample_store sample_runs) = Inr (s', res)
    \<and> lit ''a'' \<in> rc_node_id ` set (rs_ready_children (mr_ready_set res))"
proof -
  let ?a = "sample_node ''a'' (Some ''r'') [] NPending"
  from sample_merge_result [of sample_digest sample_enc] obtain s' res where m:
    "merge_fork_result_and_plan_next_batch sample_digest sample_enc 9 (sample_ids 5) sample_merge sample_snapshot
      sample_result (sample_store sample_runs) = Inr (s', res)" by (elim exE)
  have p: "node_by_id sample_snapshot (fm_parent_node_id sample_merge) =
      Some (sample_node ''r'' None [''a'', ''b''] NInProgress)"
    by (simp add: sample_merge_def sample_snapshot_lookup)
  have a: "?a \<in> set (direct_children sample_snapshot (sample_node ''r'' None [''a'', ''b''] NInProgress))"
    by (simp add: sample_snapshot_children)
  have e: "fe_status sample_result = ForkCompleted" by (simp add: sample_result_def)
  have i: "n_id ?a = lit ''a''" "n_status ?a = NPending" by (simp_all add: sample_node_keys is_space_def)
  then have "n_id ?a \<noteq> fe_assigned_work_tree_node_id sample_result" by (simp add: sample_result_def)
  from sibling_result_is_forgotten [OF m sample_snapshot_ok e p a this i(2)] sample_runs_done i(1)
  have "lit ''a'' \<in> rc_node_id ` set (rs_ready_children (mr_ready_set res))" by (simp add: sample_depends)
  with m show ?thesis by (intro exI conjI)
qed

lemma sample_runs_count: "count_active_fork_runs (lit ''t'') None (fs_runs (sample_store sample_runs)) = 1"
  by (simp add: sample_store_def sample_runs_def count_active_fork_runs_def active_fork_def
      active_fork_run_statuses_def)

theorem fork_limit_invariant_witness:
  "\<exists>s'. (fork_step (lit ''t'') 3)\<^sup>*\<^sup>* (sample_store sample_runs) s'
    \<and> count_active_fork_runs (lit ''t'') None (fs_runs s') \<le> 3"
proof -
  from sample_merge_result [of sample_digest sample_enc] obtain s' res where m:
    "merge_fork_result_and_plan_next_batch sample_digest sample_enc 9 (sample_ids 5) sample_merge sample_snapshot
      sample_result (sample_store sample_runs) = Inr (s', res)" by (elim exE)
  have "fork_step (lit ''t'') 3 (sample_store sample_runs) s'"
    by (rule fork_step.merge [OF m])
       (simp_all add: sample_merge_def default_fork_launch_policy_def sample_store_def sample_runs_def)
  then have s: "(fork_step (lit ''t'') 3)\<^sup>*\<^sup>* (sample_store sample_runs) s'" by (rule r_into_rtranclp)
  have "count_active_fork_runs (lit ''t'') None (fs_runs s') \<le> 3"
    by (rule fork_limit_invariant [OF s]) (simp add: sample_runs_count)
  with s show ?thesis by blast
qed

definition sample_ready :: ready_set where
  "sample_ready =
     \<lparr>rs_parent_node_id = lit ''r'',
      rs_ready_children = [\<lparr>rc_node_id = lit ''b'', rc_title = [], rc_priority = 100,
        rc_pending_information_items = [], rc_relation_ids = []\<rparr>],
      rs_blocked_children = [], rs_fork_launch_candidates = [], rs_active_fork_count = 0,
      rs_available_fork_slots = 3, rs_can_auto_launch = True, rs_parent_replan_required = False\<rparr>"

theorem fork_batch_exact_witness:
  "\<exists>s' res. queue_fork_batch sample_enc 2 (sample_ids 1) sample_args sample_ready (sample_store []) = Inr (s', res)
    \<and> map qf_assigned_work_tree_node_id (fbr_queued_forks res) = [lit ''b'']
    \<and> count_active_fork_runs (lit ''t'') None (fs_runs s') = 1"
proof -
  have t: "find_row tk_id (fs_tasks (sample_store [])) (fa_task_id sample_args) = Some sample_task"
    by (simp add: sample_store_def sample_args_def sample_task_def find_row_def)
  have f: "fork_fields_ok sample_args
      (text_or (fa_fork_root_run_id sample_args) (fa_parent_run_id sample_args))
      (max (fa_fork_depth sample_args) 1)
      (text_or (fa_parent_context_anchor sample_args) (fk_anchor (sample_ids 1)))
      (text_or (fa_fork_group_id sample_args) (fk_group (sample_ids 1)))"
    by (simp add: fork_fields_ok_def sample_args_def text_or_def)
  have r: "\<forall>c\<in>set (rs_ready_children sample_ready). \<not> blank_text (rc_node_id c)"
    by (simp add: sample_ready_def)
  have "fresh_ids (sample_ids 1) 0 (length (rs_ready_children sample_ready)) (sample_store [])"
    by (simp add: fresh_ids_def sample_store_def row_keys_def)
  from fork_batch_exact [OF t f r this, of sample_enc 2] obtain s' res where
    "queue_fork_batch sample_enc 2 (sample_ids 1) sample_args sample_ready (sample_store []) = Inr (s', res)"
    "map qf_assigned_work_tree_node_id (fbr_queued_forks res) = take (nat (available_fork_slots
       (fa_policy sample_args) (rs_active_fork_count sample_ready))) (map rc_node_id (rs_ready_children sample_ready))"
    "count_active_fork_runs (fa_task_id sample_args) None (fs_runs s') =
       count_active_fork_runs (fa_task_id sample_args) None (fs_runs (sample_store []))
       + min (nat (available_fork_slots (fa_policy sample_args) (rs_active_fork_count sample_ready)))
           (length (rs_ready_children sample_ready))"
    by (elim exE conjE)
  then show ?thesis
    by (intro exI [of _ s'] exI [of _ res])
       (simp add: sample_args_def sample_ready_def available_fork_slots_def default_fork_launch_policy_def
         sample_store_def count_active_fork_runs_def)
qed

end
