(* ===== verification/WriteQueue.thy ===== *)
theory WriteQueue
  imports Prelude
begin

text \<open>
  \<open>persistence/write_queue.py\<close> and \<open>PersistenceRuntime.run_with_sqlite_lock_retry\<close>: writes with
  the same queue key run one after the other, each retried while the database is locked.

  The keyed operation queue is a state with a program counter for each thread. What a thread does
  between two acquisitions of \<open>_meta_lock\<close> is one step, and so is what it does under that lock. A
  \<open>threading.Lock\<close> is a number, \<open>kq_next\<close> the next new one, and \<open>kq_owner\<close> the thread that
  has acquired it.
\<close>

section \<open>The keyed operation queue\<close>

datatype pc =
    Idle
  | Entered ustr nat  \<comment> \<open>counted in, waiting for the lock of the key\<close>
  | Inside ustr nat   \<comment> \<open>holds the lock, runs the operation\<close>
  | Leaving ustr nat     \<comment> \<open>has released the lock, not yet counted out\<close>

record keyed_queue =
  kq_locks :: "ustr \<Rightarrow> nat option"
  kq_refs :: "ustr \<Rightarrow> int option"
  kq_owner :: "nat \<Rightarrow> nat option"
  kq_pc :: "nat \<Rightarrow> pc"
  kq_next :: nat

definition empty_queue :: keyed_queue where
  "empty_queue =
     \<lparr>kq_locks = Map.empty, kq_refs = Map.empty, kq_owner = Map.empty, kq_pc = (\<lambda>_. Idle), kq_next = 0\<rparr>"

text \<open>The steps of \<open>acquire\<close>; a step that is not possible is \<open>None\<close>.\<close>

definition enter_queue :: "nat \<Rightarrow> ustr \<Rightarrow> keyed_queue \<Rightarrow> keyed_queue option" where
  "enter_queue t key q =
     (if kq_pc q t \<noteq> Idle then None
      else
        let l = (case kq_locks q key of None \<Rightarrow> kq_next q | Some l \<Rightarrow> l)
        in Some (q\<lparr>kq_locks := (kq_locks q)(key \<mapsto> l),
                   kq_refs := (kq_refs q)(key \<mapsto> (case kq_refs q key of None \<Rightarrow> 0 | Some n \<Rightarrow> n) + 1),
                   kq_pc := (kq_pc q)(t := Entered key l), kq_next := Suc (kq_next q)\<rparr>))"

definition lock_acquire :: "nat \<Rightarrow> keyed_queue \<Rightarrow> keyed_queue option" where
  "lock_acquire t q =
     (case kq_pc q t of
        Entered key l \<Rightarrow>
          (if kq_owner q l = None
           then Some (q\<lparr>kq_owner := (kq_owner q)(l \<mapsto> t), kq_pc := (kq_pc q)(t := Inside key l)\<rparr>)
           else None)
      | _ \<Rightarrow> None)"

definition lock_release :: "nat \<Rightarrow> keyed_queue \<Rightarrow> keyed_queue option" where
  "lock_release t q =
     (case kq_pc q t of
        Inside key l \<Rightarrow>
          Some (q\<lparr>kq_owner := (kq_owner q)(l := None), kq_pc := (kq_pc q)(t := Leaving key l)\<rparr>)
      | _ \<Rightarrow> None)"

definition leave_queue :: "nat \<Rightarrow> keyed_queue \<Rightarrow> keyed_queue option" where
  "leave_queue t q =
     (case kq_pc q t of
        Leaving key l \<Rightarrow>
          (let remaining = (case kq_refs q key of None \<Rightarrow> 1 | Some n \<Rightarrow> n) - 1
           in Some (if remaining \<le> 0
              then q\<lparr>kq_refs := (kq_refs q)(key := None), kq_locks := (kq_locks q)(key := None),
                     kq_pc := (kq_pc q)(t := Idle)\<rparr>
              else q\<lparr>kq_refs := (kq_refs q)(key \<mapsto> remaining), kq_pc := (kq_pc q)(t := Idle)\<rparr>))
      | _ \<Rightarrow> None)"

inductive queue_step :: "keyed_queue \<Rightarrow> keyed_queue \<Rightarrow> bool" where
  enter: "enter_queue t key q = Some q' \<Longrightarrow> queue_step q q'"
| acquire: "lock_acquire t q = Some q' \<Longrightarrow> queue_step q q'"
| release: "lock_release t q = Some q' \<Longrightarrow> queue_step q q'"
| leave: "leave_queue t q = Some q' \<Longrightarrow> queue_step q q'"

section \<open>Retries\<close>

text \<open>\<open>run_with_sqlite_lock_retry\<close>: \<open>n\<close> is the number of attempts left after this one.\<close>

fun retry_operation ::
  "('e \<Rightarrow> bool) \<Rightarrow> ('s \<Rightarrow> 's \<times> ('e + 'a)) \<Rightarrow> nat \<Rightarrow> 's \<Rightarrow> 's \<times> ('e + 'a)" where
  "retry_operation is_lock_error operation n s =
     (case operation s of
        (s', Inr x) \<Rightarrow> (s', Inr x)
      | (s', Inl err) \<Rightarrow>
          if \<not> is_lock_error err \<or> n = 0 then (s', Inl err)
          else retry_operation is_lock_error operation (n - 1) s')"

declare retry_operation.simps [simp del]

definition run_with_sqlite_lock_retry ::
  "int \<Rightarrow> ('e \<Rightarrow> bool) \<Rightarrow> ('s \<Rightarrow> 's \<times> ('e + 'a)) \<Rightarrow> 's \<Rightarrow> 's \<times> ('e + 'a)" where
  "run_with_sqlite_lock_retry max_attempts is_lock_error operation s =
     retry_operation is_lock_error operation (nat (max 1 max_attempts) - 1) s"

text \<open>\<open>_is_sqlite_lock_error\<close> on the class and the lower-cased text of an exception.\<close>

definition is_sqlite_lock_error :: "bool \<Rightarrow> ustr \<Rightarrow> bool" where
  "is_sqlite_lock_error operational detail \<longleftrightarrow>
     operational \<and> (has_infix (lit ''database is locked'') detail
                    \<or> has_infix (lit ''database table is locked'') detail)"

end
