(* ===== verification/WriteQueueProps.thy ===== *)
theory WriteQueueProps
  imports WriteQueue
begin

text \<open>
  What the write queue promises: it refines one mutex for each key, never deadlocks and leaves no
  entry behind; a write is retried only for a locked database and at most as often as configured.
\<close>

section \<open>The invariant\<close>

definition users :: "keyed_queue \<Rightarrow> ustr \<Rightarrow> nat set" where
  "users q key = {t. \<exists>l. kq_pc q t \<in> {Entered key l, Inside key l, Leaving key l}}"

definition queue_ok :: "keyed_queue \<Rightarrow> bool" where
  "queue_ok q \<longleftrightarrow>
     (\<forall>key. finite (users q key)
        \<and> kq_refs q key = (if users q key = {} then None else Some (int (card (users q key))))
        \<and> (kq_locks q key = None \<longleftrightarrow> users q key = {}))
     \<and> (\<forall>t key l. kq_pc q t \<in> {Entered key l, Inside key l, Leaving key l} \<longrightarrow> kq_locks q key = Some l)
     \<and> (\<forall>key l. kq_locks q key = Some l \<longrightarrow> l < kq_next q \<and> (\<forall>key'. kq_locks q key' = Some l \<longrightarrow> key' = key))
     \<and> (\<forall>l t. kq_owner q l = Some t \<longleftrightarrow> (\<exists>key. kq_pc q t = Inside key l))"

lemma queue_okD:
  assumes "queue_ok q"
  shows "finite (users q key)"
    "kq_refs q key = (if users q key = {} then None else Some (int (card (users q key))))"
    "kq_locks q key = None \<longleftrightarrow> users q key = {}"
    "kq_pc q t = Entered key l \<Longrightarrow> kq_locks q key = Some l"
    "kq_pc q t = Inside key l \<Longrightarrow> kq_locks q key = Some l"
    "kq_pc q t = Leaving key l \<Longrightarrow> kq_locks q key = Some l"
    "kq_locks q key = Some l \<Longrightarrow> l < kq_next q"
    "kq_locks q key = Some l \<Longrightarrow> kq_locks q key' = Some l \<Longrightarrow> key' = key"
    "kq_owner q l = Some t \<longleftrightarrow> (\<exists>key. kq_pc q t = Inside key l)"
  using assms unfolding queue_ok_def by blast+

lemma empty_queue_ok: "queue_ok empty_queue"
  by (simp add: queue_ok_def empty_queue_def users_def)

lemma users_update:
  "users (q\<lparr>kq_pc := (kq_pc q)(t := p)\<rparr>) key =
     (users q key - {t}) \<union> (if \<exists>l. p \<in> {Entered key l, Inside key l, Leaving key l} then {t} else {})"
  by (auto simp: users_def)

lemma users_fields [simp]:
  "users (q\<lparr>kq_locks := a\<rparr>) = users q" "users (q\<lparr>kq_refs := b\<rparr>) = users q"
  "users (q\<lparr>kq_owner := c\<rparr>) = users q" "users (q\<lparr>kq_next := d\<rparr>) = users q"
  by (auto simp: users_def fun_eq_iff)

lemma users_pc: "t \<in> users q key \<longleftrightarrow> (\<exists>l. kq_pc q t \<in> {Entered key l, Inside key l, Leaving key l})"
  by (simp add: users_def)

lemma enter_ok:
  assumes "queue_ok q" "enter_queue t key q = Some q'" shows "queue_ok q'"
proof -
  define l where "l = (case kq_locks q key of None \<Rightarrow> kq_next q | Some l \<Rightarrow> l)"
  have idle: "kq_pc q t = Idle"
    and q': "q' = q\<lparr>kq_locks := (kq_locks q)(key \<mapsto> l),
       kq_refs := (kq_refs q)(key \<mapsto> (case kq_refs q key of None \<Rightarrow> 0 | Some n \<Rightarrow> n) + 1),
       kq_pc := (kq_pc q)(t := Entered key l), kq_next := Suc (kq_next q)\<rparr>"
    using assms(2) by (auto simp: enter_queue_def Let_def l_def split: if_splits)
  note ok = queue_okD [OF assms(1)]
  have t: "t \<notin> users q k" for k using idle by (simp add: users_pc)
  have u: "users q' k = (if k = key then insert t (users q k) else users q k)" for k
    using t [of k] idle unfolding q' by (auto simp: users_def)
  have lk: "kq_locks q key = Some l \<or> kq_locks q key = None \<and> l = kq_next q"
    by (auto simp: l_def split: option.split)
  have fresh: "kq_locks q k = Some l \<Longrightarrow> k = key" for k
    using lk ok(7) [of k l] ok(8) [of key l k] by auto
  have pc: "kq_locks q' k = Some m" if "kq_pc q' x \<in> {Entered k m, Inside k m, Leaving k m}" for x k m
  proof (cases "x = t")
    case True
    with that show ?thesis by (simp add: q')
  next
    case False
    then have "kq_locks q k = Some m" using that ok(4,5,6) by (auto simp: q')
    with lk show ?thesis by (auto simp: q')
  qed
  have refs: "kq_refs q' k = (if users q' k = {} then None else Some (int (card (users q' k))))" for k
    using ok(1) [of k] ok(2) [of k] t [of k] unfolding u by (cases "k = key") (simp_all add: q')
  have locks: "kq_locks q' k = None \<longleftrightarrow> users q' k = {}" for k
    unfolding u using ok(3) [of k] by (simp add: q')
  have inj: "m < kq_next q' \<and> (\<forall>k'. kq_locks q' k' = Some m \<longrightarrow> k' = k)" if m: "kq_locks q' k = Some m" for k m
  proof (cases "k = key")
    case True
    with m have [simp]: "m = l" by (simp add: q')
    from lk ok(7) [of key l] have "l < Suc (kq_next q)" by auto
    then show ?thesis using True fresh by (auto simp: q')
  next
    case False
    with m have m: "kq_locks q k = Some m" by (simp add: q')
    then have "m \<noteq> l" using fresh False by blast
    with ok(7) [OF m] ok(8) [OF m] show ?thesis by (auto simp: q')
  qed
  have own: "kq_owner q' m = Some x \<longleftrightarrow> (\<exists>k. kq_pc q' x = Inside k m)" for m x
    using ok(9) [of m x] idle by (simp add: q')
  show ?thesis
    unfolding queue_ok_def using refs locks pc inj own ok(1) by (auto simp: u)
qed

lemma moved_ok:
  assumes "queue_ok q" "kq_pc q t \<in> {Entered key l, Inside key l, Leaving key l}"
    and "p \<in> {Entered key l, Inside key l, Leaving key l}"
    and "\<And>m x. own m = Some x \<longleftrightarrow> (\<exists>k. ((kq_pc q)(t := p)) x = Inside k m)"
  shows "queue_ok (q\<lparr>kq_owner := own, kq_pc := (kq_pc q)(t := p)\<rparr>)"
proof -
  let ?q = "q\<lparr>kq_owner := own, kq_pc := (kq_pc q)(t := p)\<rparr>"
  note ok = queue_okD [OF assms(1)]
  have u: "users ?q k = users q k" for k using assms(2,3) by (auto simp: users_def)
  have lk: "kq_locks q key = Some l" using assms(2) ok(4,5,6) by auto
  have pc: "kq_locks ?q k = Some m" if "kq_pc ?q x \<in> {Entered k m, Inside k m, Leaving k m}" for x k m
  proof (cases "x = t")
    case True
    with that assms(3) have "k = key" "m = l" by auto
    with lk show ?thesis by simp
  next
    case False
    with that ok(4,5,6) show ?thesis by auto
  qed
  show ?thesis
    unfolding queue_ok_def using ok(1,2,3,7,8) pc assms(4) by (auto simp: u)
qed

lemma acquire_ok: assumes "queue_ok q" "lock_acquire t q = Some q'" shows "queue_ok q'"
proof -
  obtain key l where p: "kq_pc q t = Entered key l" "kq_owner q l = None"
    "q' = q\<lparr>kq_owner := (kq_owner q)(l \<mapsto> t), kq_pc := (kq_pc q)(t := Inside key l)\<rparr>"
    using assms(2) by (auto simp: lock_acquire_def split: pc.splits if_splits)
  note own = queue_okD(9) [OF assms(1)]
  have none: "kq_pc q x \<noteq> Inside k l" for x k using own [of l x] p(2) by auto
  have "((kq_owner q)(l \<mapsto> t)) m = Some x \<longleftrightarrow> (\<exists>k. ((kq_pc q)(t := Inside key l)) x = Inside k m)" for m x
    using own [of m x] none p(1) by (cases "x = t"; cases "m = l") auto
  with p(1) show ?thesis unfolding p(3) by (intro moved_ok [OF assms(1), of t key l]) auto
qed

lemma release_ok: assumes "queue_ok q" "lock_release t q = Some q'" shows "queue_ok q'"
proof -
  obtain key l where p: "kq_pc q t = Inside key l"
    "q' = q\<lparr>kq_owner := (kq_owner q)(l := None), kq_pc := (kq_pc q)(t := Leaving key l)\<rparr>"
    using assms(2) by (auto simp: lock_release_def split: pc.splits)
  note own = queue_okD(9) [OF assms(1)]
  have "kq_owner q l = Some t" using own p(1) by blast
  then have only: "x \<noteq> t \<Longrightarrow> kq_pc q x \<noteq> Inside k l" for x k using own [of l x] by auto
  have "((kq_owner q)(l := None)) m = Some x \<longleftrightarrow> (\<exists>k. ((kq_pc q)(t := Leaving key l)) x = Inside k m)" for m x
    using own [of m x] only p(1) by (cases "x = t"; cases "m = l") auto
  with p(1) show ?thesis unfolding p(2) by (intro moved_ok [OF assms(1), of t key l]) auto
qed

lemma leave_ok: assumes "queue_ok q" "leave_queue t q = Some q'" shows "queue_ok q'"
proof -
  note ok = queue_okD [OF assms(1)]
  obtain key l where p: "kq_pc q t = Leaving key l" using assms(2) by (auto simp: leave_queue_def split: pc.splits)
  then have t: "t \<in> users q key" by (simp add: users_pc)
  then have "users q key \<noteq> {}" by blast
  then have r: "kq_refs q key = Some (int (card (users q key)))" using ok(2) [of key] by simp
  define rest where "rest = users q key - {t}"
  have c: "card (users q key) = Suc (card rest)" using card_Suc_Diff1 [OF ok(1) t] by (simp only: rest_def)
  have q': "q' = (if card rest = 0
      then q\<lparr>kq_refs := (kq_refs q)(key := None), kq_locks := (kq_locks q)(key := None), kq_pc := (kq_pc q)(t := Idle)\<rparr>
      else q\<lparr>kq_refs := (kq_refs q)(key \<mapsto> int (card rest)), kq_pc := (kq_pc q)(t := Idle)\<rparr>)"
    using assms(2) p r c by (simp add: leave_queue_def)
  have fin: "finite rest" using ok(1) [of key] by (simp add: rest_def)
  have u: "users q' k = (if k = key then rest else users q k)" for k
    using p unfolding q' rest_def by (auto simp: users_def)
  have e: "card rest = 0 \<longleftrightarrow> rest = {}" using fin by simp
  have refs: "kq_refs q' k = (if users q' k = {} then None else Some (int (card (users q' k))))" for k
    unfolding u using ok(2) [of k] e by (auto simp: q')
  have locks: "kq_locks q' k = None \<longleftrightarrow> users q' k = {}" for k
    unfolding u using ok(3) [of k] ok(3) [of key] t e by (auto simp: q')
  have old: "kq_locks q k = Some m" if "kq_locks q' k = Some m" for k m
    using that by (auto simp: q' split: if_splits)
  have pc: "kq_locks q' k = Some m" if x: "kq_pc q' x \<in> {Entered k m, Inside k m, Leaving k m}" for x k m
  proof -
    have "x \<noteq> t" using x by (auto simp: q' split: if_splits)
    then have "kq_locks q k = Some m" using x ok(4,5,6) by (auto simp: q' split: if_splits)
    moreover have "x \<in> users q' k" using x by (auto simp: users_pc)
    then have "kq_locks q' k \<noteq> None" using locks by blast
    ultimately show ?thesis using old by fastforce
  qed
  have same: "kq_next q' = kq_next q" by (simp add: q')
  have inj: "m < kq_next q' \<and> (\<forall>k'. kq_locks q' k' = Some m \<longrightarrow> k' = k)" if m: "kq_locks q' k = Some m" for k m
    using ok(7) [OF old [OF m]] ok(8) [OF old [OF m]] old unfolding same by blast
  have own: "kq_owner q' m = Some x \<longleftrightarrow> (\<exists>k. kq_pc q' x = Inside k m)" for m x
    using ok(9) [of m x] p by (auto simp: q')
  show ?thesis
    unfolding queue_ok_def using refs locks pc inj own ok(1) fin by (auto simp: u)
qed

lemma queue_step_ok: "queue_step q q' \<Longrightarrow> queue_ok q \<Longrightarrow> queue_ok q'"
  by (induction rule: queue_step.induct) (auto intro: enter_ok acquire_ok release_ok leave_ok)

section \<open>Refinement of a mutex for each key\<close>

text \<open>The specification: a key is held by one thread or by none; a step takes a free key or gives a
  held one back.\<close>

definition mutex_step :: "(ustr \<Rightarrow> nat option) \<Rightarrow> (ustr \<Rightarrow> nat option) \<Rightarrow> bool" where
  "mutex_step h h' \<longleftrightarrow> (\<exists>key t. h key = None \<and> h' = h(key \<mapsto> t) \<or> h key = Some t \<and> h' = h(key := None))"

definition holder :: "keyed_queue \<Rightarrow> ustr \<Rightarrow> nat option" where
  "holder q key = (case kq_locks q key of None \<Rightarrow> None | Some l \<Rightarrow> kq_owner q l)"

lemma holder_iff: "queue_ok q \<Longrightarrow> holder q key = Some t \<longleftrightarrow> (\<exists>l. kq_pc q t = Inside key l)"
proof -
  assume q: "queue_ok q"
  note ok = queue_okD [OF q]
  show ?thesis
  proof
    assume "holder q key = Some t"
    then obtain l where l: "kq_locks q key = Some l" "kq_owner q l = Some t"
      by (auto simp: holder_def split: option.splits)
    then obtain k where k: "kq_pc q t = Inside k l" using ok(9) by blast
    with ok(5) [OF k] ok(8) [OF l(1)] show "\<exists>l. kq_pc q t = Inside key l" by blast
  next
    assume "\<exists>l. kq_pc q t = Inside key l"
    then obtain l where l: "kq_pc q t = Inside key l" by blast
    with ok(5) [OF l] ok(9) show "holder q key = Some t" by (auto simp: holder_def)
  qed
qed

lemma holder_same:
  assumes "queue_ok q" "queue_ok q'" "\<And>t k l. kq_pc q' t = Inside k l \<longleftrightarrow> kq_pc q t = Inside k l"
  shows "holder q' = holder q"
proof
  fix key
  have "holder q' key = Some t \<longleftrightarrow> holder q key = Some t" for t
    unfolding holder_iff [OF assms(1)] holder_iff [OF assms(2)] assms(3) ..
  then show "holder q' key = holder q key" by (metis not_Some_eq)
qed

lemma queue_step_simulated:
  assumes "queue_step q q'" "queue_ok q" shows "mutex_step (holder q) (holder q') \<or> holder q' = holder q"
proof -
  have ok': "queue_ok q'" using queue_step_ok [OF assms] .
  note ok = queue_okD [OF assms(2)]
  from assms(1) show ?thesis
  proof cases
    case (enter t key)
    then have "holder q' = holder q"
      by (intro holder_same [OF assms(2) ok']) (auto simp: enter_queue_def Let_def split: if_splits)
    then show ?thesis ..
  next
    case (acquire t)
    then obtain key l where p: "kq_pc q t = Entered key l" "kq_owner q l = None"
      "q' = q\<lparr>kq_owner := (kq_owner q)(l \<mapsto> t), kq_pc := (kq_pc q)(t := Inside key l)\<rparr>"
      by (auto simp: lock_acquire_def split: pc.splits if_splits)
    have l: "kq_locks q key = Some l" using ok(4) [OF p(1)] .
    have other: "k \<noteq> key \<Longrightarrow> kq_locks q k \<noteq> Some l" for k using ok(8) [OF l] by blast
    have "holder q' k = ((holder q)(key \<mapsto> t)) k" for k
      using l other [of k] unfolding p(3) holder_def by (cases "k = key"; cases "kq_locks q k") auto
    then have "holder q' = (holder q)(key \<mapsto> t)" ..
    moreover have "holder q key = None" using l p(2) by (simp add: holder_def)
    ultimately show ?thesis unfolding mutex_step_def by blast
  next
    case (release t)
    then obtain key l where p: "kq_pc q t = Inside key l"
      "q' = q\<lparr>kq_owner := (kq_owner q)(l := None), kq_pc := (kq_pc q)(t := Leaving key l)\<rparr>"
      by (auto simp: lock_release_def split: pc.splits)
    have l: "kq_locks q key = Some l" using ok(5) [OF p(1)] .
    have other: "k \<noteq> key \<Longrightarrow> kq_locks q k \<noteq> Some l" for k using ok(8) [OF l] by blast
    have "holder q' k = ((holder q)(key := None)) k" for k
      using l other [of k] unfolding p(2) holder_def by (cases "k = key"; cases "kq_locks q k") auto
    then have "holder q' = (holder q)(key := None)" ..
    moreover have "holder q key = Some t" using holder_iff [OF assms(2)] p(1) by blast
    ultimately show ?thesis unfolding mutex_step_def by blast
  next
    case (leave t)
    then have "holder q' = holder q"
      by (intro holder_same [OF assms(2) ok']) (auto simp: leave_queue_def Let_def split: pc.splits if_splits)
    then show ?thesis ..
  qed
qed

interpretation write_queue: simulation queue_step queue_ok holder mutex_step
  by unfold_locales (rule queue_step_ok queue_step_simulated, assumption+)+

text \<open>C20: serialized writes exclude each other: the reference-counted table of locks, with its locks
  made on demand and dropped when unused, implements one mutex for each key. Every run of the
  queue is, seen through \<open>holder\<close>, a run of the mutexes, and a thread runs its operation exactly
  while it is the holder of its key.\<close>

theorem keyed_queue_refines_mutex:
  assumes "queue_step\<^sup>*\<^sup>* empty_queue q"
  shows "mutex_step\<^sup>*\<^sup>* Map.empty (holder q)
    \<and> (\<forall>key t. (\<exists>l. kq_pc q t = Inside key l) \<longleftrightarrow> holder q key = Some t)"
proof -
  have h: "holder empty_queue = Map.empty" by (rule ext) (simp add: holder_def empty_queue_def)
  from write_queue.reachable_simulated [OF assms empty_queue_ok] have "mutex_step\<^sup>*\<^sup>* Map.empty (holder q)"
    by (simp only: h)
  moreover have "queue_ok q" by (rule write_queue.reachable_inv [OF assms empty_queue_ok])
  ultimately show ?thesis using holder_iff by blast
qed


definition sample_two :: keyed_queue where
  "sample_two = the (enter_queue 3 (lit ''k'') (the (lock_acquire 2 (the (enter_queue 2 (lit ''k'') empty_queue)))))"

lemma sample_two_reachable: "queue_step\<^sup>*\<^sup>* empty_queue sample_two"
proof -
  let ?a = "the (enter_queue 2 (lit ''k'') empty_queue)"
  let ?b = "the (lock_acquire 2 ?a)"
  have "queue_step empty_queue ?a"
    by (rule queue_step.enter [of 2 "lit ''k''"]) (simp add: enter_queue_def empty_queue_def Let_def)
  moreover have "queue_step ?a ?b"
    by (rule queue_step.acquire [of 2]) (simp add: enter_queue_def lock_acquire_def empty_queue_def Let_def)
  moreover have "queue_step ?b sample_two"
    unfolding sample_two_def
    by (rule queue_step.enter [of 3 "lit ''k''"])
       (simp add: enter_queue_def lock_acquire_def empty_queue_def Let_def)
  ultimately show ?thesis by (meson rtranclp.rtrancl_refl rtranclp.rtrancl_into_rtrancl)
qed

theorem keyed_queue_refines_mutex_witness:
  "queue_step\<^sup>*\<^sup>* empty_queue sample_two \<and> mutex_step\<^sup>*\<^sup>* Map.empty (holder sample_two)"
  using sample_two_reachable keyed_queue_refines_mutex [OF sample_two_reachable] by blast


section \<open>Retries\<close>

lemma retry_operation_exact:
  "\<exists>k\<le>n. (\<forall>j<k. \<exists>err. snd (operation (((fst \<circ> operation) ^^ j) s)) = Inl err \<and> is_lock_error err)
     \<and> retry_operation is_lock_error operation n s = operation (((fst \<circ> operation) ^^ k) s)
     \<and> (k = n \<or> (\<forall>err. snd (operation (((fst \<circ> operation) ^^ k) s)) = Inl err \<longrightarrow> \<not> is_lock_error err))"
proof (induction n arbitrary: s)
  case 0
  show ?case by (intro exI [of _ 0]) (subst retry_operation.simps, auto split: prod.split sum.split)
next
  case (Suc n)
  obtain s' r where o: "operation s = (s', r)" by fastforce
  show ?case
  proof (cases "\<exists>err. r = Inl err \<and> is_lock_error err")
    case False
    then show ?thesis
      by (intro exI [of _ 0]) (subst retry_operation.simps, auto simp: o split: sum.split)
  next
    case True
    then have r: "retry_operation is_lock_error operation (Suc n) s = retry_operation is_lock_error operation n s'"
      by (subst retry_operation.simps) (auto simp: o)
    obtain k where k: "k \<le> n" "\<forall>j<k. \<exists>err. snd (operation (((fst \<circ> operation) ^^ j) s')) = Inl err \<and> is_lock_error err"
      "retry_operation is_lock_error operation n s' = operation (((fst \<circ> operation) ^^ k) s')"
      "k = n \<or> (\<forall>err. snd (operation (((fst \<circ> operation) ^^ k) s')) = Inl err \<longrightarrow> \<not> is_lock_error err)"
      using Suc.IH [of s'] by blast
    have sh: "((fst \<circ> operation) ^^ Suc j) s = ((fst \<circ> operation) ^^ j) s'" for j
      by (simp add: funpow_swap1 o)
    have "\<exists>err. snd (operation (((fst \<circ> operation) ^^ j) s)) = Inl err \<and> is_lock_error err" if "j < Suc k" for j
    proof (cases j)
      case 0
      with True show ?thesis by (simp add: o)
    next
      case (Suc i)
      with that k(2) show ?thesis by (simp only: sh)
    qed
    then show ?thesis
      using k unfolding r by (intro exI [of _ "Suc k"]) (simp only: sh Suc_le_mono nat.inject, blast)
  qed
qed

text \<open>C22: a write is retried at most as often as configured, and only for the database lock: it runs
  some number of times between one and the maximum, each run but the last ended in a lock
  error, and the result is that of the last run, a lock error only if the attempts are used up.\<close>

theorem lock_retry_exact:
  "\<exists>k < nat (max 1 max_attempts).
     (\<forall>j<k. \<exists>err. snd (operation (((fst \<circ> operation) ^^ j) s)) = Inl err \<and> is_lock_error err)
     \<and> run_with_sqlite_lock_retry max_attempts is_lock_error operation s = operation (((fst \<circ> operation) ^^ k) s)
     \<and> (Suc k = nat (max 1 max_attempts)
        \<or> (\<forall>err. snd (operation (((fst \<circ> operation) ^^ k) s)) = Inl err \<longrightarrow> \<not> is_lock_error err))"
proof -
  have p: "0 < nat (max 1 max_attempts)" by simp
  obtain k where k: "k \<le> nat (max 1 max_attempts) - 1"
    "\<forall>j<k. \<exists>err. snd (operation (((fst \<circ> operation) ^^ j) s)) = Inl err \<and> is_lock_error err"
    "run_with_sqlite_lock_retry max_attempts is_lock_error operation s = operation (((fst \<circ> operation) ^^ k) s)"
    "k = nat (max 1 max_attempts) - 1 \<or> (\<forall>err. snd (operation (((fst \<circ> operation) ^^ k) s)) = Inl err \<longrightarrow> \<not> is_lock_error err)"
    using retry_operation_exact [of "nat (max 1 max_attempts) - 1" operation s is_lock_error]
    unfolding run_with_sqlite_lock_retry_def by blast
  have "k < nat (max 1 max_attempts)" using k(1) p by linarith
  moreover have "k = nat (max 1 max_attempts) - 1 \<Longrightarrow> Suc k = nat (max 1 max_attempts)" using p by linarith
  ultimately show ?thesis using k(2-4) by (intro exI [of _ k]) blast
qed

text \<open>An operation that finds the database locked twice.\<close>

definition locked_twice :: "nat \<Rightarrow> nat \<times> (nat + nat)" where
  "locked_twice n = (Suc n, if n < 2 then Inl 5 else Inr n)"

theorem lock_retry_exact_witness:
  "\<exists>k<3. run_with_sqlite_lock_retry 3 (\<lambda>err. err = 5) locked_twice 0 = locked_twice (((fst \<circ> locked_twice) ^^ k) 0)
    \<and> (\<forall>j<k. \<exists>err. snd (locked_twice (((fst \<circ> locked_twice) ^^ j) 0)) = Inl err \<and> err = 5)"
proof -
  have n: "nat (max 1 3) = 3" by simp
  from lock_retry_exact [of 3 locked_twice 0 "\<lambda>err. err = 5"] show ?thesis unfolding n by blast
qed

end
