(* ===== verification/TaskControl.thy ===== *)
theory TaskControl
  imports TaskSnapshots TakeoverOps
begin

text \<open>
  The control of a task: \<open>runtime_kernel/execution_control.py\<close> (starting, resuming, retrying,
  pausing, cancelling, approving, saving and branching a task) and the snapshot a pause takes
  (\<open>_build_pause_snapshot_state\<close> and \<open>prepare_pause_snapshot\<close> of \<open>runtime_kernel/snapshot.py\<close>).

  The store holds the tables these operations touch. A session that ends in an exception is rolled
  back, so an operation in one session either returns the new store or leaves the old; the pause
  and the cancel of a task use several sessions and are given with the store they leave in either
  case. Ids of \<open>new_id\<close> are supplied. The wake-up message to the coordinator and the cached
  package entries are left out: they change nothing here.
\<close>

section \<open>The store\<close>

record control_store =
  cs_tasks :: "task_row list"
  cs_runs :: "run_row list"
  cs_snapshots :: "snapshot_row list"
  cs_attempts :: "attempt_row list"
  cs_items :: "work_item list"
  cs_branches :: "task_branch list"
  cs_outbox :: "outbox_record list"

record control_ids =
  ci_item :: ustr
  ci_attempt :: ustr
  ci_event :: ustr
  ci_snapshot :: ustr
  ci_token :: ustr
  ci_task :: ustr
  ci_branch :: ustr
  ci_root :: ustr
  ci_event2 :: ustr
  ci_locator :: ustr

text \<open>A request dictionary: \<open>cq_body\<close> is the dictionary itself, the other fields are the keys the
  code reads.\<close>

record control_request =
  cq_body :: "(ustr \<times> json) list"
  cq_command :: "ustr option"
  cq_current_focus :: "ustr option option"
  cq_current_objective :: "ustr option option"
  cq_resume_message :: "ustr option option"
  cq_budget :: "budget_state option option"
  cq_budget_state :: "budget_state option option"
  cq_resume_token :: "ustr option"
  cq_requested_by :: "(ustr \<times> json) list"
  cq_requested_by_id :: "ustr option"
  cq_user_id :: "ustr option"
  cq_reason :: "ustr option"
  cq_label :: "ustr option"
  cq_saved_label :: "ustr option"
  cq_title :: "ustr option"
  cq_goal :: "ustr option"
  cq_snapshot_id :: "ustr option"

text \<open>\<open>d[k] = v\<close>: a key that is present keeps its place.\<close>

fun dict_put :: "ustr \<Rightarrow> json \<Rightarrow> (ustr \<times> json) list \<Rightarrow> (ustr \<times> json) list" where
  "dict_put k v [] = [(k, v)]"
| "dict_put k v ((k', v') # d) = (if k' = k then (k, v) # d else (k', v') # dict_put k v d)"

definition dict_setdefault :: "ustr \<Rightarrow> json \<Rightarrow> (ustr \<times> json) list \<Rightarrow> (ustr \<times> json) list" where
  "dict_setdefault k v d = (if k \<in> fst ` set d then d else dict_put k v d)"

text \<open>\<open>_persist_runtime_event\<close>\<close>

definition persist_runtime_event ::
  "nat \<Rightarrow> ustr \<Rightarrow> ustr \<Rightarrow> string \<Rightarrow> ustr \<Rightarrow> string \<Rightarrow> ustr \<Rightarrow> outbox_record list
     \<Rightarrow> (outbox_record list \<times> outbox_record) res" where
  "persist_runtime_event now fresh project agg_type agg_id ev_type locator outbox =
     record_event now fresh
       \<lparr>ep_id = None, ep_project_id = Some project, ep_aggregate_type = Some (lit agg_type),
        ep_aggregate_id = Some agg_id, ep_event_type = Some (lit ev_type), ep_event_version = None,
        ep_payload_ref = Some (lit ''package-entry'', locator), ep_publish_status = None,
        ep_attempts = None, ep_available_at = None, ep_published_at = None, ep_last_error = None,
        ep_created_at = None\<rparr> outbox"

definition task_status_text :: "task_status \<Rightarrow> ustr" where
  "task_status_text s = lit (case s of TkDraft \<Rightarrow> ''draft'' | TkQueued \<Rightarrow> ''queued''
     | TkRunning \<Rightarrow> ''running'' | TkPaused \<Rightarrow> ''paused'' | TkResumeBlocked \<Rightarrow> ''resume-blocked''
     | TkRestartRequested \<Rightarrow> ''restart-requested'' | TkRestarting \<Rightarrow> ''restarting''
     | TkCancelling \<Rightarrow> ''cancelling'' | TkAwaitingApproval \<Rightarrow> ''awaiting-approval''
     | TkCompleted \<Rightarrow> ''completed'' | TkFailed \<Rightarrow> ''failed'' | TkCancelled \<Rightarrow> ''cancelled'')"

definition about_task :: "ustr \<Rightarrow> ustr \<Rightarrow> py_error" where
  "about_task i msg = ValueError (lit ''Task '' @ i @ msg)"

text \<open>The active snapshot of a task.\<close>

definition active_snapshot :: "control_store \<Rightarrow> task_row \<Rightarrow> snapshot_row option" where
  "active_snapshot s t =
     (case tk_active_snapshot_id t of
        None \<Rightarrow> None
      | Some i \<Rightarrow> if i = [] then None else get_snapshot i (cs_snapshots s))"

section \<open>Queueing a task\<close>

datatype queue_command = Resume | Retry | Start

definition command_of :: "control_request \<Rightarrow> queue_command" where
  "command_of q =
     (let c = text_or (cq_command q) (lit ''start'')
      in if c = lit ''resume'' then Resume else if c = lit ''retry'' then Retry else Start)"

datatype queue_status = ResumeBlocked | ResumeQueued | QueuedNow

record queue_result =
  qr_status :: queue_status
  qr_task :: task_row
  qr_attempt :: "attempt_row option"
  qr_item :: "work_item option"

definition main_activity :: ustr where
  "main_activity = lit ''core.agent.main.execute''"

definition control_payload :: "ustr \<Rightarrow> ustr \<Rightarrow> ustr \<Rightarrow> (ustr \<times> json) list \<Rightarrow> work_payload" where
  "control_payload task_id command intent body =
     \<lparr>wp_work_item_id = None, wp_task_id = Some task_id, wp_activity = Some main_activity,
      wp_intent = Some intent, wp_command = Some command, wp_attempt = None, wp_body = JObj body\<rparr>"

text \<open>The fields of the request that go into the task on a start or a retry.\<close>

definition request_update :: "control_request \<Rightarrow> task_update" where
  "request_update q =
     no_update\<lparr>tu_current_focus := cq_current_focus q, tu_current_objective := cq_current_objective q,
       tu_resume_message := cq_resume_message q, tu_budget := cq_budget q,
       tu_budget_state := cq_budget_state q, tu_status := Some TkQueued,
       tu_pause_requested := Some False, tu_pending_control_intent := Some None\<rparr>"

text \<open>\<open>a or b\<close> on optional texts.\<close>

definition or_text :: "ustr option \<Rightarrow> ustr option \<Rightarrow> ustr option" where
  "or_text a b = (case a of None \<Rightarrow> b | Some s \<Rightarrow> if s = [] then b else Some s)"

definition resumable_snapshot :: "ustr \<Rightarrow> control_request \<Rightarrow> control_store \<Rightarrow> task_row \<Rightarrow> snapshot_row res" where
  "resumable_snapshot task_id q s t =
     (if tk_status t \<notin> {TkPaused, TkResumeBlocked} then
        Inl (about_task task_id (lit '' is not paused and cannot be resumed.''))
      else if cq_resume_token q \<noteq> None then
        Inl (ValueError (lit ''Resume tokens are no longer accepted by the public resume API.''))
      else
        (case active_snapshot s t of
           None \<Rightarrow> Inl (about_task task_id (lit '' does not have a restorable active snapshot.''))
         | Some p \<Rightarrow>
             if sn_status p \<notin> {SRestorable, SLeased} then
               Inl (about_task task_id (lit '' does not have a restorable active snapshot.''))
             else if sn_retention_class p = CancelAudit then
               Inl (about_task task_id (lit '' cancel-audit snapshots cannot be resumed.''))
             else Inr p))"

definition resume_update :: "ustr \<Rightarrow> ustr option \<Rightarrow> task_update" where
  "resume_update attempt_id message =
     no_update\<lparr>tu_status := Some TkPaused, tu_pause_requested := Some False,
       tu_pending_control_intent := Some (Some (lit ''resume'')),
       tu_active_resume_attempt_id := Some (Some attempt_id), tu_resume_blocked_reason := Some None,
       tu_resume_message := Some message\<rparr>"

definition resume_payload ::
  "nat \<Rightarrow> ustr \<Rightarrow> control_request \<Rightarrow> ustr \<Rightarrow> ustr \<Rightarrow> ustr option \<Rightarrow> work_payload" where
  "resume_payload now task_id q attempt_id snapshot_id message =
     control_payload task_id (lit ''resume'') (lit ''resume'')
       [(lit ''resumeAttemptId'', JStr attempt_id), (lit ''snapshotId'', JStr snapshot_id),
        (lit ''requestedAt'', JInt (int now)),
        (lit ''payload'', JObj
          (dict_put (lit ''resumeMessage'') (jopt message)
            (dict_put (lit ''snapshotId'') (JStr snapshot_id)
              (dict_put (lit ''resumeAttemptId'') (JStr attempt_id)
                (dict_put (lit ''command'') (JStr (lit ''resume''))
                  (dict_setdefault (lit ''workTreeDirectiveRequired'') (JBool True) (cq_body q)))))))]"

definition resume_task_execution ::
  "nat \<Rightarrow> control_ids \<Rightarrow> ustr \<Rightarrow> control_request \<Rightarrow> task_row \<Rightarrow> control_store
     \<Rightarrow> (control_store \<times> queue_result) res" where
  "resume_task_execution now ids task_id q t s =
     (case resumable_snapshot task_id q s t of
        Inl err \<Rightarrow> Inl err
      | Inr p \<Rightarrow>
          (case create_resume_attempt now (ci_attempt ids) task_id (sn_id p)
                  \<lparr>ap_id = None, ap_requested_by = cq_requested_by q, ap_status = None\<rparr>
                  (cs_tasks s) (cs_attempts s) of
             Inl err \<Rightarrow> Inl err
           | Inr (tasks1, attempts, a) \<Rightarrow>
               (case update_task now task_id
                       (resume_update (ra_id a)
                          (or_text (value_or (cq_resume_message q) None)
                             (or_text (sn_resume_message p) (tk_resume_message t)))) tasks1 of
                  Inl err \<Rightarrow> Inl err
                | Inr (tasks2, t2) \<Rightarrow>
                    (case (case get_active_resume_attempt task_id (cs_attempts s) of
                             Some b \<Rightarrow> if ra_id b = ra_id a then Inr (cs_items s, None)
                               else map_sum id (map_prod id Some)
                                 (create_work_item now (ci_item ids) (lit ''agent-runtime'')
                                    (resume_payload now task_id q (ra_id a) (sn_id p) (tk_resume_message t2))
                                    (cs_items s))
                           | None \<Rightarrow> map_sum id (map_prod id Some)
                               (create_work_item now (ci_item ids) (lit ''agent-runtime'')
                                  (resume_payload now task_id q (ra_id a) (sn_id p) (tk_resume_message t2))
                                  (cs_items s))) of
                       Inl err \<Rightarrow> Inl err
                     | Inr (items, item) \<Rightarrow>
                         map_sum id
                           (\<lambda>(outbox, ev). (s\<lparr>cs_tasks := tasks2, cs_attempts := attempts,
                               cs_items := items, cs_outbox := outbox\<rparr>,
                              \<lparr>qr_status = (if ra_status a = RaBlocked then ResumeBlocked else ResumeQueued),
                               qr_task = t2, qr_attempt = Some a, qr_item = item\<rparr>))
                           (persist_runtime_event now (ci_event ids) (tk_project_id t2) ''task-resume-attempt''
                              (ra_id a) ''task.resume.requested''
                              (lit ''agent-runtime/tasks/'' @ tk_id t2 @ lit ''/resume-attempts/'' @ ra_id a)
                              (cs_outbox s))))))"

definition startable :: "queue_command \<Rightarrow> task_status \<Rightarrow> bool" where
  "startable command status \<longleftrightarrow>
     (if command = Retry then status = TkFailed
      else status \<notin> {TkPaused, TkResumeBlocked, TkCompleted, TkFailed, TkCancelled})"

definition start_task_execution ::
  "nat \<Rightarrow> control_ids \<Rightarrow> ustr \<Rightarrow> control_request \<Rightarrow> task_row \<Rightarrow> control_store
     \<Rightarrow> (control_store \<times> queue_result) res" where
  "start_task_execution now ids task_id q t s =
     (let command = text_or (cq_command q) (lit ''start'')
      in if \<not> startable (command_of q) (tk_status t) then
           Inl (about_task task_id (lit '' is in state '' @ task_status_text (tk_status t)
             @ (if command_of q = Retry then lit '' and cannot be retried.''
                else lit '' and cannot be started directly.'')))
         else
           (case (if command_of q = Retry then map_sum id fst
                    (persist_runtime_event now (ci_event ids) (tk_project_id t) ''task'' (tk_id t)
                       ''task.retry.requested''
                       (lit ''agent-runtime/tasks/'' @ tk_id t @ lit ''/retry-requests/'' @ ci_locator ids)
                       (cs_outbox s))
                  else Inr (cs_outbox s)) of
              Inl err \<Rightarrow> Inl err
            | Inr outbox \<Rightarrow>
                (case update_task now task_id (request_update q) (cs_tasks s) of
                   Inl err \<Rightarrow> Inl err
                 | Inr (tasks, t2) \<Rightarrow>
                     map_sum id
                       (\<lambda>(items, item). (s\<lparr>cs_tasks := tasks, cs_items := items, cs_outbox := outbox\<rparr>,
                          \<lparr>qr_status = QueuedNow, qr_task = t2, qr_attempt = None, qr_item = Some item\<rparr>))
                       (create_work_item now (ci_item ids) (lit ''agent-runtime'')
                          (control_payload task_id command command
                             [(lit ''requestedAt'', JInt (int now)),
                              (lit ''payload'', JObj (dict_setdefault (lit ''workTreeDirectiveRequired'')
                                 (JBool True) (cq_body q)))])
                          (cs_items s)))))"

definition queue_main_agent_execution ::
  "nat \<Rightarrow> control_ids \<Rightarrow> ustr \<Rightarrow> control_request \<Rightarrow> control_store
     \<Rightarrow> (control_store \<times> queue_result) res" where
  "queue_main_agent_execution now ids task_id q s =
     (case get_task task_id (cs_tasks s) of
        None \<Rightarrow> Inl (task_not_found task_id)
      | Some t \<Rightarrow>
          if command_of q = Resume then resume_task_execution now ids task_id q t s
          else start_task_execution now ids task_id q t s)"

definition retry_task_execution ::
  "nat \<Rightarrow> control_ids \<Rightarrow> ustr \<Rightarrow> control_request \<Rightarrow> control_store
     \<Rightarrow> (control_store \<times> queue_result) res" where
  "retry_task_execution now ids task_id q s =
     queue_main_agent_execution now ids task_id
       (q\<lparr>cq_command := Some (lit ''retry''),
          cq_reason := Some (value_or (cq_reason q) (lit ''manual-retry'')),
          cq_body := dict_setdefault (lit ''reason'') (JStr (lit ''manual-retry''))
            (dict_put (lit ''command'') (JStr (lit ''retry'')) (cq_body q))\<rparr>) s"

section \<open>The snapshot of a pause\<close>

text \<open>
  \<open>_build_pause_snapshot_state\<close>. A hook result is one module's answer to the pause hook. The
  manifest \<open>commit_snapshot_manifest\<close> has written is given by its reference and checksum, and the
  columns no operation reads by \<open>psr_body\<close>.
\<close>

record hook_result =
  hr_module_id :: ustr
  hr_error :: "ustr option"
  hr_blockers :: "ustr list"
  hr_safe_to_pause :: "bool option"
  hr_delta_resume_message :: "ustr option option" \<comment> \<open>the key of the delta, when it has one\<close>
  hr_delta_safe_stop_reason :: "ustr option option"

record pause_snapshot_request =
  psr_app_id :: "ustr option"
  psr_project_id :: "ustr option"
  psr_branch_id :: "ustr option"
  psr_agent_run_id :: "ustr option"
  psr_active_tool_calls :: "ustr list"
  psr_response_state :: "ustr option"
  psr_snapshot_id :: "ustr option"
  psr_snapshot_type :: "snapshot_type option"
  psr_retention_class :: "retention_class option"
  psr_resume_message :: "ustr option"
  psr_safe_stop_reason :: "ustr option"
  psr_selected_model :: "ustr option"
  psr_selected_provider :: "ustr option"
  psr_next_objective :: "ustr option"
  psr_manifest :: "(ustr \<times> ustr) \<times> ustr"
  psr_body :: json

definition request_blockers :: "pause_snapshot_request \<Rightarrow> ustr list" where
  "request_blockers q =
     (if psr_active_tool_calls q = [] then [] else [lit ''active-tool-calls''])
     @ (if value_or (psr_response_state q) (lit ''completed'')
           \<in> {lit ''completed'', lit ''idle'', lit ''drained''}
        then [] else [lit ''response-not-finished''])"

definition hook_blockers :: "hook_result \<Rightarrow> ustr list" where
  "hook_blockers h =
     (case hr_error h of
        Some err \<Rightarrow> [hr_module_id h @ lit '':'' @ err]
      | None \<Rightarrow> hr_blockers h
          @ (if hr_safe_to_pause h = Some False then [hr_module_id h @ lit '':unsafe''] else []))"

definition pause_blockers :: "pause_snapshot_request \<Rightarrow> hook_result list \<Rightarrow> ustr list" where
  "pause_blockers q hooks = request_blockers q @ concat (map hook_blockers hooks)"

text \<open>The merged \<open>snapshotDelta\<close>: the last module that has the key wins; a failed hook has none.\<close>

definition delta_value :: "(hook_result \<Rightarrow> 'a option) \<Rightarrow> hook_result list \<Rightarrow> 'a option" where
  "delta_value field hooks =
     foldl (\<lambda>v h. if hr_error h \<noteq> None then v else assigned (field h) v) None hooks"

definition build_pause_snapshot ::
  "(ustr \<Rightarrow> ustr) \<Rightarrow> nat \<Rightarrow> control_ids \<Rightarrow> ustr \<Rightarrow> task_row option \<Rightarrow> pause_snapshot_request
     \<Rightarrow> hook_result list \<Rightarrow> snapshot_row" where
  "build_pause_snapshot sha now ids task_id t q hooks =
     (let blockers = pause_blockers q hooks;
          fresh = ci_snapshot ids
      in \<lparr>sn_id = text_or (psr_snapshot_id q) fresh,
          sn_app_id = (case t of None \<Rightarrow> text_or (psr_app_id q) default_app_id | Some r \<Rightarrow> tk_app_id r),
          sn_task_id = task_id, sn_agent_run_id = psr_agent_run_id q,
          sn_project_id = (case t of None \<Rightarrow> value_or (psr_project_id q) (lit ''project_default'')
                                   | Some r \<Rightarrow> tk_project_id r),
          sn_branch_id = (case t of None \<Rightarrow> value_or (psr_branch_id q) (lit ''branch_main'')
                                  | Some r \<Rightarrow> tk_branch_id r),
          sn_type = value_or (psr_snapshot_type q) SnPause,
          sn_status = (if blockers = [] then SRestorable else SCreated),
          sn_retention_class = value_or (psr_retention_class q) ActivePaused,
          sn_storage_manifest_ref = Some (fst (psr_manifest q)),
          sn_manifest_checksum = Some (snd (psr_manifest q)),
          sn_resume_token_hash = Some (sha (ci_token ids)), sn_resume_token = Some (ci_token ids),
          sn_resume_message = Some
            (case value_or (delta_value hr_delta_resume_message hooks) None of
               Some msg \<Rightarrow> msg
             | None \<Rightarrow> value_or (psr_resume_message q)
                 (lit ''Resume task '' @ task_id @ lit '' from the last safe stop.'')),
          sn_safe_stop_reason =
            text_or (value_or (delta_value hr_delta_safe_stop_reason hooks) None)
              (value_or (psr_safe_stop_reason q) (lit ''manual-pause'')),
          sn_blocker_code = None, sn_blocker_message = None, sn_saved_label = None,
          sn_saved_by_user_id = None, sn_expires_at = None, sn_created_at = now,
          sn_verified_at = None, sn_leased_until = None, sn_consumed_at = None,
          sn_superseded_by = None, sn_safe_to_pause = (blockers = []), sn_blockers = blockers,
          sn_body = psr_body q\<rparr>)"

text \<open>The run \<open>prepare_pause_snapshot\<close> adds for an agent run it does not know.\<close>

definition paused_run_payload :: "snapshot_row \<Rightarrow> pause_snapshot_request \<Rightarrow> run_payload" where
  "paused_run_payload p q =
     \<lparr>rp_id = sn_agent_run_id p, rp_app_id = None, rp_run_type = None, rp_parent_run_id = None,
      rp_fork_root_run_id = None, rp_fork_depth = None, rp_assigned_work_tree_node_id = None,
      rp_parent_context_anchor = None, rp_fork_group_id = None,
      rp_selected_model = Some (text_or (psr_selected_model q) (lit ''gpt-5.4'')),
      rp_selected_provider = Some (text_or (psr_selected_provider q) (lit ''copilot'')),
      rp_route_decision_id = None,
      rp_status = Some (if sn_safe_to_pause p then RnPaused else RnRunning),
      rp_next_objective = or_text (psr_next_objective q) (psr_resume_message q),
      rp_window_index = None, rp_restart_count = None, rp_cumulative_window_span_tokens = None,
      rp_input_tokens_used = None, rp_output_tokens_used = None, rp_cost_used = None\<rparr>"

definition persist_pause_snapshot ::
  "(ustr \<Rightarrow> ustr) \<Rightarrow> nat \<Rightarrow> control_ids \<Rightarrow> snapshot_row \<Rightarrow> pause_snapshot_request \<Rightarrow> control_store
     \<Rightarrow> (control_store \<times> bool) res" where
  "persist_pause_snapshot sha now ids p q s =
     (if get_task (sn_task_id p) (cs_tasks s) = None then Inr (s, False)
      else
        (case (case sn_agent_run_id p of
                 None \<Rightarrow> Inr (cs_tasks s, cs_runs s)
               | Some i \<Rightarrow>
                   if get_agent_run i (cs_runs s) \<noteq> None then Inr (cs_tasks s, cs_runs s)
                   else map_sum id (\<lambda>(tasks, runs, r). (tasks, runs))
                     (create_agent_run now [] (sn_task_id p) (paused_run_payload p q) (cs_tasks s) (cs_runs s))) of
           Inl err \<Rightarrow> Inl err
         | Inr (tasks1, runs) \<Rightarrow>
             (case create_snapshot sha p tasks1 runs (fst (supersede_snapshots (sn_task_id p) None (cs_snapshots s))) of
                Inl err \<Rightarrow> Inl err
              | Inr (tasks2, snaps, _) \<Rightarrow>
                  map_sum id
                    (\<lambda>(outbox, ev). (s\<lparr>cs_tasks := tasks2, cs_runs := runs, cs_snapshots := snaps,
                                       cs_outbox := outbox\<rparr>, True))
                    (persist_runtime_event now (ci_event ids) (sn_project_id p) ''task-snapshot'' (sn_id p)
                       ''task.snapshot.created''
                       (lit ''agent-runtime/tasks/'' @ sn_task_id p @ lit ''/snapshots/'' @ sn_id p)
                       (cs_outbox s)))))"

text \<open>\<open>prepare_pause_snapshot\<close>: the snapshot, and whether it was stored. \<open>locked\<close> says that the task
  lock was acquired; an exception while storing is swallowed.\<close>

definition prepare_pause_snapshot ::
  "(ustr \<Rightarrow> ustr) \<Rightarrow> nat \<Rightarrow> control_ids \<Rightarrow> bool \<Rightarrow> ustr \<Rightarrow> pause_snapshot_request \<Rightarrow> hook_result list
     \<Rightarrow> control_store \<Rightarrow> control_store \<times> snapshot_row \<times> bool" where
  "prepare_pause_snapshot sha now ids locked task_id q hooks s =
     (let p = build_pause_snapshot sha now ids task_id (get_task task_id (cs_tasks s)) q hooks
      in if \<not> locked then (s, p, False)
         else (case persist_pause_snapshot sha now ids p q s of
                 Inl _ \<Rightarrow> (s, p, False)
               | Inr (s', persisted) \<Rightarrow> (s', p, persisted)))"

section \<open>Pausing\<close>

datatype pause_status = PausedNow | Draining | PausePending

record pause_result =
  pr_status :: pause_status
  pr_task :: task_row
  pr_cancelled_items :: nat

text \<open>What the pause asks of the snapshot of a queued task.\<close>

definition queued_pause_request :: "pause_snapshot_request \<Rightarrow> ustr option \<Rightarrow> pause_snapshot_request" where
  "queued_pause_request base message =
     base\<lparr>psr_snapshot_type := Some SnPreStart, psr_retention_class := Some ActivePaused,
       psr_agent_run_id := None, psr_response_state := Some (lit ''idle''),
       psr_safe_stop_reason := Some (lit ''pause-before-worker-claim''),
       psr_resume_message := message\<rparr>"

definition finish_queued_pause ::
  "nat \<Rightarrow> control_ids \<Rightarrow> ustr \<Rightarrow> ustr option \<Rightarrow> ustr option \<Rightarrow> nat \<Rightarrow> snapshot_row \<Rightarrow> control_store
     \<Rightarrow> (control_store \<times> pause_result) res" where
  "finish_queued_pause now ids task_id message focus cancelled p s =
     (case update_task now task_id
             (no_update\<lparr>tu_status := Some TkPaused, tu_pause_requested := Some False,
                tu_pending_control_intent := Some None, tu_resume_message := Some message,
                tu_current_focus := Some focus, tu_active_snapshot_id := Some (Some (sn_id p)),
                tu_last_safe_stop_at := Some (Some now)\<rparr>) (cs_tasks s) of
        Inl err \<Rightarrow> Inl err
      | Inr (tasks, t) \<Rightarrow>
          map_sum id
            (\<lambda>(outbox, ev). (s\<lparr>cs_tasks := tasks, cs_outbox := outbox\<rparr>,
               \<lparr>pr_status = PausedNow, pr_task = t, pr_cancelled_items = cancelled\<rparr>))
            (persist_runtime_event now (ci_event2 ids) (tk_project_id t) ''task'' (tk_id t) ''task.paused''
               (lit ''agent-runtime/tasks/'' @ tk_id t @ lit ''/pause/'' @ sn_id p) (cs_outbox s)))"

definition request_running_pause ::
  "nat \<Rightarrow> control_ids \<Rightarrow> ustr \<Rightarrow> ustr option \<Rightarrow> ustr option \<Rightarrow> task_row \<Rightarrow> control_store
     \<Rightarrow> (control_store \<times> pause_result) res" where
  "request_running_pause now ids task_id message focus t s =
     (case update_task now task_id
             (no_update\<lparr>tu_status := Some (tk_status t), tu_pause_requested := Some True,
                tu_pending_control_intent := Some (Some (lit ''pause'')),
                tu_resume_message := Some message, tu_current_focus := Some focus\<rparr>) (cs_tasks s) of
        Inl err \<Rightarrow> Inl err
      | Inr (tasks, t2) \<Rightarrow>
          map_sum id
            (\<lambda>(outbox, ev). (s\<lparr>cs_tasks := tasks, cs_outbox := outbox\<rparr>,
               \<lparr>pr_status = (if tk_status t2 = TkRunning then Draining else PausePending),
                pr_task = t2, pr_cancelled_items = 0\<rparr>))
            (persist_runtime_event now (ci_event ids) (tk_project_id t2) ''task'' (tk_id t2)
               ''task.pause.requested''
               (lit ''agent-runtime/tasks/'' @ tk_id t2 @ lit ''/pause-intents/'' @ ci_locator ids)
               (cs_outbox s)))"

text \<open>\<open>pause_task_execution\<close>: the store is the one the sessions leave, also when the last one fails.\<close>

definition pause_task_execution ::
  "(ustr \<Rightarrow> ustr) \<Rightarrow> nat \<Rightarrow> control_ids \<Rightarrow> bool \<Rightarrow> ustr \<Rightarrow> control_request \<Rightarrow> pause_snapshot_request
     \<Rightarrow> hook_result list \<Rightarrow> control_store \<Rightarrow> control_store \<times> pause_result res" where
  "pause_task_execution sha now ids locked task_id q base hooks s =
     (case get_task task_id (cs_tasks s) of
        None \<Rightarrow> (s, Inl (task_not_found task_id))
      | Some t \<Rightarrow>
          if tk_status t \<in> {TkCompleted, TkFailed, TkCancelled} then
            (s, Inl (about_task task_id (lit '' is in terminal state '' @ task_status_text (tk_status t)
               @ lit '' and cannot be paused.'')))
          else
            (let message = or_text (value_or (cq_resume_message q) None) (tk_resume_message t);
                 focus = or_text (value_or (cq_current_focus q) None) (tk_current_focus t)
             in if tk_status t = TkQueued then
                  (let (items, cancelled) = cancel_queued_work_items now task_id None
                         (Some (text_or (cq_reason q) (lit ''pause-before-worker-claim''))) (cs_items s);
                       s1 = s\<lparr>cs_items := items\<rparr>;
                       (s2, p, persisted) = prepare_pause_snapshot sha now ids locked task_id
                         (queued_pause_request base message) hooks s1
                   in case finish_queued_pause now ids task_id message focus cancelled p s2 of
                        Inl err \<Rightarrow> (s2, Inl err)
                      | Inr (s3, r) \<Rightarrow> (s3, Inr r))
                else
                  (case request_running_pause now ids task_id message focus t s of
                     Inl err \<Rightarrow> (s, Inl err)
                   | Inr (s1, r) \<Rightarrow> (s1, Inr r))))"

section \<open>Copies of a snapshot\<close>

text \<open>
  \<open>_clone_snapshot_for_task\<close>. \<open>copied\<close> is the outcome of reading the payload of the source and of
  committing it under the new id: an error of the storage, or the manifest reference, its checksum
  and the columns no operation reads.
\<close>

record copy_request =
  cp_retention_class :: retention_class
  cp_type :: snapshot_type
  cp_status :: snapshot_status
  cp_label :: "ustr option"
  cp_saved_by :: "ustr option"
  cp_expires_at :: "nat option"
  cp_agent_run_id :: "ustr option"

definition cloned_snapshot ::
  "(ustr \<Rightarrow> ustr) \<Rightarrow> nat \<Rightarrow> control_ids \<Rightarrow> snapshot_row \<Rightarrow> task_row \<Rightarrow> copy_request
     \<Rightarrow> (ustr \<times> ustr) \<times> ustr \<times> json \<Rightarrow> snapshot_row" where
  "cloned_snapshot sha now ids p t c files =
     p\<lparr>sn_id := ci_snapshot ids, sn_app_id := tk_app_id t, sn_task_id := tk_id t,
       sn_agent_run_id := cp_agent_run_id c, sn_project_id := tk_project_id t,
       sn_branch_id := tk_branch_id t, sn_type := cp_type c, sn_status := cp_status c,
       sn_retention_class := cp_retention_class c, sn_storage_manifest_ref := Some (fst files),
       sn_manifest_checksum := Some (fst (snd files)), sn_resume_token_hash := Some (sha (ci_token ids)),
       sn_resume_token := Some (ci_token ids), sn_saved_label := cp_label c,
       sn_saved_by_user_id := cp_saved_by c, sn_expires_at := cp_expires_at c, sn_created_at := now,
       sn_verified_at := Some now, sn_leased_until := None, sn_consumed_at := None,
       sn_superseded_by := None, sn_body := snd (snd files)\<rparr>"

definition clone_snapshot_for_task ::
  "(ustr \<Rightarrow> ustr) \<Rightarrow> nat \<Rightarrow> control_ids \<Rightarrow> ((ustr \<times> ustr) \<times> ustr \<times> json) res \<Rightarrow> snapshot_row
     \<Rightarrow> task_row \<Rightarrow> copy_request \<Rightarrow> control_store \<Rightarrow> (control_store \<times> snapshot_row) res" where
  "clone_snapshot_for_task sha now ids copied p t c s =
     (case copied of
        Inl err \<Rightarrow> Inl err
      | Inr files \<Rightarrow>
          map_sum id (\<lambda>(tasks, snaps, row). (s\<lparr>cs_tasks := tasks, cs_snapshots := snaps\<rparr>, row))
            (create_snapshot sha (cloned_snapshot sha now ids p t c files)
               (cs_tasks s) (cs_runs s) (cs_snapshots s)))"

text \<open>Who asked, when \<open>requestedBy\<close> is a dictionary.\<close>

definition saved_by :: "control_request \<Rightarrow> ustr" where
  "saved_by q = text_or (cq_requested_by_id q) (text_or (cq_user_id q) (lit ''operator''))"

section \<open>Cancelling\<close>

definition cancel_label :: "control_request \<Rightarrow> ustr" where
  "cancel_label q = text_or (cq_label q) (lit ''cancel audit'')"

text \<open>The audit snapshot is a copy of the active one. A task without an active one gets a snapshot
  from \<open>prepare_pause_snapshot\<close>, in a session of its own on the committed store, which is then updated.\<close>

definition cancel_pause_request :: "pause_snapshot_request \<Rightarrow> control_request \<Rightarrow> pause_snapshot_request" where
  "cancel_pause_request base q =
     base\<lparr>psr_snapshot_type := Some SnAudit, psr_retention_class := Some CancelAudit,
       psr_agent_run_id := None, psr_response_state := Some (lit ''drained''),
       psr_safe_stop_reason := Some (lit ''cancel-audit''),
       psr_resume_message := Some (text_or (cq_reason q) (lit ''cancel audit''))\<rparr>"

definition audit_copy :: "control_request \<Rightarrow> nat \<Rightarrow> copy_request" where
  "audit_copy q expires =
     \<lparr>cp_retention_class = CancelAudit, cp_type = SnAudit, cp_status = SArchived,
      cp_label = Some (cancel_label q), cp_saved_by = Some (saved_by q), cp_expires_at = Some expires,
      cp_agent_run_id = None\<rparr>"

definition audit_update :: "control_request \<Rightarrow> nat \<Rightarrow> snapshot_update" where
  "audit_update q expires =
     no_snapshot_update\<lparr>su_status := Some SArchived, su_retention_class := Some CancelAudit,
       su_expires_at := Some expires, su_saved_label := Some (cancel_label q)\<rparr>"

definition cancel_update :: "control_request \<Rightarrow> task_update" where
  "cancel_update q =
     no_update\<lparr>tu_status := Some TkCancelled, tu_pause_requested := Some False,
       tu_active_snapshot_id := Some None, tu_active_resume_attempt_id := Some None,
       tu_pending_control_intent := Some None, tu_resume_blocked_reason := Some None,
       tu_current_focus := Some (Some (text_or (cq_reason q) (lit ''cancelled'')))\<rparr>"

text \<open>What the session has changed before the audit snapshot: the waiting items and the attempt.\<close>

definition cancel_work ::
  "nat \<Rightarrow> ustr \<Rightarrow> control_request \<Rightarrow> control_store \<Rightarrow> control_store res" where
  "cancel_work now task_id q s =
     (let items = fst (cancel_queued_work_items now task_id None
                         (Some (text_or (cq_reason q) (lit ''manual-cancel''))) (cs_items s))
      in case get_active_resume_attempt task_id (cs_attempts s) of
           None \<Rightarrow> Inr (s\<lparr>cs_items := items\<rparr>)
         | Some a \<Rightarrow>
             map_sum id (\<lambda>(attempts, _). s\<lparr>cs_items := items, cs_attempts := attempts\<rparr>)
               (update_resume_attempt now (ra_id a) (no_attempt_update\<lparr>au_status := Some RaCancelled\<rparr>)
                  (cs_attempts s)))"

text \<open>The tables of \<open>s\<close> the session has written so far, over the tables the nested session left.\<close>

definition over_store :: "control_store \<Rightarrow> control_store \<Rightarrow> control_store" where
  "over_store s nested = nested\<lparr>cs_items := cs_items s, cs_attempts := cs_attempts s\<rparr>"

definition cancel_audit_snapshot ::
  "(ustr \<Rightarrow> ustr) \<Rightarrow> nat \<Rightarrow> control_ids \<Rightarrow> bool \<Rightarrow> ((ustr \<times> ustr) \<times> ustr \<times> json) res \<Rightarrow> nat \<Rightarrow> ustr
     \<Rightarrow> control_request \<Rightarrow> pause_snapshot_request \<Rightarrow> hook_result list \<Rightarrow> task_row \<Rightarrow> control_store
     \<Rightarrow> control_store \<Rightarrow> control_store \<times> (control_store \<times> snapshot_row option) res" where
  "cancel_audit_snapshot sha now ids locked copied expires task_id q base hooks t s0 s1 =
     (case active_snapshot s1 t of
        Some p \<Rightarrow>
          (s0, map_sum id (map_prod id Some)
                 (clone_snapshot_for_task sha now ids copied p t (audit_copy q expires) s1))
      | None \<Rightarrow>
          (let (nested, p, persisted) =
             prepare_pause_snapshot sha now ids locked task_id (cancel_pause_request base q) hooks s0
           in (nested,
               if sn_id p = [] then Inr (over_store s1 nested, None)
               else map_sum id
                 (\<lambda>(snaps, row). ((over_store s1 nested)\<lparr>cs_snapshots := snaps\<rparr>, Some row))
                 (update_snapshot (sn_id p) (audit_update q expires) (cs_snapshots nested)))))"

definition finish_cancel ::
  "nat \<Rightarrow> control_ids \<Rightarrow> ustr \<Rightarrow> control_request \<Rightarrow> snapshot_row option \<Rightarrow> control_store
     \<Rightarrow> (control_store \<times> task_row \<times> snapshot_row option) res" where
  "finish_cancel now ids task_id q audit s =
     (case update_task now task_id (cancel_update q) (cs_tasks s) of
        Inl err \<Rightarrow> Inl err
      | Inr (tasks, t) \<Rightarrow>
          map_sum id (\<lambda>(outbox, ev). (s\<lparr>cs_tasks := tasks, cs_outbox := outbox\<rparr>, t, audit))
            (persist_runtime_event now (ci_event2 ids) (tk_project_id t) ''task'' (tk_id t)
               ''task.cancelled'' (lit ''agent-runtime/tasks/'' @ tk_id t @ lit ''/cancel'') (cs_outbox s)))"

text \<open>\<open>cancel_task_execution\<close>: on an error the outer session is rolled back and what the nested one has
  committed stays.\<close>

definition cancel_task_execution ::
  "(ustr \<Rightarrow> ustr) \<Rightarrow> nat \<Rightarrow> control_ids \<Rightarrow> bool \<Rightarrow> ((ustr \<times> ustr) \<times> ustr \<times> json) res \<Rightarrow> nat \<Rightarrow> ustr
     \<Rightarrow> control_request \<Rightarrow> pause_snapshot_request \<Rightarrow> hook_result list \<Rightarrow> control_store
     \<Rightarrow> control_store \<times> (task_row \<times> snapshot_row option) res" where
  "cancel_task_execution sha now ids locked copied expires task_id q base hooks s =
     (case get_task task_id (cs_tasks s) of
        None \<Rightarrow> (s, Inl (task_not_found task_id))
      | Some t \<Rightarrow>
          if tk_status t \<in> {TkCompleted, TkCancelled} then
            (s, Inl (about_task task_id (lit '' is already terminal: '' @ task_status_text (tk_status t) @ lit ''.'')))
          else
            (case cancel_work now task_id q s of
               Inl err \<Rightarrow> (s, Inl err)
             | Inr s1 \<Rightarrow>
                 (case cancel_audit_snapshot sha now ids locked copied expires task_id q base hooks t s s1 of
                    (left, Inl err) \<Rightarrow> (left, Inl err)
                  | (left, Inr (s2, audit)) \<Rightarrow>
                      (case finish_cancel now ids task_id q audit s2 of
                         Inl err \<Rightarrow> (left, Inl err)
                       | Inr (s3, result) \<Rightarrow> (s3, Inr result)))))"

section \<open>Saving and branching\<close>

definition save_copy :: "control_request \<Rightarrow> snapshot_row \<Rightarrow> copy_request" where
  "save_copy q p =
     \<lparr>cp_retention_class = UserSaved, cp_type = sn_type p, cp_status = SRestorable,
      cp_label = Some (text_or (cq_label q) (text_or (cq_saved_label q) (lit ''manual snapshot''))),
      cp_saved_by = Some (saved_by q), cp_expires_at = None, cp_agent_run_id = sn_agent_run_id p\<rparr>"

definition save_current_task_snapshot ::
  "(ustr \<Rightarrow> ustr) \<Rightarrow> nat \<Rightarrow> control_ids \<Rightarrow> ((ustr \<times> ustr) \<times> ustr \<times> json) res \<Rightarrow> ustr
     \<Rightarrow> control_request \<Rightarrow> control_store \<Rightarrow> (control_store \<times> snapshot_row) res" where
  "save_current_task_snapshot sha now ids copied task_id q s =
     (case get_task task_id (cs_tasks s) of
        None \<Rightarrow> Inl (task_not_found task_id)
      | Some t \<Rightarrow>
          (case active_snapshot s t of
             None \<Rightarrow> Inl (about_task task_id (lit '' does not have an active snapshot to save.''))
           | Some p \<Rightarrow>
               (case clone_snapshot_for_task sha now ids copied p t (save_copy q p) s of
                  Inl err \<Rightarrow> Inl err
                | Inr (s1, row) \<Rightarrow>
                    map_sum id (\<lambda>(outbox, ev). (s1\<lparr>cs_outbox := outbox\<rparr>, row))
                      (persist_runtime_event now (ci_event ids) (tk_project_id t) ''task-snapshot'' (sn_id row)
                         ''task.snapshot.user_saved''
                         (lit ''agent-runtime/tasks/'' @ tk_id t @ lit ''/snapshots/'' @ sn_id row)
                         (cs_outbox s1)))))"

text \<open>The saved snapshot a branch starts from.\<close>

definition branch_source :: "ustr \<Rightarrow> control_request \<Rightarrow> control_store \<Rightarrow> snapshot_row res" where
  "branch_source task_id q s =
     (let i = value_or (cq_snapshot_id q) []
      in case (if i = [] then None else get_snapshot i (cs_snapshots s)) of
           None \<Rightarrow> Inl (ValueError (lit ''Snapshot '' @ text_or (Some i) (lit ''<none>'')
                         @ lit '' does not belong to task '' @ task_id @ lit ''.''))
         | Some p \<Rightarrow>
             if sn_task_id p \<noteq> task_id then
               Inl (ValueError (lit ''Snapshot '' @ text_or (Some i) (lit ''<none>'')
                     @ lit '' does not belong to task '' @ task_id @ lit ''.''))
             else if sn_retention_class p \<noteq> UserSaved then
               Inl (ValueError (lit ''Task branches can only be created from user-saved snapshots.''))
             else Inr p)"

definition branch_label :: "control_request \<Rightarrow> snapshot_row \<Rightarrow> ustr" where
  "branch_label q p = text_or (cq_label q) (text_or (sn_saved_label p) (lit ''snapshot branch''))"

definition branch_task :: "control_request \<Rightarrow> task_row \<Rightarrow> snapshot_row \<Rightarrow> task_payload" where
  "branch_task q parent p =
     \<lparr>tp_id = None,
      tp_title = Some (text_or (cq_title q) (tk_title parent @ lit '' / '' @ branch_label q p)),
      tp_goal = Some (text_or (cq_goal q) (tk_goal parent)), tp_objective = None,
      tp_status = Some TkPaused, tp_app_id = Some (tk_app_id parent),
      tp_project_id = Some (tk_project_id parent), tp_space_id = Some (tk_space_id parent),
      tp_branch_id = Some (tk_branch_id parent), tp_current_focus = None, tp_current_objective = None,
      tp_resume_message = sn_resume_message p, tp_restart_message = None,
      tp_owner_profile_id = Some (tk_owner_profile_id parent), tp_execution_root_node_id = None,
      tp_window_index = None, tp_restart_count = None, tp_cumulative_window_span_tokens = None,
      tp_carry_forward_loss_count = None, tp_budget = None, tp_budget_state = None,
      tp_pause_requested = None\<rparr>"

definition branch_copy :: "control_request \<Rightarrow> snapshot_row \<Rightarrow> copy_request" where
  "branch_copy q p =
     \<lparr>cp_retention_class = ActivePaused, cp_type = sn_type p, cp_status = SRestorable,
      cp_label = Some (branch_label q p), cp_saved_by = Some (saved_by q), cp_expires_at = None,
      cp_agent_run_id = None\<rparr>"

definition branch_update :: "snapshot_row \<Rightarrow> task_update" where
  "branch_update row =
     no_update\<lparr>tu_status := Some TkPaused, tu_active_snapshot_id := Some (Some (sn_id row)),
       tu_resume_message := Some (sn_resume_message row),
       tu_last_safe_stop_at := Some (Some (sn_created_at row))\<rparr>"

definition record_branch ::
  "nat \<Rightarrow> control_ids \<Rightarrow> control_request \<Rightarrow> task_row \<Rightarrow> task_row \<Rightarrow> snapshot_row \<Rightarrow> control_store
     \<Rightarrow> (control_store \<times> task_branch) res" where
  "record_branch now ids q parent child p s =
     (case create_task_branch now (ci_branch ids)
             \<lparr>br_id = None, br_parent_task_id = tk_id parent, br_child_task_id = tk_id child,
              br_source_snapshot_id = sn_id p,
              br_source_snapshot_checksum = text_or (sn_manifest_checksum p) [],
              br_label = Some (branch_label q p), br_created_by_user_id = Some (saved_by q)\<rparr>
             (cs_branches s) of
        Inl err \<Rightarrow> Inl err
      | Inr (branches, b) \<Rightarrow>
          map_sum id (\<lambda>(outbox, ev). (s\<lparr>cs_branches := branches, cs_outbox := outbox\<rparr>, b))
            (persist_runtime_event now (ci_event ids) (tk_project_id parent) ''task-branch'' (tb_id b)
               ''task.branch.created''
               (lit ''agent-runtime/tasks/'' @ tk_id parent @ lit ''/branches/'' @ tb_id b)
               (cs_outbox s)))"

definition create_task_branch_from_snapshot ::
  "(ustr \<Rightarrow> ustr) \<Rightarrow> nat \<Rightarrow> control_ids \<Rightarrow> ustr option res \<Rightarrow> ((ustr \<times> ustr) \<times> ustr \<times> json) res \<Rightarrow> ustr
     \<Rightarrow> control_request \<Rightarrow> control_store \<Rightarrow> (control_store \<times> task_branch \<times> task_row \<times> snapshot_row) res" where
  "create_task_branch_from_snapshot sha now ids workspace copied task_id q s =
     (case get_task task_id (cs_tasks s) of
        None \<Rightarrow> Inl (task_not_found task_id)
      | Some parent \<Rightarrow>
          (case branch_source task_id q s of
             Inl err \<Rightarrow> Inl err
           | Inr p \<Rightarrow>
               (case create_task now (ci_task ids) (ci_root ids) workspace (branch_task q parent p) (cs_tasks s) of
                  Inl err \<Rightarrow> Inl err
                | Inr (tasks, child0) \<Rightarrow>
                    (case clone_snapshot_for_task sha now ids copied p child0 (branch_copy q p)
                            (s\<lparr>cs_tasks := tasks\<rparr>) of
                       Inl err \<Rightarrow> Inl err
                     | Inr (s1, row) \<Rightarrow>
                         (case update_task now (tk_id child0) (branch_update row) (cs_tasks s1) of
                            Inl err \<Rightarrow> Inl err
                          | Inr (tasks2, child) \<Rightarrow>
                              map_sum id (\<lambda>(s2, b). (s2, b, child, row))
                                (record_branch now ids q parent child p (s1\<lparr>cs_tasks := tasks2\<rparr>)))))))"

section \<open>Approval\<close>

text \<open>\<open>approve_task_completion\<close>. \<open>protocol\<close> is the persisted takeover protocol of the latest run, when
  there is one; the protocol written back is part of the result.\<close>

definition approve_task_completion ::
  "env \<Rightarrow> nat \<Rightarrow> control_ids \<Rightarrow> takeover_protocol option \<Rightarrow> ustr \<Rightarrow> control_request \<Rightarrow> control_store
     \<Rightarrow> (control_store \<times> task_row \<times> takeover_protocol option) res" where
  "approve_task_completion e now ids protocol task_id q s =
     (case get_task task_id (cs_tasks s) of
        None \<Rightarrow> Inl (task_not_found task_id)
      | Some t \<Rightarrow>
          if tk_status t \<noteq> TkAwaitingApproval then
            Inl (about_task task_id (lit '' is in state '' @ task_status_text (tk_status t)
              @ lit '' and cannot be approved.''))
          else
            (case update_task now task_id
                    (no_update\<lparr>tu_status := Some TkCompleted, tu_pause_requested := Some False,
                       tu_active_snapshot_id := Some None,
                       tu_current_focus :=
                         Some (or_text (value_or (cq_current_focus q) None) (Some (lit ''completed'')))\<rparr>)
                    (cs_tasks s) of
               Inl err \<Rightarrow> Inl err
             | Inr (tasks, t2) \<Rightarrow>
                 map_sum id
                   (\<lambda>(outbox, ev). (s\<lparr>cs_tasks := tasks, cs_outbox := outbox\<rparr>, t2,
                                    approve_takeover_completion e protocol))
                   (persist_runtime_event now (ci_event ids) (tk_project_id t2) ''task'' (tk_id t2)
                      ''task.completion.approved''
                      (lit ''agent-runtime/tasks/'' @ tk_id t2 @ lit ''/approval/'' @ ci_locator ids)
                      (cs_outbox s))))"

text \<open>\<open>_takeover_protocol_has_unfinished_work_nodes\<close>\<close>

definition takeover_protocol_has_unfinished_work_nodes :: "takeover_protocol option \<Rightarrow> bool" where
  "takeover_protocol_has_unfinished_work_nodes p0 \<longleftrightarrow>
     (case p0 of
        None \<Rightarrow> False
      | Some p \<Rightarrow>
          (case p_work_tree p of
             None \<Rightarrow> False
           | Some w \<Rightarrow>
               list_ex (\<lambda>n. n_status n \<in> {NPending, NInProgress, NSummarizing, NBlocked, NFailed})
                 (wt_nodes w)))"

end
