(* ===== verification/TaskControlFacts.thy ===== *)
theory TaskControlFacts
  imports TaskControl
begin

text \<open>
  What the operations of \<open>TaskControl\<close> do to the tables: the rows they add and edit, the invariant of the
  store, and the changes of task status seen as steps of a lifecycle.
\<close>

section \<open>Operations on one table\<close>

named_theorems control_effects \<open>what a successful repository call has done\<close>

lemma apply_task_update_id [simp]: "tk_id (apply_task_update now u t) = tk_id t"
  by (simp add: apply_task_update_def Let_def set_task_status_def split: option.split)

lemma apply_task_update_keeps [simp]: "keeps tk_id (apply_task_update now u)"
  by (simp add: keeps_def)

lemma point_to_snapshot_simps [simp]:
  "tk_id (point_to_snapshot p t) = tk_id t" "tk_status (point_to_snapshot p t) = tk_status t"
  "keeps tk_id (point_to_snapshot p)"
  by (simp_all add: point_to_snapshot_def keeps_def)

lemma resume_task_simps [simp]:
  "tk_id (resume_task now i t) = tk_id t" "tk_status (resume_task now i t) = tk_status t"
  "keeps tk_id (resume_task now i)"
  by (simp_all add: resume_task_def keeps_def)

lemma wake_simps [simp]: "tk_id (wake_task now r t) = tk_id t" "keeps tk_id (wake_task now r)"
  by (simp_all add: wake_task_def keeps_def)

lemma apply_attempt_update_keeps [simp]: "keeps ra_id (apply_attempt_update now u)"
  by (simp add: keeps_def apply_attempt_update_def)

lemma apply_snapshot_update_keeps [simp]: "keeps sn_id (apply_snapshot_update u)"
  by (simp add: keeps_def apply_snapshot_update_def)

lemma apply_task_status [simp]:
  "tk_status (apply_task_update now u t) = value_or (tu_status u) (tk_status t)"
  by (simp add: apply_task_update_def Let_def set_task_status_def value_or_def split: option.split)

lemma update_task_Inr [control_effects]:
  "update_task now i u tasks = Inr (tasks', t') \<longleftrightarrow>
     (\<exists>t. find_row tk_id tasks i = Some t \<and> tasks' = edit_row tk_id i (apply_task_update now u) tasks
        \<and> t' = apply_task_update now u t)"
  by (auto simp: update_task_def split: option.split)

lemma event_recorded [control_effects]:
  "persist_runtime_event now i pj kind ai et loc outbox = Inr (outbox', ev) \<Longrightarrow>
     outbox' = outbox @ [ev] \<and> ob_id ev \<notin> row_keys ob_id outbox"
  by (auto simp: persist_runtime_event_def record_event_def Let_def map_sum_Inr table_simps)

lemma item_created [control_effects]:
  "create_work_item now i queue w items = Inr (items', r) \<Longrightarrow>
     items' = items @ [r] \<and> wi_id r \<notin> row_keys wi_id items \<and> wi_status r = WQueued \<and> wi_payload r = w"
  by (auto simp: create_work_item_def Let_def map_sum_Inr table_simps)

definition one_active :: "attempt_row list \<Rightarrow> bool" where
  "one_active attempts \<longleftrightarrow> (\<forall>i. length (filter (active_attempt i) attempts) \<le> 1)"

lemma active_attempts_length: "length (active_attempts i attempts) = length (filter (active_attempt i) attempts)"
  by (simp add: active_attempts_def)

lemma active_attempts_Nil: "active_attempts i attempts = [] \<longleftrightarrow> filter (active_attempt i) attempts = []"
  using active_attempts_length [of i attempts] by (metis length_0_conv)

lemma one_active_scalar:
  "one_active attempts \<Longrightarrow> scalar_one_or_none (active_attempts i attempts) = Inr (get_active_resume_attempt i attempts)"
proof -
  assume "one_active attempts"
  then have "length (active_attempts i attempts) \<le> 1"
    by (simp add: active_attempts_length one_active_def)
  then show ?thesis
    by (cases "active_attempts i attempts" rule: scalar_one_or_none.cases)
       (simp_all add: get_active_resume_attempt_def)
qed

lemma get_active_mem:
  "get_active_resume_attempt i attempts = Some a \<Longrightarrow> a \<in> set attempts \<and> active_attempt i a"
proof -
  assume "get_active_resume_attempt i attempts = Some a"
  then have "a \<in> set (active_attempts i attempts)"
    by (auto simp: get_active_resume_attempt_def split: list.splits)
  then show ?thesis by (simp add: active_attempts_def)
qed

lemma attempt_created [control_effects]:
  "create_resume_attempt now i tid sid p tasks attempts = Inr (tasks', attempts', a) \<Longrightarrow>
     (get_active_resume_attempt tid attempts = Some a \<and> tasks' = tasks \<and> attempts' = attempts)
   \<or> (get_active_resume_attempt tid attempts = None \<and> a = new_attempt now i tid sid p
      \<and> tasks' = edit_row tk_id tid (resume_task now (ra_id a)) tasks
      \<and> attempts' = attempts @ [a] \<and> ra_id a \<notin> row_keys ra_id attempts)"
  by (cases "active_attempts tid attempts" rule: scalar_one_or_none.cases)
     (auto simp: create_resume_attempt_def get_active_resume_attempt_def Let_def map_sum_Inr table_simps)

lemma one_active_append:
  assumes "one_active attempts" "get_active_resume_attempt (ra_task_id a) attempts = None"
  shows "one_active (attempts @ [a])"
proof -
  have "filter (active_attempt (ra_task_id a)) attempts = []"
    using assms(2) by (auto simp: get_active_resume_attempt_def active_attempts_Nil split: list.splits)
  then show ?thesis
    using assms(1) by (auto simp: one_active_def active_attempt_def)
qed

lemma one_active_cancel:
  assumes "one_active attempts"
  shows "one_active (edit_row ra_id i (apply_attempt_update now (no_attempt_update\<lparr>au_status := Some RaCancelled\<rparr>)) attempts)"
proof -
  have "length (filter (active_attempt j) (edit_row ra_id i (apply_attempt_update now
      (no_attempt_update\<lparr>au_status := Some RaCancelled\<rparr>)) attempts)) \<le> length (filter (active_attempt j) attempts)" for j
    by (induction attempts)
       (auto simp: edit_row_def active_attempt_def apply_attempt_update_def no_attempt_update_def value_or_def)
  then show ?thesis using assms unfolding one_active_def by (meson le_trans)
qed

lemma snapshot_created [control_effects]:
  "create_snapshot sha p tasks runs snaps = Inr (tasks', snaps', row) \<Longrightarrow>
     (\<exists>t. find_row tk_id tasks (sn_task_id p) = Some t)
     \<and> tasks' = edit_row tk_id (sn_task_id p) (point_to_snapshot p) tasks
     \<and> row = stored_snapshot sha p \<and> snaps' = snaps @ [row] \<and> sn_id row \<notin> row_keys sn_id snaps"
  by (auto simp: create_snapshot_def Let_def map_sum_Inr table_simps split: option.splits if_splits)

lemma stored_snapshot_simps [simp]:
  "sn_id (stored_snapshot sha p) = sn_id p" "sn_task_id (stored_snapshot sha p) = sn_task_id p"
  "sn_status (stored_snapshot sha p) = sn_status p"
  "sn_retention_class (stored_snapshot sha p) = sn_retention_class p"
  "sn_resume_message (stored_snapshot sha p) = sn_resume_message p"
  "sn_created_at (stored_snapshot sha p) = sn_created_at p"
  "sn_saved_label (stored_snapshot sha p) = sn_saved_label p"
  by (simp_all add: stored_snapshot_def)

lemma supersede_keys [simp]:
  "row_keys sn_id (fst (supersede_snapshots i keep snaps)) = row_keys sn_id snaps"
  "table_ok sn_id (fst (supersede_snapshots i keep snaps)) = table_ok sn_id snaps"
proof -
  have "map sn_id (fst (supersede_snapshots i keep snaps)) = map sn_id snaps"
    by (simp add: supersede_snapshots_def)
  then show "row_keys sn_id (fst (supersede_snapshots i keep snaps)) = row_keys sn_id snaps"
    "table_ok sn_id (fst (supersede_snapshots i keep snaps)) = table_ok sn_id snaps"
    unfolding row_keys_def table_ok_def by (metis list.set_map, metis)
qed

lemma cancelled_items_ok [simp]:
  "table_ok wi_id (fst (cancel_queued_work_items now i intent reason items)) = table_ok wi_id items"
proof -
  have "map wi_id (fst (cancel_queued_work_items now i intent reason items)) = map wi_id items"
    by (simp add: cancel_queued_work_items_def)
  then show ?thesis by (simp add: table_ok_def)
qed

section \<open>The status of the tasks\<close>

definition statuses :: "task_row list \<Rightarrow> ustr \<Rightarrow> task_status option" where
  "statuses tasks i = map_option tk_status (find_row tk_id tasks i)"

lemma statuses_edit:
  "keeps tk_id f \<Longrightarrow> find_row tk_id tasks i = Some t \<Longrightarrow>
     statuses (edit_row tk_id i f tasks) = (statuses tasks)(i \<mapsto> tk_status (f t))"
  by (rule ext) (simp add: statuses_def table_simps)

lemma statuses_same:
  assumes "\<And>t. tk_id (f t) = tk_id t" "\<And>t. tk_status (f t) = tk_status t"
  shows "statuses (edit_row tk_id i f tasks) = statuses tasks"
proof -
  have "keeps tk_id f" using assms(1) by (simp add: keeps_def)
  then show ?thesis
    by (intro ext) (simp add: statuses_def table_simps option.map_comp comp_def assms(2))
qed

lemma statuses_append:
  "tk_id t \<notin> row_keys tk_id tasks \<Longrightarrow> statuses (tasks @ [t]) = (statuses tasks)(tk_id t \<mapsto> tk_status t)"
  by (rule ext) (simp add: statuses_def table_simps)

lemma statuses_updated:
  "update_task now i u tasks = Inr (tasks', t') \<Longrightarrow>
     statuses tasks' = (statuses tasks)(i \<mapsto> tk_status t')
     \<and> (\<exists>t. find_row tk_id tasks i = Some t \<and> t' = apply_task_update now u t)"
  by (auto simp: update_task_Inr statuses_edit)

text \<open>
  The moves of the task status. The first case is a new task; a task that is completed or cancelled
  does not move, a paused one is not queued.
\<close>

definition control_move :: "task_status option \<Rightarrow> task_status \<Rightarrow> bool" where
  "control_move from to \<longleftrightarrow>
     (case from of
        None \<Rightarrow> to = TkPaused
      | Some a \<Rightarrow>
          to = TkQueued \<and> a \<notin> {TkPaused, TkResumeBlocked, TkCompleted, TkCancelled}
          \<or> to = TkPaused \<and> a \<in> {TkQueued, TkPaused, TkResumeBlocked}
          \<or> to = TkCompleted \<and> a = TkAwaitingApproval
          \<or> to = TkCancelled \<and> a \<notin> {TkCompleted, TkCancelled})"

definition lifecycle_step :: "(ustr \<Rightarrow> task_status option) \<Rightarrow> (ustr \<Rightarrow> task_status option) \<Rightarrow> bool" where
  "lifecycle_step f g \<longleftrightarrow> (\<exists>i b. control_move (f i) b \<and> g = f(i \<mapsto> b))"

lemma lifecycle_stepI: "control_move (f i) b \<Longrightarrow> g = f(i \<mapsto> b) \<Longrightarrow> lifecycle_step f g"
  unfolding lifecycle_step_def by blast

lemma lifecycle_terminal:
  "lifecycle_step\<^sup>*\<^sup>* f g \<Longrightarrow> f i = Some a \<Longrightarrow> a \<in> {TkCompleted, TkCancelled} \<Longrightarrow> g i = Some a"
  by (induction rule: rtranclp_induct)
     (auto simp: lifecycle_step_def control_move_def split: if_splits)

section \<open>The invariant of the store\<close>

definition control_ok :: "control_store \<Rightarrow> bool" where
  "control_ok s \<longleftrightarrow>
     table_ok tk_id (cs_tasks s) \<and> table_ok ru_id (cs_runs s) \<and> table_ok sn_id (cs_snapshots s)
     \<and> table_ok ra_id (cs_attempts s) \<and> table_ok wi_id (cs_items s)
     \<and> table_ok tb_id (cs_branches s) \<and> table_ok ob_id (cs_outbox s) \<and> one_active (cs_attempts s)"

text \<open>A change of the store that keeps the invariant and moves no task, or moves one by a lifecycle step.\<close>

definition lawful :: "control_store \<Rightarrow> control_store \<Rightarrow> bool" where
  "lawful s s' \<longleftrightarrow> (control_ok s \<longrightarrow> control_ok s')
     \<and> (statuses (cs_tasks s') = statuses (cs_tasks s)
        \<or> lifecycle_step (statuses (cs_tasks s)) (statuses (cs_tasks s')))"

lemma lawful_refl [simp]: "lawful s s"
  by (simp add: lawful_def)

lemma lawful_move:
  "(control_ok s \<Longrightarrow> control_ok s') \<Longrightarrow> control_move (statuses (cs_tasks s) i) b \<Longrightarrow>
     statuses (cs_tasks s') = (statuses (cs_tasks s))(i \<mapsto> b) \<Longrightarrow> lawful s s'"
  unfolding lawful_def using lifecycle_stepI by blast

lemma lawful_still:
  "(control_ok s \<Longrightarrow> control_ok s') \<Longrightarrow> statuses (cs_tasks s') = statuses (cs_tasks s) \<Longrightarrow> lawful s s'"
  unfolding lawful_def by blast

section \<open>Queueing\<close>

lemma bind_Inr: "(case x of Inl err \<Rightarrow> Inl err | Inr v \<Rightarrow> f v) = Inr y \<longleftrightarrow> (\<exists>v. x = Inr v \<and> f v = Inr y)"
  by (cases x) auto

lemma if_Inr: "(if b then Inl err else x) = Inr y \<longleftrightarrow> \<not> b \<and> x = Inr y"
  by simp

lemmas session_simps = bind_Inr if_Inr map_sum_Inr split_paired_Ex prod.case prod.inject Let_def

lemma outbox_grows:
  "persist_runtime_event now i pj kind ai et loc outbox = Inr (outbox', ev) \<Longrightarrow>
     table_ok ob_id outbox \<Longrightarrow> table_ok ob_id outbox'"
  using event_recorded by (fastforce simp: table_simps)

lemma start_Inr:
  assumes "start_task_execution now ids i q t s = Inr (s', r)"
  obtains tasks t2 items w outbox where "startable (command_of q) (tk_status t)"
    "update_task now i (request_update q) (cs_tasks s) = Inr (tasks, t2)"
    "items = cs_items s @ [w]" "wi_id w \<notin> row_keys wi_id (cs_items s)" "wi_status w = WQueued"
    "s' = s\<lparr>cs_tasks := tasks, cs_items := items, cs_outbox := outbox\<rparr>"
    "table_ok ob_id (cs_outbox s) \<Longrightarrow> table_ok ob_id outbox"
    "r = \<lparr>qr_status = QueuedNow, qr_task = t2, qr_attempt = None, qr_item = Some w\<rparr>"
proof -
  note u = assms [unfolded start_task_execution_def, simplified session_simps]
  then have st: "startable (command_of q) (tk_status t)" by blast
  from u obtain outbox tasks t2 items w where o:
    "(if command_of q = Retry then map_sum id fst
        (persist_runtime_event now (ci_event ids) (tk_project_id t) ''task'' (tk_id t) ''task.retry.requested''
           (lit ''agent-runtime/tasks/'' @ tk_id t @ lit ''/retry-requests/'' @ ci_locator ids) (cs_outbox s))
      else Inr (cs_outbox s)) = Inr outbox"
    and up: "update_task now i (request_update q) (cs_tasks s) = Inr (tasks, t2)"
    and w: "create_work_item now (ci_item ids) (lit ''agent-runtime'')
       (control_payload i (text_or (cq_command q) (lit ''start'')) (text_or (cq_command q) (lit ''start''))
          [(lit ''requestedAt'', JInt (int now)),
           (lit ''payload'', JObj (dict_setdefault (lit ''workTreeDirectiveRequired'') (JBool True) (cq_body q)))])
       (cs_items s) = Inr (items, w)"
    and r: "s' = s\<lparr>cs_tasks := tasks, cs_items := items, cs_outbox := outbox\<rparr>"
      "r = \<lparr>qr_status = QueuedNow, qr_task = t2, qr_attempt = None, qr_item = Some w\<rparr>"
    by (elim exE conjE) (rule that, assumption+)
  have "table_ok ob_id outbox" if "table_ok ob_id (cs_outbox s)"
    using o that outbox_grows by (fastforce simp: map_sum_Inr split: if_splits)
  from that [OF st up _ _ _ r(1) this r(2)] item_created [OF w] show ?thesis by blast
qed

lemma request_update_status [simp]: "tu_status (request_update q) = Some TkQueued"
  by (simp add: request_update_def)

lemma start_lawful:
  assumes "find_row tk_id (cs_tasks s) i = Some t" "start_task_execution now ids i q t s = Inr (s', r)"
  shows "lawful s s'"
proof -
  obtain tasks t2 items w outbox where st: "startable (command_of q) (tk_status t)"
    and up: "update_task now i (request_update q) (cs_tasks s) = Inr (tasks, t2)"
    and w: "items = cs_items s @ [w]" "wi_id w \<notin> row_keys wi_id (cs_items s)"
    and s': "s' = s\<lparr>cs_tasks := tasks, cs_items := items, cs_outbox := outbox\<rparr>"
    and ob: "table_ok ob_id (cs_outbox s) \<Longrightarrow> table_ok ob_id outbox"
    using start_Inr [OF assms(2)] by metis
  show ?thesis
  proof (rule lawful_move [where i = i and b = TkQueued])
    assume "control_ok s"
    then show "control_ok s'" using up w s' ob by (auto simp: control_ok_def update_task_Inr table_simps)
  next
    show "control_move (statuses (cs_tasks s) i) TkQueued"
      using st assms(1) by (auto simp: control_move_def startable_def statuses_def split: if_splits)
    show "statuses (cs_tasks s') = (statuses (cs_tasks s))(i \<mapsto> TkQueued)"
      using statuses_updated [OF up] s' by (auto simp: value_or_def)
  qed
qed

lemma resume_Inr:
  assumes "resume_task_execution now ids i q t s = Inr (s', r)"
  obtains p tasks1 attempts a tasks2 t2 items item outbox where "resumable_snapshot i q s t = Inr p"
    "create_resume_attempt now (ci_attempt ids) i (sn_id p)
       \<lparr>ap_id = None, ap_requested_by = cq_requested_by q, ap_status = None\<rparr> (cs_tasks s) (cs_attempts s)
       = Inr (tasks1, attempts, a)"
    "update_task now i (resume_update (ra_id a) (or_text (value_or (cq_resume_message q) None)
       (or_text (sn_resume_message p) (tk_resume_message t)))) tasks1 = Inr (tasks2, t2)"
    "(\<exists>b. get_active_resume_attempt i (cs_attempts s) = Some b \<and> ra_id b = ra_id a \<and> items = cs_items s \<and> item = None)
     \<or> (\<exists>w. (\<forall>b. get_active_resume_attempt i (cs_attempts s) = Some b \<longrightarrow> ra_id b \<noteq> ra_id a)
          \<and> items = cs_items s @ [w] \<and> item = Some w \<and> wi_id w \<notin> row_keys wi_id (cs_items s)
          \<and> wi_status w = WQueued
          \<and> wi_payload w = resume_payload now i q (ra_id a) (sn_id p) (tk_resume_message t2))"
    "s' = s\<lparr>cs_tasks := tasks2, cs_attempts := attempts, cs_items := items, cs_outbox := outbox\<rparr>"
    "table_ok ob_id (cs_outbox s) \<Longrightarrow> table_ok ob_id outbox"
    "r = \<lparr>qr_status = (if ra_status a = RaBlocked then ResumeBlocked else ResumeQueued),
          qr_task = t2, qr_attempt = Some a, qr_item = item\<rparr>"
proof -
  from assms [unfolded resume_task_execution_def, simplified session_simps]
  obtain p tasks1 attempts a tasks2 t2 items item outbox ev where o: "resumable_snapshot i q s t = Inr p"
    "create_resume_attempt now (ci_attempt ids) i (sn_id p)
       \<lparr>ap_id = None, ap_requested_by = cq_requested_by q, ap_status = None\<rparr> (cs_tasks s) (cs_attempts s)
       = Inr (tasks1, attempts, a)"
    "update_task now i (resume_update (ra_id a) (or_text (value_or (cq_resume_message q) None)
       (or_text (sn_resume_message p) (tk_resume_message t)))) tasks1 = Inr (tasks2, t2)"
    "(case get_active_resume_attempt i (cs_attempts s) of
        Some b \<Rightarrow> if ra_id b = ra_id a then Inr (cs_items s, None)
          else map_sum id (map_prod id Some)
            (create_work_item now (ci_item ids) (lit ''agent-runtime'')
               (resume_payload now i q (ra_id a) (sn_id p) (tk_resume_message t2)) (cs_items s))
      | None \<Rightarrow> map_sum id (map_prod id Some)
          (create_work_item now (ci_item ids) (lit ''agent-runtime'')
             (resume_payload now i q (ra_id a) (sn_id p) (tk_resume_message t2)) (cs_items s))) = Inr (items, item)"
    "persist_runtime_event now (ci_event ids) (tk_project_id t2) ''task-resume-attempt''
       (ra_id a) ''task.resume.requested''
       (lit ''agent-runtime/tasks/'' @ tk_id t2 @ lit ''/resume-attempts/'' @ ra_id a) (cs_outbox s) = Inr (outbox, ev)"
    "s' = s\<lparr>cs_tasks := tasks2, cs_attempts := attempts, cs_items := items, cs_outbox := outbox\<rparr>"
    "r = \<lparr>qr_status = (if ra_status a = RaBlocked then ResumeBlocked else ResumeQueued),
          qr_task = t2, qr_attempt = Some a, qr_item = item\<rparr>"
    by (elim exE conjE) (rule that, assumption+)
  have "(\<exists>b. get_active_resume_attempt i (cs_attempts s) = Some b \<and> ra_id b = ra_id a \<and> items = cs_items s \<and> item = None)
     \<or> (\<exists>w. (\<forall>b. get_active_resume_attempt i (cs_attempts s) = Some b \<longrightarrow> ra_id b \<noteq> ra_id a)
          \<and> items = cs_items s @ [w] \<and> item = Some w \<and> wi_id w \<notin> row_keys wi_id (cs_items s)
          \<and> wi_status w = WQueued
          \<and> wi_payload w = resume_payload now i q (ra_id a) (sn_id p) (tk_resume_message t2))"
    using o(4) by (auto simp: map_sum_Inr split: option.splits if_splits dest!: item_created)
  from that [OF o(1-3) this o(6) outbox_grows [OF o(5)] o(7)] show ?thesis by blast
qed


lemma resume_update_status [simp]: "tu_status (resume_update a m) = Some TkPaused"
  by (simp add: resume_update_def)

lemma attempts_ok:
  assumes "create_resume_attempt now i tid sid p tasks attempts = Inr (tasks', attempts', a)"
    and "table_ok tk_id tasks" "table_ok ra_id attempts" "one_active attempts"
  shows "table_ok tk_id tasks' \<and> table_ok ra_id attempts' \<and> one_active attempts'"
  using attempt_created [OF assms(1)] assms(2-)
  by (auto simp: table_simps new_attempt_def intro!: one_active_append)

lemma attempts_statuses:
  assumes "create_resume_attempt now i tid sid p tasks attempts = Inr (tasks', attempts', a)"
  shows "statuses tasks' = statuses tasks"
  using attempt_created [OF assms] by (auto simp: statuses_same)

lemma resume_lawful:
  assumes "find_row tk_id (cs_tasks s) i = Some t" "resume_task_execution now ids i q t s = Inr (s', r)"
  shows "lawful s s'"
  using assms(2)
proof (rule resume_Inr)
  fix p tasks1 attempts a tasks2 t2 items item outbox
  assume p: "resumable_snapshot i q s t = Inr p"
    and a: "create_resume_attempt now (ci_attempt ids) i (sn_id p)
       \<lparr>ap_id = None, ap_requested_by = cq_requested_by q, ap_status = None\<rparr> (cs_tasks s) (cs_attempts s)
       = Inr (tasks1, attempts, a)"
    and up: "update_task now i (resume_update (ra_id a) (or_text (value_or (cq_resume_message q) None)
       (or_text (sn_resume_message p) (tk_resume_message t)))) tasks1 = Inr (tasks2, t2)"
    and w: "(\<exists>b. get_active_resume_attempt i (cs_attempts s) = Some b \<and> ra_id b = ra_id a \<and> items = cs_items s \<and> item = None)
     \<or> (\<exists>w. (\<forall>b. get_active_resume_attempt i (cs_attempts s) = Some b \<longrightarrow> ra_id b \<noteq> ra_id a)
          \<and> items = cs_items s @ [w] \<and> item = Some w \<and> wi_id w \<notin> row_keys wi_id (cs_items s)
          \<and> wi_status w = WQueued
          \<and> wi_payload w = resume_payload now i q (ra_id a) (sn_id p) (tk_resume_message t2))"
    and s': "s' = s\<lparr>cs_tasks := tasks2, cs_attempts := attempts, cs_items := items, cs_outbox := outbox\<rparr>"
    and ob: "table_ok ob_id (cs_outbox s) \<Longrightarrow> table_ok ob_id outbox"
  show "lawful s s'"
  proof (rule lawful_move [where i = i and b = TkPaused])
    assume ok: "control_ok s"
    have "table_ok wi_id items" using w ok by (auto simp: control_ok_def table_simps)
    then show "control_ok s'" using ok attempts_ok [OF a] up s' ob
      by (auto simp: control_ok_def update_task_Inr table_simps)
  next
    show "control_move (statuses (cs_tasks s) i) TkPaused"
      using p assms(1) by (auto simp: control_move_def resumable_snapshot_def statuses_def split: if_splits)
    show "statuses (cs_tasks s') = (statuses (cs_tasks s))(i \<mapsto> TkPaused)"
      using statuses_updated [OF up] s' attempts_statuses [OF a] by (auto simp: value_or_def)
  qed
qed

lemma queue_lawful:
  "queue_main_agent_execution now ids i q s = Inr (s', r) \<Longrightarrow> lawful s s'"
  unfolding queue_main_agent_execution_def get_task_def
  by (auto split: option.splits if_splits intro: start_lawful resume_lawful)

lemma retry_lawful: "retry_task_execution now ids i q s = Inr (s', r) \<Longrightarrow> lawful s s'"
  unfolding retry_task_execution_def by (rule queue_lawful)

section \<open>Pausing and cancelling\<close>

lemma run_created:
  "create_agent_run now fresh i p tasks runs = Inr (tasks', runs', r) \<Longrightarrow>
     tasks' = edit_row tk_id i (wake_task now r) tasks \<and> runs' = runs @ [r] \<and> ru_id r \<notin> row_keys ru_id runs"
  by (auto simp: create_agent_run_def Let_def map_sum_Inr table_simps split: option.splits sum.splits if_splits)

text \<open>A snapshot without an agent run is stored without touching the status of a task.\<close>

lemma persist_Inr:
  assumes "persist_pause_snapshot sha now ids p q s = Inr (s', persisted)" "sn_agent_run_id p = None"
  shows "(get_task (sn_task_id p) (cs_tasks s) = None \<and> s' = s \<and> \<not> persisted)
    \<or> (persisted \<and> (\<exists>tasks outbox. s' = s\<lparr>cs_tasks := tasks,
          cs_snapshots := fst (supersede_snapshots (sn_task_id p) None (cs_snapshots s)) @ [stored_snapshot sha p],
          cs_outbox := outbox\<rparr>
        \<and> tasks = edit_row tk_id (sn_task_id p) (point_to_snapshot p) (cs_tasks s)
        \<and> sn_id p \<notin> row_keys sn_id (cs_snapshots s)
        \<and> (table_ok ob_id (cs_outbox s) \<longrightarrow> table_ok ob_id outbox)))"
proof (cases "get_task (sn_task_id p) (cs_tasks s) = None")
  case False
  have r: "persist_pause_snapshot sha now ids p q s =
    (case create_snapshot sha p (cs_tasks s) (cs_runs s)
        (fst (supersede_snapshots (sn_task_id p) None (cs_snapshots s))) of
       Inl err \<Rightarrow> Inl err
     | Inr (tasks2, snaps, row) \<Rightarrow>
        map_sum id (\<lambda>(outbox, ev). (s\<lparr>cs_tasks := tasks2, cs_runs := cs_runs s, cs_snapshots := snaps,
                                      cs_outbox := outbox\<rparr>, True))
          (persist_runtime_event now (ci_event ids) (sn_project_id p) ''task-snapshot'' (sn_id p)
             ''task.snapshot.created'' (lit ''agent-runtime/tasks/'' @ sn_task_id p @ lit ''/snapshots/'' @ sn_id p)
             (cs_outbox s)))"
    unfolding persist_pause_snapshot_def if_not_P [OF False] by (simp add: assms(2))
  from assms(1) [unfolded r, simplified session_simps]
  obtain tasks2 snaps row outbox ev where
    c: "create_snapshot sha p (cs_tasks s) (cs_runs s)
        (fst (supersede_snapshots (sn_task_id p) None (cs_snapshots s))) = Inr (tasks2, snaps, row)"
    and e: "persist_runtime_event now (ci_event ids) (sn_project_id p) ''task-snapshot'' (sn_id p)
             ''task.snapshot.created'' (lit ''agent-runtime/tasks/'' @ sn_task_id p @ lit ''/snapshots/'' @ sn_id p)
             (cs_outbox s) = Inr (outbox, ev)"
    and s': "s' = s\<lparr>cs_tasks := tasks2, cs_runs := cs_runs s, cs_snapshots := snaps, cs_outbox := outbox\<rparr>"
      "persisted = True"
    by (elim exE conjE) (rule that, assumption+)
  from snapshot_created [OF c] outbox_grows [OF e] s' show ?thesis by auto
qed (use assms in \<open>auto simp: persist_pause_snapshot_def\<close>)

definition nested_ok :: "control_store \<Rightarrow> control_store \<Rightarrow> bool" where
  "nested_ok s s' \<longleftrightarrow> (control_ok s \<longrightarrow> control_ok s') \<and> statuses (cs_tasks s') = statuses (cs_tasks s)
     \<and> cs_items s' = cs_items s \<and> cs_attempts s' = cs_attempts s"

lemma nested_ok_refl [simp]: "nested_ok s s"
  by (simp add: nested_ok_def)

lemma nested_lawful: "nested_ok s s' \<Longrightarrow> lawful s s'"
  by (simp add: nested_ok_def lawful_def)

lemma persist_nested:
  assumes "persist_pause_snapshot sha now ids p q s = Inr (s', persisted)" "sn_agent_run_id p = None"
  shows "nested_ok s s'"
  using persist_Inr [OF assms]
  by (auto simp: nested_ok_def control_ok_def table_simps statuses_same)

lemma build_simps [simp]:
  "sn_agent_run_id (build_pause_snapshot sha now ids i t q hooks) = psr_agent_run_id q"
  "sn_task_id (build_pause_snapshot sha now ids i t q hooks) = i"
  "sn_retention_class (build_pause_snapshot sha now ids i t q hooks) = value_or (psr_retention_class q) ActivePaused"
  "sn_status (build_pause_snapshot sha now ids i t q hooks) = (if pause_blockers q hooks = [] then SRestorable else SCreated)"
  "sn_id (build_pause_snapshot sha now ids i t q hooks) = text_or (psr_snapshot_id q) (ci_snapshot ids)"
  by (simp_all add: build_pause_snapshot_def Let_def)

lemma prepare_nested:
  assumes "prepare_pause_snapshot sha now ids locked i q hooks s = (s', p, persisted)" "psr_agent_run_id q = None"
  shows "nested_ok s s' \<and> p = build_pause_snapshot sha now ids i (get_task i (cs_tasks s)) q hooks"
  using assms persist_nested [where p = "build_pause_snapshot sha now ids i (get_task i (cs_tasks s)) q hooks"
      and q = q and s = s and sha = sha and now = now and ids = ids]
  by (auto simp: prepare_pause_snapshot_def Let_def split: if_splits sum.splits)

lemma lawful_items:
  "lawful (s\<lparr>cs_items := fst (cancel_queued_work_items now i intent reason (cs_items s))\<rparr>) s' \<Longrightarrow> lawful s s'"
  by (auto simp: lawful_def control_ok_def)

lemma finish_pause_Inr:
  assumes "finish_queued_pause now ids i message focus n p s = Inr (s', r)"
  obtains t outbox where "find_row tk_id (cs_tasks s) i = Some t"
    "s' = s\<lparr>cs_tasks := edit_row tk_id i (apply_task_update now
       (no_update\<lparr>tu_status := Some TkPaused, tu_pause_requested := Some False,
          tu_pending_control_intent := Some None, tu_resume_message := Some message,
          tu_current_focus := Some focus, tu_active_snapshot_id := Some (Some (sn_id p)),
          tu_last_safe_stop_at := Some (Some now)\<rparr>)) (cs_tasks s), cs_outbox := outbox\<rparr>"
    "table_ok ob_id (cs_outbox s) \<Longrightarrow> table_ok ob_id outbox"
  using assms outbox_grows unfolding finish_queued_pause_def
  by (fastforce simp: update_task_Inr session_simps)

lemma finish_pause_lawful:
  assumes "finish_queued_pause now ids i message focus n p s = Inr (s', r)"
    "statuses (cs_tasks s) i \<in> {Some TkQueued, Some TkPaused, Some TkResumeBlocked}"
  shows "lawful s s'"
  using assms(1)
proof (rule finish_pause_Inr)
  fix t outbox
  let ?u = "no_update\<lparr>tu_status := Some TkPaused, tu_pause_requested := Some False,
          tu_pending_control_intent := Some None, tu_resume_message := Some message,
          tu_current_focus := Some focus, tu_active_snapshot_id := Some (Some (sn_id p)),
          tu_last_safe_stop_at := Some (Some now)\<rparr>"
  assume r: "find_row tk_id (cs_tasks s) i = Some t"
    "s' = s\<lparr>cs_tasks := edit_row tk_id i (apply_task_update now ?u) (cs_tasks s), cs_outbox := outbox\<rparr>"
    "table_ok ob_id (cs_outbox s) \<Longrightarrow> table_ok ob_id outbox"
  show "lawful s s'"
  proof (rule lawful_move [where i = i and b = TkPaused])
    assume "control_ok s"
    then show "control_ok s'" using r by (auto simp: control_ok_def table_simps)
  next
    show "control_move (statuses (cs_tasks s) i) TkPaused"
      using assms(2) by (auto simp: control_move_def)
    show "statuses (cs_tasks s') = (statuses (cs_tasks s))(i \<mapsto> TkPaused)"
      using r by (simp add: statuses_edit value_or_def)
  qed
qed

lemma running_pause_lawful:
  assumes "request_running_pause now ids i message focus t s = Inr (s', r)"
    "find_row tk_id (cs_tasks s) i = Some t"
  shows "lawful s s'"
proof -
  let ?u = "no_update\<lparr>tu_status := Some (tk_status t), tu_pause_requested := Some True,
                tu_pending_control_intent := Some (Some (lit ''pause'')),
                tu_resume_message := Some message, tu_current_focus := Some focus\<rparr>"
  obtain outbox where r: "s' = s\<lparr>cs_tasks := edit_row tk_id i (apply_task_update now ?u) (cs_tasks s), cs_outbox := outbox\<rparr>"
    "table_ok ob_id (cs_outbox s) \<Longrightarrow> table_ok ob_id outbox"
    using assms outbox_grows unfolding request_running_pause_def
    by (fastforce simp: update_task_Inr session_simps)
  have "(statuses (cs_tasks s))(i \<mapsto> tk_status t) = statuses (cs_tasks s)"
    using assms(2) by (auto simp: statuses_def)
  then have "statuses (cs_tasks s') = statuses (cs_tasks s)"
    using r assms(2) by (simp add: statuses_edit value_or_def)
  moreover have "control_ok s \<Longrightarrow> control_ok s'" using r by (auto simp: control_ok_def table_simps)
  ultimately show ?thesis by (rule lawful_still [rotated])
qed

lemma queued_pause_run [simp]: "psr_agent_run_id (queued_pause_request base m) = None"
  by (simp add: queued_pause_request_def)

lemma lawful_trans_still:
  "lawful s s1 \<Longrightarrow> statuses (cs_tasks s1) = statuses (cs_tasks s) \<Longrightarrow> lawful s1 s2 \<Longrightarrow> lawful s s2"
  by (auto simp: lawful_def)

lemma pause_lawful:
  assumes "pause_task_execution sha now ids locked i q base hooks s = (s', r)"
  shows "lawful s s'"
proof (cases "get_task i (cs_tasks s)")
  case (Some t)
  then have f: "find_row tk_id (cs_tasks s) i = Some t" by (simp add: get_task_def)
  let ?m = "or_text (value_or (cq_resume_message q) None) (tk_resume_message t)"
  let ?f = "or_text (value_or (cq_current_focus q) None) (tk_current_focus t)"
  consider "tk_status t \<in> {TkCompleted, TkFailed, TkCancelled}" | (queued) "tk_status t = TkQueued"
    | (other) "tk_status t \<notin> {TkCompleted, TkFailed, TkCancelled, TkQueued}" by blast
  then show ?thesis
  proof cases
    case queued
    obtain items n where c: "cancel_queued_work_items now i None
        (Some (text_or (cq_reason q) (lit ''pause-before-worker-claim''))) (cs_items s) = (items, n)" by fastforce
    define s1 where "s1 = s\<lparr>cs_items := items\<rparr>"
    obtain s2 p persisted where pr: "prepare_pause_snapshot sha now ids locked i
        (queued_pause_request base ?m) hooks s1 = (s2, p, persisted)" by (metis prod_cases3)
    have n: "nested_ok s1 s2" using prepare_nested [OF pr] by simp
    have s1: "s1 = s\<lparr>cs_items := fst (cancel_queued_work_items now i None
        (Some (text_or (cq_reason q) (lit ''pause-before-worker-claim''))) (cs_items s))\<rparr>"
      using c by (simp add: s1_def)
    have st: "statuses (cs_tasks s2) i = Some TkQueued"
      using n f queued unfolding nested_ok_def by (simp add: statuses_def s1)
    have "s' = s2 \<or> (\<exists>r. finish_queued_pause now ids i ?m ?f n p s2 = Inr (s', r))"
      using assms Some queued c pr
      by (auto simp: pause_task_execution_def Let_def s1_def [symmetric] split: sum.splits)
    then have "lawful s2 s'" using finish_pause_lawful st by fastforce
    then have "lawful s1 s'" using lawful_trans_still [OF nested_lawful [OF n]] n
      by (simp add: nested_ok_def)
    then show ?thesis unfolding s1 by (rule lawful_items)
  next
    case other
    have "s' = s \<or> (\<exists>r. request_running_pause now ids i ?m ?f t s = Inr (s', r))"
      using assms Some other by (auto simp: pause_task_execution_def Let_def split: sum.splits)
    then show ?thesis using running_pause_lawful f by fastforce
  qed (use assms Some in \<open>auto simp: pause_task_execution_def\<close>)
qed (use assms in \<open>simp add: pause_task_execution_def\<close>)


lemma update_attempt_Inr:
  "update_resume_attempt now i u attempts = Inr (attempts', a) \<Longrightarrow>
     attempts' = edit_row ra_id i (apply_attempt_update now u) attempts"
  by (auto simp: update_resume_attempt_def split: option.splits)

lemma cancel_work_Inr:
  assumes "cancel_work now i q s = Inr s'"
  obtains attempts where "s' = s\<lparr>cs_items := fst (cancel_queued_work_items now i None
       (Some (text_or (cq_reason q) (lit ''manual-cancel''))) (cs_items s)), cs_attempts := attempts\<rparr>"
    "(get_active_resume_attempt i (cs_attempts s) = None \<and> attempts = cs_attempts s)
     \<or> (\<exists>a. get_active_resume_attempt i (cs_attempts s) = Some a
          \<and> attempts = edit_row ra_id (ra_id a) (apply_attempt_update now
              (no_attempt_update\<lparr>au_status := Some RaCancelled\<rparr>)) (cs_attempts s))"
proof (cases "get_active_resume_attempt i (cs_attempts s)")
  case None
  then show ?thesis using assms that [of "cs_attempts s"] by (auto simp: cancel_work_def Let_def)
next
  case (Some a)
  then show ?thesis using assms that
    by (auto simp: cancel_work_def Let_def map_sum_Inr dest!: update_attempt_Inr)
qed

lemma cancel_work_ok:
  assumes "cancel_work now i q s = Inr s'" "control_ok s" shows "control_ok s'"
  using assms(1)
  by (rule cancel_work_Inr) (use assms(2) in \<open>auto simp: control_ok_def table_simps one_active_cancel\<close>)

lemma cancel_work_tables:
  assumes "cancel_work now i q s = Inr s'"
  shows "cs_tasks s' = cs_tasks s \<and> cs_snapshots s' = cs_snapshots s \<and> cs_runs s' = cs_runs s
    \<and> cs_outbox s' = cs_outbox s \<and> cs_branches s' = cs_branches s"
  using assms by (rule cancel_work_Inr) simp

lemma clone_Inr:
  assumes "clone_snapshot_for_task sha now ids copied p t c s = Inr (s', row)"
  obtains files where "copied = Inr files"
    "row = stored_snapshot sha (cloned_snapshot sha now ids p t c files)"
    "s' = s\<lparr>cs_tasks := edit_row tk_id (tk_id t) (point_to_snapshot (cloned_snapshot sha now ids p t c files)) (cs_tasks s),
            cs_snapshots := cs_snapshots s @ [row]\<rparr>"
    "ci_snapshot ids \<notin> row_keys sn_id (cs_snapshots s)"
proof (cases copied)
  case (Inr files)
  then show ?thesis using assms that
    by (auto simp: clone_snapshot_for_task_def session_simps cloned_snapshot_def dest!: snapshot_created)
qed (use assms in \<open>simp add: clone_snapshot_for_task_def\<close>)

lemma cloned_simps [simp]:
  "sn_id (cloned_snapshot sha now ids p t c files) = ci_snapshot ids"
  "sn_task_id (cloned_snapshot sha now ids p t c files) = tk_id t"
  "sn_status (cloned_snapshot sha now ids p t c files) = cp_status c"
  "sn_retention_class (cloned_snapshot sha now ids p t c files) = cp_retention_class c"
  "sn_created_at (cloned_snapshot sha now ids p t c files) = now"
  "sn_resume_message (cloned_snapshot sha now ids p t c files) = sn_resume_message p"
  by (simp_all add: cloned_snapshot_def)

lemma clone_nested:
  assumes "clone_snapshot_for_task sha now ids copied p t c s = Inr (s', row)"
  shows "nested_ok s s'"
  using assms
  by (rule clone_Inr) (auto simp: nested_ok_def control_ok_def table_simps statuses_same)

lemma cancel_audit_ok:
  assumes "cancel_audit_snapshot sha now ids locked copied expires i q base hooks t s0 s1 = (left, r)"
    and "control_ok s0" "control_ok s1" "cs_tasks s1 = cs_tasks s0" "cs_runs s1 = cs_runs s0"
      "cs_snapshots s1 = cs_snapshots s0" "cs_outbox s1 = cs_outbox s0" "cs_branches s1 = cs_branches s0"
  shows "nested_ok s0 left \<and> (\<forall>s2 a. r = Inr (s2, a) \<longrightarrow> nested_ok s1 s2)"
proof (cases "active_snapshot s1 t")
  case None
  obtain nested p persisted where pr: "prepare_pause_snapshot sha now ids locked i
      (cancel_pause_request base q) hooks s0 = (nested, p, persisted)" by (metis prod_cases3)
  have n: "nested_ok s0 nested" using prepare_nested [OF pr] by (simp add: cancel_pause_request_def)
  have l: "left = nested" "r = (if sn_id p = [] then Inr (over_store s1 nested, None)
      else map_sum id (\<lambda>(snaps, row). ((over_store s1 nested)\<lparr>cs_snapshots := snaps\<rparr>, Some row))
             (update_snapshot (sn_id p) (audit_update q expires) (cs_snapshots nested)))"
    using assms(1) None pr by (simp_all add: cancel_audit_snapshot_def)
  have "nested_ok s1 s2" if "r = Inr (s2, a)" for s2 a
    using that n assms(2-4) unfolding l(2)
    by (auto simp: nested_ok_def control_ok_def over_store_def update_snapshot_def map_sum_Inr table_simps
        split: if_splits option.splits)
  with n l(1) show ?thesis by blast
next
  case (Some p)
  then show ?thesis using assms(1) clone_nested
    by (fastforce simp: cancel_audit_snapshot_def map_sum_Inr)
qed

section \<open>Completed cancellations, copies and branches\<close>

lemma finish_cancel_Inr:
  assumes "finish_cancel now ids i q audit s = Inr (s', t', a)"
  obtains t outbox where "find_row tk_id (cs_tasks s) i = Some t"
    "s' = s\<lparr>cs_tasks := edit_row tk_id i (apply_task_update now (cancel_update q)) (cs_tasks s), cs_outbox := outbox\<rparr>"
    "t' = apply_task_update now (cancel_update q) t" "a = audit"
    "table_ok ob_id (cs_outbox s) \<Longrightarrow> table_ok ob_id outbox"
  using assms outbox_grows unfolding finish_cancel_def
  by (fastforce simp: update_task_Inr session_simps)

lemma cancel_update_status [simp]: "tu_status (cancel_update q) = Some TkCancelled"
  by (simp add: cancel_update_def)

lemma cancel_cases:
  assumes "cancel_task_execution sha now ids locked copied expires i q base hooks s = (s', r)"
  obtains (refused) err where "s' = s" "r = Inl err"
  | (failed) t s1 err where "get_task i (cs_tasks s) = Some t" "cancel_work now i q s = Inr s1" "r = Inl err"
      "\<exists>x. cancel_audit_snapshot sha now ids locked copied expires i q base hooks t s s1 = (s', x)"
  | (cancelled) t s1 left s2 audit t' a where "get_task i (cs_tasks s) = Some t"
      "tk_status t \<notin> {TkCompleted, TkCancelled}" "cancel_work now i q s = Inr s1"
      "cancel_audit_snapshot sha now ids locked copied expires i q base hooks t s s1 = (left, Inr (s2, audit))"
      "finish_cancel now ids i q audit s2 = Inr (s', t', a)" "r = Inr (t', a)"
proof (cases "get_task i (cs_tasks s)")
  case (Some t)
  show ?thesis
  proof (cases "tk_status t \<in> {TkCompleted, TkCancelled} \<or> (\<exists>err. cancel_work now i q s = Inl err)")
    case True
    then show ?thesis using assms Some refused by (auto simp: cancel_task_execution_def split: if_splits)
  next
    case False
    then obtain s1 where w: "cancel_work now i q s = Inr s1" by (cases "cancel_work now i q s") auto
    obtain left x where a: "cancel_audit_snapshot sha now ids locked copied expires i q base hooks t s s1 = (left, x)"
      by fastforce
    show ?thesis
    proof (cases x)
      case (Inl err)
      then show ?thesis using assms Some False w a failed by (auto simp: cancel_task_execution_def)
    next
      case (Inr y)
      obtain s2 audit where y: "y = (s2, audit)" by fastforce
      show ?thesis
      proof (cases "finish_cancel now ids i q audit s2")
        case (Inl err)
        then show ?thesis using assms Some False w a Inr y failed by (auto simp: cancel_task_execution_def)
      next
        case f: (Inr z)
        obtain s3 t' a' where "z = (s3, t', a')" by (metis prod_cases3)
        then show ?thesis using assms Some False w a Inr y f cancelled by (auto simp: cancel_task_execution_def)
      qed
    qed
  qed
qed (use assms refused in \<open>auto simp: cancel_task_execution_def\<close>)

lemma cancel_lawful:
  assumes "cancel_task_execution sha now ids locked copied expires i q base hooks s = (s', r)" "control_ok s"
  shows "lawful s s'"
  using assms(1)
proof (cases rule: cancel_cases)
  case (failed t s1 err)
  then show ?thesis
    using cancel_audit_ok [of sha now ids locked copied expires i q base hooks t s s1] assms(2)
      cancel_work_ok cancel_work_tables nested_lawful by fastforce
next
  case (cancelled t s1 left s2 audit t' a)
  have s1: "control_ok s1" using cancel_work_ok [OF cancelled(3) assms(2)] .
  have n: "nested_ok s1 s2"
    using cancel_audit_ok [OF cancelled(4) assms(2) s1] cancel_work_tables [OF cancelled(3)] by simp
  have st: "statuses (cs_tasks s2) = statuses (cs_tasks s)"
    using n cancel_work_tables [OF cancelled(3)] by (simp add: nested_ok_def)
  show ?thesis using cancelled(5)
  proof (rule finish_cancel_Inr)
    fix t0 outbox
    assume f: "find_row tk_id (cs_tasks s2) i = Some t0"
      "s' = s2\<lparr>cs_tasks := edit_row tk_id i (apply_task_update now (cancel_update q)) (cs_tasks s2), cs_outbox := outbox\<rparr>"
      "table_ok ob_id (cs_outbox s2) \<Longrightarrow> table_ok ob_id outbox"
    show "lawful s s'"
    proof (rule lawful_move [where i = i and b = TkCancelled])
      show "control_ok s'" using f n s1 by (auto simp: control_ok_def nested_ok_def table_simps)
      show "control_move (statuses (cs_tasks s) i) TkCancelled"
        using cancelled(1,2) by (auto simp: control_move_def statuses_def get_task_def)
      show "statuses (cs_tasks s') = (statuses (cs_tasks s))(i \<mapsto> TkCancelled)"
        using f by (simp add: statuses_edit value_or_def flip: st)
    qed
  qed
qed simp

lemma save_Inr:
  assumes "save_current_task_snapshot sha now ids copied i q s = Inr (s', row)"
  obtains t p s1 outbox where "get_task i (cs_tasks s) = Some t" "active_snapshot s t = Some p"
    "clone_snapshot_for_task sha now ids copied p t (save_copy q p) s = Inr (s1, row)"
    "s' = s1\<lparr>cs_outbox := outbox\<rparr>" "table_ok ob_id (cs_outbox s1) \<Longrightarrow> table_ok ob_id outbox"
proof -
  from assms obtain t p where tp: "get_task i (cs_tasks s) = Some t" "active_snapshot s t = Some p"
    by (auto simp: save_current_task_snapshot_def split: option.splits)
  from assms [unfolded save_current_task_snapshot_def, simplified tp option.case session_simps]
  obtain s1 row' outbox ev where c: "clone_snapshot_for_task sha now ids copied p t (save_copy q p) s = Inr (s1, row')"
    and e: "persist_runtime_event now (ci_event ids) (tk_project_id t) ''task-snapshot'' (sn_id row')
        ''task.snapshot.user_saved'' (lit ''agent-runtime/tasks/'' @ tk_id t @ lit ''/snapshots/'' @ sn_id row')
        (cs_outbox s1) = Inr (outbox, ev)"
    and s': "s' = s1\<lparr>cs_outbox := outbox\<rparr>" "row = row'"
    by (elim exE conjE) (rule that, assumption+)
  from that [OF tp c [folded s'(2)] s'(1) outbox_grows [OF e]] show ?thesis .
qed

lemma save_lawful:
  assumes "save_current_task_snapshot sha now ids copied i q s = Inr (s', row)"
  shows "lawful s s'"
  using assms
proof (rule save_Inr)
  fix t p s1 outbox
  assume c: "clone_snapshot_for_task sha now ids copied p t (save_copy q p) s = Inr (s1, row)"
    "s' = s1\<lparr>cs_outbox := outbox\<rparr>" "table_ok ob_id (cs_outbox s1) \<Longrightarrow> table_ok ob_id outbox"
  from clone_nested [OF c(1)] c(2,3) show "lawful s s'"
    by (auto simp: lawful_def nested_ok_def control_ok_def)
qed


lemma branch_source_Inr:
  "branch_source i q s = Inr p \<longleftrightarrow>
     cq_snapshot_id q \<noteq> None \<and> cq_snapshot_id q \<noteq> Some []
     \<and> find_row sn_id (cs_snapshots s) (value_or (cq_snapshot_id q) []) = Some p
     \<and> sn_task_id p = i \<and> sn_retention_class p = UserSaved"
  by (cases "cq_snapshot_id q") (auto simp: branch_source_def value_or_def get_snapshot_def split: option.splits)

lemma created_task:
  assumes "create_task now fresh fresh_root workspace p tasks = Inr (tasks', t)"
  shows "tasks' = tasks @ [t] \<and> tk_id t \<notin> row_keys tk_id tasks \<and> tk_status t = value_or (tp_status p) TkDraft
    \<and> tk_app_id t = text_or (tp_app_id p) default_app_id \<and> tk_resume_message t = tp_resume_message p
    \<and> tk_id t = text_or (tp_id p) fresh"
  using assms by (auto simp: create_task_def Let_def map_sum_Inr add_row_Inr split: sum.splits)

lemma branch_Inr:
  assumes "create_task_branch_from_snapshot sha now ids workspace copied i q s = Inr (s', b, child, row)"
  obtains parent p tasks child0 s1 tasks2 s2 where "get_task i (cs_tasks s) = Some parent"
    "branch_source i q s = Inr p"
    "create_task now (ci_task ids) (ci_root ids) workspace (branch_task q parent p) (cs_tasks s) = Inr (tasks, child0)"
    "clone_snapshot_for_task sha now ids copied p child0 (branch_copy q p) (s\<lparr>cs_tasks := tasks\<rparr>) = Inr (s1, row)"
    "update_task now (tk_id child0) (branch_update row) (cs_tasks s1) = Inr (tasks2, child)"
    "record_branch now ids q parent child p (s1\<lparr>cs_tasks := tasks2\<rparr>) = Inr (s', b)"
proof -
  from assms obtain parent where t: "get_task i (cs_tasks s) = Some parent"
    by (auto simp: create_task_branch_from_snapshot_def split: option.splits)
  from assms [unfolded create_task_branch_from_snapshot_def, simplified t option.case session_simps]
  show ?thesis by (elim exE conjE) (hypsubst, rule that [OF t], assumption+)
qed

lemma record_branch_Inr:
  assumes "record_branch now ids q parent child p s = Inr (s', b)"
  obtains branches outbox where "s' = s\<lparr>cs_branches := branches, cs_outbox := outbox\<rparr>"
    "branches = cs_branches s @ [b]" "tb_id b \<notin> row_keys tb_id (cs_branches s)"
    "tb_parent_task_id b = tk_id parent" "tb_child_task_id b = tk_id child" "tb_source_snapshot_id b = sn_id p"
    "table_ok ob_id (cs_outbox s) \<Longrightarrow> table_ok ob_id outbox"
proof -
  from assms [unfolded record_branch_def, simplified session_simps]
  obtain branches b' outbox ev where c: "create_task_branch now (ci_branch ids)
             \<lparr>br_id = None, br_parent_task_id = tk_id parent, br_child_task_id = tk_id child,
              br_source_snapshot_id = sn_id p,
              br_source_snapshot_checksum = text_or (sn_manifest_checksum p) [],
              br_label = Some (branch_label q p), br_created_by_user_id = Some (saved_by q)\<rparr>
             (cs_branches s) = Inr (branches, b')"
    and e: "persist_runtime_event now (ci_event ids) (tk_project_id parent) ''task-branch'' (tb_id b')
               ''task.branch.created''
               (lit ''agent-runtime/tasks/'' @ tk_id parent @ lit ''/branches/'' @ tb_id b')
               (cs_outbox s) = Inr (outbox, ev)"
    and s': "s' = s\<lparr>cs_branches := branches, cs_outbox := outbox\<rparr>" "b = b'"
    by (elim exE conjE) (rule that, assumption+)
  have "branches = cs_branches s @ [b']" "tb_id b' \<notin> row_keys tb_id (cs_branches s)"
    "tb_parent_task_id b' = tk_id parent" "tb_child_task_id b' = tk_id child" "tb_source_snapshot_id b' = sn_id p"
    using c by (auto simp: create_task_branch_def Let_def map_sum_Inr table_simps)
  from that [OF s'(1) this [folded s'(2)] outbox_grows [OF e]] show ?thesis .
qed

lemma branch_update_status [simp]: "tu_status (branch_update row) = Some TkPaused"
  by (simp add: branch_update_def)

lemma branch_lawful:
  assumes "create_task_branch_from_snapshot sha now ids workspace copied i q s = Inr (s', b, child, row)"
  shows "lawful s s'"
  using assms
proof (rule branch_Inr)
  fix parent p tasks child0 s1 tasks2
  assume t: "create_task now (ci_task ids) (ci_root ids) workspace (branch_task q parent p) (cs_tasks s) = Inr (tasks, child0)"
    and c: "clone_snapshot_for_task sha now ids copied p child0 (branch_copy q p) (s\<lparr>cs_tasks := tasks\<rparr>) = Inr (s1, row)"
    and u: "update_task now (tk_id child0) (branch_update row) (cs_tasks s1) = Inr (tasks2, child)"
    and b: "record_branch now ids q parent child p (s1\<lparr>cs_tasks := tasks2\<rparr>) = Inr (s', b)"
  note new = created_task [OF t]
  have st: "statuses (cs_tasks s1) = (statuses (cs_tasks s))(tk_id child0 \<mapsto> tk_status child0)"
  proof -
    have "statuses (cs_tasks s1) = statuses tasks" using clone_nested [OF c] by (simp add: nested_ok_def)
    with new show ?thesis using statuses_append [of child0 "cs_tasks s"] by metis
  qed
  have none: "statuses (cs_tasks s) (tk_id child0) = None"
  proof -
    have "tk_id child0 \<notin> row_keys tk_id (cs_tasks s)" using new by blast
    then show ?thesis by (simp add: statuses_def find_row_None)
  qed
  obtain branches outbox where r: "s' = s1\<lparr>cs_tasks := tasks2, cs_branches := branches, cs_outbox := outbox\<rparr>"
    "branches = cs_branches s1 @ [b]" "tb_id b \<notin> row_keys tb_id (cs_branches s1)"
    "table_ok ob_id (cs_outbox s1) \<Longrightarrow> table_ok ob_id outbox"
    using b by (rule record_branch_Inr) simp
  show "lawful s s'"
  proof (rule lawful_move [where i = "tk_id child0" and b = TkPaused])
    assume "control_ok s"
    then have "control_ok (s\<lparr>cs_tasks := tasks\<rparr>)" using new by (auto simp: control_ok_def table_simps)
    then have "control_ok s1" using clone_nested [OF c] by (simp add: nested_ok_def)
    then show "control_ok s'" using r u by (auto simp: control_ok_def update_task_Inr table_simps)
  next
    show "control_move (statuses (cs_tasks s) (tk_id child0)) TkPaused"
      using none by (simp add: control_move_def)
    show "statuses (cs_tasks s') = (statuses (cs_tasks s))(tk_id child0 \<mapsto> TkPaused)"
      using statuses_updated [OF u] st r by (auto simp: value_or_def)
  qed
qed

lemma approve_Inr:
  assumes "approve_task_completion e now ids protocol i q s = Inr (s', t', p')"
  obtains t u outbox where "get_task i (cs_tasks s) = Some t" "tk_status t = TkAwaitingApproval"
    "tu_status u = Some TkCompleted" "s' = s\<lparr>cs_tasks := edit_row tk_id i (apply_task_update now u) (cs_tasks s), cs_outbox := outbox\<rparr>"
    "t' = apply_task_update now u t" "p' = approve_takeover_completion e protocol"
    "table_ok ob_id (cs_outbox s) \<Longrightarrow> table_ok ob_id outbox"
proof -
  from assms obtain t where t: "get_task i (cs_tasks s) = Some t" "tk_status t = TkAwaitingApproval"
    by (auto simp: approve_task_completion_def split: option.splits if_splits)
  let ?u = "no_update\<lparr>tu_status := Some TkCompleted, tu_pause_requested := Some False,
     tu_active_snapshot_id := Some None, tu_current_focus :=
       Some (or_text (value_or (cq_current_focus q) None) (Some (lit ''completed'')))\<rparr>"
  from assms t outbox_grows that [OF t, of ?u] show ?thesis
    by (fastforce simp: approve_task_completion_def update_task_Inr session_simps get_task_def)
qed

lemma approve_lawful:
  assumes "approve_task_completion e now ids protocol i q s = Inr (s', t', p')"
  shows "lawful s s'"
  using assms
proof (rule approve_Inr)
  fix t u outbox
  assume r: "get_task i (cs_tasks s) = Some t" "tk_status t = TkAwaitingApproval" "tu_status u = Some TkCompleted"
    "s' = s\<lparr>cs_tasks := edit_row tk_id i (apply_task_update now u) (cs_tasks s), cs_outbox := outbox\<rparr>"
    "table_ok ob_id (cs_outbox s) \<Longrightarrow> table_ok ob_id outbox"
  show "lawful s s'"
  proof (rule lawful_move [where i = i and b = TkCompleted])
    assume "control_ok s"
    then show "control_ok s'" using r by (auto simp: control_ok_def table_simps)
  next
    show "control_move (statuses (cs_tasks s) i) TkCompleted"
      using r(1,2) by (simp add: control_move_def statuses_def get_task_def)
    show "statuses (cs_tasks s') = (statuses (cs_tasks s))(i \<mapsto> TkCompleted)"
      using r by (simp add: statuses_edit value_or_def get_task_def)
  qed
qed

end
