(* ===== verification/TaskControlProps.thy ===== *)
theory TaskControlProps
  imports TaskControlFacts
begin

text \<open>
  What task control promises: a consistent store with at most one active resume attempt for a task, status
  changes that follow the lifecycle, commands that fail exactly when they do not fit the state, pauses that
  can be resumed (and those that cannot), final cancellations and independent branches.
\<close>

section \<open>The machine of task control\<close>

text \<open>Every control operation on every task, in any order, with any outcome of its parameters.\<close>

inductive control_step :: "control_store \<Rightarrow> control_store \<Rightarrow> bool" where
  queue: "queue_main_agent_execution now ids i q s = Inr (s', r1) \<Longrightarrow> control_step s s'"
| retry: "retry_task_execution now ids i q s = Inr (s', r1) \<Longrightarrow> control_step s s'"
| pause: "pause_task_execution sha now ids locked i q base hooks s = (s', r2) \<Longrightarrow> control_step s s'"
| cancel: "cancel_task_execution sha now ids locked copied expires i q base hooks s = (s', r3) \<Longrightarrow> control_step s s'"
| save: "save_current_task_snapshot sha now ids copied i q s = Inr (s', row) \<Longrightarrow> control_step s s'"
| branch: "create_task_branch_from_snapshot sha now ids workspace copied i q s = Inr (s', r4) \<Longrightarrow> control_step s s'"
| approve: "approve_task_completion e now ids protocol i q s = Inr (s', r5) \<Longrightarrow> control_step s s'"

lemma control_step_lawful: "control_step s s' \<Longrightarrow> control_ok s \<Longrightarrow> lawful s s'"
proof (induction rule: control_step.induct)
  case (branch sha now ids workspace copied i q s s' r4)
  then show ?case by (cases r4) (auto intro: branch_lawful)
next
  case (cancel sha now ids locked copied expires i q base hooks s s' r3)
  then show ?case by (rule cancel_lawful)
next
  case (approve e now ids protocol i q s s' r5)
  then show ?case by (cases r5) (auto intro: approve_lawful)
qed (auto intro: queue_lawful retry_lawful pause_lawful save_lawful)

interpretation control: simulation control_step control_ok "\<lambda>s. statuses (cs_tasks s)" lifecycle_step
  by unfold_locales (auto dest: control_step_lawful simp: lawful_def)

definition empty_control :: control_store where
  "empty_control = \<lparr>cs_tasks = [], cs_runs = [], cs_snapshots = [], cs_attempts = [], cs_items = [],
     cs_branches = [], cs_outbox = []\<rparr>"

text \<open>C23: however pauses, resumes, retries, cancellations, copies, branches and approvals interleave, the
  store stays consistent: no two rows of a table share an id, and a task never has two active resume
  attempts, so that the query for the active one never fails on a second row.\<close>

theorem control_reachable_ok:
  assumes "control_step\<^sup>*\<^sup>* s t" "control_ok s"
  shows "distinct (map tk_id (cs_tasks t)) \<and> distinct (map sn_id (cs_snapshots t))
    \<and> distinct (map ra_id (cs_attempts t)) \<and> distinct (map wi_id (cs_items t))
    \<and> distinct (map tb_id (cs_branches t)) \<and> distinct (map ob_id (cs_outbox t))
    \<and> (\<forall>i. length (active_attempts i (cs_attempts t)) \<le> 1)
    \<and> (\<forall>i. \<exists>a. scalar_one_or_none (active_attempts i (cs_attempts t)) = Inr a)"
  using control.reachable_inv [OF assms] one_active_scalar
  by (auto simp: control_ok_def table_ok_def active_attempts_length one_active_def)


section \<open>Queueing a task\<close>

text \<open>The ids a session draws are new.\<close>

definition fresh_control :: "control_ids \<Rightarrow> control_store \<Rightarrow> bool" where
  "fresh_control ids s \<longleftrightarrow>
     ci_item ids \<notin> row_keys wi_id (cs_items s) \<and> ci_attempt ids \<notin> row_keys ra_id (cs_attempts s)
     \<and> ci_event ids \<notin> row_keys ob_id (cs_outbox s) \<and> ci_snapshot ids \<notin> row_keys sn_id (cs_snapshots s)
     \<and> ci_event2 ids \<notin> insert (ci_event ids) (row_keys ob_id (cs_outbox s)) \<and> ci_snapshot ids \<noteq> []"

lemma event_ok:
  "i \<notin> row_keys ob_id outbox \<Longrightarrow> \<exists>ev. ob_id ev = i \<and>
     persist_runtime_event now i pj kind ai et loc outbox = Inr (outbox @ [ev], ev)"
  by (simp add: persist_runtime_event_def record_event_def Let_def add_row_def nonempty_or_def value_or_def str_or_def)

lemma control_item_ok:
  "i \<notin> row_keys wi_id items \<Longrightarrow> \<exists>w. create_work_item now i queue (control_payload tid c n body) items = Inr (items @ [w], w)"
  by (simp add: create_work_item_def control_payload_def Let_def add_row_def text_or_def)

lemma start_Inr_ok:
  assumes "get_task i (cs_tasks s) = Some t" "fresh_control ids s" "startable (command_of q) (tk_status t)"
  shows "\<exists>s' r. start_task_execution now ids i q t s = Inr (s', r)"
proof -
  obtain ev where ev: "persist_runtime_event now (ci_event ids) (tk_project_id t) ''task'' (tk_id t) ''task.retry.requested''
      (lit ''agent-runtime/tasks/'' @ tk_id t @ lit ''/retry-requests/'' @ ci_locator ids) (cs_outbox s)
      = Inr (cs_outbox s @ [ev], ev)"
    using event_ok assms(2) unfolding fresh_control_def by blast
  have f: "find_row tk_id (cs_tasks s) i = Some t" using assms(1) by (simp add: get_task_def)
  obtain w where "create_work_item now (ci_item ids) (lit ''agent-runtime'')
      (control_payload i (text_or (cq_command q) (lit ''start'')) (text_or (cq_command q) (lit ''start''))
          [(lit ''requestedAt'', JInt (int now)),
           (lit ''payload'', JObj (dict_setdefault (lit ''workTreeDirectiveRequired'') (JBool True) (cq_body q)))])
      (cs_items s) = Inr (cs_items s @ [w], w)"
    using control_item_ok assms(2) unfolding fresh_control_def by blast
  with ev f assms(3) show ?thesis by (auto simp: start_task_execution_def Let_def update_task_def)
qed

lemma resume_Inr_ok:
  assumes "get_task i (cs_tasks s) = Some t" "fresh_control ids s" "control_ok s"
    "resumable_snapshot i q s t = Inr p"
  shows "\<exists>s' r. resume_task_execution now ids i q t s = Inr (s', r)"
proof -
  let ?p = "\<lparr>ap_id = None, ap_requested_by = cq_requested_by q, ap_status = None\<rparr>"
  have f: "find_row tk_id (cs_tasks s) i = Some t" using assms(1) by (simp add: get_task_def)
  have "\<exists>tasks attempts a. create_resume_attempt now (ci_attempt ids) i (sn_id p) ?p (cs_tasks s) (cs_attempts s)
      = Inr (tasks, attempts, a)"
    using one_active_scalar [of "cs_attempts s" i] assms(2,3)
    by (auto simp: create_resume_attempt_def control_ok_def fresh_control_def add_row_def new_attempt_def
        text_or_def Let_def split: option.split)
  then obtain tasks attempts a where c:
    "create_resume_attempt now (ci_attempt ids) i (sn_id p) ?p (cs_tasks s) (cs_attempts s) = Inr (tasks, attempts, a)"
    by blast
  obtain t1 where t1: "find_row tk_id tasks i = Some t1"
    using attempt_created [OF c] f by (auto simp: table_simps)
  let ?u = "resume_update (ra_id a) (or_text (value_or (cq_resume_message q) None)
      (or_text (sn_resume_message p) (tk_resume_message t)))"
  define t2 where "t2 = apply_task_update now ?u t1"
  obtain ev where ev: "persist_runtime_event now (ci_event ids) (tk_project_id t2) ''task-resume-attempt'' (ra_id a)
      ''task.resume.requested'' (lit ''agent-runtime/tasks/'' @ tk_id t2 @ lit ''/resume-attempts/'' @ ra_id a) (cs_outbox s)
      = Inr (cs_outbox s @ [ev], ev)"
    using event_ok assms(2) unfolding fresh_control_def by blast
  obtain w where w: "create_work_item now (ci_item ids) (lit ''agent-runtime'')
      (resume_payload now i q (ra_id a) (sn_id p) (tk_resume_message t2)) (cs_items s) = Inr (cs_items s @ [w], w)"
    using control_item_ok assms(2) unfolding fresh_control_def resume_payload_def by blast
  have u: "update_task now i ?u tasks = Inr (edit_row tk_id i (apply_task_update now ?u) tasks, t2)"
    using t1 by (simp add: update_task_def t2_def)
  show ?thesis
    unfolding resume_task_execution_def assms(4) sum.case c prod.case u w ev
    by (simp split: option.split)
qed

text \<open>C25: a command on a task fails exactly when the task is unknown or the command does not fit its state:
  a resume needs a paused or blocked task, no resume token, and an active snapshot that is restorable or
  leased and is not a cancel audit; a retry needs a failed task; every other command needs a task that is
  neither paused, blocked nor finished.\<close>

theorem queue_errors_exactly:
  assumes "control_ok s" "fresh_control ids s"
  shows "is_ok (queue_main_agent_execution now ids i q s) \<longleftrightarrow>
    (\<exists>t. get_task i (cs_tasks s) = Some t
      \<and> (case command_of q of
           Resume \<Rightarrow> tk_status t \<in> {TkPaused, TkResumeBlocked} \<and> cq_resume_token q = None
             \<and> (\<exists>p. active_snapshot s t = Some p \<and> sn_status p \<in> {SRestorable, SLeased}
                  \<and> sn_retention_class p \<noteq> CancelAudit)
         | Retry \<Rightarrow> tk_status t = TkFailed
         | Start \<Rightarrow> tk_status t \<notin> {TkPaused, TkResumeBlocked, TkCompleted, TkFailed, TkCancelled}))"
proof (cases "get_task i (cs_tasks s)")
  case (Some t)
  have resume: "is_ok (resume_task_execution now ids i q t s) \<longleftrightarrow> is_ok (resumable_snapshot i q s t)"
  proof (cases "resumable_snapshot i q s t")
    case (Inr p)
    from resume_Inr_ok [OF Some assms(2,1) Inr] Inr show ?thesis by (metis is_ok_simps(1))
  qed (simp add: resume_task_execution_def)
  have start: "is_ok (start_task_execution now ids i q t s) \<longleftrightarrow> startable (command_of q) (tk_status t)"
  proof (cases "startable (command_of q) (tk_status t)")
    case True
    from start_Inr_ok [OF Some assms(2) True] True show ?thesis by (metis is_ok_simps(1))
  qed (simp add: start_task_execution_def Let_def)
  have "is_ok (resumable_snapshot i q s t) \<longleftrightarrow> tk_status t \<in> {TkPaused, TkResumeBlocked} \<and> cq_resume_token q = None
      \<and> (\<exists>p. active_snapshot s t = Some p \<and> sn_status p \<in> {SRestorable, SLeased} \<and> sn_retention_class p \<noteq> CancelAudit)"
    by (auto simp: resumable_snapshot_def split: option.splits)
  then show ?thesis
    using Some resume start
    by (cases "command_of q") (simp_all add: queue_main_agent_execution_def startable_def)
qed (simp add: queue_main_agent_execution_def)

section \<open>Pausing a queued task\<close>

definition waiting_items :: "ustr \<Rightarrow> work_item list \<Rightarrow> work_item list" where
  "waiting_items i items = filter (\<lambda>r. wi_task_id r = Some i \<and> wi_status r \<in> {WQueued, WReclaimable}) items"

lemma waiting_cancelled [simp]:
  "waiting_items i (fst (cancel_queued_work_items now i None reason items)) = []"
  by (auto simp: waiting_items_def cancel_queued_work_items_def cancellable_def filter_empty_conv)

lemma edited_task:
  "find_row tk_id tasks i = Some t \<Longrightarrow>
     find_row tk_id (edit_row tk_id i (apply_task_update now u) tasks) i = Some (apply_task_update now u t)"
  by (simp add: table_simps)

lemma apply_task_simps [simp]:
  "tk_active_snapshot_id (apply_task_update now u t) = value_or (tu_active_snapshot_id u) (tk_active_snapshot_id t)"
  "tk_active_resume_attempt_id (apply_task_update now u t)
     = value_or (tu_active_resume_attempt_id u) (tk_active_resume_attempt_id t)"
  by (simp_all add: apply_task_update_def Let_def set_task_status_def value_or_def split: option.split)

text \<open>The store and the result of a pause of a queued task, by what became of the snapshot.\<close>

definition pause_update :: "nat \<Rightarrow> ustr option \<Rightarrow> ustr option \<Rightarrow> ustr \<Rightarrow> task_update" where
  "pause_update now message focus sid =
     no_update\<lparr>tu_status := Some TkPaused, tu_pause_requested := Some False,
       tu_pending_control_intent := Some None, tu_resume_message := Some message,
       tu_current_focus := Some focus, tu_active_snapshot_id := Some (Some sid),
       tu_last_safe_stop_at := Some (Some now)\<rparr>"

lemma pause_update_simps [simp]:
  "tu_status (pause_update now m f sid) = Some TkPaused"
  "tu_active_snapshot_id (pause_update now m f sid) = Some (Some sid)"
  by (simp_all add: pause_update_def)

lemma finish_pause_ok:
  assumes "find_row tk_id (cs_tasks s) i = Some t" "ci_event2 ids \<notin> row_keys ob_id (cs_outbox s)"
  shows "\<exists>ev r. pr_status r = PausedNow \<and> finish_queued_pause now ids i m f n p s =
    Inr (s\<lparr>cs_tasks := edit_row tk_id i (apply_task_update now (pause_update now m f (sn_id p))) (cs_tasks s),
           cs_outbox := cs_outbox s @ [ev]\<rparr>, r)"
proof -
  let ?t = "apply_task_update now (pause_update now m f (sn_id p)) t"
  obtain ev where "persist_runtime_event now (ci_event2 ids) (tk_project_id ?t) ''task'' (tk_id ?t) ''task.paused''
      (lit ''agent-runtime/tasks/'' @ tk_id ?t @ lit ''/pause/'' @ sn_id p) (cs_outbox s) = Inr (cs_outbox s @ [ev], ev)"
    using event_ok [OF assms(2)] by blast
  then show ?thesis
    using assms(1) by (auto simp: finish_queued_pause_def update_task_def pause_update_def)
qed

lemma queued_pause:
  assumes "get_task i (cs_tasks s) = Some t" "tk_status t = TkQueued"
    "prepare_pause_snapshot sha now ids locked i
       (queued_pause_request base (or_text (value_or (cq_resume_message q) None) (tk_resume_message t))) hooks
       (s\<lparr>cs_items := fst (cancel_queued_work_items now i None
           (Some (text_or (cq_reason q) (lit ''pause-before-worker-claim''))) (cs_items s))\<rparr>) = (s2, p, persisted)"
    "ci_event2 ids \<notin> row_keys ob_id (cs_outbox s2)" "find_row tk_id (cs_tasks s2) i = Some t2"
  shows "\<exists>m f ev r. pr_status r = PausedNow \<and> pause_task_execution sha now ids locked i q base hooks s =
    (s2\<lparr>cs_tasks := edit_row tk_id i (apply_task_update now (pause_update now m f (sn_id p))) (cs_tasks s2),
        cs_outbox := cs_outbox s2 @ [ev]\<rparr>, Inr r)"
proof -
  obtain items n where c: "cancel_queued_work_items now i None
      (Some (text_or (cq_reason q) (lit ''pause-before-worker-claim''))) (cs_items s) = (items, n)" by fastforce
  let ?m = "or_text (value_or (cq_resume_message q) None) (tk_resume_message t)"
  let ?f = "or_text (value_or (cq_current_focus q) None) (tk_current_focus t)"
  obtain ev r where "pr_status r = PausedNow" "finish_queued_pause now ids i ?m ?f n p s2 =
    Inr (s2\<lparr>cs_tasks := edit_row tk_id i (apply_task_update now (pause_update now ?m ?f (sn_id p))) (cs_tasks s2),
            cs_outbox := cs_outbox s2 @ [ev]\<rparr>, r)"
    using finish_pause_ok [OF assms(5,4)] by blast
  then show ?thesis
    using assms(1-3) c unfolding pause_task_execution_def by (auto simp: Let_def)
qed

definition pause_is_safe :: "pause_snapshot_request \<Rightarrow> hook_result list \<Rightarrow> bool" where
  "pause_is_safe base hooks \<longleftrightarrow> psr_active_tool_calls base = []
     \<and> list_all (\<lambda>h. hr_error h = None \<and> hr_blockers h = [] \<and> hr_safe_to_pause h \<noteq> Some False) hooks"

lemma queued_blockers:
  "pause_blockers (queued_pause_request base m) hooks = [] \<longleftrightarrow> pause_is_safe base hooks"
  by (induction hooks)
     (auto simp: pause_blockers_def request_blockers_def queued_pause_request_def hook_blockers_def
       pause_is_safe_def value_or_def split: option.splits)

lemma queued_request_simps [simp]:
  "psr_snapshot_id (queued_pause_request base m) = psr_snapshot_id base"
  "psr_retention_class (queued_pause_request base m) = Some ActivePaused"
  by (simp_all add: queued_pause_request_def)

text \<open>Storing the snapshot of a known task without a run.\<close>

lemma persist_ok:
  assumes "find_row tk_id (cs_tasks s) (sn_task_id p) = Some t" "sn_agent_run_id p = None"
    "sn_app_id p = tk_app_id t" "sn_id p \<notin> row_keys sn_id (cs_snapshots s)"
    "ci_event ids \<notin> row_keys ob_id (cs_outbox s)"
  shows "\<exists>ev. ob_id ev = ci_event ids \<and> persist_pause_snapshot sha now ids p q s =
    Inr (s\<lparr>cs_tasks := edit_row tk_id (sn_task_id p) (point_to_snapshot p) (cs_tasks s),
           cs_snapshots := fst (supersede_snapshots (sn_task_id p) None (cs_snapshots s)) @ [stored_snapshot sha p],
           cs_outbox := cs_outbox s @ [ev]\<rparr>, True)"
proof -
  obtain ev where ev: "ob_id ev = ci_event ids"
    "persist_runtime_event now (ci_event ids) (sn_project_id p) ''task-snapshot'' (sn_id p)
      ''task.snapshot.created'' (lit ''agent-runtime/tasks/'' @ sn_task_id p @ lit ''/snapshots/'' @ sn_id p)
      (cs_outbox s) = Inr (cs_outbox s @ [ev], ev)"
    using event_ok [OF assms(5)] by blast
  have "create_snapshot sha p (cs_tasks s) (cs_runs s) (fst (supersede_snapshots (sn_task_id p) None (cs_snapshots s)))
    = Inr (edit_row tk_id (sn_task_id p) (point_to_snapshot p) (cs_tasks s),
           fst (supersede_snapshots (sn_task_id p) None (cs_snapshots s)) @ [stored_snapshot sha p], stored_snapshot sha p)"
    using assms(1-4) by (simp add: create_snapshot_def add_row_def)
  then show ?thesis
    using assms(1,2) ev by (auto simp: persist_pause_snapshot_def get_task_def)
qed

lemma build_app [simp]:
  "sn_app_id (build_pause_snapshot sha now ids i (Some t) q hooks) = tk_app_id t"
  by (simp add: build_pause_snapshot_def Let_def)

text \<open>A pause of a queued task, with and without the task lock.\<close>

lemma queued_pause_outcome:
  assumes "fresh_control ids s" "get_task i (cs_tasks s) = Some t" "tk_status t = TkQueued"
    "psr_snapshot_id base = None"
  shows "\<exists>s' r t'. pause_task_execution sha now ids locked i q base hooks s = (s', Inr r) \<and> pr_status r = PausedNow
    \<and> find_row tk_id (cs_tasks s') i = Some t' \<and> tk_status t' = TkPaused
    \<and> tk_active_snapshot_id t' = Some (ci_snapshot ids)
    \<and> waiting_items i (cs_items s') = [] \<and> cs_attempts s' = cs_attempts s
    \<and> (if locked
       then \<exists>x. find_row sn_id (cs_snapshots s') (ci_snapshot ids) = Some x \<and> sn_task_id x = i \<and> sn_id x = ci_snapshot ids
          \<and> sn_status x = (if pause_is_safe base hooks then SRestorable else SCreated) \<and> sn_retention_class x = ActivePaused
       else find_row sn_id (cs_snapshots s') (ci_snapshot ids) = None)"
proof -
  define s1 where "s1 = s\<lparr>cs_items := fst (cancel_queued_work_items now i None
           (Some (text_or (cq_reason q) (lit ''pause-before-worker-claim''))) (cs_items s))\<rparr>"
  let ?q = "queued_pause_request base (or_text (value_or (cq_resume_message q) None) (tk_resume_message t))"
  define p where "p = build_pause_snapshot sha now ids i (Some t) ?q hooks"
  have f: "find_row tk_id (cs_tasks s1) i = Some t" using assms(2) by (simp add: get_task_def s1_def)
  have id: "sn_id p = ci_snapshot ids" using assms(4) by (simp add: p_def text_or_def)
  have new: "sn_id p \<notin> row_keys sn_id (cs_snapshots s1)" "ci_event ids \<notin> row_keys ob_id (cs_outbox s1)"
    "ci_event2 ids \<noteq> ci_event ids" "ci_event2 ids \<notin> row_keys ob_id (cs_outbox s1)"
    using assms(1) by (simp_all add: fresh_control_def s1_def id)
  have px: "sn_task_id p = i" "sn_agent_run_id p = None" "sn_app_id p = tk_app_id t"
    "sn_retention_class p = ActivePaused"
    "sn_status p = (if pause_is_safe base hooks then SRestorable else SCreated)"
    by (simp_all add: p_def queued_blockers value_or_def)
  have f': "find_row tk_id (cs_tasks s1) (sn_task_id p) = Some t" using f px(1) by simp
  obtain ev0 where ev0: "ob_id ev0 = ci_event ids" "persist_pause_snapshot sha now ids p ?q s1 =
    Inr (s1\<lparr>cs_tasks := edit_row tk_id i (point_to_snapshot p) (cs_tasks s1),
           cs_snapshots := fst (supersede_snapshots i None (cs_snapshots s1)) @ [stored_snapshot sha p],
           cs_outbox := cs_outbox s1 @ [ev0]\<rparr>, True)"
    using persist_ok [OF f' px(2,3) new(1,2), of sha now ?q] unfolding px(1) by blast
  define s2 where "s2 = (if locked then s1\<lparr>cs_tasks := edit_row tk_id i (point_to_snapshot p) (cs_tasks s1),
           cs_snapshots := fst (supersede_snapshots i None (cs_snapshots s1)) @ [stored_snapshot sha p],
           cs_outbox := cs_outbox s1 @ [ev0]\<rparr> else s1)"
  have pr: "prepare_pause_snapshot sha now ids locked i ?q hooks s1 = (s2, p, locked)"
    using f ev0 by (simp add: prepare_pause_snapshot_def Let_def get_task_def p_def s2_def)
  have e2: "ci_event2 ids \<notin> row_keys ob_id (cs_outbox s2)"
    using new ev0 by (simp add: s2_def table_simps)
  define t2 where "t2 = (if locked then point_to_snapshot p t else t)"
  have f2: "find_row tk_id (cs_tasks s2) i = Some t2"
    using f by (simp add: s2_def t2_def table_simps)
  obtain m g ev r where r: "pr_status r = PausedNow" "pause_task_execution sha now ids locked i q base hooks s =
    (s2\<lparr>cs_tasks := edit_row tk_id i (apply_task_update now (pause_update now m g (sn_id p))) (cs_tasks s2),
        cs_outbox := cs_outbox s2 @ [ev]\<rparr>, Inr r)"
    using queued_pause [OF assms(2,3) pr [unfolded s1_def] e2 f2] by blast
  have "waiting_items i (cs_items s2) = []" "cs_attempts s2 = cs_attempts s"
    by (simp_all add: s2_def s1_def)
  moreover have "if locked
       then find_row sn_id (cs_snapshots s2) (ci_snapshot ids) = Some (stored_snapshot sha p)
       else find_row sn_id (cs_snapshots s2) (ci_snapshot ids) = None"
    using new(1) by (simp add: s2_def find_row_append find_row_None id)
  ultimately show ?thesis
    using r f2 px id by (auto simp: edited_task value_or_def)
qed

text \<open>C27: a pause strands its task when the snapshot cannot be stored under the task lock, or is stored
  with blockers: the task is reported as paused, its waiting work items are cancelled, and no command
  (start, retry or resume) is accepted afterwards.\<close>

theorem lost_pause_strands_task:
  assumes "fresh_control ids s" "get_task i (cs_tasks s) = Some t" "tk_status t = TkQueued"
    "psr_snapshot_id base = None" "\<not> locked \<or> \<not> pause_is_safe base hooks"
  shows "\<exists>s' r. pause_task_execution sha now ids locked i q base hooks s = (s', Inr r) \<and> pr_status r = PausedNow
    \<and> (\<exists>t'. get_task i (cs_tasks s') = Some t' \<and> tk_status t' = TkPaused) \<and> waiting_items i (cs_items s') = []
    \<and> (\<forall>now2 ids2 q2. \<not> is_ok (queue_main_agent_execution now2 ids2 i q2 s'))"
proof -
  have stuck: "\<not> is_ok (queue_main_agent_execution now2 ids2 i q2 s')"
    if "find_row tk_id (cs_tasks s') i = Some t'" "tk_status t' = TkPaused"
      "tk_active_snapshot_id t' = Some (ci_snapshot ids)"
      "find_row sn_id (cs_snapshots s') (ci_snapshot ids) = None
       \<or> (\<exists>x. find_row sn_id (cs_snapshots s') (ci_snapshot ids) = Some x \<and> sn_status x = SCreated)"
    for s' t' now2 ids2 q2
    using that assms(1)
    by (auto simp: queue_main_agent_execution_def get_task_def resume_task_execution_def start_task_execution_def
        resumable_snapshot_def active_snapshot_def get_snapshot_def startable_def Let_def fresh_control_def
        split: queue_command.splits)
  obtain s' r t' where o: "pause_task_execution sha now ids locked i q base hooks s = (s', Inr r)" "pr_status r = PausedNow"
    "find_row tk_id (cs_tasks s') i = Some t'" "tk_status t' = TkPaused"
    "tk_active_snapshot_id t' = Some (ci_snapshot ids)" "waiting_items i (cs_items s') = []"
    "if locked
     then \<exists>x. find_row sn_id (cs_snapshots s') (ci_snapshot ids) = Some x \<and> sn_task_id x = i \<and> sn_id x = ci_snapshot ids
        \<and> sn_status x = (if pause_is_safe base hooks then SRestorable else SCreated) \<and> sn_retention_class x = ActivePaused
     else find_row sn_id (cs_snapshots s') (ci_snapshot ids) = None"
    using queued_pause_outcome [OF assms(1-4), of sha now locked q hooks] by blast
  have "find_row sn_id (cs_snapshots s') (ci_snapshot ids) = None
      \<or> (\<exists>x. find_row sn_id (cs_snapshots s') (ci_snapshot ids) = Some x \<and> sn_status x = SCreated)"
    using o(7) assms(5) by (cases locked) auto
  note stuck [OF o(3-5) this]
  with o show ?thesis by (auto simp: get_task_def)
qed

text \<open>C26: pausing and resuming is a round trip: a queued task paused with a safe snapshot has no waiting
  work, points to a restorable snapshot of its own, and a later resume is accepted, opens a resume attempt
  and enqueues one work item for that snapshot, while the task stays paused until the worker takes it.\<close>

theorem paused_task_resumes:
  assumes "control_ok s" "fresh_control ids s" "get_task i (cs_tasks s) = Some t" "tk_status t = TkQueued"
    "psr_snapshot_id base = None" "pause_is_safe base hooks" "get_active_resume_attempt i (cs_attempts s) = None"
    "pause_task_execution sha now ids True i q base hooks s = (s1, res)"
    "fresh_control ids2 s1" "command_of q2 = Resume" "cq_resume_token q2 = None"
  shows "is_ok res \<and> waiting_items i (cs_items s1) = []
    \<and> (\<exists>s2 r2 a w. queue_main_agent_execution now2 ids2 i q2 s1 = Inr (s2, r2) \<and> qr_status r2 = ResumeQueued
        \<and> qr_attempt r2 = Some a \<and> ra_snapshot_id a = ci_snapshot ids \<and> ra_status a = RaQueued
        \<and> cs_attempts s2 = cs_attempts s1 @ [a]
        \<and> qr_item r2 = Some w \<and> cs_items s2 = cs_items s1 @ [w] \<and> wi_status w = WQueued
        \<and> wi_payload w = resume_payload now2 i q2 (ra_id a) (ci_snapshot ids) (tk_resume_message (qr_task r2))
        \<and> get_task i (cs_tasks s2) = Some (qr_task r2) \<and> tk_status (qr_task r2) = TkPaused
        \<and> tk_active_snapshot_id (qr_task r2) = Some (ci_snapshot ids)
        \<and> tk_active_resume_attempt_id (qr_task r2) = Some (ra_id a))"
proof -
  obtain r t' x where o: "res = Inr r" "find_row tk_id (cs_tasks s1) i = Some t'" "tk_status t' = TkPaused"
    "tk_active_snapshot_id t' = Some (ci_snapshot ids)"
    "waiting_items i (cs_items s1) = []" "cs_attempts s1 = cs_attempts s"
    "find_row sn_id (cs_snapshots s1) (ci_snapshot ids) = Some x" "sn_id x = ci_snapshot ids"
    "sn_status x = SRestorable" "sn_retention_class x = ActivePaused"
    using queued_pause_outcome [OF assms(2-5), of sha now True q hooks] assms(6,8) by auto
  have t': "get_task i (cs_tasks s1) = Some t'" using o(2) by (simp add: get_task_def)
  have p: "resumable_snapshot i q2 s1 t' = Inr x"
    using o assms(2,11)
    by (auto simp: resumable_snapshot_def active_snapshot_def get_snapshot_def fresh_control_def)
  have ok: "control_ok s1" using pause_lawful [OF assms(8)] assms(1) by (simp add: lawful_def)
  obtain s2 r2 where q: "resume_task_execution now2 ids2 i q2 t' s1 = Inr (s2, r2)"
    using resume_Inr_ok [OF t' assms(9) ok p] by blast
  have none: "get_active_resume_attempt i (cs_attempts s1) = None" using assms(7) o(6) by simp
  show ?thesis
    using q
  proof (rule resume_Inr)
    fix p' tasks1 attempts a tasks2 t2 items item outbox
    assume h: "resumable_snapshot i q2 s1 t' = Inr p'"
      "create_resume_attempt now2 (ci_attempt ids2) i (sn_id p')
         \<lparr>ap_id = None, ap_requested_by = cq_requested_by q2, ap_status = None\<rparr> (cs_tasks s1) (cs_attempts s1)
         = Inr (tasks1, attempts, a)"
      "update_task now2 i (resume_update (ra_id a) (or_text (value_or (cq_resume_message q2) None)
         (or_text (sn_resume_message p') (tk_resume_message t')))) tasks1 = Inr (tasks2, t2)"
      "(\<exists>b. get_active_resume_attempt i (cs_attempts s1) = Some b \<and> ra_id b = ra_id a \<and> items = cs_items s1 \<and> item = None)
       \<or> (\<exists>w. (\<forall>b. get_active_resume_attempt i (cs_attempts s1) = Some b \<longrightarrow> ra_id b \<noteq> ra_id a)
          \<and> items = cs_items s1 @ [w] \<and> item = Some w \<and> wi_id w \<notin> row_keys wi_id (cs_items s1)
          \<and> wi_status w = WQueued
          \<and> wi_payload w = resume_payload now2 i q2 (ra_id a) (sn_id p') (tk_resume_message t2))"
      "s2 = s1\<lparr>cs_tasks := tasks2, cs_attempts := attempts, cs_items := items, cs_outbox := outbox\<rparr>"
      "r2 = \<lparr>qr_status = (if ra_status a = RaBlocked then ResumeBlocked else ResumeQueued),
          qr_task = t2, qr_attempt = Some a, qr_item = item\<rparr>"
    have x: "p' = x" using h(1) p by simp
    have a: "a = new_attempt now2 (ci_attempt ids2) i (ci_snapshot ids)
        \<lparr>ap_id = None, ap_requested_by = cq_requested_by q2, ap_status = None\<rparr>"
      "tasks1 = edit_row tk_id i (resume_task now2 (ra_id a)) (cs_tasks s1)" "attempts = cs_attempts s1 @ [a]"
      using attempt_created [OF h(2)] none x o(8) by auto
    have a': "ra_status a = RaQueued" "ra_snapshot_id a = ci_snapshot ids" by (simp_all add: a new_attempt_def value_or_def)
    have t1: "find_row tk_id tasks1 i = Some (resume_task now2 (ra_id a) t')"
      using o(2) by (simp add: a(2) table_simps)
    define u where "u = resume_update (ra_id a) (or_text (value_or (cq_resume_message q2) None)
         (or_text (sn_resume_message p') (tk_resume_message t')))"
    have u: "tu_status u = Some TkPaused" "tu_active_snapshot_id u = None"
      "tu_active_resume_attempt_id u = Some (Some (ra_id a))"
      "t2 = apply_task_update now2 u (resume_task now2 (ra_id a) t')" "tasks2 = edit_row tk_id i (apply_task_update now2 u) tasks1"
      using h(3) t1 unfolding update_task_Inr u_def [symmetric]
      by (simp_all add: u_def resume_update_def no_update_def)
    have act: "tk_active_snapshot_id t2 = Some (ci_snapshot ids)"
      using o(4) u by (simp add: value_or_def resume_task_def)
    have t2: "get_task i (cs_tasks s2) = Some t2" using t1 u h(5) by (simp add: get_task_def edited_task)
    have q2: "queue_main_agent_execution now2 ids2 i q2 s1 = Inr (s2, r2)"
      using q t' assms(10) by (simp add: queue_main_agent_execution_def)
    have st: "tk_status t2 = TkPaused" "tk_active_resume_attempt_id t2 = Some (ra_id a)"
      using u by (simp_all add: value_or_def)
    from h(4) none obtain w where w: "items = cs_items s1 @ [w]" "item = Some w" "wi_status w = WQueued"
      "wi_payload w = resume_payload now2 i q2 (ra_id a) (sn_id p') (tk_resume_message t2)"
      by auto
    show ?thesis
      using o(1,5) q2 h(5,6) a' a(3) w st act t2 x o(8) by auto
  qed
qed

section \<open>Resume attempts\<close>

text \<open>C28: a resume with an active attempt changes nothing that could run the task: no attempt and no work
  item is added, and the attempt stays the active one. A blocked attempt counts as active, so that
  after a blocked resume every further resume is answered with the blocked attempt.\<close>

theorem active_attempt_absorbs_resume:
  assumes "control_ok s" "get_active_resume_attempt i (cs_attempts s) = Some a" "command_of q = Resume"
    "queue_main_agent_execution now ids i q s = Inr (s', r)"
  shows "qr_attempt r = Some a \<and> qr_item r = None \<and> cs_items s' = cs_items s \<and> cs_attempts s' = cs_attempts s
    \<and> qr_status r = (if ra_status a = RaBlocked then ResumeBlocked else ResumeQueued)
    \<and> get_active_resume_attempt i (cs_attempts s') = Some a"
proof -
  from assms(3,4) obtain t where "resume_task_execution now ids i q t s = Inr (s', r)"
    by (auto simp: queue_main_agent_execution_def split: option.splits)
  then show ?thesis
  proof (rule resume_Inr)
    fix p tasks1 attempts b tasks2 t2 items item outbox
    assume h: "create_resume_attempt now (ci_attempt ids) i (sn_id p)
         \<lparr>ap_id = None, ap_requested_by = cq_requested_by q, ap_status = None\<rparr> (cs_tasks s) (cs_attempts s)
         = Inr (tasks1, attempts, b)"
      "(\<exists>b'. get_active_resume_attempt i (cs_attempts s) = Some b' \<and> ra_id b' = ra_id b \<and> items = cs_items s \<and> item = None)
       \<or> (\<exists>w. (\<forall>b'. get_active_resume_attempt i (cs_attempts s) = Some b' \<longrightarrow> ra_id b' \<noteq> ra_id b)
          \<and> items = cs_items s @ [w] \<and> item = Some w \<and> wi_id w \<notin> row_keys wi_id (cs_items s)
          \<and> wi_status w = WQueued
          \<and> wi_payload w = resume_payload now i q (ra_id b) (sn_id p) (tk_resume_message t2))"
      "s' = s\<lparr>cs_tasks := tasks2, cs_attempts := attempts, cs_items := items, cs_outbox := outbox\<rparr>"
      "r = \<lparr>qr_status = (if ra_status b = RaBlocked then ResumeBlocked else ResumeQueued),
            qr_task = t2, qr_attempt = Some b, qr_item = item\<rparr>"
    have "b = a" "attempts = cs_attempts s" using attempt_created [OF h(1)] assms(2) by auto
    with h(2-4) assms(2) show ?thesis by auto
  qed
qed

section \<open>Cancelling\<close>





section \<open>Branches\<close>

text \<open>C30: a branch from a saved snapshot leaves everything else alone: it adds one paused task that points to
  its own restorable copy of the snapshot, no other task, snapshot, attempt or work item changes, and
  the new task can be resumed.\<close>

theorem branch_is_independent:
  assumes "control_ok s" "ci_snapshot ids \<noteq> []"
    "create_task_branch_from_snapshot sha now ids workspace copied i q s = Inr (s', b, child, row)"
  shows "get_task (tk_id child) (cs_tasks s) = None \<and> get_task (tk_id child) (cs_tasks s') = Some child
    \<and> (\<forall>j. j \<noteq> tk_id child \<longrightarrow> get_task j (cs_tasks s') = get_task j (cs_tasks s))
    \<and> cs_snapshots s' = cs_snapshots s @ [row] \<and> cs_attempts s' = cs_attempts s \<and> cs_items s' = cs_items s
    \<and> tb_parent_task_id b = i \<and> tb_child_task_id b = tk_id child
    \<and> tk_status child = TkPaused \<and> active_snapshot s' child = Some row \<and> sn_task_id row = tk_id child
    \<and> (\<forall>now2 ids2 q2. fresh_control ids2 s' \<and> command_of q2 = Resume \<and> cq_resume_token q2 = None
         \<longrightarrow> is_ok (queue_main_agent_execution now2 ids2 (tk_id child) q2 s'))"
  using assms(3)
proof (rule branch_Inr)
  fix parent p tasks child0 s1 tasks2
  assume pt: "get_task i (cs_tasks s) = Some parent"
    and t: "create_task now (ci_task ids) (ci_root ids) workspace (branch_task q parent p) (cs_tasks s) = Inr (tasks, child0)"
    and c: "clone_snapshot_for_task sha now ids copied p child0 (branch_copy q p) (s\<lparr>cs_tasks := tasks\<rparr>) = Inr (s1, row)"
    and u: "update_task now (tk_id child0) (branch_update row) (cs_tasks s1) = Inr (tasks2, child)"
    and b: "record_branch now ids q parent child p (s1\<lparr>cs_tasks := tasks2\<rparr>) = Inr (s', b)"
  have new: "tasks = cs_tasks s @ [child0]" "tk_id child0 \<notin> row_keys tk_id (cs_tasks s)" using created_task [OF t] by blast+
  obtain files where cl: "row = stored_snapshot sha (cloned_snapshot sha now ids p child0 (branch_copy q p) files)"
    "s1 = (s\<lparr>cs_tasks := tasks\<rparr>)\<lparr>cs_tasks := edit_row tk_id (tk_id child0)
        (point_to_snapshot (cloned_snapshot sha now ids p child0 (branch_copy q p) files)) tasks,
        cs_snapshots := cs_snapshots s @ [row]\<rparr>" "ci_snapshot ids \<notin> row_keys sn_id (cs_snapshots s)"
    using c by (rule clone_Inr) auto
  obtain branches outbox where r: "s' = s1\<lparr>cs_tasks := tasks2, cs_branches := branches, cs_outbox := outbox\<rparr>"
    "tb_parent_task_id b = tk_id parent" "tb_child_task_id b = tk_id child"
    using b by (rule record_branch_Inr) simp
  obtain c1 where c1: "child = apply_task_update now (branch_update row) c1" "find_row tk_id (cs_tasks s1) (tk_id child0) = Some c1"
    "tasks2 = edit_row tk_id (tk_id child0) (apply_task_update now (branch_update row)) (cs_tasks s1)"
    using u unfolding update_task_Inr by blast
  have id: "tk_id child = tk_id child0" using c1 find_row_Some by fastforce
  have row: "sn_id row = ci_snapshot ids" "sn_task_id row = tk_id child0" "sn_status row = SRestorable"
    "sn_retention_class row = ActivePaused"
    by (simp_all add: cl(1) branch_copy_def)
  have child: "tk_status child = TkPaused" "tk_active_snapshot_id child = Some (ci_snapshot ids)"
    using row(1) by (simp_all add: c1(1) value_or_def branch_update_def)
  have "find_row tk_id tasks2 (tk_id child0) = Some child"
    using edited_task [OF c1(2)] unfolding c1(1,3) .
  then have g: "get_task (tk_id child) (cs_tasks s') = Some child"
    unfolding id by (simp add: r(1) get_task_def)
  have others: "get_task j (cs_tasks s') = get_task j (cs_tasks s)" if "j \<noteq> tk_id child" for j
    using that new cl(2) by (simp add: r(1) c1(3) id get_task_def table_simps)
  have act: "active_snapshot s' child = Some row"
    using child(2) assms(2) cl(2,3) row(1)
    by (simp add: active_snapshot_def get_snapshot_def r(1) find_row_append)
  have ok: "control_ok s'" using branch_lawful [OF assms(3)] assms(1) by (simp add: lawful_def)
  have "is_ok (queue_main_agent_execution now2 ids2 (tk_id child) q2 s')"
    if h: "fresh_control ids2 s'" "command_of q2 = Resume" "cq_resume_token q2 = None" for now2 ids2 q2
  proof -
    have "resumable_snapshot (tk_id child) q2 s' child = Inr row"
      using child(1) act row h(3) by (simp add: resumable_snapshot_def)
    then obtain s3 r3 where "resume_task_execution now2 ids2 (tk_id child) q2 child s' = Inr (s3, r3)"
      using resume_Inr_ok [OF g h(1) ok] by blast
    with g h(2) show ?thesis by (simp add: queue_main_agent_execution_def)
  qed
  moreover have "get_task (tk_id child) (cs_tasks s) = None" using new(2) by (simp add: get_task_def id find_row_None)
  moreover have "tk_id parent = i" using pt find_row_Some by (fastforce simp: get_task_def)
  ultimately show ?thesis
    using g others act child(1) r cl(2) row(2) id by simp
qed

section \<open>Concrete stores\<close>

definition ctl_task :: "task_status \<Rightarrow> ustr option \<Rightarrow> task_row" where
  "ctl_task status snapshot =
     \<lparr>tk_id = lit ''t'', tk_app_id = lit ''app'', tk_project_id = lit ''p'', tk_space_id = lit ''s'',
      tk_branch_id = lit ''b'', tk_title = lit ''title'', tk_goal = lit ''goal'', tk_status = status,
      tk_current_focus = None, tk_current_objective = None, tk_resume_message = None,
      tk_restart_message = None, tk_owner_profile_id = lit ''o'', tk_execution_root_node_id = None,
      tk_active_snapshot_id = snapshot, tk_active_resume_attempt_id = None,
      tk_resume_blocked_reason = None, tk_pending_control_intent = None, tk_window_index = 2,
      tk_restart_count = 0, tk_cumulative_window_span_tokens = 0, tk_carry_forward_loss_count = 0,
      tk_budget = default_budget, tk_pause_requested = False, tk_last_safe_stop_at = None,
      tk_started_at = None, tk_ended_at = None, tk_created_at = 2, tk_updated_at = 2\<rparr>"

definition ctl_store :: "task_status \<Rightarrow> control_store" where
  "ctl_store status = empty_control\<lparr>cs_tasks := [ctl_task status None]\<rparr>"

definition ctl_ids :: control_ids where
  "ctl_ids = \<lparr>ci_item = lit ''i'', ci_attempt = lit ''a'', ci_event = lit ''e'', ci_snapshot = lit ''sn'',
     ci_token = lit ''tok'', ci_task = lit ''c'', ci_branch = lit ''br'', ci_root = lit ''r'',
     ci_event2 = lit ''f'', ci_locator = lit ''l''\<rparr>"

definition ctl_request :: "string option \<Rightarrow> control_request" where
  "ctl_request command =
     \<lparr>cq_body = [], cq_command = map_option lit command, cq_current_focus = None, cq_current_objective = None,
      cq_resume_message = None, cq_budget = None, cq_budget_state = None, cq_resume_token = None,
      cq_requested_by = [], cq_requested_by_id = None, cq_user_id = None, cq_reason = None,
      cq_label = None, cq_saved_label = None, cq_title = None, cq_goal = None,
      cq_snapshot_id = Some (lit ''sv'')\<rparr>"

definition ctl_pause :: pause_snapshot_request where
  "ctl_pause =
     \<lparr>psr_app_id = None, psr_project_id = None, psr_branch_id = None, psr_agent_run_id = None,
      psr_active_tool_calls = [], psr_response_state = None, psr_snapshot_id = None,
      psr_snapshot_type = None, psr_retention_class = None, psr_resume_message = None,
      psr_safe_stop_reason = None, psr_selected_model = None, psr_selected_provider = None,
      psr_next_objective = None, psr_manifest = ((lit ''file'', lit ''m''), lit ''sum''),
      psr_body = JNull\<rparr>"

lemma ctl_task_simps [simp]:
  "tk_id (ctl_task st sn) = lit ''t''" "tk_status (ctl_task st sn) = st" "tk_app_id (ctl_task st sn) = lit ''app''"
  "tk_active_snapshot_id (ctl_task st sn) = sn"
  by (simp_all add: ctl_task_def)

lemma ctl_store_simps [simp]:
  "get_task (lit ''t'') (cs_tasks (ctl_store st)) = Some (ctl_task st None)"
  "control_ok (ctl_store st)" "fresh_control ctl_ids (ctl_store st)"
  "get_active_resume_attempt i (cs_attempts (ctl_store st)) = None"
  "statuses (cs_tasks (ctl_store st)) = [lit ''t'' \<mapsto> st]"
  by (auto simp: ctl_store_def empty_control_def get_task_def find_row_def control_ok_def table_ok_def one_active_def
      fresh_control_def row_keys_def ctl_ids_def get_active_resume_attempt_def active_attempts_def statuses_def)

lemma ctl_command [simp]:
  "command_of (ctl_request (Some ''resume'')) = Resume" "command_of (ctl_request (Some ''retry'')) = Retry"
  "command_of (ctl_request None) = Start"
  by (simp_all add: command_of_def ctl_request_def text_or_def Let_def)

lemma fresh_control_ex: "\<exists>ids. fresh_control ids s"
proof -
  have new: "\<exists>i. i \<notin> A" if "finite A" for A :: "ustr set"
    using ex_new_if_finite [OF infinite_UNIV_listI that] .
  have fin: "finite (row_keys key rows)" for key and rows :: "'r list" by (simp add: row_keys_def)
  obtain w a e sn f where "w \<notin> row_keys wi_id (cs_items s)" "a \<notin> row_keys ra_id (cs_attempts s)"
    "e \<notin> row_keys ob_id (cs_outbox s)" "sn \<notin> insert [] (row_keys sn_id (cs_snapshots s))"
    "f \<notin> insert e (row_keys ob_id (cs_outbox s))"
    using new fin by (metis finite_insert)
  then have "fresh_control (ctl_ids\<lparr>ci_item := w, ci_attempt := a, ci_event := e, ci_snapshot := sn, ci_event2 := f\<rparr>) s"
    by (simp add: fresh_control_def)
  then show ?thesis ..
qed

lemma ctl_start: "\<exists>s r. queue_main_agent_execution 3 ctl_ids (lit ''t'') (ctl_request None) (ctl_store TkDraft) = Inr (s, r)
    \<and> statuses (cs_tasks s) (lit ''t'') = Some TkQueued"
proof -
  have st: "startable (command_of (ctl_request None)) (tk_status (ctl_task TkDraft None))" by (simp add: startable_def)
  obtain s r where q: "start_task_execution 3 ctl_ids (lit ''t'') (ctl_request None) (ctl_task TkDraft None) (ctl_store TkDraft) = Inr (s, r)"
    using start_Inr_ok [OF ctl_store_simps(1,3) st] by blast
  obtain tasks t2 items outbox where "update_task 3 (lit ''t'') (request_update (ctl_request None)) (cs_tasks (ctl_store TkDraft)) = Inr (tasks, t2)"
    "s = (ctl_store TkDraft)\<lparr>cs_tasks := tasks, cs_items := items, cs_outbox := outbox\<rparr>"
    using start_Inr [OF q] by metis
  then have "statuses (cs_tasks s) (lit ''t'') = Some TkQueued"
    using statuses_updated by (fastforce simp: value_or_def)
  then show ?thesis using q by (auto simp: queue_main_agent_execution_def)
qed

lemma ctl_start_reaches:
  "\<exists>s. control_step\<^sup>*\<^sup>* (ctl_store TkDraft) s \<and> statuses (cs_tasks s) (lit ''t'') = Some TkQueued"
  using ctl_start by (meson control_step.queue r_into_rtranclp)

theorem control_reachable_ok_witness:
  "\<exists>s. control_step\<^sup>*\<^sup>* (ctl_store TkDraft) s \<and> statuses (cs_tasks s) (lit ''t'') = Some TkQueued
     \<and> distinct (map ob_id (cs_outbox s))"
proof -
  obtain s where s: "control_step\<^sup>*\<^sup>* (ctl_store TkDraft) s" "statuses (cs_tasks s) (lit ''t'') = Some TkQueued"
    using ctl_start_reaches by blast
  from control_reachable_ok [OF s(1) ctl_store_simps(2)] s show ?thesis by blast
qed


theorem queue_errors_exactly_witness:
  "is_ok (queue_main_agent_execution 3 ctl_ids (lit ''t'') (ctl_request None) (ctl_store TkDraft))
    \<and> \<not> is_ok (queue_main_agent_execution 3 ctl_ids (lit ''t'') (ctl_request (Some ''retry'')) (ctl_store TkDraft))"
  using queue_errors_exactly [OF ctl_store_simps(2,3), of 3 "lit ''t''" "ctl_request None" TkDraft]
    queue_errors_exactly [OF ctl_store_simps(2,3), of 3 "lit ''t''" "ctl_request (Some ''retry'')" TkDraft]
  by simp

theorem lost_pause_strands_task_witness:
  "\<exists>s r. pause_task_execution (\<lambda>x. x) 3 ctl_ids False (lit ''t'') (ctl_request None) ctl_pause [] (ctl_store TkQueued)
      = (s, Inr r) \<and> pr_status r = PausedNow
    \<and> \<not> is_ok (queue_main_agent_execution 4 ctl_ids (lit ''t'') (ctl_request (Some ''resume'')) s)"
proof -
  have b: "psr_snapshot_id ctl_pause = None" by (simp add: ctl_pause_def)
  have l: "\<not> False \<or> \<not> pause_is_safe ctl_pause []" by simp
  from lost_pause_strands_task [OF ctl_store_simps(3,1) ctl_task_simps(2) b l, of "\<lambda>x. x" 3 "ctl_request None"]
  show ?thesis by blast
qed

theorem paused_task_resumes_witness:
  "\<exists>s1 x s2 r. pause_task_execution (\<lambda>x. x) 3 ctl_ids True (lit ''t'') (ctl_request None) ctl_pause [] (ctl_store TkQueued) = (s1, x)
    \<and> is_ok x \<and> (\<exists>ids. queue_main_agent_execution 4 ids (lit ''t'') (ctl_request (Some ''resume'')) s1 = Inr (s2, r)
    \<and> tk_active_snapshot_id (qr_task r) = Some (lit ''sn'') \<and> qr_status r = ResumeQueued)"
proof -
  have b: "psr_snapshot_id ctl_pause = None" "pause_is_safe ctl_pause []" by (simp_all add: ctl_pause_def pause_is_safe_def)
  obtain s1 x where p: "pause_task_execution (\<lambda>x. x) 3 ctl_ids True (lit ''t'') (ctl_request None) ctl_pause [] (ctl_store TkQueued) = (s1, x)"
    by fastforce
  obtain ids where ids: "fresh_control ids s1" using fresh_control_ex ..
  have tok: "cq_resume_token (ctl_request (Some ''resume'')) = None" by (simp add: ctl_request_def)
  have sn: "ci_snapshot ctl_ids = lit ''sn''" by (simp add: ctl_ids_def)
  from paused_task_resumes [OF ctl_store_simps(2,3,1) ctl_task_simps(2) b ctl_store_simps(4) p ids ctl_command(1) tok, of 4] p
  show ?thesis unfolding sn by blast
qed

definition ctl_snapshot :: "string \<Rightarrow> retention_class \<Rightarrow> snapshot_row" where
  "ctl_snapshot i c =
     build_pause_snapshot (\<lambda>x. x) 2 ctl_ids (lit ''t'') (Some (ctl_task TkPaused None))
       (ctl_pause\<lparr>psr_snapshot_id := Some (lit i), psr_retention_class := Some c\<rparr>) []"

definition ctl_attempt :: attempt_row where
  "ctl_attempt = new_attempt 2 (lit ''ra'') (lit ''t'') (lit ''sv'')
     \<lparr>ap_id = None, ap_requested_by = [], ap_status = Some RaBlocked\<rparr>"

text \<open>A blocked task with its active snapshot and its blocked attempt.\<close>

definition ctl_blocked :: control_store where
  "ctl_blocked = empty_control\<lparr>cs_tasks := [ctl_task TkResumeBlocked (Some (lit ''sv''))],
     cs_snapshots := [ctl_snapshot ''sv'' ActivePaused], cs_attempts := [ctl_attempt]\<rparr>"

lemma ctl_snapshot_simps [simp]:
  "i \<noteq> [] \<Longrightarrow> sn_id (ctl_snapshot i c) = lit i" "sn_status (ctl_snapshot i c) = SRestorable"
  "sn_retention_class (ctl_snapshot i c) = c" "sn_task_id (ctl_snapshot i c) = lit ''t''"
  "pause_blockers (ctl_pause\<lparr>psr_snapshot_id := Some (lit i), psr_retention_class := Some c\<rparr>) [] = []"
  by (simp_all add: ctl_snapshot_def text_or_def value_or_def pause_blockers_def request_blockers_def ctl_pause_def)

lemma ctl_blocked_simps [simp]:
  "control_ok ctl_blocked" "fresh_control ctl_ids ctl_blocked"
  "get_task (lit ''t'') (cs_tasks ctl_blocked) = Some (ctl_task TkResumeBlocked (Some (lit ''sv'')))"
  "active_snapshot ctl_blocked (ctl_task TkResumeBlocked (Some (lit ''sv''))) = Some (ctl_snapshot ''sv'' ActivePaused)"
  "get_active_resume_attempt (lit ''t'') (cs_attempts ctl_blocked) = Some ctl_attempt"
  by (simp_all add: ctl_blocked_def empty_control_def get_task_def find_row_def control_ok_def table_ok_def one_active_def
      fresh_control_def row_keys_def ctl_ids_def get_active_resume_attempt_def active_attempts_def
      active_snapshot_def get_snapshot_def ctl_attempt_def active_attempt_def new_attempt_def value_or_def text_or_def)

theorem active_attempt_absorbs_resume_witness:
  "\<exists>s r. queue_main_agent_execution 3 ctl_ids (lit ''t'') (ctl_request (Some ''resume'')) ctl_blocked = Inr (s, r)
    \<and> qr_status r = ResumeBlocked \<and> qr_item r = None \<and> cs_items s = []"
proof -
  have p: "resumable_snapshot (lit ''t'') (ctl_request (Some ''resume'')) ctl_blocked
      (ctl_task TkResumeBlocked (Some (lit ''sv''))) = Inr (ctl_snapshot ''sv'' ActivePaused)"
    by (simp add: resumable_snapshot_def) (simp add: ctl_request_def)
  obtain s r where "resume_task_execution 3 ctl_ids (lit ''t'') (ctl_request (Some ''resume''))
      (ctl_task TkResumeBlocked (Some (lit ''sv''))) ctl_blocked = Inr (s, r)"
    using resume_Inr_ok [OF ctl_blocked_simps(3,2,1) p] by blast
  then have q: "queue_main_agent_execution 3 ctl_ids (lit ''t'') (ctl_request (Some ''resume'')) ctl_blocked = Inr (s, r)"
    by (simp add: queue_main_agent_execution_def)
  have "ra_status ctl_attempt = RaBlocked" "cs_items ctl_blocked = []"
    by (simp_all add: ctl_attempt_def new_attempt_def value_or_def ctl_blocked_def empty_control_def)
  with active_attempt_absorbs_resume [OF ctl_blocked_simps(1,5) ctl_command(1) q] q show ?thesis by auto
qed

lemma clone_ok:
  assumes "find_row tk_id (cs_tasks s) (tk_id t) = Some t" "ci_snapshot ids \<notin> row_keys sn_id (cs_snapshots s)"
    "cp_agent_run_id c = None"
  shows "\<exists>row. clone_snapshot_for_task sha now ids (Inr files) p t c s =
    Inr (s\<lparr>cs_tasks := edit_row tk_id (tk_id t) (point_to_snapshot (cloned_snapshot sha now ids p t c files)) (cs_tasks s),
           cs_snapshots := cs_snapshots s @ [row]\<rparr>, row) \<and> row = stored_snapshot sha (cloned_snapshot sha now ids p t c files)"
proof -
  have "sn_agent_run_id (cloned_snapshot sha now ids p t c files) = None"
    "sn_app_id (cloned_snapshot sha now ids p t c files) = tk_app_id t"
    using assms(3) by (simp_all add: cloned_snapshot_def)
  then show ?thesis
    using assms(1,2) by (simp add: clone_snapshot_for_task_def create_snapshot_def add_row_def)
qed





definition ctl_saved :: control_store where
  "ctl_saved = empty_control\<lparr>cs_tasks := [ctl_task TkRunning None], cs_snapshots := [ctl_snapshot ''sv'' UserSaved]\<rparr>"

lemma ctl_saved_ok [simp]: "control_ok ctl_saved"
  by (simp add: ctl_saved_def empty_control_def control_ok_def table_ok_def one_active_def)

lemma record_branch_ok:
  assumes "cs_branches s = []" "cs_outbox s = []"
  shows "\<exists>s' b. record_branch now ids q parent child p s = Inr (s', b)"
  using assms
  by (simp add: record_branch_def create_task_branch_def add_row_def row_keys_def persist_runtime_event_def
      record_event_def Let_def)

lemma ctl_branch:
  "\<exists>s b child row. create_task_branch_from_snapshot (\<lambda>x. x) 3 ctl_ids (Inr None)
     (Inr ((lit ''file'', lit ''m''), lit ''sum'', JNull)) (lit ''t'') (ctl_request None) ctl_saved
     = Inr (s, b, child, row)"
proof -
  let ?p = "ctl_snapshot ''sv'' UserSaved" and ?t = "ctl_task TkRunning None" and ?q = "ctl_request None"
  have src: "branch_source (lit ''t'') ?q ctl_saved = Inr ?p"
    by (simp add: branch_source_Inr) (simp add: ctl_request_def ctl_saved_def find_row_def value_or_def)
  obtain tasks c where c: "create_task 3 (ci_task ctl_ids) (ci_root ctl_ids) (Inr None) (branch_task ?q ?t ?p) (cs_tasks ctl_saved)
      = Inr (tasks, c)"
    by (simp add: create_task_def Let_def add_row_def row_keys_def branch_task_def ctl_saved_def text_or_def ctl_ids_def)
  have c': "tasks = cs_tasks ctl_saved @ [c]" "tk_id c \<notin> row_keys tk_id (cs_tasks ctl_saved)"
    using created_task [OF c] by blast+
  then have f: "find_row tk_id tasks (tk_id c) = Some c" by (simp add: find_row_append)
  obtain s1 row where k: "clone_snapshot_for_task (\<lambda>x. x) 3 ctl_ids (Inr ((lit ''file'', lit ''m''), lit ''sum'', JNull)) ?p c
      (branch_copy ?q ?p) (ctl_saved\<lparr>cs_tasks := tasks\<rparr>) = Inr (s1, row)"
    "cs_tasks s1 = edit_row tk_id (tk_id c) (point_to_snapshot (cloned_snapshot (\<lambda>x. x) 3 ctl_ids ?p c (branch_copy ?q ?p)
       ((lit ''file'', lit ''m''), lit ''sum'', JNull))) tasks" "cs_branches s1 = []" "cs_outbox s1 = []"
    using clone_ok [of "ctl_saved\<lparr>cs_tasks := tasks\<rparr>" c ctl_ids "branch_copy ?q ?p" "\<lambda>x. x" 3
        "((lit ''file'', lit ''m''), lit ''sum'', JNull)" ?p] f
    by (auto simp: branch_copy_def ctl_saved_def empty_control_def row_keys_def ctl_ids_def)
  obtain tasks2 child where u: "update_task 3 (tk_id c) (branch_update row) (cs_tasks s1) = Inr (tasks2, child)"
    using f by (simp add: update_task_def k(2) table_simps)
  obtain s2 b where "record_branch 3 ctl_ids ?q ?t child ?p (s1\<lparr>cs_tasks := tasks2\<rparr>) = Inr (s2, b)"
  proof -
    have "cs_branches (s1\<lparr>cs_tasks := tasks2\<rparr>) = []" "cs_outbox (s1\<lparr>cs_tasks := tasks2\<rparr>) = []" using k(3,4) by simp_all
    from record_branch_ok [OF this] that show ?thesis by blast
  qed
  then show ?thesis
    using src c k(1) u by (simp add: create_task_branch_from_snapshot_def get_task_def ctl_saved_def find_row_def)
qed

theorem branch_is_independent_witness:
  "\<exists>s b child row. create_task_branch_from_snapshot (\<lambda>x. x) 3 ctl_ids (Inr None)
     (Inr ((lit ''file'', lit ''m''), lit ''sum'', JNull)) (lit ''t'') (ctl_request None) ctl_saved
     = Inr (s, b, child, row)
    \<and> tk_status child = TkPaused \<and> active_snapshot s child = Some row
    \<and> cs_snapshots s = [ctl_snapshot ''sv'' UserSaved, row]"
proof -
  obtain s b child row where c: "create_task_branch_from_snapshot (\<lambda>x. x) 3 ctl_ids (Inr None)
     (Inr ((lit ''file'', lit ''m''), lit ''sum'', JNull)) (lit ''t'') (ctl_request None) ctl_saved = Inr (s, b, child, row)"
    using ctl_branch by blast
  have i: "ci_snapshot ctl_ids \<noteq> []" by (simp add: ctl_ids_def)
  have "cs_snapshots ctl_saved = [ctl_snapshot ''sv'' UserSaved]" by (simp add: ctl_saved_def)
  with branch_is_independent [OF ctl_saved_ok i c] c show ?thesis by auto
qed

end
