(* ===== verification/SnapshotStore.thy ===== *)
theory SnapshotStore
  imports Prelude "HOL-Library.Sublist"
begin

text \<open>
  The durable snapshot store, \<open>runtime_kernel/snapshot_store.py\<close>: a snapshot is a directory with one
  JSON file for each part and a manifest with their checksums, written beside its place and renamed.

  A file system is the list of its files, by path (a list of parts), with their JSON values; directories
  are the prefixes of the paths. The parameters of \<open>store_env\<close> are the workspace root and the directory of
  the snapshots, \<open>str.isalnum\<close>, the digest of a canonical JSON text and \<open>str\<close> on a value that is
  neither text nor empty.
\<close>

section \<open>Paths\<close>

type_synonym path = "ustr list"
type_synonym files = "(path \<times> json) list"

record store_env =
  se_workspace :: path
  se_dir :: path
  se_alnum :: "nat \<Rightarrow> bool"
  se_digest :: "json \<Rightarrow> ustr"
  se_str :: "json \<Rightarrow> ustr"

definition slash :: nat where
  "slash = 47"

text \<open>\<open>Path.resolve\<close> on the parts of a path.\<close>

fun norm_from :: "path \<Rightarrow> path \<Rightarrow> path" where
  "norm_from acc [] = rev acc"
| "norm_from acc (p # ps) =
     (if p = [] \<or> p = lit ''.'' then norm_from acc ps
      else if p = lit ''..'' then norm_from (tl acc) ps
      else norm_from (p # acc) ps)"

definition norm_path :: "path \<Rightarrow> path" where
  "norm_path ps = norm_from [] ps"

fun split_slash :: "ustr \<Rightarrow> ustr \<Rightarrow> path" where
  "split_slash cur [] = [rev cur]"
| "split_slash cur (c # cs) =
     (if c = slash then rev cur # split_slash [] cs else split_slash (c # cur) cs)"

fun join_slash :: "path \<Rightarrow> ustr" where
  "join_slash [] = []"
| "join_slash [p] = p"
| "join_slash (p # q # ps) = p @ slash # join_slash (q # ps)"

definition resolve_state_file_locator :: "store_env \<Rightarrow> ustr \<Rightarrow> path" where
  "resolve_state_file_locator e locator =
     norm_path (case locator of
        [] \<Rightarrow> se_workspace e
      | c # cs \<Rightarrow> if c = slash then split_slash [] locator else se_workspace e @ split_slash [] locator)"

definition relative_workspace_path :: "store_env \<Rightarrow> path \<Rightarrow> ustr" where
  "relative_workspace_path e p =
     (let q = norm_path p
      in if prefix (se_workspace e) q then join_slash (drop (length (se_workspace e)) q)
         else slash # join_slash q)"

definition safe_part :: "store_env \<Rightarrow> ustr \<Rightarrow> ustr" where
  "safe_part e v =
     str_or (map (\<lambda>c. if se_alnum e c \<or> c \<in> set (lit ''-_.'') then c else 95) (strip v)) (lit ''unknown'')"

section \<open>Values\<close>

text \<open>\<open>str(v or "")\<close>, \<open>d.get(k)\<close>\<close>

definition text_of :: "store_env \<Rightarrow> json \<Rightarrow> ustr" where
  "text_of e v =
     (case v of JStr s \<Rightarrow> s | JNull \<Rightarrow> [] | JBool False \<Rightarrow> [] | JInt n \<Rightarrow> if n = 0 then [] else se_str e v
      | JList [] \<Rightarrow> [] | JObj [] \<Rightarrow> [] | _ \<Rightarrow> se_str e v)"

definition key_or_null :: "ustr \<Rightarrow> (ustr \<times> json) list \<Rightarrow> json" where
  "key_or_null k d = (case map_of d k of None \<Rightarrow> JNull | Some v \<Rightarrow> v)"

text \<open>An \<open>ExternalRef\<close>, and its dictionary.\<close>

record external_ref =
  xr_type :: ustr
  xr_locator :: ustr

definition ref_json :: "external_ref \<Rightarrow> json" where
  "ref_json r = JObj [(lit ''type'', JStr (xr_type r)), (lit ''locator'', JStr (xr_locator r))]"

definition read_state_file :: "store_env \<Rightarrow> files \<Rightarrow> external_ref \<Rightarrow> json option" where
  "read_state_file e fs r =
     (if xr_type r \<noteq> lit ''state-file'' \<or> xr_locator r = [] then None
      else map_of fs (resolve_state_file_locator e (xr_locator r)))"

text \<open>\<open>read_state_file_ref\<close> on a value of the manifest; \<open>None\<close> is the default.\<close>

definition read_state_file_ref :: "store_env \<Rightarrow> files \<Rightarrow> json \<Rightarrow> json option res" where
  "read_state_file_ref e fs ref =
     (case ref of
        JNull \<Rightarrow> Inr None
      | JObj d \<Rightarrow> Inr (read_state_file e fs
          \<lparr>xr_type = text_of e (key_or_null (lit ''type'') d), xr_locator = text_of e (key_or_null (lit ''locator'') d)\<rparr>)
      | _ \<Rightarrow> Inl (AttributeError (lit ''type'')))"

section \<open>Committing\<close>

record commit_args =
  ca_project_id :: ustr
  ca_task_id :: ustr
  ca_snapshot_id :: ustr
  ca_retention_class :: ustr
  ca_snapshot_type :: ustr
  ca_root_mount :: json
  ca_current_context :: json
  ca_request_state :: json
  ca_pending_actions :: json
  ca_pending_writes :: json
  ca_tool_state :: json
  ca_budget_state :: json
  ca_routing_state :: json
  ca_metadata :: json

definition sha256_of :: "store_env \<Rightarrow> json \<Rightarrow> ustr" where
  "sha256_of e payload = lit ''sha256:'' @ se_digest e payload"

definition or_empty :: "json \<Rightarrow> json" where
  "or_empty v = (case v of JNull \<Rightarrow> JObj [] | _ \<Rightarrow> v)"

definition canonical_request_digest :: "store_env \<Rightarrow> json \<Rightarrow> ustr" where
  "canonical_request_digest e payload = sha256_of e (or_empty payload)"

definition snapshot_entries :: "commit_args \<Rightarrow> (ustr \<times> json) list" where
  "snapshot_entries a =
     [(lit ''rootMount'', ca_root_mount a), (lit ''currentContext'', ca_current_context a),
      (lit ''requestState'', ca_request_state a), (lit ''pendingActions'', ca_pending_actions a),
      (lit ''pendingWrites'', ca_pending_writes a), (lit ''toolState'', or_empty (ca_tool_state a)),
      (lit ''budgetState'', or_empty (ca_budget_state a)), (lit ''routingState'', or_empty (ca_routing_state a))]"

definition snapshot_base :: "store_env \<Rightarrow> commit_args \<Rightarrow> path" where
  "snapshot_base e a =
     se_dir e @ [safe_part e (ca_project_id a), safe_part e (ca_task_id a), safe_part e (ca_snapshot_id a)]"

definition temporary_base :: "store_env \<Rightarrow> ustr \<Rightarrow> commit_args \<Rightarrow> path" where
  "temporary_base e fresh a =
     butlast (snapshot_base e a) @ [last (snapshot_base e a) @ lit ''.tmp-'' @ fresh]"

definition blob_path :: "store_env \<Rightarrow> path \<Rightarrow> ustr \<Rightarrow> path" where
  "blob_path e dir name = dir @ [lit ''blobs'', safe_part e name @ lit ''.json'']"

definition entry_ref :: "store_env \<Rightarrow> commit_args \<Rightarrow> ustr \<Rightarrow> external_ref" where
  "entry_ref e a name =
     \<lparr>xr_type = lit ''state-file'',
      xr_locator = relative_workspace_path e (blob_path e (snapshot_base e a) name)\<rparr>"

definition entry_json :: "store_env \<Rightarrow> commit_args \<Rightarrow> ustr \<times> json \<Rightarrow> ustr \<times> json" where
  "entry_json e a x =
     (fst x, JObj [(lit ''ref'', ref_json (entry_ref e a (fst x))),
                   (lit ''checksum'', JStr (sha256_of e (snd x))),
                   (lit ''contentType'', JStr (lit ''application/json''))])"

definition manifest_body :: "store_env \<Rightarrow> ustr \<Rightarrow> commit_args \<Rightarrow> (ustr \<times> json) list" where
  "manifest_body e now a =
     [(lit ''version'', JStr (lit ''durable-snapshot.v1'')),
      (lit ''schemaVersion'', JStr (lit ''task-snapshot.v1'')),
      (lit ''runtimeContractVersion'', JStr (lit ''task-pause-resume-continuation-contract-v0.1'')),
      (lit ''projectId'', JStr (ca_project_id a)), (lit ''taskId'', JStr (ca_task_id a)),
      (lit ''snapshotId'', JStr (ca_snapshot_id a)), (lit ''snapshotType'', JStr (ca_snapshot_type a)),
      (lit ''retentionClass'', JStr (ca_retention_class a)), (lit ''createdAt'', JStr now),
      (lit ''canonicalRequestDigest'', JStr (canonical_request_digest e (ca_request_state a))),
      (lit ''entries'', JObj (map (entry_json e a) (snapshot_entries a))),
      (lit ''metadata'', or_empty (ca_metadata a))]"

definition manifest_checksum :: "store_env \<Rightarrow> ustr \<Rightarrow> commit_args \<Rightarrow> ustr" where
  "manifest_checksum e now a = sha256_of e (JObj (manifest_body e now a))"

definition manifest_json :: "store_env \<Rightarrow> ustr \<Rightarrow> commit_args \<Rightarrow> (ustr \<times> json) list" where
  "manifest_json e now a =
     manifest_body e now a @ [(lit ''checksum'', JStr (manifest_checksum e now a))]"

text \<open>The steps of a commit, so that a crash can fall between any two. Removing a tree that does not
  exist changes nothing, so the tests \<open>tmp.exists()\<close> and \<open>base.exists()\<close> need no branch.\<close>

datatype file_step = WriteFile path json | RemoveTree path | RenameTree path path

definition below :: "path \<Rightarrow> files \<Rightarrow> files" where
  "below p fs = filter (\<lambda>(q, _). prefix p q) fs"

definition beside :: "path \<Rightarrow> files \<Rightarrow> files" where
  "beside p fs = filter (\<lambda>(q, _). \<not> prefix p q) fs"

fun run_step :: "file_step \<Rightarrow> files \<Rightarrow> files" where
  "run_step (WriteFile p v) fs = (norm_path p, v) # filter (\<lambda>(q, _). q \<noteq> norm_path p) fs"
| "run_step (RemoveTree p) fs = beside (norm_path p) fs"
| "run_step (RenameTree p q) fs =
     map (\<lambda>(r, v). (norm_path q @ drop (length (norm_path p)) r, v)) (below (norm_path p) fs)
     @ beside (norm_path p) (beside (norm_path q) fs)"

definition commit_steps :: "store_env \<Rightarrow> ustr \<Rightarrow> ustr \<Rightarrow> commit_args \<Rightarrow> file_step list" where
  "commit_steps e now fresh a =
     (let base = snapshot_base e a; tmp = temporary_base e fresh a
      in [RemoveTree tmp]
         @ map (\<lambda>(name, v). WriteFile (blob_path e tmp name) v) (snapshot_entries a)
         @ [WriteFile (tmp @ [lit ''manifest.json'']) (JObj (manifest_json e now a)),
            RemoveTree base, RenameTree tmp base])"

definition manifest_ref :: "store_env \<Rightarrow> commit_args \<Rightarrow> external_ref" where
  "manifest_ref e a =
     \<lparr>xr_type = lit ''state-file'',
      xr_locator = relative_workspace_path e (snapshot_base e a @ [lit ''manifest.json''])\<rparr>"

definition commit_snapshot_manifest ::
  "store_env \<Rightarrow> ustr \<Rightarrow> ustr \<Rightarrow> commit_args \<Rightarrow> files \<Rightarrow> files \<times> external_ref \<times> ustr" where
  "commit_snapshot_manifest e now fresh a fs =
     (fold run_step (commit_steps e now fresh a) fs, manifest_ref e a, manifest_checksum e now a)"

section \<open>Verifying and reading\<close>

definition load_snapshot_manifest :: "store_env \<Rightarrow> files \<Rightarrow> external_ref option \<Rightarrow> (ustr \<times> json) list res" where
  "load_snapshot_manifest e fs ref =
     (case (case ref of None \<Rightarrow> None | Some r \<Rightarrow> read_state_file e fs r) of
        Some (JObj d) \<Rightarrow> Inr d
      | _ \<Rightarrow> Inl (FileNotFoundError (lit ''Snapshot manifest not found'')))"

definition manifest_entries :: "(ustr \<times> json) list \<Rightarrow> (ustr \<times> json) list" where
  "manifest_entries m = (case key_or_null (lit ''entries'') m of JObj d \<Rightarrow> d | _ \<Rightarrow> [])"

definition check_entry :: "store_env \<Rightarrow> files \<Rightarrow> ustr \<times> json \<Rightarrow> unit res" where
  "check_entry e fs x =
     (case snd x of
        JObj d \<Rightarrow>
          (case read_state_file_ref e fs (key_or_null (lit ''ref'') d) of
             Inl err \<Rightarrow> Inl err
           | Inr payload \<Rightarrow>
               (case payload of
                  None \<Rightarrow> Inl (FileNotFoundError (lit ''manifest-entry-missing:'' @ fst x))
                | Some v \<Rightarrow>
                    if v = JNull then Inl (FileNotFoundError (lit ''manifest-entry-missing:'' @ fst x))
                    else
                      (let checksum = text_of e (key_or_null (lit ''checksum'') d)
                       in if checksum = [] \<or> checksum \<noteq> sha256_of e v
                          then Inl (ValueError (lit ''manifest-entry-checksum-mismatch:'' @ fst x))
                          else Inr ())))
      | _ \<Rightarrow> Inl (ValueError (lit ''manifest-entry-invalid:'' @ fst x)))"

fun check_entries :: "store_env \<Rightarrow> files \<Rightarrow> (ustr \<times> json) list \<Rightarrow> unit res" where
  "check_entries e fs [] = Inr ()"
| "check_entries e fs (x # xs) =
     (case check_entry e fs x of Inl err \<Rightarrow> Inl err | Inr _ \<Rightarrow> check_entries e fs xs)"

definition verify_snapshot_manifest ::
  "store_env \<Rightarrow> files \<Rightarrow> external_ref option \<Rightarrow> ustr option \<Rightarrow> (ustr \<times> json) list res" where
  "verify_snapshot_manifest e fs ref expected_checksum =
     (case load_snapshot_manifest e fs ref of
        Inl err \<Rightarrow> Inl err
      | Inr m \<Rightarrow>
          (let actual = (case map_of m (lit ''checksum'') of
                           None \<Rightarrow> [] | Some (JStr s) \<Rightarrow> s | Some v \<Rightarrow> se_str e v);
               body = filter (\<lambda>(k, _). k \<noteq> lit ''checksum'') m;
               expected = strip (str_or (case expected_checksum of None \<Rightarrow> [] | Some s \<Rightarrow> s) actual)
           in if expected = [] then Inl (ValueError (lit ''manifest-checksum-missing''))
              else if expected \<noteq> actual \<or> actual \<noteq> sha256_of e (JObj body) then
                Inl (ValueError (lit ''manifest-checksum-mismatch''))
              else map_sum id (\<lambda>_. m) (check_entries e fs (manifest_entries m))))"

definition read_snapshot_entry ::
  "store_env \<Rightarrow> files \<Rightarrow> (ustr \<times> json) list \<Rightarrow> ustr \<Rightarrow> json \<Rightarrow> json res" where
  "read_snapshot_entry e fs m name dflt =
     (case map_of (manifest_entries m) name of
        Some (JObj d) \<Rightarrow>
          map_sum id (\<lambda>v. case v of None \<Rightarrow> dflt | Some j \<Rightarrow> j)
            (read_state_file_ref e fs (key_or_null (lit ''ref'') d))
      | _ \<Rightarrow> Inr dflt)"

definition delete_snapshot_payload :: "store_env \<Rightarrow> external_ref option \<Rightarrow> files \<Rightarrow> files \<times> bool" where
  "delete_snapshot_payload e ref fs =
     (case ref of
        None \<Rightarrow> (fs, False)
      | Some r \<Rightarrow>
          (let dir = butlast (resolve_state_file_locator e (xr_locator r))
           in if below dir fs = [] then (fs, False) else (beside dir fs, True)))"

end
