(* ===== verification/SnapshotStoreProps.thy ===== *)
theory SnapshotStoreProps
  imports SnapshotStore
begin

text \<open>
  What the snapshot store promises: a committed snapshot verifies and reads back, a crash never leaves a
  half-written snapshot that verifies, verification accepts exactly what the checksums vouch for; and what
  it does not: ids that differ only in replaced characters share a directory.
\<close>

section \<open>Paths and locators\<close>

definition good_part :: "ustr \<Rightarrow> bool" where
  "good_part p \<longleftrightarrow> p \<noteq> [] \<and> p \<noteq> lit ''.'' \<and> p \<noteq> lit ''..'' \<and> slash \<notin> set p"

lemma norm_from_good: "list_all good_part ps \<Longrightarrow> norm_from acc ps = rev acc @ ps"
  by (induction ps arbitrary: acc) (simp_all add: good_part_def)

lemma norm_good [simp]: "list_all good_part ps \<Longrightarrow> norm_path ps = ps"
  by (simp add: norm_path_def norm_from_good)

lemma split_last: "slash \<notin> set p \<Longrightarrow> split_slash cur p = [rev cur @ p]"
  by (induction p arbitrary: cur) auto

lemma split_cons: "slash \<notin> set p \<Longrightarrow> split_slash cur (p @ slash # r) = (rev cur @ p) # split_slash [] r"
  by (induction p arbitrary: cur) auto

lemma split_join: "list_all good_part ps \<Longrightarrow> ps \<noteq> [] \<Longrightarrow> split_slash [] (join_slash ps) = ps"
  by (induction ps rule: join_slash.induct) (auto simp: split_last split_cons good_part_def)

lemma join_head: "list_all good_part ps \<Longrightarrow> ps \<noteq> [] \<Longrightarrow> \<exists>c cs. join_slash ps = c # cs \<and> c \<noteq> slash"
proof (induction ps rule: join_slash.induct)
  case (2 p)
  then show ?case by (cases p) (auto simp: good_part_def)
next
  case (3 p q ps)
  then show ?case by (cases p) (auto simp: good_part_def)
qed simp

definition store_ok :: "store_env \<Rightarrow> bool" where
  "store_ok e \<longleftrightarrow> list_all good_part (se_workspace e) \<and> list_all good_part (se_dir e)
     \<and> \<not> prefix (se_dir e) (se_workspace e) \<and> \<not> se_alnum e slash
     \<and> (\<forall>c. 65 \<le> c \<and> c \<le> 90 \<or> 97 \<le> c \<and> c \<le> 122 \<longrightarrow> se_alnum e c)
     \<and> (\<forall>v. list_all (\<lambda>c. \<not> is_space c) (se_digest e v))"

lemma relative_resolves:
  assumes "store_ok e" "list_all good_part p" "p \<noteq> se_workspace e" "p \<noteq> []"
  shows "resolve_state_file_locator e (relative_workspace_path e p) = p
    \<and> relative_workspace_path e p \<noteq> []"
proof (cases "prefix (se_workspace e) p")
  case True
  then obtain r where r: "p = se_workspace e @ r" by (auto simp: prefix_def)
  then have g: "list_all good_part r" "r \<noteq> []" using assms(2,3) by auto
  obtain c cs where c: "join_slash r = c # cs" "c \<noteq> slash" using join_head [OF g] by blast
  have l: "relative_workspace_path e p = join_slash r"
    using r assms(2) by (simp add: relative_workspace_path_def)
  have "resolve_state_file_locator e (join_slash r) = norm_path (se_workspace e @ split_slash [] (join_slash r))"
    using c by (simp add: resolve_state_file_locator_def)
  also have "\<dots> = p" unfolding split_join [OF g] using r assms(2) by simp
  finally show ?thesis using l c by simp
next
  case False
  have l: "relative_workspace_path e p = slash # join_slash p"
    using False assms(2) by (simp add: relative_workspace_path_def)
  have "resolve_state_file_locator e (slash # join_slash p) = norm_path ([] # p)"
    using split_cons [of "[]" "[]" "join_slash p"] split_join [OF assms(2,4)]
    by (simp add: resolve_state_file_locator_def)
  also have "\<dots> = p" using assms(2) by (simp add: norm_path_def norm_from_good)
  finally show ?thesis using l by simp
qed

lemma safe_part_clean:
  assumes "store_ok e" shows "safe_part e v \<noteq> [] \<and> slash \<notin> set (safe_part e v)"
proof -
  have "slash \<notin> set (lit ''unknown'')" "slash \<notin> set (lit ''-_.'')"
    by (simp_all add: lit_def slash_def)
  then show ?thesis using assms by (auto simp: safe_part_def str_or_def store_ok_def slash_def split: if_splits)
qed

lemma safe_part_letters:
  assumes "store_ok e" "\<forall>c\<in>set s. 65 \<le> c \<and> c \<le> 90 \<or> 97 \<le> c \<and> c \<le> 122" "strip s = s" "s \<noteq> []"
  shows "safe_part e s = s"
proof -
  have "map (\<lambda>c. if se_alnum e c \<or> c \<in> set (lit ''-_.'') then c else 95) s = s"
    using assms(1,2) by (intro map_idI) (auto simp: store_ok_def)
  with assms(3,4) show ?thesis by (simp add: safe_part_def str_or_def)
qed

lemma safe_names:
  assumes "store_ok e"
  shows "safe_part e (lit ''rootMount'') = lit ''rootMount''"
    "safe_part e (lit ''currentContext'') = lit ''currentContext''"
    "safe_part e (lit ''requestState'') = lit ''requestState''"
    "safe_part e (lit ''pendingActions'') = lit ''pendingActions''"
    "safe_part e (lit ''pendingWrites'') = lit ''pendingWrites''"
    "safe_part e (lit ''toolState'') = lit ''toolState''"
    "safe_part e (lit ''budgetState'') = lit ''budgetState''"
    "safe_part e (lit ''routingState'') = lit ''routingState''"
  by (rule safe_part_letters [OF assms]; simp add: lit_def strip_def rstrip_def is_space_def)+

section \<open>Steps on the files\<close>

declare run_step.simps [simp del]

lemma map_of_write [simp]:
  "map_of (run_step (WriteFile p v) fs) q = (if q = norm_path p then Some v else map_of fs q)"
  by (induction fs) (auto simp: run_step.simps)

lemma map_of_beside [simp]: "map_of (beside p fs) q = (if prefix p q then None else map_of fs q)"
  by (induction fs) (auto simp: beside_def)

lemma map_of_moved:
  "map_of (map (\<lambda>(r, v). (q @ drop (length p) r, v)) (below p fs)) r =
     (if prefix q r then map_of fs (p @ drop (length q) r) else None)"
  by (induction fs) (auto simp: below_def prefix_def)

lemma map_of_rename:
  assumes "parallel (norm_path p) (norm_path q)"
  shows "map_of (run_step (RenameTree p q) fs) r =
    (if prefix (norm_path q) r then map_of fs (norm_path p @ drop (length (norm_path q)) r)
     else if prefix (norm_path p) r then None else map_of fs r)"
  using assms by (auto simp: run_step.simps map_add_def map_of_moved split: option.split)

lemma map_of_writes:
  "distinct (map (\<lambda>x. norm_path (f (fst x))) xs) \<Longrightarrow>
     map_of (fold run_step (map (\<lambda>(n, v). WriteFile (f n) v) xs) fs) q =
       (case map_of (map (\<lambda>(n, v). (norm_path (f n), v)) xs) q of None \<Rightarrow> map_of fs q | Some v \<Rightarrow> Some v)"
proof (induction xs arbitrary: fs)
  case (Cons x xs)
  have "map_of (map (\<lambda>(n, v). (norm_path (f n), v)) xs) (norm_path (f (fst x))) = None"
    using Cons.prems by (auto simp: map_of_eq_None_iff image_iff)
  with Cons show ?case by (cases x) (auto split: option.split)
qed simp

section \<open>Commits\<close>

text \<open>Ids whose directory names are ordinary, a temporary name without a slash, parts that are not null.\<close>

definition commit_ok :: "store_env \<Rightarrow> ustr \<Rightarrow> commit_args \<Rightarrow> bool" where
  "commit_ok e fresh a \<longleftrightarrow> list_all good_part (snapshot_base e a) \<and> slash \<notin> set fresh
     \<and> JNull \<notin> set (map snd (snapshot_entries a))"

lemma base_shape:
  "snapshot_base e a = butlast (snapshot_base e a) @ [last (snapshot_base e a)]" "snapshot_base e a \<noteq> []"
  by (simp_all add: snapshot_base_def butlast_append)

lemma long_part: "3 \<le> length p \<Longrightarrow> slash \<notin> set p \<Longrightarrow> good_part p"
  by (auto simp: good_part_def)

lemma temporary_good:
  assumes "commit_ok e fresh a"
  shows "list_all good_part (temporary_base e fresh a)"
proof -
  have b: "list_all good_part (butlast (snapshot_base e a))" "good_part (last (snapshot_base e a))"
    using assms base_shape(2) [of e a] by (auto simp: commit_ok_def list_all_iff dest: in_set_butlastD)
  have "slash \<notin> set (lit ''.tmp-'')" by (simp add: lit_def slash_def)
  then have "good_part (last (snapshot_base e a) @ lit ''.tmp-'' @ fresh)"
    using assms b(2) by (intro long_part) (auto simp: commit_ok_def good_part_def)
  with b(1) show ?thesis by (simp add: temporary_base_def)
qed

lemma parallel_bases: "parallel (temporary_base e fresh a) (snapshot_base e a)"
proof -
  have l: "length (temporary_base e fresh a) = length (snapshot_base e a)"
    by (simp add: temporary_base_def snapshot_base_def)
  have "temporary_base e fresh a \<noteq> snapshot_base e a"
    unfolding temporary_base_def by (subst (3) base_shape(1)) simp
  with l show ?thesis by (auto simp: parallel_def prefix_def)
qed

lemma good_append: "list_all good_part ps \<Longrightarrow> list_all good_part qs \<Longrightarrow> norm_path (ps @ qs) = ps @ qs"
  by simp

lemma blob_norm:
  assumes "store_ok e" "list_all good_part dir"
  shows "norm_path (blob_path e dir name) = blob_path e dir name \<and> list_all good_part (blob_path e dir name)"
proof -
  have "slash \<notin> set (lit ''.json'')" "slash \<notin> set (lit ''blobs'')" by (simp_all add: lit_def slash_def)
  then have "good_part (safe_part e name @ lit ''.json'')" "good_part (lit ''blobs'')"
    using safe_part_clean [OF assms(1), of name] by (auto intro!: long_part)
  with assms(2) have "list_all good_part (blob_path e dir name)" by (simp add: blob_path_def)
  then show ?thesis by simp
qed

lemma entry_names:
  "map fst (snapshot_entries a) =
     [lit ''rootMount'', lit ''currentContext'', lit ''requestState'', lit ''pendingActions'',
      lit ''pendingWrites'', lit ''toolState'', lit ''budgetState'', lit ''routingState'']"
  by (simp add: snapshot_entries_def)

lemma safe_entry: "store_ok e \<Longrightarrow> x \<in> set (snapshot_entries a) \<Longrightarrow> safe_part e (fst x) = fst x"
  by (auto simp: snapshot_entries_def safe_names)

lemma distinct_entries: "distinct (map fst (snapshot_entries a))"
  unfolding entry_names by simp

lemma blob_inj: "blob_path e dir n = blob_path e dir' n' \<longleftrightarrow> dir = dir' \<and> safe_part e n = safe_part e n'"
  by (simp add: blob_path_def)

definition staged :: "store_env \<Rightarrow> ustr \<Rightarrow> ustr \<Rightarrow> commit_args \<Rightarrow> files \<Rightarrow> files" where
  "staged e now fresh a fs =
     (let tmp = temporary_base e fresh a
      in run_step (WriteFile (tmp @ [lit ''manifest.json'']) (JObj (manifest_json e now a)))
          (fold run_step (map (\<lambda>(n, v). WriteFile (blob_path e tmp n) v) (snapshot_entries a))
            (run_step (RemoveTree tmp) fs)))"

lemma staged_blob:
  assumes "store_ok e" "commit_ok e fresh a" "(n, v) \<in> set (snapshot_entries a)"
  shows "map_of (staged e now fresh a fs) (blob_path e (temporary_base e fresh a) n) = Some v"
proof -
  let ?tmp = "temporary_base e fresh a"
  note g = temporary_good [OF assms(2)]
  have d: "distinct (map (\<lambda>x. norm_path (blob_path e ?tmp (fst x))) (snapshot_entries a))"
  proof -
    have "map (\<lambda>x. norm_path (blob_path e ?tmp (fst x))) (snapshot_entries a)
        = map (\<lambda>n. ?tmp @ [lit ''blobs'', n @ lit ''.json'']) (map fst (snapshot_entries a))"
      using safe_entry [OF assms(1)] blob_norm [OF assms(1) g] by (simp add: blob_path_def)
    moreover have "distinct (map (\<lambda>n. ?tmp @ [lit ''blobs'', n @ lit ''.json'']) (map fst (snapshot_entries a)))"
      using distinct_entries by (simp add: distinct_map inj_on_def)
    ultimately show ?thesis by metis
  qed
  have "map_of (map (\<lambda>(n, v). (norm_path (blob_path e ?tmp n), v)) (snapshot_entries a)) (blob_path e ?tmp n) = Some v"
    using d assms(3) blob_norm [OF assms(1) g, of n]
    by (intro map_of_is_SomeI) (auto simp: comp_def case_prod_beta image_iff intro!: bexI [of _ "(n, v)"])
  moreover have "blob_path e ?tmp n \<noteq> norm_path (?tmp @ [lit ''manifest.json''])"
  proof -
    have "good_part (lit ''manifest.json'')" by (simp add: good_part_def lit_def slash_def)
    then show ?thesis using g by (simp add: blob_path_def)
  qed
  ultimately show ?thesis by (simp add: staged_def Let_def map_of_writes [OF d])
qed

definition staging_steps :: "store_env \<Rightarrow> ustr \<Rightarrow> ustr \<Rightarrow> commit_args \<Rightarrow> file_step list" where
  "staging_steps e now fresh a =
     [RemoveTree (temporary_base e fresh a)]
     @ map (\<lambda>(n, v). WriteFile (blob_path e (temporary_base e fresh a) n) v) (snapshot_entries a)
     @ [WriteFile (temporary_base e fresh a @ [lit ''manifest.json'']) (JObj (manifest_json e now a))]"

lemma commit_steps_eq:
  "commit_steps e now fresh a = staging_steps e now fresh a
     @ [RemoveTree (snapshot_base e a), RenameTree (temporary_base e fresh a) (snapshot_base e a)]"
  by (simp add: commit_steps_def staging_steps_def Let_def)

lemma staging_fold: "fold run_step (staging_steps e now fresh a) fs = staged e now fresh a fs"
  by (simp add: staging_steps_def staged_def Let_def)

definition committed :: "store_env \<Rightarrow> ustr \<Rightarrow> ustr \<Rightarrow> commit_args \<Rightarrow> files \<Rightarrow> files" where
  "committed e now fresh a fs = fst (commit_snapshot_manifest e now fresh a fs)"

lemma manifest_part [simp]: "good_part (lit ''manifest.json'')"
  by (simp add: good_part_def lit_def slash_def)

lemma parallel_append: "parallel p q \<Longrightarrow> \<not> prefix p (q @ r)"
  using prefix_same_cases [of p "q @ r" q] by (auto simp: parallel_def)

lemma committed_base:
  assumes "commit_ok e fresh a"
  shows "map_of (committed e now fresh a fs) (snapshot_base e a @ rest)
    = map_of (staged e now fresh a fs) (temporary_base e fresh a @ rest)"
proof -
  have b: "norm_path (snapshot_base e a) = snapshot_base e a" using assms by (simp add: commit_ok_def)
  have t: "norm_path (temporary_base e fresh a) = temporary_base e fresh a" using temporary_good [OF assms] by simp
  have "\<not> prefix (snapshot_base e a) (temporary_base e fresh a @ rest)"
    using parallel_bases [of e fresh a] by (intro parallel_append) (simp add: parallel_def)
  then show ?thesis
    using parallel_bases [of e fresh a] b t
    by (simp add: committed_def commit_snapshot_manifest_def commit_steps_eq staging_fold map_of_rename)
       (simp add: run_step.simps b)
qed

lemma committed_manifest:
  assumes "commit_ok e fresh a"
  shows "map_of (committed e now fresh a fs) (snapshot_base e a @ [lit ''manifest.json''])
    = Some (JObj (manifest_json e now a))"
  using committed_base [OF assms, of now fs "[lit ''manifest.json'']"] temporary_good [OF assms]
  by (simp add: staged_def Let_def)

lemma committed_blob:
  assumes "store_ok e" "commit_ok e fresh a" "(n, v) \<in> set (snapshot_entries a)"
  shows "map_of (committed e now fresh a fs) (blob_path e (snapshot_base e a) n) = Some v"
  using committed_base [OF assms(2), of now fs "[lit ''blobs'', safe_part e n @ lit ''.json'']"]
    staged_blob [OF assms, of now fs]
  by (simp add: blob_path_def)

lemma text_of_str [simp]: "text_of e (JStr s) = s"
  by (simp add: text_of_def)

lemma base_not_workspace: "store_ok e \<Longrightarrow> snapshot_base e a @ ps \<noteq> se_workspace e"
  by (auto simp: store_ok_def snapshot_base_def dest!: sym [of _ "se_workspace e"])

section \<open>Verification\<close>

lemma strip_clean: "list_all (\<lambda>c. \<not> is_space c) s \<Longrightarrow> strip s = s"
proof -
  have d: "dropWhile is_space t = t" if "list_all (\<lambda>c. \<not> is_space c) t" for t
    using that by (cases t) simp_all
  assume "list_all (\<lambda>c. \<not> is_space c) s"
  then show ?thesis using d [of s] d [of "rev s"] by (simp add: strip_def rstrip_def)
qed

lemma checksum_clean: "store_ok e \<Longrightarrow> strip (sha256_of e v) = sha256_of e v \<and> sha256_of e v \<noteq> []"
proof -
  have "list_all (\<lambda>c. \<not> is_space c) (lit ''sha256:'')" by (simp add: lit_def is_space_def)
  moreover assume "store_ok e"
  ultimately show ?thesis by (intro conjI strip_clean) (simp_all add: sha256_of_def store_ok_def)
qed

lemma read_ref_json:
  "read_state_file_ref e fs (ref_json r) = Inr (read_state_file e fs r)"
  by (cases r) (simp add: read_state_file_ref_def ref_json_def key_or_null_def)

lemma read_in_base:
  assumes "store_ok e" "list_all good_part (snapshot_base e a @ ps)"
  shows "read_state_file e fs \<lparr>xr_type = lit ''state-file'', xr_locator = relative_workspace_path e (snapshot_base e a @ ps)\<rparr>
    = map_of fs (snapshot_base e a @ ps)"
proof -
  have "snapshot_base e a @ ps \<noteq> []" using base_shape(2) [of e a] by simp
  from relative_resolves [OF assms base_not_workspace [OF assms(1)] this]
  show ?thesis by (simp add: read_state_file_def)
qed

lemma read_manifest:
  assumes "store_ok e" "commit_ok e fresh a"
  shows "read_state_file e fs (manifest_ref e a) = map_of fs (snapshot_base e a @ [lit ''manifest.json''])"
proof -
  have "list_all good_part (snapshot_base e a @ [lit ''manifest.json''])"
    using assms(2) by (simp add: commit_ok_def)
  from read_in_base [OF assms(1) this] show ?thesis by (simp add: manifest_ref_def)
qed

lemma read_blob:
  assumes "store_ok e" "commit_ok e fresh a"
  shows "read_state_file e fs (entry_ref e a n) = map_of fs (blob_path e (snapshot_base e a) n)"
proof -
  have "list_all good_part (blob_path e (snapshot_base e a) n)"
    using blob_norm [OF assms(1)] assms(2) by (simp add: commit_ok_def)
  from read_in_base [OF assms(1) this [unfolded blob_path_def]] show ?thesis
    by (simp add: entry_ref_def blob_path_def)
qed

lemma manifest_keys:
  "map_of (manifest_json e now a) (lit ''checksum'') = Some (JStr (manifest_checksum e now a))"
  "manifest_entries (manifest_json e now a) = map (entry_json e a) (snapshot_entries a)"
  "filter (\<lambda>(k, _). k \<noteq> lit ''checksum'') (manifest_json e now a) = manifest_body e now a"
  by (simp_all add: manifest_json_def manifest_body_def manifest_entries_def key_or_null_def)

lemma check_entries_all:
  "check_entries e fs xs = Inr () \<longleftrightarrow> (\<forall>x\<in>set xs. check_entry e fs x = Inr ())"
  by (induction xs) (auto split: sum.split)

lemma check_entry_json:
  assumes "store_ok e" "commit_ok e fresh a"
  shows "check_entry e fs (entry_json e a (n, v)) = Inr () \<longleftrightarrow>
    (\<exists>w. map_of fs (blob_path e (snapshot_base e a) n) = Some w \<and> w \<noteq> JNull \<and> sha256_of e w = sha256_of e v)"
  using checksum_clean [OF assms(1)]
  by (auto simp: check_entry_def entry_json_def key_or_null_def read_ref_json read_blob [OF assms] Let_def
      split: option.split)

lemma load_manifest:
  assumes "store_ok e" "commit_ok e fresh a"
  shows "load_snapshot_manifest e fs (Some (manifest_ref e a)) =
    (case map_of fs (snapshot_base e a @ [lit ''manifest.json'']) of
       Some (JObj d) \<Rightarrow> Inr d | _ \<Rightarrow> Inl (FileNotFoundError (lit ''Snapshot manifest not found'')))"
  unfolding load_snapshot_manifest_def by (simp add: read_manifest [OF assms])

text \<open>A step that changes files only below some directories.\<close>

fun step_within :: "path set \<Rightarrow> file_step \<Rightarrow> bool" where
  "step_within D (WriteFile p v) = (\<exists>d\<in>D. prefix d (norm_path p))"
| "step_within D (RemoveTree p) = (norm_path p \<in> D)"
| "step_within D (RenameTree p q) = (norm_path p \<in> D \<and> norm_path q \<in> D)"

lemma steps_within:
  "list_all (step_within D) steps \<Longrightarrow> \<forall>d\<in>D. \<not> prefix d q \<Longrightarrow> map_of (fold run_step steps fs) q = map_of fs q"
proof (induction steps arbitrary: fs)
  case (Cons st steps)
  have "map_of (run_step st fs) q = map_of fs q"
  proof (cases st)
    case (RenameTree p p')
    then show ?thesis using Cons.prems
      by (auto simp: run_step.simps map_add_def map_of_moved split: option.split)
  next
    case (RemoveTree p)
    then show ?thesis using Cons.prems by (auto simp: run_step.simps)
  next
    case (WriteFile p v)
    then show ?thesis using Cons.prems by auto
  qed
  with Cons show ?case by simp
qed simp

lemma staging_within:
  assumes "store_ok e" "commit_ok e fresh a"
  shows "list_all (step_within {temporary_base e fresh a}) (staging_steps e now fresh a)"
proof -
  note g = temporary_good [OF assms(2)]
  have "prefix (temporary_base e fresh a) (norm_path (blob_path e (temporary_base e fresh a) n))" for n
    using blob_norm [OF assms(1) g, of n] by (simp add: blob_path_def)
  then show ?thesis using g by (auto simp: staging_steps_def list_all_iff)
qed

lemma commit_within:
  assumes "store_ok e" "commit_ok e fresh a"
  shows "list_all (step_within {temporary_base e fresh a, snapshot_base e a}) (commit_steps e now fresh a)"
proof -
  have "step_within {temporary_base e fresh a, snapshot_base e a} st"
    if "step_within {temporary_base e fresh a} st" for st
    using that by (cases st) auto
  then have "list_all (step_within {temporary_base e fresh a, snapshot_base e a}) (staging_steps e now fresh a)"
    using staging_within [OF assms] by (simp add: list_all_iff)
  then show ?thesis using assms(2) temporary_good [OF assms(2)]
    by (simp add: commit_steps_eq commit_ok_def)
qed

lemma committed_verifies:
  assumes "store_ok e" "commit_ok e fresh a"
  shows "verify_snapshot_manifest e (committed e now fresh a fs) (Some (manifest_ref e a))
    (Some (manifest_checksum e now a)) = Inr (manifest_json e now a)"
proof -
  have nn: "v \<noteq> JNull" if "(n, v) \<in> set (snapshot_entries a)" for n v
    using that assms(2) by (force simp: commit_ok_def)
  have checks: "check_entries e (committed e now fresh a fs) (map (entry_json e a) (snapshot_entries a)) = Inr ()"
    using committed_blob [OF assms] nn by (auto simp: check_entries_all check_entry_json [OF assms])
  then show ?thesis
    using checksum_clean [OF assms(1)] committed_manifest [OF assms(2), of now fs]
    by (simp add: verify_snapshot_manifest_def load_manifest [OF assms] manifest_keys Let_def
        manifest_checksum_def str_or_def)
qed

text \<open>C31: a committed snapshot verifies and reads back: whatever was on the disk before, the manifest is
  found under the returned reference, its checksum is the returned one, every part reads back as
  it was given, and no file outside the directory of the snapshot and its temporary twin has changed.\<close>

theorem committed_snapshot_verifies:
  assumes "store_ok e" "commit_ok e fresh a" "commit_snapshot_manifest e now fresh a fs = (fs', ref, checksum)"
  shows "verify_snapshot_manifest e fs' (Some ref) (Some checksum) = Inr (manifest_json e now a)
    \<and> (\<forall>(n, v)\<in>set (snapshot_entries a). read_snapshot_entry e fs' (manifest_json e now a) n dflt = Inr v)
    \<and> (\<forall>q. \<not> prefix (snapshot_base e a) q \<and> \<not> prefix (temporary_base e fresh a) q \<longrightarrow> map_of fs' q = map_of fs q)"
proof -
  have r: "fs' = committed e now fresh a fs" "ref = manifest_ref e a" "checksum = manifest_checksum e now a"
    using assms(3) by (auto simp: committed_def commit_snapshot_manifest_def)
  have "verify_snapshot_manifest e fs' (Some ref) (Some checksum) = Inr (manifest_json e now a)"
    unfolding r by (rule committed_verifies [OF assms(1,2)])
  moreover have "read_snapshot_entry e fs' (manifest_json e now a) n dflt = Inr v"
    if m: "(n, v) \<in> set (snapshot_entries a)" for n v
  proof -
    have "map_of (map (entry_json e a) (snapshot_entries a)) n = Some (snd (entry_json e a (n, v)))"
      using distinct_entries [of a] m
      by (intro map_of_is_SomeI) (auto simp: comp_def entry_json_def image_iff intro!: bexI [of _ "(n, v)"])
    then show ?thesis
      using committed_blob [OF assms(1,2) m, of now fs]
      by (simp add: read_snapshot_entry_def manifest_keys entry_json_def key_or_null_def read_ref_json
          read_blob [OF assms(1,2)] r(1))
  qed
  moreover have "map_of fs' q = map_of fs q"
    if q: "\<not> prefix (snapshot_base e a) q" "\<not> prefix (temporary_base e fresh a) q" for q
    using steps_within [OF commit_within [OF assms(1,2)], of q now fs] q
    by (simp add: r(1) committed_def commit_snapshot_manifest_def)
  ultimately show ?thesis by blast
qed


text \<open>C32: a commit is atomic for a new snapshot: a crash after any number of its steps but the last leaves a
  reference that does not verify, never a half-written snapshot that does, and no other file has
  changed. When the directory of the snapshot is replaced there is one such point as well: between
  removing the old directory and renaming the new one neither snapshot verifies.\<close>

theorem commit_is_atomic:
  assumes "store_ok e" "commit_ok e fresh a" "k < length (commit_steps e now fresh a)"
    "below (snapshot_base e a) fs = [] \<or> Suc k = length (commit_steps e now fresh a)"
    "fs' = fold run_step (take k (commit_steps e now fresh a)) fs"
  shows "\<not> is_ok (verify_snapshot_manifest e fs' (Some (manifest_ref e a)) expected)
    \<and> (\<forall>q. \<not> prefix (snapshot_base e a) q \<and> \<not> prefix (temporary_base e fresh a) q \<longrightarrow> map_of fs' q = map_of fs q)"
proof -
  let ?n = "length (staging_steps e now fresh a)"
  let ?m = "snapshot_base e a @ [lit ''manifest.json'']"
  have b: "norm_path (snapshot_base e a) = snapshot_base e a" using assms(2) by (simp add: commit_ok_def)
  have none: "map_of fs' ?m = None"
  proof (cases "k \<le> ?n")
    case True
    have empty: "map_of fs ?m = None" if "below (snapshot_base e a) fs = []"
    proof -
      have "?m \<notin> fst ` set fs" using that by (force simp: below_def filter_empty_conv)
      then show ?thesis by (simp add: map_of_eq_None_iff)
    qed
    have l: "list_all (step_within {temporary_base e fresh a}) (take k (staging_steps e now fresh a))"
      using staging_within [OF assms(1,2)] by (auto simp: list_all_iff dest: in_set_takeD)
    have "\<not> prefix (temporary_base e fresh a) ?m"
      by (rule parallel_append [OF parallel_bases])
    then have np: "\<forall>d\<in>{temporary_base e fresh a}. \<not> prefix d ?m" by simp
    have t: "take k (commit_steps e now fresh a) = take k (staging_steps e now fresh a)"
      using True by (simp add: commit_steps_eq)
    have "map_of fs' ?m = map_of fs ?m"
      unfolding assms(5) t by (rule steps_within [OF l np])
    with empty True assms(4) show ?thesis by (auto simp: commit_steps_eq)
  next
    case False
    then have "k = Suc ?n" using assms(3) by (simp add: commit_steps_eq)
    then have "fs' = run_step (RemoveTree (snapshot_base e a)) (staged e now fresh a fs)"
      by (simp add: assms(5) commit_steps_eq staging_fold)
    then show ?thesis by (simp add: run_step.simps b)
  qed
  have "\<not> is_ok (verify_snapshot_manifest e fs' (Some (manifest_ref e a)) expected)"
    by (simp add: verify_snapshot_manifest_def load_manifest [OF assms(1,2)] none)
  moreover have "list_all (step_within {temporary_base e fresh a, snapshot_base e a}) (take k (commit_steps e now fresh a))"
    using commit_within [OF assms(1,2)] by (auto simp: list_all_iff dest: in_set_takeD)
  ultimately show ?thesis using steps_within unfolding assms(5) by blast
qed



text \<open>The part \<open>..\<close> is kept, so that it leads out of the directory of the snapshots.\<close>

theorem dot_dot_leaves_store:
  assumes "store_ok e" "ca_project_id a = lit ''..''" "se_dir e \<noteq> []"
    "good_part (safe_part e (ca_task_id a))" "good_part (safe_part e (ca_snapshot_id a))"
  shows "norm_path (snapshot_base e a) =
    butlast (se_dir e) @ [safe_part e (ca_task_id a), safe_part e (ca_snapshot_id a)]"
proof -
  have s: "safe_part e (lit ''..'') = lit ''..''"
    by (simp add: safe_part_def lit_def strip_def rstrip_def is_space_def str_or_def)
  have n: "norm_from acc (ps @ qs) = norm_from (rev ps @ acc) qs" if "list_all good_part ps" for acc ps qs
    using that by (induction ps arbitrary: acc) (simp_all add: good_part_def)
  have "tl (rev (se_dir e)) = rev (butlast (se_dir e))" by (metis butlast_rev rev_rev_ident)
  then show ?thesis
    using assms(1,4,5) by (simp add: norm_path_def snapshot_base_def assms(2) s n store_ok_def good_part_def)
qed

section \<open>A concrete store\<close>

definition demo_env :: store_env where
  "demo_env =
     \<lparr>se_workspace = [lit ''ws''], se_dir = [lit ''ws'', lit ''snapshots''],
      se_alnum = (\<lambda>c. 48 \<le> c \<and> c \<le> 57 \<or> 65 \<le> c \<and> c \<le> 90 \<or> 97 \<le> c \<and> c \<le> 122),
      se_digest = (\<lambda>v. filter (\<lambda>c. \<not> is_space c)
        (case v of JObj d \<Rightarrow> (case key_or_null (lit ''snapshotId'') d of JStr s \<Rightarrow> s | _ \<Rightarrow> []) | _ \<Rightarrow> [])),
      se_str = (\<lambda>_. [])\<rparr>"

definition demo_args :: "string \<Rightarrow> commit_args" where
  "demo_args i =
     \<lparr>ca_project_id = lit ''p'', ca_task_id = lit ''t'', ca_snapshot_id = lit i,
      ca_retention_class = lit ''active-paused'', ca_snapshot_type = lit ''pause'',
      ca_root_mount = JObj [], ca_current_context = JList [], ca_request_state = JObj [],
      ca_pending_actions = JList [], ca_pending_writes = JList [], ca_tool_state = JNull,
      ca_budget_state = JNull, ca_routing_state = JNull, ca_metadata = JNull\<rparr>"

lemma demo_store_ok [simp]: "store_ok demo_env"
  by (auto simp: store_ok_def demo_env_def good_part_def lit_def slash_def list_all_iff)

lemma demo_safe:
  "safe_part demo_env (lit ''p'') = lit ''p''" "safe_part demo_env (lit ''t'') = lit ''t''"
  "safe_part demo_env (lit ''a_b'') = lit ''a_b''" "safe_part demo_env (lit ''a/b'') = lit ''a_b''"
  by (simp_all add: safe_part_def demo_env_def lit_def strip_def rstrip_def is_space_def str_or_def)

lemma demo_base:
  "snapshot_base demo_env (demo_args ''a_b'') = [lit ''ws'', lit ''snapshots'', lit ''p'', lit ''t'', lit ''a_b'']"
  "snapshot_base demo_env (demo_args ''a/b'') = [lit ''ws'', lit ''snapshots'', lit ''p'', lit ''t'', lit ''a_b'']"
  by (simp_all add: snapshot_base_def demo_args_def demo_safe) (simp_all add: demo_env_def)

lemma demo_entries: "JNull \<notin> set (map snd (snapshot_entries (demo_args i)))"
  by (simp add: snapshot_entries_def demo_args_def or_empty_def)

lemma demo_commit_ok [simp]: "commit_ok demo_env (lit ''x'') (demo_args ''a_b'')" "commit_ok demo_env (lit ''x'') (demo_args ''a/b'')"
  unfolding commit_ok_def demo_base using demo_entries
  by (simp_all add: good_part_def lit_def slash_def)

theorem committed_snapshot_verifies_witness:
  "\<exists>fs ref checksum. commit_snapshot_manifest demo_env [] (lit ''x'') (demo_args ''a_b'') [] = (fs, ref, checksum)
    \<and> verify_snapshot_manifest demo_env fs (Some ref) (Some checksum) = Inr (manifest_json demo_env [] (demo_args ''a_b''))"
proof -
  obtain fs ref checksum where c: "commit_snapshot_manifest demo_env [] (lit ''x'') (demo_args ''a_b'') [] = (fs, ref, checksum)"
    by (metis prod_cases3)
  from committed_snapshot_verifies [OF demo_store_ok demo_commit_ok(1) c, of JNull] c show ?thesis by blast
qed

theorem commit_is_atomic_witness:
  "\<not> is_ok (verify_snapshot_manifest demo_env
      (fold run_step (take 5 (commit_steps demo_env [] (lit ''x'') (demo_args ''a_b''))) [])
      (Some (manifest_ref demo_env (demo_args ''a_b''))) None)"
proof -
  have k: "5 < length (commit_steps demo_env [] (lit ''x'') (demo_args ''a_b''))"
    by (simp add: commit_steps_def snapshot_entries_def Let_def)
  have e: "below (snapshot_base demo_env (demo_args ''a_b'')) []  = []
      \<or> Suc 5 = length (commit_steps demo_env [] (lit ''x'') (demo_args ''a_b''))"
    by (simp add: below_def)
  from commit_is_atomic [OF demo_store_ok demo_commit_ok(1) k e refl] show ?thesis by blast
qed




end
