(* ===== verification/Coordination.thy ===== *)
theory Coordination
  imports Prelude
begin

text \<open>
  \<open>persistence/coordination.py\<close>: locks, queues and a cache in Redis, with a fallback in the memory of the
  process. The Redis client is the parameter \<open>redis_ops\<close>, its operations on the state of a server, each of
  which may raise; \<open>json.dumps\<close> and \<open>json.loads\<close> are parameters of the settings. Times are those of the
  monotonic clock; an operation reads the clock once.
\<close>

record 'r redis_ops =
  rd_ping :: "'r \<Rightarrow> 'r \<times> unit res"
  rd_set :: "ustr \<Rightarrow> ustr \<Rightarrow> int option \<Rightarrow> bool \<Rightarrow> 'r \<Rightarrow> 'r \<times> bool res"
  rd_get :: "ustr \<Rightarrow> 'r \<Rightarrow> 'r \<times> ustr option res"
  rd_delete :: "ustr \<Rightarrow> 'r \<Rightarrow> 'r \<times> unit res"
  rd_rpush :: "ustr \<Rightarrow> ustr \<Rightarrow> 'r \<Rightarrow> 'r \<times> int res"
  rd_lpop :: "ustr \<Rightarrow> 'r \<Rightarrow> 'r \<times> ustr option res"
  rd_blpop :: "ustr \<Rightarrow> int \<Rightarrow> 'r \<Rightarrow> 'r \<times> ustr option res"
  rd_flushdb :: "'r \<Rightarrow> 'r \<times> unit res"

record coordination_settings =
  cd_backend :: ustr
  cd_redis_url :: ustr
  cd_failure_ttl :: int
  cd_cache_namespace :: ustr
  cd_queue_namespace :: ustr
  cd_dumps :: "json \<Rightarrow> ustr"
  cd_loads :: "ustr \<Rightarrow> json res"

text \<open>The module-level dictionaries, shared by the coordinators of a process.\<close>

record coordination_memory =
  mm_cache :: "ustr \<Rightarrow> ustr option"
  mm_queues :: "ustr \<Rightarrow> ustr list"
  mm_locks :: "ustr \<Rightarrow> (ustr \<times> int) option"
  mm_failures :: "ustr \<Rightarrow> (int \<times> ustr) option"

definition reset_memory_coordination :: coordination_memory where
  "reset_memory_coordination =
     \<lparr>mm_cache = Map.empty, mm_queues = (\<lambda>_. []), mm_locks = Map.empty, mm_failures = Map.empty\<rparr>"

text \<open>The memory, the server, and whether this coordinator has a client.\<close>

record 'r coordination =
  cn_memory :: coordination_memory
  cn_server :: 'r
  cn_connected :: bool

section \<open>The client and its failures\<close>

definition failure_cache_key :: "coordination_settings \<Rightarrow> ustr" where
  "failure_cache_key c = cd_backend c @ lit '':'' @ cd_redis_url c"

definition recent_failure ::
  "coordination_settings \<Rightarrow> int \<Rightarrow> coordination_memory \<Rightarrow> coordination_memory \<times> ustr option" where
  "recent_failure c now m =
     (if max 0 (cd_failure_ttl c) \<le> 0 then (m, None)
      else (case mm_failures m (failure_cache_key c) of
              None \<Rightarrow> (m, None)
            | Some (recorded_at, detail) \<Rightarrow>
                if now - recorded_at < max 0 (cd_failure_ttl c) then (m, Some detail)
                else (m\<lparr>mm_failures := (mm_failures m)(failure_cache_key c := None)\<rparr>, None)))"

definition remember_failure ::
  "coordination_settings \<Rightarrow> int \<Rightarrow> ustr \<Rightarrow> coordination_memory \<Rightarrow> coordination_memory" where
  "remember_failure c now detail m =
     m\<lparr>mm_failures := (mm_failures m)(failure_cache_key c \<mapsto> (now, detail))\<rparr>"

definition clear_failure :: "coordination_settings \<Rightarrow> coordination_memory \<Rightarrow> coordination_memory" where
  "clear_failure c m = m\<lparr>mm_failures := (mm_failures m)(failure_cache_key c := None)\<rparr>"

fun error_text :: "py_error \<Rightarrow> ustr" where
  "error_text (ValueError s) = s"
| "error_text (KeyError s) = s"
| "error_text (RuntimeError s) = s"
| "error_text (AttributeError s) = s"
| "error_text (IntegrityError s) = s"
| "error_text (FileNotFoundError s) = s"
| "error_text (TypeError s) = s"
| "error_text MultipleResultsFound = []"
| "error_text NoResultFound = []"
| "error_text PendingRollbackError = []"

definition is_memory :: "coordination_settings \<Rightarrow> bool" where
  "is_memory c \<longleftrightarrow> cd_backend c = lit ''memory''"

definition client ::
  "coordination_settings \<Rightarrow> 'r redis_ops \<Rightarrow> int \<Rightarrow> 'r coordination \<Rightarrow> 'r coordination \<times> unit res" where
  "client c rd now w =
     (if is_memory c then
        (w, Inl (RuntimeError (lit ''Coordination backend is configured to use in-memory mode.'')))
      else if cn_connected w then (w, Inr ())
      else
        (case recent_failure c now (cn_memory w) of
           (m, Some detail) \<Rightarrow>
             (w\<lparr>cn_memory := m\<rparr>,
              Inl (RuntimeError (lit ''Redis coordination is temporarily unavailable: '' @ detail)))
         | (m, None) \<Rightarrow>
             (case rd_ping rd (cn_server w) of
                (r, Inl err) \<Rightarrow>
                  (w\<lparr>cn_server := r, cn_memory := remember_failure c now (error_text err) m\<rparr>, Inl err)
              | (r, Inr _) \<Rightarrow>
                  (w\<lparr>cn_server := r, cn_memory := clear_failure c m, cn_connected := True\<rparr>, Inr ()))))"

text \<open>\<open>try: ... self.client().op(...) except: ...\<close>: the operation on the server, or \<open>None\<close> and the state
  in which the exception is handled.\<close>

definition on_server ::
  "coordination_settings \<Rightarrow> 'r redis_ops \<Rightarrow> int \<Rightarrow> ('r \<Rightarrow> 'r \<times> 'a res) \<Rightarrow> 'r coordination
     \<Rightarrow> 'r coordination \<times> 'a option" where
  "on_server c rd now operation w =
     (case client c rd now w of
        (w1, Inl _) \<Rightarrow> (w1, None)
      | (w1, Inr _) \<Rightarrow>
          (case operation (cn_server w1) of
             (r, Inl _) \<Rightarrow> (w1\<lparr>cn_server := r\<rparr>, None)
           | (r, Inr x) \<Rightarrow> (w1\<lparr>cn_server := r\<rparr>, Some x)))"

definition backend ::
  "coordination_settings \<Rightarrow> int \<Rightarrow> 'r coordination \<Rightarrow> 'r coordination \<times> ustr" where
  "backend c now w =
     (if is_memory c then (w, lit ''memory'')
      else if cn_connected w then (w, lit ''redis'')
      else
        (case recent_failure c now (cn_memory w) of
           (m, Some _) \<Rightarrow>
             (w\<lparr>cn_memory := m\<rparr>,
              if cd_backend c = lit ''auto'' then lit ''memory-fallback'' else lit ''redis-unavailable'')
         | (m, None) \<Rightarrow> (w\<lparr>cn_memory := m\<rparr>, cd_backend c)))"

definition flushdb ::
  "coordination_settings \<Rightarrow> 'r redis_ops \<Rightarrow> int \<Rightarrow> 'r coordination \<Rightarrow> 'r coordination \<times> bool" where
  "flushdb c rd now w =
     (let w0 = w\<lparr>cn_memory := reset_memory_coordination\<rparr>
      in if is_memory c then (w0, True)
         else
           (case client c rd now w0 of
              (w1, Inl err) \<Rightarrow> (w1\<lparr>cn_memory := remember_failure c now (error_text err) (cn_memory w1)\<rparr>, False)
            | (w1, Inr _) \<Rightarrow>
                (case rd_flushdb rd (cn_server w1) of
                   (r, Inl err) \<Rightarrow>
                     (w1\<lparr>cn_server := r, cn_memory := remember_failure c now (error_text err) (cn_memory w1)\<rparr>, False)
                 | (r, Inr _) \<Rightarrow> (w1\<lparr>cn_server := r\<rparr>, True))))"

section \<open>Cache\<close>

definition cache_key :: "coordination_settings \<Rightarrow> ustr \<Rightarrow> ustr" where
  "cache_key c key = cd_cache_namespace c @ lit '':cache:'' @ key"

definition cache_json ::
  "coordination_settings \<Rightarrow> 'r redis_ops \<Rightarrow> int \<Rightarrow> ustr \<Rightarrow> json \<Rightarrow> int option \<Rightarrow> 'r coordination \<Rightarrow> 'r coordination" where
  "cache_json c rd now key payload ttl w =
     (case on_server c rd now (rd_set rd (cache_key c key) (cd_dumps c payload) ttl False) w of
        (w1, Some _) \<Rightarrow> w1
      | (w1, None) \<Rightarrow>
          w1\<lparr>cn_memory := (cn_memory w1)
               \<lparr>mm_cache := (mm_cache (cn_memory w1))(cache_key c key \<mapsto> cd_dumps c payload)\<rparr>\<rparr>)"

definition load_json ::
  "coordination_settings \<Rightarrow> 'r redis_ops \<Rightarrow> int \<Rightarrow> ustr \<Rightarrow> 'r coordination \<Rightarrow> 'r coordination \<times> json option res" where
  "load_json c rd now key w =
     (let (w1, found) = on_server c rd now (rd_get rd (cache_key c key)) w;
          value = (case found of Some v \<Rightarrow> v | None \<Rightarrow> mm_cache (cn_memory w1) (cache_key c key))
      in (w1, case value of None \<Rightarrow> Inr None | Some s \<Rightarrow> map_sum id Some (cd_loads c s)))"

section \<open>Locks\<close>

definition lock_key :: "coordination_settings \<Rightarrow> ustr \<Rightarrow> ustr" where
  "lock_key c key = cd_cache_namespace c @ lit '':lock:'' @ key"

definition memory_acquire ::
  "int \<Rightarrow> ustr \<Rightarrow> ustr \<Rightarrow> int \<Rightarrow> coordination_memory \<Rightarrow> coordination_memory \<times> bool" where
  "memory_acquire now key owner ttl m =
     (case mm_locks m key of
        Some (holder, expires) \<Rightarrow>
          if expires > now \<and> holder \<noteq> owner then (m, False)
          else (m\<lparr>mm_locks := (mm_locks m)(key \<mapsto> (owner, now + ttl))\<rparr>, True)
      | None \<Rightarrow> (m\<lparr>mm_locks := (mm_locks m)(key \<mapsto> (owner, now + ttl))\<rparr>, True))"

definition acquire_lock ::
  "coordination_settings \<Rightarrow> 'r redis_ops \<Rightarrow> int \<Rightarrow> ustr \<Rightarrow> ustr \<Rightarrow> int \<Rightarrow> 'r coordination
     \<Rightarrow> 'r coordination \<times> bool" where
  "acquire_lock c rd now key owner ttl w =
     (case on_server c rd now (rd_set rd (lock_key c key) owner (Some ttl) True) w of
        (w1, Some b) \<Rightarrow> (w1, b)
      | (w1, None) \<Rightarrow>
          (let (m, b) = memory_acquire now (lock_key c key) owner ttl (cn_memory w1)
           in (w1\<lparr>cn_memory := m\<rparr>, b)))"

definition memory_release :: "ustr \<Rightarrow> ustr \<Rightarrow> coordination_memory \<Rightarrow> coordination_memory \<times> bool" where
  "memory_release key owner m =
     (case mm_locks m key of
        None \<Rightarrow> (m, False)
      | Some (holder, _) \<Rightarrow>
          if holder \<noteq> owner then (m, False) else (m\<lparr>mm_locks := (mm_locks m)(key := None)\<rparr>, True))"

text \<open>On the server a release is a \<open>GET\<close>, a comparison, and a \<open>DEL\<close>.\<close>

definition server_release :: "'r redis_ops \<Rightarrow> ustr \<Rightarrow> ustr \<Rightarrow> 'r \<Rightarrow> 'r \<times> bool res" where
  "server_release rd key owner r =
     (case rd_get rd key r of
        (r1, Inl err) \<Rightarrow> (r1, Inl err)
      | (r1, Inr holder) \<Rightarrow>
          if holder \<noteq> Some owner then (r1, Inr False)
          else (case rd_delete rd key r1 of
                  (r2, Inl err) \<Rightarrow> (r2, Inl err)
                | (r2, Inr _) \<Rightarrow> (r2, Inr True)))"

definition release_lock ::
  "coordination_settings \<Rightarrow> 'r redis_ops \<Rightarrow> int \<Rightarrow> ustr \<Rightarrow> ustr \<Rightarrow> 'r coordination \<Rightarrow> 'r coordination \<times> bool" where
  "release_lock c rd now key owner w =
     (case on_server c rd now (server_release rd (lock_key c key) owner) w of
        (w1, Some b) \<Rightarrow> (w1, b)
      | (w1, None) \<Rightarrow>
          (let (m, b) = memory_release (lock_key c key) owner (cn_memory w1)
           in (w1\<lparr>cn_memory := m\<rparr>, b)))"

section \<open>Queues\<close>

definition queue_key :: "coordination_settings \<Rightarrow> ustr \<Rightarrow> ustr" where
  "queue_key c queue = cd_queue_namespace c @ lit '':'' @ queue"

definition enqueue_job ::
  "coordination_settings \<Rightarrow> 'r redis_ops \<Rightarrow> int \<Rightarrow> ustr \<Rightarrow> json \<Rightarrow> 'r coordination \<Rightarrow> 'r coordination \<times> int" where
  "enqueue_job c rd now queue payload w =
     (case on_server c rd now (rd_rpush rd (queue_key c queue) (cd_dumps c payload)) w of
        (w1, Some n) \<Rightarrow> (w1, n)
      | (w1, None) \<Rightarrow>
          (let jobs = mm_queues (cn_memory w1) (queue_key c queue) @ [cd_dumps c payload]
           in (w1\<lparr>cn_memory := (cn_memory w1)
                 \<lparr>mm_queues := (mm_queues (cn_memory w1))(queue_key c queue := jobs)\<rparr>\<rparr>, int (length jobs))))"

text \<open>The \<open>json.loads\<close> of a popped item is inside the \<open>try\<close>.\<close>

definition server_pop :: "coordination_settings \<Rightarrow> 'r redis_ops \<Rightarrow> ustr \<Rightarrow> int \<Rightarrow> 'r \<Rightarrow> 'r \<times> json option res" where
  "server_pop c rd key timeout r =
     (case (if timeout = 0 then rd_lpop rd key r else rd_blpop rd key timeout r) of
        (r1, Inl err) \<Rightarrow> (r1, Inl err)
      | (r1, Inr None) \<Rightarrow> (r1, Inr None)
      | (r1, Inr (Some s)) \<Rightarrow> (r1, map_sum id Some (cd_loads c s)))"

definition pop_job ::
  "coordination_settings \<Rightarrow> 'r redis_ops \<Rightarrow> int \<Rightarrow> ustr \<Rightarrow> int \<Rightarrow> 'r coordination
     \<Rightarrow> 'r coordination \<times> json option res" where
  "pop_job c rd now queue timeout w =
     (case on_server c rd now (server_pop c rd (queue_key c queue) timeout) w of
        (w1, Some item) \<Rightarrow> (w1, Inr item)
      | (w1, None) \<Rightarrow>
          (case mm_queues (cn_memory w1) (queue_key c queue) of
             [] \<Rightarrow> (w1, Inr None)
           | s # jobs \<Rightarrow>
               (w1\<lparr>cn_memory := (cn_memory w1)
                     \<lparr>mm_queues := (mm_queues (cn_memory w1))(queue_key c queue := jobs)\<rparr>\<rparr>,
                map_sum id Some (cd_loads c s))))"

end
