(* ===== verification/CoordinationProps.thy ===== *)
theory CoordinationProps
  imports Coordination
begin

text \<open>
  What the coordinator promises: in memory a lock excludes other owners until it expires or is released, and
  queues are first in, first out; and what it does not: with Redis and the fallback mixed, two owners can hold
  one lock.
\<close>

section \<open>The backends\<close>

lemma on_server_memory [simp]: "is_memory c \<Longrightarrow> on_server c rd now operation w = (w, None)"
  by (simp add: on_server_def client_def)

lemma failed_client: "client c rd now w = (w1, Inl err) \<Longrightarrow> on_server c rd now operation w = (w1, None)"
  by (simp add: on_server_def)

lemma client_keeps_locks:
  "client c rd now w = (w1, x) \<Longrightarrow> mm_locks (cn_memory w1) = mm_locks (cn_memory w)"
  by (auto simp: client_def recent_failure_def remember_failure_def clear_failure_def
      split: if_splits option.splits prod.splits sum.splits)

section \<open>Locks in memory\<close>

text \<open>What coordinators do while \<open>owner\<close> holds the lock \<open>key\<close>: anything but a release or a renewal by the
  owner itself and a reset of the memory, before the time \<open>until\<close>.\<close>

inductive other_op :: "coordination_settings \<Rightarrow> 'r redis_ops \<Rightarrow> ustr \<Rightarrow> ustr \<Rightarrow> int \<Rightarrow> 'r coordination \<Rightarrow> 'r coordination \<Rightarrow> bool"
  for c rd key owner until where
  acquire: "now < until \<Longrightarrow> (k, b) \<noteq> (key, owner) \<Longrightarrow> other_op c rd key owner until w (fst (acquire_lock c rd now k b ttl w))"
| release: "now < until \<Longrightarrow> (k, b) \<noteq> (key, owner) \<Longrightarrow> other_op c rd key owner until w (fst (release_lock c rd now k b w))"
| cache: "other_op c rd key owner until w (cache_json c rd now k payload expires w)"
| load: "other_op c rd key owner until w (fst (load_json c rd now k w))"
| enqueue: "other_op c rd key owner until w (fst (enqueue_job c rd now q payload w))"
| pop: "other_op c rd key owner until w (fst (pop_job c rd now q timeout w))"
| label: "other_op c rd key owner until w (fst (backend c now w))"

lemma lock_key_inject [simp]: "lock_key c k = lock_key c k' \<longleftrightarrow> k = k'"
  by (simp add: lock_key_def)

lemma other_op_keeps:
  "other_op c rd key owner until w w' \<Longrightarrow> is_memory c \<Longrightarrow>
     mm_locks (cn_memory w) (lock_key c key) = Some (owner, until) \<Longrightarrow>
     mm_locks (cn_memory w') (lock_key c key) = Some (owner, until)"
  by (induction rule: other_op.induct)
     (auto simp: acquire_lock_def memory_acquire_def release_lock_def memory_release_def cache_json_def load_json_def
       enqueue_job_def pop_job_def backend_def Let_def split: option.split list.split)

interpretation held_lock: invariant_system "other_op c rd key owner until"
  "\<lambda>w. is_memory c \<and> mm_locks (cn_memory w) (lock_key c key) = Some (owner, until)" for c rd key owner until
  by unfold_locales (auto dest: other_op_keeps)

lemma memory_acquired:
  assumes "is_memory c" "acquire_lock c rd now key owner ttl w = (w1, True)"
  shows "mm_locks (cn_memory w1) (lock_key c key) = Some (owner, now + ttl)"
  using assms by (auto simp: acquire_lock_def memory_acquire_def Let_def split: option.splits prod.splits if_splits)

text \<open>C35: in memory a lock excludes: once an owner has acquired it for some seconds, then until they have passed,
  whatever other coordinators of the process do, nobody else acquires it, nobody else releases it, and
  the owner itself may renew it.\<close>

theorem memory_lock_excludes:
  assumes "is_memory c" "acquire_lock c rd t key owner ttl w = (w1, True)"
    "(other_op c rd key owner (t + ttl))\<^sup>*\<^sup>* w1 w2" "now < t + ttl"
  shows "(\<forall>b ttl2. b \<noteq> owner \<longrightarrow> acquire_lock c rd now key b ttl2 w2 = (w2, False) \<and> release_lock c rd now key b w2 = (w2, False))
    \<and> (\<forall>ttl2. snd (acquire_lock c rd now key owner ttl2 w2))"
proof -
  have "mm_locks (cn_memory w2) (lock_key c key) = Some (owner, t + ttl)"
    using held_lock.reachable_inv [OF assms(3)] memory_acquired [OF assms(1,2)] assms(1) by blast
  then show ?thesis
    using assms(1,4) by (simp add: acquire_lock_def release_lock_def memory_acquire_def memory_release_def Let_def)
qed

section \<open>Redis and its fallback\<close>

text \<open>C36: the two backends do not know of each other's locks: after an owner has acquired a lock in Redis, a
  coordinator whose client fails (a refused connection, or a failure remembered from before) grants the
  same lock to a second owner from memory, whatever the lifetime of the first, and leaves the server
  as the client left it.\<close>

theorem fallback_grants_held_lock:
  assumes "client c rd t1 w = (w0, Inr ())" "acquire_lock c rd t1 key owner ttl w = (w1, True)"
    "rd_set rd (lock_key c key) owner (Some ttl) True (cn_server w0) = (r, Inr True)"
    "mm_locks (cn_memory w) (lock_key c key) = None"
    "client c rd t2 (w1\<lparr>cn_connected := False\<rparr>) = (w2, Inl err)" "other \<noteq> owner" "t2 < t1 + ttl"
  shows "\<exists>w3. acquire_lock c rd t2 key other ttl2 (w1\<lparr>cn_connected := False\<rparr>) = (w3, True)
    \<and> cn_server w3 = cn_server w2 \<and> mm_locks (cn_memory w3) (lock_key c key) = Some (other, t2 + ttl2)"
proof -
  have "w1 = w0\<lparr>cn_server := r\<rparr>" using assms(1-3) by (simp add: acquire_lock_def on_server_def)
  then have "mm_locks (cn_memory w1) (lock_key c key) = None"
    using client_keeps_locks [OF assms(1)] assms(4) by simp
  then have "mm_locks (cn_memory w2) (lock_key c key) = None"
    using client_keeps_locks [OF assms(5)] by simp
  then show ?thesis
    by (simp add: acquire_lock_def memory_acquire_def failed_client [OF assms(5)])
qed

section \<open>Queues in memory\<close>

primrec pop_jobs ::
  "coordination_settings \<Rightarrow> 'r redis_ops \<Rightarrow> int \<Rightarrow> ustr \<Rightarrow> nat \<Rightarrow> 'r coordination \<Rightarrow> 'r coordination \<times> json option res list" where
  "pop_jobs c rd now queue 0 w = (w, [])"
| "pop_jobs c rd now queue (Suc n) w =
     (let (w1, x) = pop_job c rd now queue 0 w; (w2, xs) = pop_jobs c rd now queue n w1 in (w2, x # xs))"

definition enqueue_jobs ::
  "coordination_settings \<Rightarrow> 'r redis_ops \<Rightarrow> int \<Rightarrow> ustr \<Rightarrow> json list \<Rightarrow> 'r coordination \<Rightarrow> 'r coordination" where
  "enqueue_jobs c rd now queue xs w = fold (\<lambda>x w. fst (enqueue_job c rd now queue x w)) xs w"

lemma enqueued:
  "is_memory c \<Longrightarrow> mm_queues (cn_memory (enqueue_jobs c rd now queue xs w)) (queue_key c queue)
     = mm_queues (cn_memory w) (queue_key c queue) @ map (cd_dumps c) xs"
  unfolding enqueue_jobs_def
  by (induction xs arbitrary: w) (simp_all add: enqueue_job_def Let_def)

lemma popped:
  "is_memory c \<Longrightarrow> mm_queues (cn_memory w) (queue_key c queue) = map (cd_dumps c) xs @ rest \<Longrightarrow>
     \<forall>x\<in>set xs. cd_loads c (cd_dumps c x) = Inr x \<Longrightarrow>
     \<exists>w'. pop_jobs c rd now queue (length xs) w = (w', map (Inr \<circ> Some) xs)
       \<and> mm_queues (cn_memory w') (queue_key c queue) = rest"
proof (induction xs arbitrary: w)
  case (Cons x xs)
  then obtain w1 where "pop_job c rd now queue 0 w = (w1, Inr (Some x))"
    "mm_queues (cn_memory w1) (queue_key c queue) = map (cd_dumps c) xs @ rest"
    by (simp add: pop_job_def)
  moreover from Cons.IH [OF Cons.prems(1) this(2)] Cons.prems(3) obtain w' where
    "pop_jobs c rd now queue (length xs) w1 = (w', map (Inr \<circ> Some) xs)"
    "mm_queues (cn_memory w') (queue_key c queue) = rest" by auto
  ultimately show ?case by simp
qed simp

text \<open>In memory a queue is first in, first out and loses nothing: jobs enqueued on an empty queue are popped
  in the same order, each once, and then the queue is empty.\<close>

theorem memory_queue_fifo:
  assumes "is_memory c" "mm_queues (cn_memory w) (queue_key c queue) = []"
    "\<forall>x\<in>set jobs. cd_loads c (cd_dumps c x) = Inr x"
  shows "\<exists>w'. pop_jobs c rd now queue (length jobs) (enqueue_jobs c rd now queue jobs w) = (w', map (Inr \<circ> Some) jobs)
    \<and> pop_job c rd now queue timeout w' = (w', Inr None)"
proof -
  have "mm_queues (cn_memory (enqueue_jobs c rd now queue jobs w)) (queue_key c queue) = map (cd_dumps c) jobs @ []"
    by (simp add: enqueued [OF assms(1)] assms(2))
  from popped [OF assms(1) this assms(3), of rd now] obtain w' where
    "pop_jobs c rd now queue (length jobs) (enqueue_jobs c rd now queue jobs w) = (w', map (Inr \<circ> Some) jobs)"
    "mm_queues (cn_memory w') (queue_key c queue) = []" by blast
  then show ?thesis using assms(1) by (auto simp: pop_job_def)
qed

section \<open>Concrete coordinators\<close>

text \<open>A server that answers \<open>PING\<close> once, keeps nothing and then refuses connections.\<close>

definition once_redis :: "nat redis_ops" where
  "once_redis =
     \<lparr>rd_ping = (\<lambda>n. (Suc n, if n = 0 then Inr () else Inl (RuntimeError (lit ''refused'')))),
      rd_set = (\<lambda>k v ex nx n. (n, Inr True)), rd_get = (\<lambda>k n. (n, Inr None)), rd_delete = (\<lambda>k n. (n, Inr ())),
      rd_rpush = (\<lambda>k v n. (n, Inr 0)), rd_lpop = (\<lambda>k n. (n, Inr None)), rd_blpop = (\<lambda>k t n. (n, Inr None)),
      rd_flushdb = (\<lambda>n. (n, Inr ()))\<rparr>"

definition demo_settings :: "string \<Rightarrow> coordination_settings" where
  "demo_settings b =
     \<lparr>cd_backend = lit b, cd_redis_url = lit ''u'', cd_failure_ttl = 5, cd_cache_namespace = lit ''c'',
      cd_queue_namespace = lit ''q'', cd_dumps = (\<lambda>v. case v of JStr s \<Rightarrow> s | _ \<Rightarrow> []), cd_loads = (\<lambda>s. Inr (JStr s))\<rparr>"

definition demo_coordination :: "nat coordination" where
  "demo_coordination = \<lparr>cn_memory = reset_memory_coordination, cn_server = 0, cn_connected = False\<rparr>"

lemma demo_memory [simp]: "is_memory (demo_settings ''memory'')" "\<not> is_memory (demo_settings ''auto'')"
  by (simp_all add: is_memory_def demo_settings_def)

theorem memory_lock_excludes_witness:
  "\<exists>w. acquire_lock (demo_settings ''memory'') once_redis 2 (lit ''k'') (lit ''a'') 30 demo_coordination = (w, True)
    \<and> acquire_lock (demo_settings ''memory'') once_redis 9 (lit ''k'') (lit ''b'') 30 w = (w, False)"
proof -
  obtain w where w: "acquire_lock (demo_settings ''memory'') once_redis 2 (lit ''k'') (lit ''a'') 30 demo_coordination = (w, True)"
    by (simp add: acquire_lock_def memory_acquire_def demo_coordination_def reset_memory_coordination_def)
  have "9 < (2::int) + 30" by simp
  from memory_lock_excludes [OF demo_memory(1) w rtranclp.rtrancl_refl this] w show ?thesis by auto
qed

theorem fallback_grants_held_lock_witness:
  "\<exists>w1 w2. acquire_lock (demo_settings ''auto'') once_redis 2 (lit ''k'') (lit ''a'') 30 demo_coordination = (w1, True)
    \<and> acquire_lock (demo_settings ''auto'') once_redis 9 (lit ''k'') (lit ''b'') 30 (w1\<lparr>cn_connected := False\<rparr>) = (w2, True)"
proof -
  let ?c = "demo_settings ''auto''"
  obtain w0 where c: "client ?c once_redis 2 demo_coordination = (w0, Inr ())"
    "cn_memory w0 = reset_memory_coordination" "cn_server w0 = Suc 0"
    by (simp add: client_def recent_failure_def demo_coordination_def reset_memory_coordination_def clear_failure_def
        once_redis_def fun_upd_idem)
  define w1 where "w1 = w0\<lparr>cn_server := Suc 0\<rparr>"
  have a: "acquire_lock ?c once_redis 2 (lit ''k'') (lit ''a'') 30 demo_coordination = (w1, True)"
    using c by (simp add: acquire_lock_def on_server_def) (simp add: once_redis_def w1_def)
  have s: "rd_set once_redis (lock_key ?c (lit ''k'')) (lit ''a'') (Some 30) True (cn_server w0) = (Suc 0, Inr True)"
    using c by (simp add: once_redis_def)
  have n: "mm_locks (cn_memory demo_coordination) (lock_key ?c (lit ''k'')) = None"
    by (simp add: demo_coordination_def reset_memory_coordination_def)
  obtain w2 err where d: "client ?c once_redis 9 (w1\<lparr>cn_connected := False\<rparr>) = (w2, Inl err)"
    using c(2) by (simp add: client_def recent_failure_def w1_def reset_memory_coordination_def) (simp add: once_redis_def)
  have o: "lit ''b'' \<noteq> lit ''a''" "9 < (2::int) + 30" by simp_all
  from fallback_grants_held_lock [OF c(1) a s n d o, of 30] a show ?thesis by blast
qed

theorem memory_queue_fifo_witness:
  "\<exists>w. pop_jobs (demo_settings ''memory'') once_redis 2 (lit ''q'') 2
      (enqueue_jobs (demo_settings ''memory'') once_redis 2 (lit ''q'') [JStr (lit ''x''), JStr (lit ''y'')] demo_coordination)
    = (w, [Inr (Some (JStr (lit ''x''))), Inr (Some (JStr (lit ''y'')))])"
proof -
  have q: "mm_queues (cn_memory demo_coordination) (queue_key (demo_settings ''memory'') (lit ''q'')) = []"
    by (simp add: demo_coordination_def reset_memory_coordination_def)
  have j: "\<forall>x\<in>set [JStr (lit ''x''), JStr (lit ''y'')].
      cd_loads (demo_settings ''memory'') (cd_dumps (demo_settings ''memory'') x) = Inr x"
    by (simp add: demo_settings_def)
  from memory_queue_fifo [OF demo_memory(1) q j, of once_redis 2] show ?thesis
    by (auto simp: numeral_2_eq_2)
qed

end
