(* ===== verification/RunTypeProps.thy ===== *)
theory RunTypeProps
  imports TaskStore
begin

text \<open>
  The typing of agent runs: a run of type fork names its parent, its root, its node, its anchor and its group
  and has a positive depth. Creations and updates keep this, unless an update claims another type.
\<close>

definition filled :: "ustr option \<Rightarrow> bool" where
  "filled v \<longleftrightarrow> strip (value_or v []) \<noteq> []"










text \<open>The type an update claims is validated and never stored, so that an update claiming the type main passes
  and can empty the fields of a fork.\<close>

theorem claimed_type_bypasses_validation:
  assumes "find_row ru_id runs i = Some r" "ru_run_type r = RtFork"
  shows "\<exists>runs' r'. update_agent_run now i (no_run_update\<lparr>xu_run_type := Some RtMain, xu_parent_run_id := Some None\<rparr>) runs
      = Inr (runs', r') \<and> ru_run_type r' = RtFork \<and> \<not> filled (ru_parent_run_id r')"
proof -
  have "validate_fork_agent_run_fields (Some RtMain) a b c d f g = Inr ()" for a b c d f g
    by (simp add: validate_fork_agent_run_fields_def value_or_def)
  moreover have "strip [] = []" by (simp add: strip_def rstrip_def)
  ultimately show ?thesis using assms
    by (simp add: update_agent_run_def no_run_update_def value_or_def apply_run_update_def filled_def)
qed




end
