(* ===== verification/ModuleState.thy ===== *)
theory ModuleState
  imports Outbox
begin

text \<open>
  The tables of the module host and the operations of \<open>ModuleStateRepository\<close>
  (\<open>persistence/repositories/module_state.py\<close>) on them: installs, configuration bindings, hook
  contributions, event subscriptions and health reports. An operation returns the database it leaves or the
  exception of its flush. Columns that hold one constant (\<open>source_mode\<close>, \<open>updated_by\<close>,
  \<open>delivery_mode\<close>) and the type \<open>file\<close> of a reference are left out, a reference is its locator.
\<close>

section \<open>Rows\<close>

datatype desired_state = DsEnabled | DsDisabled

datatype lifecycle =
    LDiscovered | LValidated | LInstalled | LEnabling | LActive | LDegraded | LDraining | LDisabled
  | LFailed | LQuarantined | LIncompatible | LUninstalling | LRemoved

datatype health_status = HHealthy | HDegraded | HUnhealthy | HQuarantined

datatype side_effects = SeNone | SeReadOnly | SeControlledWrite

datatype subscription_status = SubActive | SubPaused | SubError

record install_row =
  mi_id :: ustr
  mi_module_id :: ustr
  mi_module_version :: ustr
  mi_desired_state :: desired_state
  mi_lifecycle_state :: lifecycle
  mi_runtime_mode :: ustr
  mi_manifest_ref :: ustr
  mi_config_binding_id :: "ustr option"
  mi_installed_at :: "nat option"
  mi_enabled_at :: "nat option"
  mi_disabled_at :: "nat option"
  mi_last_error :: "ustr option"

record binding_row =
  mb_id :: ustr
  mb_install_id :: ustr
  mb_schema_version :: ustr
  mb_config_ref :: ustr
  mb_updated_at :: nat

record hook_row =
  hk_id :: ustr
  hk_install_id :: ustr
  hk_hook_name :: ustr
  hk_implementation_ref :: ustr
  hk_execution_order :: int
  hk_timeout_ms :: int
  hk_side_effects :: side_effects
  hk_enabled :: bool
  hk_created_at :: nat

record subscription_row =
  sb_id :: ustr
  sb_install_id :: ustr
  sb_event_type :: ustr
  sb_consumer_group :: ustr
  sb_status :: subscription_status
  sb_created_at :: nat
  sb_updated_at :: nat

record health_row =
  hl_id :: ustr
  hl_install_id :: ustr
  hl_status :: health_status
  hl_summary :: ustr
  hl_details_ref :: "ustr option"
  hl_observed_at :: nat

record module_manifest =
  mm_module_id :: ustr
  mm_display_name :: ustr
  mm_version :: ustr
  mm_runtime_mode :: ustr
  mm_manifest_path :: ustr
  mm_category :: "ustr option"
  mm_owner :: "ustr option"
  mm_description :: "ustr option"
  mm_entry_point :: "ustr option"
  mm_protocol :: "ustr option"
  mm_kernel_compatibility :: "ustr option"
  mm_hooks :: "ustr list"
  mm_publishes :: "ustr list"
  mm_subscribes :: "ustr list"
  mm_requested_permissions :: "ustr list"

text \<open>The tables of one database; the outbox is written in the same transactions.\<close>

record module_db =
  md_installs :: "install_row list"
  md_bindings :: "binding_row list"
  md_hooks :: "hook_row list"
  md_subscriptions :: "subscription_row list"
  md_health :: "health_row list"
  md_events :: "outbox_record list"

record catalog_snapshot =
  cs_generated_at :: nat
  cs_manifests :: "module_manifest list"
  cs_installs :: "install_row list"
  cs_hooks :: "hook_row list"
  cs_subscriptions :: "subscription_row list"
  cs_health :: "health_row list"

section \<open>Installs\<close>

definition list_module_installs :: "module_db \<Rightarrow> install_row list" where
  "list_module_installs db = sort_key mi_module_id (md_installs db)"

definition get_module_install :: "ustr \<Rightarrow> module_db \<Rightarrow> install_row option" where
  "get_module_install module_id db = find_row mi_module_id (md_installs db) module_id"

definition edit_install :: "ustr \<Rightarrow> (install_row \<Rightarrow> install_row) \<Rightarrow> module_db \<Rightarrow> module_db" where
  "edit_install module_id f db = db\<lparr>md_installs := edit_row mi_module_id module_id f (md_installs db)\<rparr>"

definition upsert_module_install :: "install_row \<Rightarrow> module_db \<Rightarrow> (module_db \<times> install_row) res" where
  "upsert_module_install r db =
     (case get_module_install (mi_module_id r) db of
        Some old \<Rightarrow>
          Inr (edit_install (mi_module_id r) (\<lambda>q. r\<lparr>mi_id := mi_id q\<rparr>) db, r\<lparr>mi_id := mi_id old\<rparr>)
      | None \<Rightarrow>
          map_sum id (\<lambda>rows. (db\<lparr>md_installs := rows\<rparr>, r)) (add_row mi_id r (md_installs db)))"

definition set_desired_state ::
  "ustr \<Rightarrow> desired_state \<Rightarrow> module_db \<Rightarrow> (module_db \<times> install_row) res" where
  "set_desired_state module_id desired db =
     (case get_module_install module_id db of
        None \<Rightarrow> Inl NoResultFound
      | Some r \<Rightarrow>
          (let f = (\<lambda>r. r\<lparr>mi_desired_state := desired\<rparr>) in Inr (edit_install module_id f db, f r)))"

definition moved_to :: "nat \<Rightarrow> lifecycle \<Rightarrow> ustr option \<Rightarrow> install_row \<Rightarrow> install_row" where
  "moved_to now lifecycle last_error r =
     r\<lparr>mi_lifecycle_state := lifecycle, mi_last_error := last_error,
       mi_enabled_at := (if lifecycle = LActive \<and> mi_enabled_at r = None then Some now else mi_enabled_at r),
       mi_disabled_at := (if lifecycle \<in> {LDisabled, LRemoved} then Some now else mi_disabled_at r)\<rparr>"

definition transition_lifecycle ::
  "nat \<Rightarrow> ustr \<Rightarrow> lifecycle \<Rightarrow> ustr option \<Rightarrow> module_db \<Rightarrow> (module_db \<times> install_row) res" where
  "transition_lifecycle now module_id lifecycle last_error db =
     (case get_module_install module_id db of
        None \<Rightarrow> Inl NoResultFound
      | Some r \<Rightarrow>
          Inr (edit_install module_id (moved_to now lifecycle last_error) db,
               moved_to now lifecycle last_error r))"

section \<open>Configuration bindings\<close>

definition list_config_bindings :: "module_db \<Rightarrow> binding_row list" where
  "list_config_bindings db = sort_key mb_install_id (md_bindings db)"

definition get_config_binding :: "ustr \<Rightarrow> module_db \<Rightarrow> binding_row option" where
  "get_config_binding install_id db = find_row mb_install_id (md_bindings db) install_id"

definition upsert_config_binding :: "binding_row \<Rightarrow> module_db \<Rightarrow> (module_db \<times> binding_row) res" where
  "upsert_config_binding r db =
     (let db' = db\<lparr>md_installs :=
                  edit_row mi_id (mb_install_id r) (\<lambda>i. i\<lparr>mi_config_binding_id := Some (mb_id r)\<rparr>)
                    (md_installs db)\<rparr>
      in case get_config_binding (mb_install_id r) db of
           Some old \<Rightarrow>
             Inr (db'\<lparr>md_bindings := edit_row mb_install_id (mb_install_id r)
                        (\<lambda>q. r\<lparr>mb_id := mb_id q\<rparr>) (md_bindings db)\<rparr>, r\<lparr>mb_id := mb_id old\<rparr>)
         | None \<Rightarrow>
             map_sum id (\<lambda>rows. (db'\<lparr>md_bindings := rows\<rparr>, r)) (add_row mb_id r (md_bindings db)))"

section \<open>Contributions\<close>

definition list_hooks :: "ustr option \<Rightarrow> module_db \<Rightarrow> hook_row list" where
  "list_hooks install_id db =
     sort_key (\<lambda>h. (hk_execution_order h, hk_hook_name h))
       (filter (\<lambda>h. install_id = None \<or> install_id = Some (hk_install_id h)) (md_hooks db))"

fun add_rows :: "('r \<Rightarrow> ustr) \<Rightarrow> 'r list \<Rightarrow> 'r list \<Rightarrow> 'r list res" where
  "add_rows key [] rows = Inr rows"
| "add_rows key (r # rs) rows =
     (case add_row key r rows of Inl err \<Rightarrow> Inl err | Inr rows' \<Rightarrow> add_rows key rs rows')"

definition replace_hook_contributions :: "ustr \<Rightarrow> hook_row list \<Rightarrow> module_db \<Rightarrow> module_db res" where
  "replace_hook_contributions install_id records db =
     map_sum id (\<lambda>rows. db\<lparr>md_hooks := rows\<rparr>)
       (add_rows hk_id records (filter (\<lambda>h. hk_install_id h \<noteq> install_id) (md_hooks db)))"

definition list_subscriptions ::
  "ustr option \<Rightarrow> subscription_status option \<Rightarrow> module_db \<Rightarrow> subscription_row list" where
  "list_subscriptions install_id status db =
     sort_key sb_event_type
       (filter (\<lambda>s. (install_id = None \<or> install_id = Some (sb_install_id s))
                  \<and> (status = None \<or> status = Some (sb_status s))) (md_subscriptions db))"

definition replace_event_subscriptions ::
  "ustr \<Rightarrow> subscription_row list \<Rightarrow> module_db \<Rightarrow> module_db res" where
  "replace_event_subscriptions install_id records db =
     map_sum id (\<lambda>rows. db\<lparr>md_subscriptions := rows\<rparr>)
       (add_rows sb_id records (filter (\<lambda>s. sb_install_id s \<noteq> install_id) (md_subscriptions db)))"

definition set_runtime_contributions_active :: "nat \<Rightarrow> ustr \<Rightarrow> bool \<Rightarrow> module_db \<Rightarrow> module_db" where
  "set_runtime_contributions_active now install_id enabled db =
     db\<lparr>md_hooks := edit_row hk_install_id install_id (\<lambda>h. h\<lparr>hk_enabled := enabled\<rparr>) (md_hooks db),
        md_subscriptions := edit_row sb_install_id install_id
          (\<lambda>s. s\<lparr>sb_status := (if enabled then SubActive else SubPaused), sb_updated_at := now\<rparr>)
          (md_subscriptions db)\<rparr>"

section \<open>Health\<close>

definition get_health_report :: "ustr \<Rightarrow> module_db \<Rightarrow> health_row option" where
  "get_health_report install_id db = find_row hl_install_id (md_health db) install_id"

definition list_health_reports :: "module_db \<Rightarrow> health_row list" where
  "list_health_reports db = sort_key hl_install_id (md_health db)"

definition upsert_health_report :: "health_row \<Rightarrow> module_db \<Rightarrow> (module_db \<times> health_row) res" where
  "upsert_health_report r db =
     (case get_health_report (hl_install_id r) db of
        Some old \<Rightarrow>
          Inr (db\<lparr>md_health := edit_row hl_install_id (hl_install_id r) (\<lambda>q. r\<lparr>hl_id := hl_id q\<rparr>)
                   (md_health db)\<rparr>, r\<lparr>hl_id := hl_id old\<rparr>)
      | None \<Rightarrow> map_sum id (\<lambda>rows. (db\<lparr>md_health := rows\<rparr>, r)) (add_row hl_id r (md_health db)))"

section \<open>Snapshots\<close>

definition build_snapshot :: "module_manifest list \<Rightarrow> nat \<Rightarrow> module_db \<Rightarrow> catalog_snapshot" where
  "build_snapshot manifests generated_at db =
     (let installs = sort_key mi_module_id
            (filter (\<lambda>r. mi_module_id r \<in> mm_module_id ` set manifests) (md_installs db));
          ids = mi_id ` set installs
      in \<lparr>cs_generated_at = generated_at, cs_manifests = manifests, cs_installs = installs,
          cs_hooks = sort_key hk_hook_name (filter (\<lambda>h. hk_install_id h \<in> ids) (md_hooks db)),
          cs_subscriptions = sort_key sb_event_type
            (filter (\<lambda>s. sb_install_id s \<in> ids) (md_subscriptions db)),
          cs_health = sort_key hl_install_id (filter (\<lambda>h. hl_install_id h \<in> ids) (md_health db))\<rparr>)"

text \<open>\<open>sync_snapshot\<close> takes a whole snapshot over: installs are replaced or added, those that are gone are
  marked removed, the contributions and reports of the installs are replaced.\<close>

fun put_installs :: "ustr set \<Rightarrow> install_row list \<Rightarrow> install_row list \<Rightarrow> install_row list res" where
  "put_installs existing [] rows = Inr rows"
| "put_installs existing (r # rs) rows =
     (if mi_module_id r \<in> existing then
        put_installs existing rs (edit_row mi_module_id (mi_module_id r) (\<lambda>q. r\<lparr>mi_id := mi_id q\<rparr>) rows)
      else if mi_module_id r \<in> row_keys mi_module_id rows then Inl (IntegrityError (mi_module_id r))
      else (case add_row mi_id r rows of Inl err \<Rightarrow> Inl err | Inr rows' \<Rightarrow> put_installs existing rs rows'))"

definition mark_gone :: "catalog_snapshot \<Rightarrow> ustr set \<Rightarrow> install_row \<Rightarrow> install_row" where
  "mark_gone s existing r =
     (if mi_module_id r \<in> existing \<and> mi_module_id r \<notin> mi_module_id ` set (cs_installs s)
      then r\<lparr>mi_desired_state := DsDisabled, mi_lifecycle_state := LRemoved,
             mi_disabled_at := Some (cs_generated_at s),
             mi_last_error := Some (lit ''Manifest no longer discovered.'')\<rparr>
      else r)"

definition sync_snapshot :: "catalog_snapshot \<Rightarrow> module_db \<Rightarrow> module_db res" where
  "sync_snapshot s db =
     (let existing = mi_module_id ` set (md_installs db); ids = mi_id ` set (cs_installs s)
      in case put_installs existing (cs_installs s) (md_installs db) of
           Inl err \<Rightarrow> Inl err
         | Inr installs \<Rightarrow>
          (case add_rows hk_id (cs_hooks s) (filter (\<lambda>h. hk_install_id h \<notin> ids) (md_hooks db)) of
                Inl err \<Rightarrow> Inl err
              | Inr hooks \<Rightarrow>
                  (case add_rows sb_id (cs_subscriptions s)
                          (filter (\<lambda>x. sb_install_id x \<notin> ids) (md_subscriptions db)) of
                     Inl err \<Rightarrow> Inl err
                   | Inr subs \<Rightarrow>
                       (case add_rows hl_id (cs_health s)
                               (filter (\<lambda>x. hl_install_id x \<notin> ids) (md_health db)) of
                          Inl err \<Rightarrow> Inl err
                        | Inr health \<Rightarrow>
                            Inr (db\<lparr>md_installs := map (mark_gone s existing) installs,
                                     md_hooks := hooks, md_subscriptions := subs,
                                     md_health := health\<rparr>)))))"

end
