(* ===== verification/ModulePlatform.thy ===== *)
theory ModulePlatform
  imports ModuleState "HOL-Library.AList"
begin

text \<open>
  The module host: \<open>persistence/module_platform.py\<close> on the tables of \<open>ModuleState\<close>, with the part of
  \<open>catalog.py\<close> that derives the desired state of the modules from the files. An operation is a function
  from the world (the database and the state files) to the world it leaves and its result or exception; a
  session keeps the files and restores the database when an exception leaves it. Plugins are a parameter: what
  the import of an entry point gives, its hooks and its event handler, each of which may raise. The manifests
  (parsed from YAML), the texts of exceptions and of JSON values that are no text, and the digest behind the
  stable ids are parameters too.
\<close>

section \<open>Plugins\<close>

datatype hook_payload =
    PValidate ustr module_manifest desired_state
  | PLifecycle module_manifest install_row
  | PData json

record registration =
  rg_name :: ustr
  rg_handler :: "hook_payload \<Rightarrow> json res"
  rg_order :: int
  rg_timeout_ms :: int
  rg_side_effects :: ustr

record event_envelope =
  en_event_type :: ustr
  en_event_id :: ustr
  en_project_id :: ustr

record module_emission =
  me_aggregate_type :: ustr
  me_aggregate_id :: ustr
  me_event_type :: ustr
  me_event_version :: int
  me_project_id :: "ustr option"

datatype handling_status = EvHandled | EvIgnored | EvFailed

record handling_result =
  hr_status :: handling_status
  hr_summary :: "ustr option"
  hr_emitted_events :: "module_emission list"
  hr_health_status :: "health_status option"

record plugin =
  pl_register_hooks :: "registration list res"
  pl_handle_event :: "event_envelope \<Rightarrow> handling_result res"

record host_env =
  he_threshold :: int
  he_import :: "ustr \<Rightarrow> ustr \<Rightarrow> plugin res"
  he_text :: "py_error \<Rightarrow> ustr"
  he_repr :: "json \<Rightarrow> ustr"
  he_int :: "ustr \<Rightarrow> int res"
  he_stable_id :: "ustr \<Rightarrow> ustr list \<Rightarrow> ustr"
  he_event_id :: "outbox_record list \<Rightarrow> ustr"
  he_locator :: "ustr \<Rightarrow> ustr \<Rightarrow> ustr"

text \<open>\<open>str(v)\<close> and \<open>int(v)\<close> of a JSON value.\<close>

definition py_str :: "host_env \<Rightarrow> json \<Rightarrow> ustr" where
  "py_str e v = (case v of JStr s \<Rightarrow> s | _ \<Rightarrow> he_repr e v)"

definition py_int :: "host_env \<Rightarrow> json \<Rightarrow> int res" where
  "py_int e v =
     (case v of
        JInt i \<Rightarrow> Inr i
      | JBool b \<Rightarrow> Inr (if b then 1 else 0)
      | JStr s \<Rightarrow> he_int e s
      | _ \<Rightarrow> Inl (TypeError (lit ''int() argument must be a string or a number'')))"

definition load_in_process_plugin :: "host_env \<Rightarrow> ustr \<Rightarrow> plugin res" where
  "load_in_process_plugin e entry_point =
     (let module_name = takeWhile (\<lambda>c. c \<noteq> 58) entry_point;
          attribute_name = tl (dropWhile (\<lambda>c. c \<noteq> 58) entry_point)
      in if module_name = [] \<or> attribute_name = [] then
           Inl (ValueError (lit ''Unsupported entry point: '' @ entry_point))
         else he_import e module_name attribute_name)"

definition load_plugin :: "host_env \<Rightarrow> module_manifest \<Rightarrow> plugin res" where
  "load_plugin e m =
     (if mm_runtime_mode m \<noteq> lit ''in-process'' \<or> value_or (mm_entry_point m) [] = [] then
        Inl (RuntimeError (lit ''Unsupported runtime mode for '' @ mm_module_id m @ lit '': '' @ mm_runtime_mode m))
      else load_in_process_plugin e (value_or (mm_entry_point m) []))"

definition find_hook :: "registration list \<Rightarrow> string \<Rightarrow> registration option" where
  "find_hook regs name = first_such (\<lambda>r. rg_name r = lit name) regs"

text \<open>The answer of a lifecycle hook: an answer that is false or no dictionary counts as empty.\<close>

definition answer_failed :: "json \<Rightarrow> bool" where
  "answer_failed v \<longleftrightarrow>
     (case json_get v ''status'' of Some (JStr s) \<Rightarrow> lower s \<in> {lit ''error'', lit ''failed''} | _ \<Rightarrow> False)"

fun first_truthy :: "json option list \<Rightarrow> json option" where
  "first_truthy [] = None"
| "first_truthy (v # vs) =
     (case v of Some j \<Rightarrow> (if truthy j then Some j else first_truthy vs) | None \<Rightarrow> first_truthy vs)"

definition answer_text :: "host_env \<Rightarrow> json \<Rightarrow> string \<Rightarrow> ustr" where
  "answer_text e v default_text =
     (case first_truthy [json_get v ''summary'', json_get v ''detail''] of
        Some j \<Rightarrow> py_str e j
      | None \<Rightarrow> lit default_text)"

definition parse_health :: "json \<Rightarrow> health_status option" where
  "parse_health v =
     (if v = JStr (lit ''healthy'') then Some HHealthy
      else if v = JStr (lit ''degraded'') then Some HDegraded
      else if v = JStr (lit ''unhealthy'') then Some HUnhealthy
      else if v = JStr (lit ''quarantined'') then Some HQuarantined
      else None)"

definition health_text :: "health_status \<Rightarrow> ustr" where
  "health_text h = (case h of HHealthy \<Rightarrow> lit ''healthy'' | HDegraded \<Rightarrow> lit ''degraded''
     | HUnhealthy \<Rightarrow> lit ''unhealthy'' | HQuarantined \<Rightarrow> lit ''quarantined'')"

definition parse_side_effects :: "ustr \<Rightarrow> side_effects option" where
  "parse_side_effects s =
     (if s = lit ''none'' then Some SeNone
      else if s = lit ''read-only'' then Some SeReadOnly
      else if s = lit ''controlled-write'' then Some SeControlledWrite
      else None)"

section \<open>The world and its actions\<close>

type_synonym json_dict = "(ustr \<times> json) list"

record module_files =
  fl_details :: "ustr \<Rightarrow> json_dict option"
  fl_configs :: "ustr \<Rightarrow> bool"
  fl_profile :: "json_dict option"
  fl_records :: "install_row list"

record module_world =
  mw_db :: module_db
  mw_files :: module_files

type_synonym 'a act = "module_world \<Rightarrow> module_world \<times> 'a res"

definition ret :: "'a \<Rightarrow> 'a act" where
  "ret x w = (w, Inr x)"

definition raise :: "py_error \<Rightarrow> 'a act" where
  "raise err w = (w, Inl err)"

definition and_then :: "'a act \<Rightarrow> ('a \<Rightarrow> 'b act) \<Rightarrow> 'b act" where
  "and_then m f w = (case m w of (w', Inl err) \<Rightarrow> (w', Inl err) | (w', Inr x) \<Rightarrow> f x w')"

definition lift :: "'a res \<Rightarrow> 'a act" where
  "lift r w = (w, r)"

text \<open>Reading the database, changing it, and an operation that may fail in its flush.\<close>

definition asks :: "(module_db \<Rightarrow> 'a) \<Rightarrow> 'a act" where
  "asks f w = (w, Inr (f (mw_db w)))"

definition edits :: "(module_db \<Rightarrow> module_db) \<Rightarrow> unit act" where
  "edits f w = (w\<lparr>mw_db := f (mw_db w)\<rparr>, Inr ())"

definition runs :: "(module_db \<Rightarrow> (module_db \<times> 'a) res) \<Rightarrow> 'a act" where
  "runs f w = (case f (mw_db w) of Inl err \<Rightarrow> (w, Inl err) | Inr (db, x) \<Rightarrow> (w\<lparr>mw_db := db\<rparr>, Inr x))"

definition runs_unit :: "(module_db \<Rightarrow> module_db res) \<Rightarrow> unit act" where
  "runs_unit f = runs (\<lambda>db. map_sum id (\<lambda>db'. (db', ())) (f db))"

definition in_session :: "'a act \<Rightarrow> 'a act" where
  "in_session m w = (case m w of (w', Inl err) \<Rightarrow> (w'\<lparr>mw_db := mw_db w\<rparr>, Inl err) | r \<Rightarrow> r)"

text \<open>The files of the host.\<close>

definition health_details_ref :: "host_env \<Rightarrow> ustr \<Rightarrow> ustr act" where
  "health_details_ref e module_id w =
     (w\<lparr>mw_files := (mw_files w)\<lparr>fl_details := (fl_details (mw_files w))(module_id \<mapsto>
          value_or (fl_details (mw_files w) module_id)
            [(lit ''failureCount'', JInt 0), (lit ''status'', JStr (lit ''healthy''))])\<rparr>\<rparr>,
      Inr (he_locator e (lit ''module-health'') module_id))"

definition read_health_details :: "ustr \<Rightarrow> json_dict act" where
  "read_health_details module_id w =
     (w, Inr (value_or (fl_details (mw_files w) module_id)
                [(lit ''failureCount'', JInt 0), (lit ''status'', JStr (lit ''healthy''))]))"

definition write_health_details :: "host_env \<Rightarrow> ustr \<Rightarrow> json_dict \<Rightarrow> ustr act" where
  "write_health_details e module_id payload w =
     (w\<lparr>mw_files := (mw_files w)\<lparr>fl_details := (fl_details (mw_files w))(module_id \<mapsto> payload)\<rparr>\<rparr>,
      Inr (he_locator e (lit ''module-health'') module_id))"

definition persist_desired_state :: "ustr \<Rightarrow> desired_state \<Rightarrow> unit act" where
  "persist_desired_state module_id desired w =
     (let profile = value_or (fl_profile (mw_files w))
            [(lit ''_defaults'', JObj [(lit ''desiredState'', JStr (lit ''enabled''))])];
          entry = JObj [(lit ''desiredState'',
            JStr (if desired = DsEnabled then lit ''enabled'' else lit ''disabled''))]
      in (w\<lparr>mw_files := (mw_files w)\<lparr>fl_profile := Some (AList.update module_id entry profile)\<rparr>\<rparr>, Inr ()))"

section \<open>Events and failures\<close>

definition record_module_event ::
  "host_env \<Rightarrow> nat \<Rightarrow> ustr \<Rightarrow> ustr \<Rightarrow> ustr \<Rightarrow> int \<Rightarrow> ustr \<Rightarrow> unit act" where
  "record_module_event e now aggregate_type aggregate_id event_type version project =
     runs (\<lambda>db. let i = he_event_id e (md_events db) in
       map_sum id (\<lambda>(rows, _). (db\<lparr>md_events := rows\<rparr>, ()))
         (record_event now []
            \<lparr>ep_id = Some i, ep_project_id = Some project, ep_aggregate_type = Some aggregate_type,
             ep_aggregate_id = Some aggregate_id, ep_event_type = Some event_type,
             ep_event_version = Some version,
             ep_payload_ref = Some (lit ''file'', he_locator e (lit ''outbox-payloads'') i),
             ep_publish_status = Some OPending, ep_attempts = None, ep_available_at = Some now,
             ep_published_at = None, ep_last_error = None, ep_created_at = Some now\<rparr> (md_events db)))"

definition default_project :: ustr where
  "default_project = lit ''project_default''"

definition module_event :: "host_env \<Rightarrow> nat \<Rightarrow> ustr \<Rightarrow> string \<Rightarrow> unit act" where
  "module_event e now module_id event_type =
     record_module_event e now (lit ''module'') module_id (lit event_type) 1 default_project"

definition health_report_of ::
  "host_env \<Rightarrow> nat \<Rightarrow> install_row \<Rightarrow> health_status \<Rightarrow> ustr \<Rightarrow> ustr \<Rightarrow> health_row" where
  "health_report_of e now inst status summary ref =
     \<lparr>hl_id = he_stable_id e (lit ''health'') [mi_id inst], hl_install_id = mi_id inst, hl_status = status,
      hl_summary = summary, hl_details_ref = Some ref, hl_observed_at = now\<rparr>"

text \<open>\<open>_record_failure\<close>: the count in the details file, then the database.\<close>

definition count_failure :: "host_env \<Rightarrow> ustr \<Rightarrow> ustr \<Rightarrow> (int \<times> health_status \<times> ustr) act" where
  "count_failure e module_id reason =
     and_then (read_health_details module_id) (\<lambda>details.
     and_then (lift (py_int e (value_or (map_of details (lit ''failureCount'')) (JInt 0)))) (\<lambda>n.
       let failure_count = n + 1;
           status = (if he_threshold e \<le> failure_count then HQuarantined else HUnhealthy)
       in and_then (write_health_details e module_id
              [(lit ''failureCount'', JInt failure_count), (lit ''status'', JStr (health_text status)),
               (lit ''summary'', JStr reason)]) (\<lambda>ref.
            ret (failure_count, status, ref))))"

definition record_failure :: "host_env \<Rightarrow> nat \<Rightarrow> install_row \<Rightarrow> ustr \<Rightarrow> install_row act" where
  "record_failure e now inst reason =
     and_then (count_failure e (mi_module_id inst) reason) (\<lambda>(_, status, ref).
     and_then (runs (upsert_health_report (health_report_of e now inst status reason ref))) (\<lambda>_.
     and_then (edits (set_runtime_contributions_active now (mi_id inst) False)) (\<lambda>_.
       if status = HQuarantined then
         and_then (runs (transition_lifecycle now (mi_module_id inst) LQuarantined (Some reason))) (\<lambda>updated.
         and_then (module_event e now (mi_module_id inst) ''module.quarantined'') (\<lambda>_. ret updated))
       else runs (transition_lifecycle now (mi_module_id inst) LFailed (Some reason)))))"

text \<open>\<open>except Exception as exc: return self._record_failure(...)\<close>. After a failed flush the session refuses
  every statement until it is rolled back, so that the failure is counted and the handler raises.\<close>

definition session_dead :: "py_error \<Rightarrow> bool" where
  "session_dead err = (case err of IntegrityError _ \<Rightarrow> True | PendingRollbackError \<Rightarrow> True | _ \<Rightarrow> False)"

definition or_failure :: "host_env \<Rightarrow> nat \<Rightarrow> install_row \<Rightarrow> string \<Rightarrow> install_row act \<Rightarrow> install_row act" where
  "or_failure e now inst prefix m w =
     (case m w of
        (w', Inl err) \<Rightarrow>
          (let reason = lit prefix @ he_text e err
           in if session_dead err then
                and_then (count_failure e (mi_module_id inst) reason) (\<lambda>_. raise PendingRollbackError) w'
              else record_failure e now inst reason w')
      | r \<Rightarrow> r)"

section \<open>Validation and installation\<close>

definition run_hook :: "registration option \<Rightarrow> hook_payload \<Rightarrow> json act" where
  "run_hook r payload =
     (case r of None \<Rightarrow> ret JNull | Some reg \<Rightarrow> lift (rg_handler reg payload))"

definition reject_failed :: "host_env \<Rightarrow> json \<Rightarrow> string \<Rightarrow> unit act" where
  "reject_failed e answer default_text =
     (if answer_failed answer then raise (RuntimeError (answer_text e answer default_text)) else ret ())"

definition needs_validation :: "install_row \<Rightarrow> bool" where
  "needs_validation inst \<longleftrightarrow>
     mi_lifecycle_state inst \<in> {LDiscovered, LFailed, LRemoved, LIncompatible} \<or> mi_installed_at inst = None"

definition validate_module :: "host_env \<Rightarrow> nat \<Rightarrow> install_row \<Rightarrow> module_manifest \<Rightarrow> install_row act" where
  "validate_module e now inst m =
     (if \<not> needs_validation inst then ret inst
      else or_failure e now inst ''Validation failed: ''
        (and_then (lift (load_plugin e m)) (\<lambda>plugin.
         and_then (lift (pl_register_hooks plugin)) (\<lambda>regs.
         and_then (run_hook (index_by rg_name regs (lit ''module.install.validate''))
             (PValidate (mi_module_id inst) m (mi_desired_state inst))) (\<lambda>answer.
         and_then (reject_failed e answer ''Module validation failed.'') (\<lambda>_.
           runs (transition_lifecycle now (mi_module_id inst) LValidated None)))))))"

definition ensure_config_binding ::
  "host_env \<Rightarrow> nat \<Rightarrow> install_row \<Rightarrow> module_manifest \<Rightarrow> binding_row act" where
  "ensure_config_binding e now inst m =
     and_then (asks (get_config_binding (mi_id inst))) (\<lambda>existing.
     and_then (\<lambda>w. (w\<lparr>mw_files := (mw_files w)\<lparr>fl_configs := (fl_configs (mw_files w))(mi_module_id inst := True)\<rparr>\<rparr>,
                    Inr ())) (\<lambda>_.
       runs (upsert_config_binding
         \<lparr>mb_id = (case existing of Some b \<Rightarrow> mb_id b
                   | None \<Rightarrow> he_stable_id e (lit ''modcfg'') [mi_module_id inst]),
          mb_install_id = mi_id inst, mb_schema_version = mm_version m,
          mb_config_ref = he_locator e (lit ''module-config'') (mi_module_id inst), mb_updated_at = now\<rparr>)))"

definition current_install :: "install_row \<Rightarrow> install_row act" where
  "current_install inst = asks (\<lambda>db. value_or (get_module_install (mi_module_id inst) db) inst)"

definition install_module :: "host_env \<Rightarrow> nat \<Rightarrow> install_row \<Rightarrow> module_manifest \<Rightarrow> install_row act" where
  "install_module e now inst m =
     and_then (ensure_config_binding e now inst m) (\<lambda>_.
     and_then (current_install inst) (\<lambda>c0.
     and_then (if mi_installed_at c0 = None \<or> mi_lifecycle_state c0 \<in> {LValidated, LDiscovered}
               then runs (upsert_module_install (c0\<lparr>mi_installed_at := Some now\<rparr>)) else ret c0) (\<lambda>c1.
     and_then (if mi_lifecycle_state c1 \<notin> {LInstalled, LDisabled, LActive, LDegraded, LQuarantined}
               then runs (transition_lifecycle now (mi_module_id c1) LInstalled None) else ret c1) (\<lambda>c2.
       if mi_desired_state c2 = DsDisabled \<and> mi_lifecycle_state c2 \<in> {LInstalled, LValidated}
       then runs (transition_lifecycle now (mi_module_id c2) LDisabled None) else ret c2))))"

section \<open>Enabling and disabling\<close>

definition hook_record_of ::
  "host_env \<Rightarrow> nat \<Rightarrow> install_row \<Rightarrow> module_manifest \<Rightarrow> bool \<Rightarrow> registration \<Rightarrow> hook_row res" where
  "hook_record_of e now inst m enabled r =
     (case parse_side_effects (rg_side_effects r) of
        None \<Rightarrow> Inl (ValueError (lit ''sideEffects''))
      | Some effects \<Rightarrow>
          Inr \<lparr>hk_id = he_stable_id e (lit ''hookreg'') [mi_id inst, rg_name r], hk_install_id = mi_id inst,
               hk_hook_name = rg_name r,
               hk_implementation_ref = nonempty_or (mm_entry_point m) (mm_module_id m) @ lit ''#'' @ rg_name r,
               hk_execution_order = rg_order r, hk_timeout_ms = rg_timeout_ms r,
               hk_side_effects = effects, hk_enabled = enabled, hk_created_at = now\<rparr>)"

fun build_hook_records ::
  "host_env \<Rightarrow> nat \<Rightarrow> install_row \<Rightarrow> module_manifest \<Rightarrow> bool \<Rightarrow> registration list \<Rightarrow> hook_row list res" where
  "build_hook_records e now inst m enabled [] = Inr []"
| "build_hook_records e now inst m enabled (r # rs) =
     (case hook_record_of e now inst m enabled r of
        Inl err \<Rightarrow> Inl err
      | Inr h \<Rightarrow> map_sum id (\<lambda>hs. h # hs) (build_hook_records e now inst m enabled rs))"

definition consumer_group_of :: "ustr \<Rightarrow> ustr \<Rightarrow> ustr" where
  "consumer_group_of module_id event_type =
     module_id @ lit ''.'' @ map (\<lambda>c. if c = 46 then 45 else c) event_type"

definition build_subscription_records ::
  "host_env \<Rightarrow> nat \<Rightarrow> install_row \<Rightarrow> module_manifest \<Rightarrow> bool \<Rightarrow> subscription_row list" where
  "build_subscription_records e now inst m enabled =
     map (\<lambda>event_type.
       \<lparr>sb_id = he_stable_id e (lit ''evtreg'') [mi_id inst, event_type], sb_install_id = mi_id inst,
        sb_event_type = event_type, sb_consumer_group = consumer_group_of (mi_module_id inst) event_type,
        sb_status = (if enabled then SubActive else SubPaused), sb_created_at = now, sb_updated_at = now\<rparr>)
       (mm_subscribes m)"

definition build_health_report ::
  "host_env \<Rightarrow> nat \<Rightarrow> install_row \<Rightarrow> module_manifest \<Rightarrow> registration list \<Rightarrow> health_row act" where
  "build_health_report e now inst m regs =
     and_then (health_details_ref e (mi_module_id inst)) (\<lambda>ref0.
     and_then (run_hook (find_hook regs ''module.health.report'') (PLifecycle m inst)) (\<lambda>answer.
       let status = value_or (first_truthy [json_get answer ''status'']) (JStr (lit ''healthy''));
           summary = (case first_truthy [json_get answer ''summary''] of
                        Some j \<Rightarrow> py_str e j
                      | None \<Rightarrow> mm_display_name m @ lit '' is active.'')
       in and_then (case json_get answer ''details'' of
                      Some (JObj d) \<Rightarrow> write_health_details e (mi_module_id inst) d
                    | _ \<Rightarrow> ret ref0) (\<lambda>ref.
            case parse_health status of
              None \<Rightarrow> raise (ValueError (lit ''status''))
            | Some h \<Rightarrow> ret (health_report_of e now inst h summary ref))))"

text \<open>The end of \<open>_enable_module\<close>: the report decides between active, degraded and failed.\<close>

definition activate ::
  "host_env \<Rightarrow> nat \<Rightarrow> install_row \<Rightarrow> module_manifest \<Rightarrow> registration list \<Rightarrow> health_row \<Rightarrow> install_row act" where
  "activate e now cur m regs report =
     (let finish = (\<lambda>c. and_then (write_health_details e (mi_module_id c)
               [(lit ''failureCount'', JInt 0), (lit ''status'', JStr (health_text (hl_status report))),
                (lit ''summary'', JStr (hl_summary report))]) (\<lambda>_.
             and_then (run_hook (find_hook regs ''module.enable.post-activate'') (PLifecycle m c)) (\<lambda>_. ret c)))
      in case hl_status report of
           HDegraded \<Rightarrow>
             and_then (runs (transition_lifecycle now (mi_module_id cur) LDegraded None)) (\<lambda>c.
             and_then (module_event e now (mi_module_id c) ''module.degraded'') (\<lambda>_. finish c))
         | HHealthy \<Rightarrow>
             and_then (runs (transition_lifecycle now (mi_module_id cur) LActive None)) (\<lambda>c.
             and_then (if mi_lifecycle_state cur \<noteq> LActive
                       then module_event e now (mi_module_id c) ''module.enabled'' else ret ()) (\<lambda>_. finish c))
         | _ \<Rightarrow> record_failure e now cur (hl_summary report))"

definition enable_module :: "host_env \<Rightarrow> nat \<Rightarrow> install_row \<Rightarrow> module_manifest \<Rightarrow> install_row act" where
  "enable_module e now inst m =
     and_then (current_install inst) (\<lambda>cur.
       if mi_lifecycle_state cur = LQuarantined then ret cur
       else or_failure e now cur ''Enable failed: ''
         (and_then (lift (load_plugin e m)) (\<lambda>plugin.
          and_then (lift (pl_register_hooks plugin)) (\<lambda>regs.
          and_then (if mi_lifecycle_state cur \<notin> {LActive, LDegraded}
                    then runs (transition_lifecycle now (mi_module_id cur) LEnabling None) else ret cur) (\<lambda>c.
          and_then (run_hook (find_hook regs ''module.enable.preflight'') (PLifecycle m c)) (\<lambda>answer.
          and_then (reject_failed e answer ''Module preflight failed.'') (\<lambda>_.
          and_then (lift (build_hook_records e now c m True regs)) (\<lambda>hooks.
          and_then (runs_unit (replace_hook_contributions (mi_id c) hooks)) (\<lambda>_.
          and_then (runs_unit (replace_event_subscriptions (mi_id c)
              (build_subscription_records e now c m True))) (\<lambda>_.
          and_then (edits (set_runtime_contributions_active now (mi_id c) True)) (\<lambda>_.
          and_then (build_health_report e now c m regs) (\<lambda>report.
          and_then (runs (upsert_health_report report)) (\<lambda>_.
            activate e now c m regs report)))))))))))))"

definition disable_module :: "host_env \<Rightarrow> nat \<Rightarrow> install_row \<Rightarrow> module_manifest \<Rightarrow> install_row act" where
  "disable_module e now inst m =
     and_then (current_install inst) (\<lambda>cur.
       if mi_lifecycle_state cur = LDisabled then
         and_then (edits (set_runtime_contributions_active now (mi_id cur) False)) (\<lambda>_. ret cur)
       else
         (let regs = (case load_plugin e m of
                Inl _ \<Rightarrow> []
              | Inr plugin \<Rightarrow> (case pl_register_hooks plugin of Inl _ \<Rightarrow> [] | Inr rs \<Rightarrow> rs))
          in and_then (run_hook (find_hook regs ''module.disable.pre-drain'') (PLifecycle m cur)) (\<lambda>_.
             and_then (if mi_lifecycle_state cur \<in> {LActive, LDegraded, LEnabling, LFailed}
                       then runs (transition_lifecycle now (mi_module_id cur) LDraining None) else ret cur) (\<lambda>c.
             and_then (edits (set_runtime_contributions_active now (mi_id c) False)) (\<lambda>_.
             and_then (runs_unit (replace_event_subscriptions (mi_id c)
                 (build_subscription_records e now c m False))) (\<lambda>_.
             and_then (health_details_ref e (mi_module_id c)) (\<lambda>ref.
             and_then (runs (upsert_health_report
                 (health_report_of e now c HHealthy (lit ''Module is installed and disabled.'') ref))) (\<lambda>_.
             and_then (run_hook (find_hook regs ''module.disable.post-stop'') (PLifecycle m c)) (\<lambda>_.
             and_then (runs (transition_lifecycle now (mi_module_id c) LDisabled None)) (\<lambda>c'.
             and_then (if mi_lifecycle_state c \<noteq> LDisabled
                       then module_event e now (mi_module_id c') ''module.disabled'' else ret ()) (\<lambda>_.
               ret c')))))))))))"

definition remove_module :: "host_env \<Rightarrow> nat \<Rightarrow> install_row \<Rightarrow> unit act" where
  "remove_module e now inst =
     and_then (current_install inst) (\<lambda>cur.
     and_then (if mi_lifecycle_state cur \<in> {LActive, LDegraded, LEnabling}
               then runs (transition_lifecycle now (mi_module_id cur) LDraining None) else ret cur) (\<lambda>c.
     and_then (edits (set_runtime_contributions_active now (mi_id c) False)) (\<lambda>_.
     and_then (runs (transition_lifecycle now (mi_module_id c) LUninstalling None)) (\<lambda>c1.
     and_then (runs (transition_lifecycle now (mi_module_id c1) LRemoved
         (Some (lit ''Manifest no longer discovered.'')))) (\<lambda>c2.
       module_event e now (mi_module_id c2) ''module.removed'')))))"

end
