(* ===== verification/ModuleSync.thy ===== *)
theory ModuleSync
  imports ModulePlatform
begin

text \<open>
  The catalog of modules and the operations of the module host on all of them: the file snapshot of
  \<open>catalog.py\<close>, \<open>sync_catalog\<close>, enabling, disabling and quarantining by hand, and the consumption of events
  (\<open>persistence/module_platform.py\<close>). The two-second cache of the file snapshot, the bootstrap of the default
  workspace and the copy of the snapshot in \<open>module-catalog-snapshot.json\<close> are left out; the modules that are
  gone are removed in the order of their ids, where the code iterates over a set.
\<close>

section \<open>The catalog of the files\<close>

definition is_kernel_compatible :: "ustr option \<Rightarrow> bool" where
  "is_kernel_compatible wanted \<longleftrightarrow>
     (let r = value_or wanted [] in
        r = []
        \<or> has_infix (lit ''>=0.1.0'') r \<and> has_infix (lit ''<0.2.0'') r
        \<or> has_infix (lit ''0.1.0'') r)"

fun state_text :: "json \<Rightarrow> desired_state option" where
  "state_text (JStr s) =
     (if s = lit ''enabled'' then Some DsEnabled else if s = lit ''disabled'' then Some DsDisabled else None)"
| "state_text _ = None"

text \<open>The desired state, as it is passed to the record: a value other than the two literals is an error there.\<close>

definition desired_state_for :: "ustr \<Rightarrow> json_dict \<Rightarrow> install_row option \<Rightarrow> desired_state option" where
  "desired_state_for module_id profile existing =
     (let default_state =
            (case existing of
               Some r \<Rightarrow> Some (mi_desired_state r)
             | None \<Rightarrow>
                 (case map_of profile (lit ''_defaults'') of
                    None \<Rightarrow> Some DsEnabled
                  | Some d \<Rightarrow> (case json_get d ''desiredState'' of None \<Rightarrow> Some DsEnabled | Some v \<Rightarrow> state_text v)))
      in case map_of profile module_id of
           Some (JBool b) \<Rightarrow> Some (if b then DsEnabled else DsDisabled)
         | Some (JObj d) \<Rightarrow>
             (case json_get (JObj d) ''desiredState'' of None \<Rightarrow> default_state | Some v \<Rightarrow> state_text v)
         | _ \<Rightarrow> default_state)"

definition catalog_install ::
  "host_env \<Rightarrow> nat \<Rightarrow> json_dict \<Rightarrow> install_row list \<Rightarrow> module_manifest \<Rightarrow> install_row res" where
  "catalog_install e now profile records m =
     (let existing = index_by mi_module_id records (mm_module_id m);
          compatible = is_kernel_compatible (mm_kernel_compatibility m)
      in case desired_state_for (mm_module_id m) profile existing of
           None \<Rightarrow> Inl (ValueError (lit ''desiredState''))
         | Some desired \<Rightarrow>
             Inr \<lparr>mi_id = (case existing of Some r \<Rightarrow> mi_id r
                           | None \<Rightarrow> he_stable_id e (lit ''modins'') [mm_module_id m, mm_version m]),
                  mi_module_id = mm_module_id m, mi_module_version = mm_version m, mi_desired_state = desired,
                  mi_lifecycle_state =
                    (if \<not> compatible then LIncompatible
                     else case existing of Some r \<Rightarrow> mi_lifecycle_state r | None \<Rightarrow> LDiscovered),
                  mi_runtime_mode = mm_runtime_mode m, mi_manifest_ref = mm_manifest_path m,
                  mi_config_binding_id = None,
                  mi_installed_at = (case existing of Some r \<Rightarrow> mi_installed_at r | None \<Rightarrow> Some now),
                  mi_enabled_at = (case existing of Some r \<Rightarrow> mi_enabled_at r | None \<Rightarrow> None),
                  mi_disabled_at = (case existing of Some r \<Rightarrow> mi_disabled_at r | None \<Rightarrow> None),
                  mi_last_error =
                    (if compatible then None else Some (lit ''Kernel compatibility check failed.''))\<rparr>)"

fun catalog_installs ::
  "host_env \<Rightarrow> nat \<Rightarrow> json_dict \<Rightarrow> install_row list \<Rightarrow> module_manifest list \<Rightarrow> install_row list res" where
  "catalog_installs e now profile records [] = Inr []"
| "catalog_installs e now profile records (m # ms) =
     (case catalog_install e now profile records m of
        Inl err \<Rightarrow> Inl err
      | Inr r \<Rightarrow> map_sum id (\<lambda>rs. r # rs) (catalog_installs e now profile records ms))"

definition catalog_hooks :: "host_env \<Rightarrow> nat \<Rightarrow> install_row \<Rightarrow> module_manifest \<Rightarrow> hook_row list" where
  "catalog_hooks e now r m =
     map (\<lambda>(index, name).
       \<lparr>hk_id = he_stable_id e (lit ''hookreg'') [mi_id r, name], hk_install_id = mi_id r, hk_hook_name = name,
        hk_implementation_ref = nonempty_or (mm_entry_point m) (mm_module_id m) @ lit ''#'' @ name,
        hk_execution_order = 100 + int index, hk_timeout_ms = 3000, hk_side_effects = SeReadOnly,
        hk_enabled = (mi_desired_state r = DsEnabled \<and> is_kernel_compatible (mm_kernel_compatibility m)),
        hk_created_at = now\<rparr>)
       (enumerate 0 (mm_hooks m))"

definition catalog_subscriptions ::
  "host_env \<Rightarrow> nat \<Rightarrow> install_row \<Rightarrow> module_manifest \<Rightarrow> subscription_row list" where
  "catalog_subscriptions e now r m =
     build_subscription_records e now r m
       (mi_desired_state r = DsEnabled \<and> is_kernel_compatible (mm_kernel_compatibility m))"

text \<open>The report of the file catalog; \<open>known\<close> tells whether the module had a record. The text of a lifecycle
  state is a parameter of the summary.\<close>

definition catalog_health :: "host_env \<Rightarrow> nat \<Rightarrow> (lifecycle \<Rightarrow> ustr) \<Rightarrow> bool \<Rightarrow> install_row \<Rightarrow> module_manifest \<Rightarrow> health_row" where
  "catalog_health e now show_state known r m =
     (let compatible = is_kernel_compatible (mm_kernel_compatibility m)
      in \<lparr>hl_id = he_stable_id e (lit ''health'') [mi_id r], hl_install_id = mi_id r,
          hl_status = (if \<not> compatible then HUnhealthy
                       else if known \<and> mi_lifecycle_state r = LQuarantined then HQuarantined else HHealthy),
          hl_summary =
            (if \<not> compatible then lit ''Module failed compatibility validation.''
             else if known then lit ''Module lifecycle state is '' @ show_state (mi_lifecycle_state r) @ lit ''.''
             else lit ''Module is discovered and awaiting lifecycle reconciliation.''),
          hl_details_ref = None, hl_observed_at = now\<rparr>)"

text \<open>\<open>build_module_catalog_snapshot\<close>: the records of the manifests, which it also writes to
  \<open>module-install-records.json\<close>.\<close>

definition build_module_catalog ::
  "host_env \<Rightarrow> nat \<Rightarrow> module_manifest list \<Rightarrow> install_row list act" where
  "build_module_catalog e now manifests w =
     (case catalog_installs e now
             (value_or (fl_profile (mw_files w))
                [(lit ''_defaults'', JObj [(lit ''desiredState'', JStr (lit ''enabled''))])])
             (fl_records (mw_files w)) manifests of
        Inl err \<Rightarrow> (w, Inl err)
      | Inr rs \<Rightarrow> (w\<lparr>mw_files := (mw_files w)\<lparr>fl_records := rs\<rparr>\<rparr>, Inr rs))"

section \<open>Reconciliation\<close>

definition discovered_install :: "host_env \<Rightarrow> module_manifest \<Rightarrow> desired_state \<Rightarrow> ustr option \<Rightarrow> install_row" where
  "discovered_install e m desired err =
     \<lparr>mi_id = he_stable_id e (lit ''modins'') [mm_module_id m, mm_version m], mi_module_id = mm_module_id m,
      mi_module_version = mm_version m, mi_desired_state = desired,
      mi_lifecycle_state = (if value_or err [] \<noteq> [] then LIncompatible else LDiscovered),
      mi_runtime_mode = mm_runtime_mode m, mi_manifest_ref = mm_manifest_path m, mi_config_binding_id = None,
      mi_installed_at = None, mi_enabled_at = None, mi_disabled_at = None, mi_last_error = err\<rparr>"

definition refreshed_install :: "module_manifest \<Rightarrow> desired_state \<Rightarrow> ustr option \<Rightarrow> install_row \<Rightarrow> install_row" where
  "refreshed_install m desired err r =
     (let lifecycle = (if mi_module_version r \<noteq> mm_version m \<and> mi_lifecycle_state r \<notin> {LRemoved, LQuarantined}
                       then LDiscovered else mi_lifecycle_state r)
      in r\<lparr>mi_module_version := mm_version m, mi_desired_state := desired,
           mi_runtime_mode := mm_runtime_mode m, mi_manifest_ref := mm_manifest_path m,
           mi_lifecycle_state := (if value_or err [] \<noteq> [] then LIncompatible else lifecycle),
           mi_last_error := err\<rparr>)"

definition sync_manifest_record ::
  "host_env \<Rightarrow> nat \<Rightarrow> install_row option \<Rightarrow> module_manifest \<Rightarrow> desired_state \<Rightarrow> ustr option \<Rightarrow> install_row act" where
  "sync_manifest_record e now existing m desired err =
     (case existing of
        None \<Rightarrow>
          and_then (runs (upsert_module_install (discovered_install e m desired err))) (\<lambda>inst.
          and_then (module_event e now (mm_module_id m) ''module.discovered'') (\<lambda>_. ret inst))
      | Some r \<Rightarrow> runs (upsert_module_install (refreshed_install m desired err r)))"

definition apply_incompatible_state :: "host_env \<Rightarrow> nat \<Rightarrow> install_row \<Rightarrow> ustr \<Rightarrow> unit act" where
  "apply_incompatible_state e now inst detail =
     and_then (runs (transition_lifecycle now (mi_module_id inst) LIncompatible (Some detail))) (\<lambda>_.
     and_then (edits (set_runtime_contributions_active now (mi_id inst) False)) (\<lambda>_.
     and_then (write_health_details e (mi_module_id inst)
         [(lit ''failureCount'', JInt 0), (lit ''status'', JStr (lit ''unhealthy'')), (lit ''detail'', JStr detail)])
         (\<lambda>ref.
     and_then (runs (upsert_health_report
         (health_report_of e now inst HUnhealthy (lit ''Module failed compatibility validation.'') ref))) (\<lambda>_.
       ret ()))))"

text \<open>The body of the loop of \<open>sync_catalog\<close>.\<close>

definition sync_module ::
  "host_env \<Rightarrow> nat \<Rightarrow> install_row option \<Rightarrow> module_manifest \<Rightarrow> desired_state \<Rightarrow> ustr option \<Rightarrow> unit act" where
  "sync_module e now existing m desired err =
     and_then (sync_manifest_record e now existing m desired err) (\<lambda>inst.
       if value_or err [] \<noteq> [] then apply_incompatible_state e now inst (value_or err [])
       else and_then (validate_module e now inst m) (\<lambda>inst1.
         if mi_lifecycle_state inst1 \<in> {LFailed, LQuarantined} then ret ()
         else and_then (install_module e now inst1 m) (\<lambda>inst2.
           if mi_desired_state inst2 = DsEnabled
           then and_then (enable_module e now inst2 m) (\<lambda>_. ret ())
           else and_then (disable_module e now inst2 m) (\<lambda>_. ret ()))))"

fun for_each :: "('a \<Rightarrow> unit act) \<Rightarrow> 'a list \<Rightarrow> unit act" where
  "for_each f [] = ret ()"
| "for_each f (x # xs) = and_then (f x) (\<lambda>_. for_each f xs)"

text \<open>The records of the file catalog decide per manifest; they exist for every manifest.\<close>

definition sync_manifest :: "host_env \<Rightarrow> nat \<Rightarrow> install_row list \<Rightarrow> install_row list \<Rightarrow> module_manifest \<Rightarrow> unit act" where
  "sync_manifest e now sources existing m =
     (case index_by mi_module_id sources (mm_module_id m) of
        None \<Rightarrow> raise (KeyError (mm_module_id m))
      | Some source \<Rightarrow>
          sync_module e now (index_by mi_module_id existing (mm_module_id m)) m
            (mi_desired_state source) (mi_last_error source))"

definition sync_catalog :: "host_env \<Rightarrow> nat \<Rightarrow> module_manifest list \<Rightarrow> catalog_snapshot act" where
  "sync_catalog e now manifests =
     and_then (build_module_catalog e now manifests) (\<lambda>sources.
     and_then (in_session
        (and_then (asks list_module_installs) (\<lambda>existing.
         and_then (for_each (sync_manifest e now sources existing) manifests) (\<lambda>_.
         and_then (for_each (remove_module e now)
             (filter (\<lambda>r. mi_module_id r \<notin> mm_module_id ` set manifests) existing)) (\<lambda>_.
           asks (build_snapshot manifests now)))))) (\<lambda>snapshot.
     and_then (\<lambda>w. (w\<lparr>mw_files := (mw_files w)\<lparr>fl_records := cs_installs snapshot\<rparr>\<rparr>, Inr ())) (\<lambda>_.
       ret snapshot)))"

record module_details =
  mx_install :: install_row
  mx_binding :: "binding_row option"
  mx_hooks :: "hook_row list"
  mx_subscriptions :: "subscription_row list"
  mx_health :: "health_row option"

definition get_module_details :: "host_env \<Rightarrow> nat \<Rightarrow> module_manifest list \<Rightarrow> ustr \<Rightarrow> module_details act" where
  "get_module_details e now manifests module_id =
     and_then (sync_catalog e now manifests) (\<lambda>snapshot.
       case index_by mi_module_id (cs_installs snapshot) module_id of
         None \<Rightarrow> raise (KeyError module_id)
       | Some inst \<Rightarrow>
           asks (\<lambda>db. \<lparr>mx_install = inst, mx_binding = get_config_binding (mi_id inst) db,
                        mx_hooks = list_hooks (Some (mi_id inst)) db,
                        mx_subscriptions = list_subscriptions (Some (mi_id inst)) None db,
                        mx_health = get_health_report (mi_id inst) db\<rparr>))"

section \<open>Decisions by hand\<close>

definition required_install :: "ustr \<Rightarrow> install_row act" where
  "required_install module_id =
     and_then (asks (get_module_install module_id)) (\<lambda>found.
       case found of None \<Rightarrow> raise (KeyError module_id) | Some inst \<Rightarrow> ret inst)"

text \<open>The sessions of \<open>set_module_enabled\<close> and \<open>unquarantine_module\<close>.\<close>

definition set_enabled_session ::
  "host_env \<Rightarrow> nat \<Rightarrow> ustr \<Rightarrow> bool \<Rightarrow> module_manifest \<Rightarrow> unit act" where
  "set_enabled_session e now module_id enabled m =
     and_then (required_install module_id) (\<lambda>_.
     and_then (runs (set_desired_state module_id (if enabled then DsEnabled else DsDisabled))) (\<lambda>inst.
       if enabled then
         and_then (validate_module e now inst m) (\<lambda>inst1.
           if mi_lifecycle_state inst1 \<notin> {LFailed, LQuarantined, LIncompatible} then
             and_then (install_module e now inst1 m) (\<lambda>inst2.
             and_then (enable_module e now inst2 m) (\<lambda>_. ret ()))
           else ret ())
       else and_then (disable_module e now inst m) (\<lambda>_. ret ())))"

definition unquarantine_session :: "host_env \<Rightarrow> nat \<Rightarrow> ustr \<Rightarrow> module_manifest \<Rightarrow> unit act" where
  "unquarantine_session e now module_id m =
     and_then (required_install module_id) (\<lambda>_.
     and_then (write_health_details e module_id
         [(lit ''failureCount'', JInt 0), (lit ''status'', JStr (lit ''healthy'')),
          (lit ''summary'', JStr (lit ''Failure counter reset.''))]) (\<lambda>_.
     and_then (runs (transition_lifecycle now module_id LDisabled None)) (\<lambda>inst.
     and_then (health_details_ref e module_id) (\<lambda>ref.
     and_then (runs (upsert_health_report (health_report_of e now inst HHealthy
         (lit ''Module quarantine cleared and module is disabled.'') ref))) (\<lambda>_.
       if mi_desired_state inst = DsEnabled
       then and_then (enable_module e now inst m) (\<lambda>_. ret ()) else ret ())))))"

definition set_module_enabled ::
  "host_env \<Rightarrow> nat \<Rightarrow> module_manifest list \<Rightarrow> ustr \<Rightarrow> bool \<Rightarrow> module_details act" where
  "set_module_enabled e now manifests module_id enabled =
     (and_then (build_module_catalog e now manifests) (\<lambda>_.
         case index_by mm_module_id manifests module_id of
           None \<Rightarrow> raise (KeyError module_id)
         | Some m \<Rightarrow>
             and_then (persist_desired_state module_id (if enabled then DsEnabled else DsDisabled)) (\<lambda>_.
             and_then (in_session (set_enabled_session e now module_id enabled m)) (\<lambda>_.
               get_module_details e now manifests module_id))))"

definition quarantine_module ::
  "host_env \<Rightarrow> nat \<Rightarrow> module_manifest list \<Rightarrow> ustr \<Rightarrow> ustr \<Rightarrow> module_details act" where
  "quarantine_module e now manifests module_id reason =
     and_then (in_session
        (and_then (required_install module_id) (\<lambda>inst. record_failure e now inst reason))) (\<lambda>_.
       get_module_details e now manifests module_id)"

definition unquarantine_module ::
  "host_env \<Rightarrow> nat \<Rightarrow> module_manifest list \<Rightarrow> ustr \<Rightarrow> module_details act" where
  "unquarantine_module e now manifests module_id =
     and_then (build_module_catalog e now manifests) (\<lambda>_.
     case index_by mm_module_id manifests module_id of
       None \<Rightarrow> raise (KeyError module_id)
     | Some m \<Rightarrow>
         and_then (in_session (unquarantine_session e now module_id m)) (\<lambda>_.
           get_module_details e now manifests module_id))"

section \<open>Events\<close>

definition record_emission :: "host_env \<Rightarrow> nat \<Rightarrow> event_envelope \<Rightarrow> module_emission \<Rightarrow> unit act" where
  "record_emission e now envelope em =
     record_module_event e now (me_aggregate_type em) (me_aggregate_id em) (me_event_type em)
       (me_event_version em) (nonempty_or (me_project_id em) (en_project_id envelope))"

record dispatch_outcome =
  dp_status :: handling_status
  dp_ack :: bool
  dp_emitted :: nat

definition failed_dispatch :: dispatch_outcome where
  "failed_dispatch = \<lparr>dp_status = EvFailed, dp_ack = False, dp_emitted = 0\<rparr>"

definition settle_delivery ::
  "host_env \<Rightarrow> nat \<Rightarrow> install_row \<Rightarrow> event_envelope \<Rightarrow> handling_result \<Rightarrow> dispatch_outcome act" where
  "settle_delivery e now inst envelope result =
     and_then (current_install inst) (\<lambda>cur.
       let emit = and_then (for_each (record_emission e now envelope) (hr_emitted_events result)) (\<lambda>_.
             ret \<lparr>dp_status = hr_status result, dp_ack = (hr_status result \<noteq> EvFailed),
                  dp_emitted = length (hr_emitted_events result)\<rparr>)
       in case hr_health_status result of
            None \<Rightarrow> emit
          | Some h \<Rightarrow>
              and_then (health_details_ref e (mi_module_id cur)) (\<lambda>ref.
              and_then (runs (upsert_health_report (health_report_of e now cur h
                  (nonempty_or (hr_summary result)
                    (lit ''Module handled '' @ en_event_type envelope @ lit ''.'')) ref))) (\<lambda>_.
              and_then (if h = HDegraded
                        then runs (transition_lifecycle now (mi_module_id cur) LDegraded None) else ret cur) (\<lambda>_.
                if h \<in> {HUnhealthy, HQuarantined} then
                  and_then (record_failure e now cur
                      (nonempty_or (hr_summary result) (en_event_type envelope @ lit '' failed.'')))
                    (\<lambda>_. ret failed_dispatch)
                else emit))))"

definition dispatch_event ::
  "host_env \<Rightarrow> nat \<Rightarrow> plugin \<Rightarrow> install_row \<Rightarrow> event_envelope \<Rightarrow> dispatch_outcome act" where
  "dispatch_event e now plugin inst envelope =
     (case pl_handle_event plugin envelope of
        Inl err \<Rightarrow>
          and_then (in_session (record_failure e now inst (lit ''Event handling failed: '' @ he_text e err)))
            (\<lambda>_. ret failed_dispatch)
      | Inr result \<Rightarrow> in_session (settle_delivery e now inst envelope result))"

text \<open>The deliveries of one subscription: the bus acknowledges by the outcome and refuses (\<open>nak\<close>) when the
  handler raises.\<close>

fun deliver_all ::
  "host_env \<Rightarrow> nat \<Rightarrow> plugin \<Rightarrow> install_row \<Rightarrow> event_envelope list \<Rightarrow> dispatch_outcome list act" where
  "deliver_all e now plugin inst [] w = (w, Inr [])"
| "deliver_all e now plugin inst (x # xs) w =
     (case dispatch_event e now plugin inst x w of
        (w1, Inl _) \<Rightarrow> deliver_all e now plugin inst xs w1
      | (w1, Inr out) \<Rightarrow>
          (case deliver_all e now plugin inst xs w1 of
             (w2, Inl err) \<Rightarrow> (w2, Inl err)
           | (w2, Inr outs) \<Rightarrow> (w2, Inr (out # outs))))"

text \<open>\<open>consume_events\<close>; \<open>bus\<close> gives the deliveries of a subscription, or raises.\<close>

definition consume_subscription ::
  "host_env \<Rightarrow> nat \<Rightarrow> (ustr \<Rightarrow> ustr \<Rightarrow> event_envelope list res) \<Rightarrow> catalog_snapshot \<Rightarrow> subscription_row
     \<Rightarrow> dispatch_outcome list act" where
  "consume_subscription e now bus snapshot s =
     (case index_by mi_id (cs_installs snapshot) (sb_install_id s) of
        None \<Rightarrow> raise (KeyError (sb_install_id s))
      | Some inst \<Rightarrow>
          (case index_by mm_module_id (cs_manifests snapshot) (mi_module_id inst) of
             None \<Rightarrow> raise (KeyError (mi_module_id inst))
           | Some m \<Rightarrow>
               and_then (lift (load_plugin e m)) (\<lambda>plugin.
               and_then (lift (bus (sb_event_type s) (sb_consumer_group s))) (\<lambda>deliveries.
                 deliver_all e now plugin inst deliveries))))"

fun consume_all ::
  "host_env \<Rightarrow> nat \<Rightarrow> (ustr \<Rightarrow> ustr \<Rightarrow> event_envelope list res) \<Rightarrow> catalog_snapshot \<Rightarrow> subscription_row list
     \<Rightarrow> dispatch_outcome list act" where
  "consume_all e now bus snapshot [] = ret []"
| "consume_all e now bus snapshot (s # ss) =
     and_then (consume_subscription e now bus snapshot s) (\<lambda>outs.
     and_then (consume_all e now bus snapshot ss) (\<lambda>rest. ret (outs @ rest)))"

definition consume_events ::
  "host_env \<Rightarrow> nat \<Rightarrow> (ustr \<Rightarrow> ustr \<Rightarrow> event_envelope list res) \<Rightarrow> module_manifest list \<Rightarrow> ustr option
     \<Rightarrow> dispatch_outcome list act" where
  "consume_events e now bus manifests module_id =
     and_then (sync_catalog e now manifests) (\<lambda>snapshot.
       consume_all e now bus snapshot
         (filter (\<lambda>s. sb_status s = SubActive
              \<and> (module_id = None
                 \<or> (\<exists>r\<in>set (cs_installs snapshot). mi_id r = sb_install_id s \<and> module_id = Some (mi_module_id r))))
            (cs_subscriptions snapshot)))"

end
