(* ===== verification/ModuleFacts.thy ===== *)
theory ModuleFacts
  imports ModuleSync
begin

text \<open>
  Reasoning about the module host: triples over the database with a post-condition for the result and one for
  the exception, the frame of an operation on one module (rows and contributions of all other modules stay),
  and what each operation establishes for its module.
\<close>

section \<open>Triples\<close>

definition triple ::
  "(module_db \<Rightarrow> bool) \<Rightarrow> 'a act \<Rightarrow> ('a \<Rightarrow> module_db \<Rightarrow> bool) \<Rightarrow> (module_db \<Rightarrow> bool) \<Rightarrow> bool" where
  "triple P m Q E \<longleftrightarrow>
     (\<forall>w. P (mw_db w) \<longrightarrow>
        (case m w of (w', Inr x) \<Rightarrow> Q x (mw_db w') | (w', Inl err) \<Rightarrow> E (mw_db w')))"

named_theorems triple_rules \<open>triples of the basic actions\<close>

lemma tripleI:
  "(\<And>w w' x. P (mw_db w) \<Longrightarrow> m w = (w', Inr x) \<Longrightarrow> Q x (mw_db w')) \<Longrightarrow>
   (\<And>w w' err. P (mw_db w) \<Longrightarrow> m w = (w', Inl err) \<Longrightarrow> E (mw_db w')) \<Longrightarrow> triple P m Q E"
  by (auto simp: triple_def split: prod.splits sum.splits)

lemma tripleD:
  assumes "triple P m Q E" "P (mw_db w)"
  shows "m w = (w', Inr x) \<Longrightarrow> Q x (mw_db w')" and "m w = (w', Inl err) \<Longrightarrow> E (mw_db w')"
  using assms by (auto simp: triple_def)

lemma triple_case:
  "triple P m Q E \<Longrightarrow> P (mw_db w) \<Longrightarrow>
     (case m w of (w', Inr x) \<Rightarrow> Q x (mw_db w') | (w', Inl err) \<Rightarrow> E (mw_db w'))"
  by (simp add: triple_def)

lemma triple_weaken:
  "triple P m Q E \<Longrightarrow> (\<And>db. P' db \<Longrightarrow> P db) \<Longrightarrow> (\<And>x db. Q x db \<Longrightarrow> Q' x db) \<Longrightarrow> (\<And>db. E db \<Longrightarrow> E' db) \<Longrightarrow>
   triple P' m Q' E'"
  by (auto simp: triple_def split: prod.splits sum.splits) blast+

lemma triple_pre: "triple P m Q E \<Longrightarrow> (\<And>db. P' db \<Longrightarrow> P db) \<Longrightarrow> triple P' m Q E"
  by (rule triple_weaken)

lemma triple_post: "triple P m Q E \<Longrightarrow> (\<And>x db. Q x db \<Longrightarrow> Q' x db) \<Longrightarrow> triple P m Q' E"
  by (rule triple_weaken)

lemma triple_then:
  assumes "triple P m R E" "\<And>x. triple (R x) (f x) Q E"
  shows "triple P (and_then m f) Q E"
proof (rule tripleI)
  fix w w' x assume P: "P (mw_db w)" and m: "and_then m f w = (w', Inr x)"
  from m obtain w1 y where y: "m w = (w1, Inr y)" "f y w1 = (w', Inr x)"
    by (auto simp: and_then_def split: prod.splits sum.splits)
  show "Q x (mw_db w')" by (rule tripleD(1) [OF assms(2) tripleD(1) [OF assms(1) P y(1)] y(2)])
next
  fix w w' err assume P: "P (mw_db w)" and m: "and_then m f w = (w', Inl err)"
  show "E (mw_db w')"
  proof (cases "m w")
    case (Pair w1 r)
    show ?thesis
    proof (cases r)
      case (Inl e1)
      with Pair m tripleD(2) [OF assms(1) P] show ?thesis by (auto simp: and_then_def)
    next
      case (Inr y)
      with Pair m have f: "f y w1 = (w', Inl err)" by (simp add: and_then_def)
      show ?thesis using tripleD(2) [OF assms(2) tripleD(1) [OF assms(1) P]] Pair Inr f by blast
    qed
  qed
qed

lemma triple_ret [triple_rules]: "(\<And>db. P db \<Longrightarrow> Q x db) \<Longrightarrow> triple P (ret x) Q E"
  by (simp add: triple_def ret_def)

lemma triple_raise [triple_rules]: "(\<And>db. P db \<Longrightarrow> E db) \<Longrightarrow> triple P (raise err) Q E"
  by (simp add: triple_def raise_def)

lemma triple_lift [triple_rules]:
  "(\<And>x db. r = Inr x \<Longrightarrow> P db \<Longrightarrow> Q x db) \<Longrightarrow> (\<And>db. P db \<Longrightarrow> E db) \<Longrightarrow> triple P (lift r) Q E"
  by (auto simp: triple_def lift_def split: sum.splits)

lemma triple_asks [triple_rules]: "(\<And>db. P db \<Longrightarrow> Q (f db) db) \<Longrightarrow> triple P (asks f) Q E"
  by (simp add: triple_def asks_def)

lemma triple_edits [triple_rules]: "(\<And>db. P db \<Longrightarrow> Q () (f db)) \<Longrightarrow> triple P (edits f) Q E"
  by (simp add: triple_def edits_def)

lemma triple_runs [triple_rules]:
  "(\<And>db db' x. P db \<Longrightarrow> f db = Inr (db', x) \<Longrightarrow> Q x db') \<Longrightarrow> (\<And>db. P db \<Longrightarrow> E db) \<Longrightarrow> triple P (runs f) Q E"
  by (auto simp: triple_def runs_def split: sum.splits)

lemma triple_runs_unit [triple_rules]:
  "(\<And>db db'. P db \<Longrightarrow> f db = Inr db' \<Longrightarrow> Q () db') \<Longrightarrow> (\<And>db. P db \<Longrightarrow> E db) \<Longrightarrow> triple P (runs_unit f) Q E"
  unfolding runs_unit_def by (rule triple_runs) (auto simp: map_sum_Inr)

lemma triple_if [triple_rules]:
  "(b \<Longrightarrow> triple P m Q E) \<Longrightarrow> (\<not> b \<Longrightarrow> triple P n Q E) \<Longrightarrow> triple P (if b then m else n) Q E"
  by simp

lemma triple_in_session: "triple P m Q E \<Longrightarrow> triple P (in_session m) Q P"
  by (force simp: triple_def in_session_def split: prod.splits sum.splits)

text \<open>Actions that leave the database alone.\<close>

definition quiet :: "'a act \<Rightarrow> bool" where
  "quiet m \<longleftrightarrow> (\<forall>w. mw_db (fst (m w)) = mw_db w)"

lemma triple_quiet: "quiet m \<Longrightarrow> (\<And>x db. P db \<Longrightarrow> Q x db) \<Longrightarrow> (\<And>db. P db \<Longrightarrow> E db) \<Longrightarrow> triple P m Q E"
  by (auto simp: triple_def quiet_def split: prod.splits sum.splits) (metis fst_conv)+

lemma quiet_basic [simp]:
  "quiet (ret x)" "quiet (raise err)" "quiet (lift r)" "quiet (asks g)"
  "quiet (health_details_ref e i)" "quiet (read_health_details i)" "quiet (write_health_details e i d)"
  "quiet (persist_desired_state i s)" "quiet (run_hook reg p)" "quiet (reject_failed e a t)"
  by (auto simp: quiet_def ret_def raise_def lift_def asks_def health_details_ref_def read_health_details_def
      write_health_details_def persist_desired_state_def run_hook_def reject_failed_def Let_def split: option.splits)

lemma quiet_then [simp]: "quiet m \<Longrightarrow> (\<And>x. quiet (f x)) \<Longrightarrow> quiet (and_then m f)"
  by (auto simp: quiet_def and_then_def split: prod.splits sum.splits) (metis fst_conv)+

lemma quiet_count_failure [simp]: "quiet (count_failure e i reason)"
  by (simp add: count_failure_def Let_def)

lemma quiet_health_report [simp]: "quiet (build_health_report e now inst m regs)"
  by (auto simp: build_health_report_def Let_def split: option.splits json.splits intro!: quiet_then)

lemma quiet_catalog [simp]: "quiet (build_module_catalog e now ms)"
  by (auto simp: quiet_def build_module_catalog_def split: sum.splits)

section \<open>The frame of one module\<close>

definition elsewhere :: "ustr \<Rightarrow> module_db \<Rightarrow> install_row list \<times> hook_row list \<times> subscription_row list" where
  "elsewhere i db = (filter (\<lambda>r. mi_id r \<noteq> i) (md_installs db), filter (\<lambda>h. hk_install_id h \<noteq> i) (md_hooks db),
     filter (\<lambda>s. sb_install_id s \<noteq> i) (md_subscriptions db))"

definition live_contributions :: "ustr \<Rightarrow> module_db \<Rightarrow> bool" where
  "live_contributions i db \<longleftrightarrow>
     (\<exists>h\<in>set (md_hooks db). hk_install_id h = i \<and> hk_enabled h)
     \<or> (\<exists>s\<in>set (md_subscriptions db). sb_install_id s = i \<and> sb_status s = SubActive)"

definition installs_ok :: "module_db \<Rightarrow> bool" where
  "installs_ok db \<longleftrightarrow> table_ok mi_id (md_installs db) \<and> table_ok mi_module_id (md_installs db)"

text \<open>The state while the module with id \<open>i\<close> is being worked on: its row has the desired state \<open>d\<close>, the other
  modules look as in \<open>V\<close>.\<close>

definition working ::
  "ustr \<Rightarrow> ustr \<Rightarrow> desired_state \<Rightarrow> install_row list \<times> hook_row list \<times> subscription_row list \<Rightarrow> module_db \<Rightarrow> bool" where
  "working i mid d V db \<longleftrightarrow> installs_ok db \<and> elsewhere i db = V
     \<and> (\<exists>r. get_module_install mid db = Some r \<and> mi_id r = i \<and> mi_desired_state r = d)"

definition row_of :: "install_row \<Rightarrow> module_db \<Rightarrow> bool" where
  "row_of r db \<longleftrightarrow> get_module_install (mi_module_id r) db = Some r"


text \<open>The row a step returns is the row of the database, with the id and the desired state of the module.\<close>

definition shown :: "ustr \<Rightarrow> ustr \<Rightarrow> desired_state \<Rightarrow> install_row \<Rightarrow> module_db \<Rightarrow> bool" where
  "shown i mid d r db \<longleftrightarrow> get_module_install mid db = Some r \<and> mi_id r = i \<and> mi_module_id r = mid \<and> mi_desired_state r = d"

lemma get_module_id: "get_module_install mid db = Some r \<Longrightarrow> mi_module_id r = mid"
  by (auto simp: get_module_install_def dest: find_row_Some)

lemma get_mem: "installs_ok db \<Longrightarrow> get_module_install mid db = Some r \<longleftrightarrow> r \<in> set (md_installs db) \<and> mi_module_id r = mid"
  by (simp add: get_module_install_def installs_ok_def find_row_iff)

lemma id_unique: "installs_ok db \<Longrightarrow> r \<in> set (md_installs db) \<Longrightarrow> r' \<in> set (md_installs db) \<Longrightarrow> mi_id r = mi_id r' \<Longrightarrow> r = r'"
  by (auto simp: installs_ok_def table_ok_def distinct_map inj_on_def)

lemma module_unique:
  "installs_ok db \<Longrightarrow> r \<in> set (md_installs db) \<Longrightarrow> r' \<in> set (md_installs db) \<Longrightarrow> mi_module_id r = mi_module_id r' \<Longrightarrow> r = r'"
  by (auto simp: installs_ok_def table_ok_def distinct_map inj_on_def)

lemma filter_edit_row:
  "(\<And>r. r \<in> set rows \<Longrightarrow> key r = i \<Longrightarrow> \<not> p r \<and> \<not> p (f r)) \<Longrightarrow> filter p (edit_row key i f rows) = filter p rows"
  by (induction rows) (auto simp: edit_row_def)

lemma working_edit:
  assumes w: "working i mid d V db"
    and f: "\<And>q. mi_module_id q = mid \<Longrightarrow> mi_module_id (f q) = mid \<and> mi_id (f q) = mi_id q \<and> mi_desired_state (f q) = d'"
  shows "working i mid d' V (edit_install mid f db)"
    and "get_module_install mid (edit_install mid f db) = map_option f (get_module_install mid db)"
    and "live_contributions i (edit_install mid f db) = live_contributions i db"
proof -
  let ?g = "\<lambda>q. if mi_module_id q = mid then f q else q"
  have g: "keeps mi_module_id ?g" "keeps mi_id ?g" using f by (auto simp: keeps_def)
  have e: "edit_row mi_module_id mid f (md_installs db) = edit_row mi_module_id mid ?g (md_installs db)"
    by (rule edit_row_cong) simp
  have ids: "map mi_id (edit_row mi_module_id mid ?g (md_installs db)) = map mi_id (md_installs db)"
    using g(2) by (intro map_edit) (auto simp: keeps_def)
  from w obtain r where r: "get_module_install mid db = Some r" "mi_id r = i" "installs_ok db" "elsewhere i db = V"
    by (auto simp: working_def)
  have ok: "installs_ok (edit_install mid f db)"
    using r(3) ids edit_row_map [OF g(1), of mid "md_installs db"]
    by (simp add: installs_ok_def edit_install_def e table_ok_def)
  show get: "get_module_install mid (edit_install mid f db) = map_option f (get_module_install mid db)"
    unfolding get_module_install_def edit_install_def e using find_row_edit [OF g(1)] r(1)
    by (simp add: e [symmetric]) (simp add: e get_module_install_def get_module_id [OF r(1)])
  have "filter (\<lambda>x. mi_id x \<noteq> i) (edit_row mi_module_id mid f (md_installs db)) = filter (\<lambda>x. mi_id x \<noteq> i) (md_installs db)"
  proof (rule filter_edit_row)
    fix x assume x: "x \<in> set (md_installs db)" "mi_module_id x = mid"
    then have "x = r" using r(1,3) get_mem [OF r(3), of mid x] by simp
    with f [OF x(2)] r(2) show "\<not> mi_id x \<noteq> i \<and> \<not> mi_id (f x) \<noteq> i" by simp
  qed
  then have "elsewhere i (edit_install mid f db) = V"
    using r(4) by (simp add: elsewhere_def edit_install_def)
  with ok get r f [OF get_module_id [OF r(1)]] show "working i mid d' V (edit_install mid f db)"
    by (simp add: working_def)
  show "live_contributions i (edit_install mid f db) = live_contributions i db"
    by (simp add: live_contributions_def edit_install_def)
qed

text \<open>The precondition of the operations: at work on the module, with something known of its contributions.\<close>

definition at_work ::
  "ustr \<Rightarrow> ustr \<Rightarrow> desired_state \<Rightarrow> install_row list \<times> hook_row list \<times> subscription_row list \<Rightarrow> (bool \<Rightarrow> bool)
     \<Rightarrow> module_db \<Rightarrow> bool" where
  "at_work i mid d V L db \<longleftrightarrow> working i mid d V db \<and> L (live_contributions i db)"

lemma at_work_working: "at_work i mid d V L db \<Longrightarrow> working i mid d V db"
  by (simp add: at_work_def)

lemma transition_triple:
  "triple (at_work i mid d V L) (runs (transition_lifecycle now mid lc err))
     (\<lambda>r db. at_work i mid d V L db \<and> shown i mid d r db \<and> mi_lifecycle_state r = lc) (at_work i mid d V (\<lambda>_. True))"
proof (rule triple_runs)
  fix db db' x assume w: "at_work i mid d V L db" and t: "transition_lifecycle now mid lc err db = Inr (db', x)"
  from w obtain r where r: "get_module_install mid db = Some r" "mi_id r = i" "mi_desired_state r = d"
    by (auto simp: at_work_def working_def)
  have W: "working i mid d V db" using w by (rule at_work_working)
  have f: "mi_module_id (moved_to now lc err q) = mi_module_id q" "mi_id (moved_to now lc err q) = mi_id q"
    "mi_desired_state (moved_to now lc err q) = mi_desired_state q" for q by (simp_all add: moved_to_def)
  let ?f = "\<lambda>q. (moved_to now lc err q)\<lparr>mi_desired_state := d\<rparr>"
  have eq: "edit_install mid (moved_to now lc err) db = edit_install mid ?f db"
  proof -
    have "moved_to now lc err q = ?f q" if "q \<in> set (md_installs db)" "mi_module_id q = mid" for q
      using that r get_mem [of db mid q] W by (simp add: working_def moved_to_def)
    then show ?thesis by (simp add: edit_install_def cong: edit_row_cong)
  qed
  have e: "db' = edit_install mid (moved_to now lc err) db" "x = moved_to now lc err r"
    using t r(1) by (simp_all add: transition_lifecycle_def)
  note we = working_edit [OF W, of ?f d]
  have "moved_to now lc err r = ?f r" using r(3) by (simp add: moved_to_def)
  with we show "at_work i mid d V L db' \<and> shown i mid d x db' \<and> mi_lifecycle_state x = lc"
    using w r e(2) get_module_id [OF r(1)] unfolding e(1) eq
    by (simp add: at_work_def shown_def f moved_to_def)
qed (simp add: at_work_def)


lemma at_work_any: "at_work i mid d V L db \<Longrightarrow> at_work i mid d V (\<lambda>_. True) db"
  by (simp add: at_work_def)

lemma frame_simps [simp]:
  "at_work i mid d V L (db\<lparr>md_events := x\<rparr>) = at_work i mid d V L db"
  "at_work i mid d V L (db\<lparr>md_health := y\<rparr>) = at_work i mid d V L db"
  "at_work i mid d V L (db\<lparr>md_bindings := z\<rparr>) = at_work i mid d V L db"
  "shown i mid d r (db\<lparr>md_events := x\<rparr>) = shown i mid d r db"
  "shown i mid d r (db\<lparr>md_health := y\<rparr>) = shown i mid d r db"
  by (simp_all add: at_work_def working_def shown_def installs_ok_def elsewhere_def get_module_install_def
      live_contributions_def)

definition unmoved :: "(module_db \<Rightarrow> bool) \<Rightarrow> bool" where
  "unmoved P \<longleftrightarrow> (\<forall>db x y. P db \<longrightarrow> P (db\<lparr>md_events := x\<rparr>) \<and> P (db\<lparr>md_health := y\<rparr>))"

lemma unmoved_basic [simp]:
  "unmoved (at_work i mid d V L)" "unmoved (shown i mid d r)" "unmoved (\<lambda>db. b)"
  "unmoved P \<Longrightarrow> unmoved P' \<Longrightarrow> unmoved (\<lambda>db. P db \<and> P' db)"
  by (simp_all add: unmoved_def)

lemma event_triple: "unmoved P \<Longrightarrow> triple P (module_event e now i t) (\<lambda>_. P) P"
  unfolding module_event_def record_module_event_def
  by (rule triple_runs) (auto simp: unmoved_def Let_def map_sum_Inr split: prod.splits)

lemma emission_triple: "unmoved P \<Longrightarrow> triple P (record_emission e now envelope em) (\<lambda>_. P) P"
  unfolding record_emission_def record_module_event_def
  by (rule triple_runs) (auto simp: unmoved_def Let_def map_sum_Inr split: prod.splits)

lemma health_triple: "unmoved P \<Longrightarrow> triple P (runs (upsert_health_report h)) (\<lambda>_. P) P"
  by (rule triple_runs) (auto simp: unmoved_def upsert_health_report_def map_sum_Inr split: option.splits)

text \<open>Switching the contributions of the module off and on.\<close>

lemma filter_edit_key: "filter (\<lambda>x. key x \<noteq> i) (edit_row key i f rows) = filter (\<lambda>x. key x \<noteq> i) rows" if "\<And>x. key (f x) = key x"
  using that by (intro filter_edit_row) auto

lemma edited_row: "h \<in> set (edit_row key i f rows) \<Longrightarrow> key h = i \<Longrightarrow> (\<And>x. key (f x) = key x) \<Longrightarrow> \<exists>x. h = f x"
  by (auto simp: edit_row_def split: if_splits)

lemma contributions_triple:
  "triple (at_work i mid d V L) (edits (set_runtime_contributions_active now i on))
     (\<lambda>_. at_work i mid d V (\<lambda>b. b \<longrightarrow> on)) E"
proof (rule triple_edits)
  fix db assume w: "at_work i mid d V L db"
  let ?db = "set_runtime_contributions_active now i on db"
  have "elsewhere i ?db = elsewhere i db"
    by (simp add: elsewhere_def set_runtime_contributions_active_def filter_edit_key)
  then have "working i mid d V ?db" using w
    by (simp add: at_work_def working_def installs_ok_def get_module_install_def set_runtime_contributions_active_def)
  moreover have "\<not> live_contributions i ?db" if "\<not> on"
    using that edited_row [of _ hk_install_id i "\<lambda>h. h\<lparr>hk_enabled := False\<rparr>" "md_hooks db"]
      edited_row [of _ sb_install_id i "\<lambda>s. s\<lparr>sb_status := SubPaused, sb_updated_at := now\<rparr>" "md_subscriptions db"]
    by (fastforce simp: live_contributions_def set_runtime_contributions_active_def)
  ultimately show "at_work i mid d V (\<lambda>b. b \<longrightarrow> on) ?db" by (cases on) (auto simp: at_work_def)
qed

lemmas off_triple = contributions_triple [where on = False, simplified]
lemmas on_triple = contributions_triple [where on = True, simplified]

lemma add_rows_Inr: "add_rows key rs rows = Inr rows' \<Longrightarrow> rows' = rows @ rs"
  by (induction key rs rows rule: add_rows.induct) (auto simp: table_simps split: sum.splits)

lemma replace_hooks_triple:
  assumes "\<forall>h\<in>set hooks. hk_install_id h = i"
  shows "triple (at_work i mid d V L) (runs_unit (replace_hook_contributions i hooks))
    (\<lambda>_. at_work i mid d V (\<lambda>_. True)) (at_work i mid d V (\<lambda>_. True))"
proof (rule triple_runs_unit)
  fix db db' assume w: "at_work i mid d V L db" and t: "replace_hook_contributions i hooks db = Inr db'"
  from t obtain rows where "db' = db\<lparr>md_hooks := rows\<rparr>" "rows = filter (\<lambda>h. hk_install_id h \<noteq> i) (md_hooks db) @ hooks"
    by (auto simp: replace_hook_contributions_def map_sum_Inr dest: add_rows_Inr)
  moreover have "filter (\<lambda>h. hk_install_id h \<noteq> i) hooks = []" using assms by (simp add: filter_empty_conv)
  ultimately show "at_work i mid d V (\<lambda>_. True) db'" using w
    by (simp add: at_work_def working_def installs_ok_def get_module_install_def elsewhere_def)
qed (rule at_work_any)

lemma replace_subscriptions_triple:
  assumes "\<forall>s\<in>set subs. sb_install_id s = i" "L' = (\<lambda>_. True) \<or> L = Not \<and> L' = Not \<and> (\<forall>s\<in>set subs. sb_status s = SubPaused)"
  shows "triple (at_work i mid d V L) (runs_unit (replace_event_subscriptions i subs))
    (\<lambda>_. at_work i mid d V L') (at_work i mid d V (\<lambda>_. True))"
proof (rule triple_runs_unit)
  fix db db' assume w: "at_work i mid d V L db" and t: "replace_event_subscriptions i subs db = Inr db'"
  from t obtain rows where e: "db' = db\<lparr>md_subscriptions := rows\<rparr>"
      "rows = filter (\<lambda>s. sb_install_id s \<noteq> i) (md_subscriptions db) @ subs"
    by (auto simp: replace_event_subscriptions_def map_sum_Inr dest: add_rows_Inr)
  moreover have "filter (\<lambda>s. sb_install_id s \<noteq> i) subs = []" using assms(1) by (simp add: filter_empty_conv)
  ultimately have "working i mid d V db'" using w
    by (simp add: at_work_def working_def installs_ok_def get_module_install_def elsewhere_def)
  moreover have "L' (live_contributions i db')"
    using assms(2) w unfolding e(1) e(2) by (auto simp: at_work_def live_contributions_def)
  ultimately show "at_work i mid d V L' db'" by (simp add: at_work_def)
qed (rule at_work_any)

text \<open>Installing the row of the module.\<close>

lemma upsert_triple:
  assumes "mi_module_id c = mid"
  shows "triple (at_work i mid d V L) (runs (upsert_module_install c))
     (\<lambda>r db. at_work i mid (mi_desired_state c) V L db \<and> shown i mid (mi_desired_state c) r db
        \<and> mi_lifecycle_state r = mi_lifecycle_state c \<and> mi_installed_at r = mi_installed_at c)
     (at_work i mid d V (\<lambda>_. True))"
proof (rule triple_runs)
  fix db db' x assume w: "at_work i mid d V L db" and t: "upsert_module_install c db = Inr (db', x)"
  from w obtain r where r: "get_module_install mid db = Some r" "mi_id r = i" by (auto simp: at_work_def working_def)
  let ?f = "\<lambda>q. c\<lparr>mi_id := mi_id q\<rparr>"
  have e: "db' = edit_install mid ?f db" "x = ?f r" using t r(1) assms by (simp_all add: upsert_module_install_def)
  note we = working_edit [OF at_work_working [OF w], of ?f "mi_desired_state c"]
  show "at_work i mid (mi_desired_state c) V L db' \<and> shown i mid (mi_desired_state c) x db'
      \<and> mi_lifecycle_state x = mi_lifecycle_state c \<and> mi_installed_at x = mi_installed_at c"
    using we w r assms unfolding e by (simp add: at_work_def shown_def)
qed (rule at_work_any)

lemma bind_triple:
  assumes "mb_install_id b = i"
  shows "triple (at_work i mid d V L) (runs (upsert_config_binding b)) (\<lambda>_. at_work i mid d V L)
    (at_work i mid d V (\<lambda>_. True))"
proof (rule triple_runs)
  fix db db' x assume w: "at_work i mid d V L db" and t: "upsert_config_binding b db = Inr (db', x)"
  from w obtain r where r: "get_module_install mid db = Some r" "mi_id r = i" "mi_desired_state r = d" "installs_ok db"
    by (auto simp: at_work_def working_def)
  let ?f = "\<lambda>q. q\<lparr>mi_config_binding_id := Some (mb_id b), mi_desired_state := d\<rparr>"
  have "edit_row mi_id i (\<lambda>q. q\<lparr>mi_config_binding_id := Some (mb_id b)\<rparr>) (md_installs db)
      = edit_row mi_module_id mid ?f (md_installs db)"
  proof -
    have "mi_id q = i \<longleftrightarrow> mi_module_id q = mid" "mi_module_id q = mid \<Longrightarrow> mi_desired_state q = d"
      if "q \<in> set (md_installs db)" for q
      using that r(1-3) get_mem [OF r(4), of mid r] id_unique [OF r(4), of q r] module_unique [OF r(4), of q r]
      by auto
    then show ?thesis by (simp add: edit_row_def)
  qed
  then obtain z where "db' = (edit_install mid ?f db)\<lparr>md_bindings := z\<rparr>"
    using t assms by (auto simp: upsert_config_binding_def Let_def edit_install_def map_sum_Inr split: option.splits)
  with working_edit [OF at_work_working [OF w], of ?f d] w show "at_work i mid d V L db'"
    by (simp add: at_work_def [of i mid d V L "edit_install mid ?f db"]) (simp add: at_work_def)
qed (rule at_work_any)


section \<open>The operations on one module\<close>

text \<open>The result of an operation that settles the module: its row, and nothing it contributes is live.\<close>

abbreviation busy :: "ustr \<Rightarrow> ustr \<Rightarrow> desired_state \<Rightarrow> install_row list \<times> hook_row list \<times> subscription_row list \<Rightarrow> module_db \<Rightarrow> bool" where
  "busy i mid d V \<equiv> at_work i mid d V (\<lambda>_. True)"

definition named :: "ustr \<Rightarrow> ustr \<Rightarrow> install_row \<Rightarrow> bool" where
  "named i mid r \<longleftrightarrow> mi_id r = i \<and> mi_module_id r = mid"

lemma shown_named: "shown i mid d r db \<Longrightarrow> named i mid r"
  by (simp add: shown_def named_def)

text \<open>The steps of an operation, one after the other.\<close>

lemma then_quiet: "quiet m \<Longrightarrow> (\<And>db. P db \<Longrightarrow> E db) \<Longrightarrow> (\<And>x. triple P (f x) Q E) \<Longrightarrow> triple P (and_then m f) Q E"
  by (rule triple_then [OF triple_quiet])

lemma then_health:
  "unmoved P \<Longrightarrow> (\<And>db. P db \<Longrightarrow> E db) \<Longrightarrow> (\<And>x. triple P (f x) Q E)
     \<Longrightarrow> triple P (and_then (runs (upsert_health_report h)) f) Q E"
  by (rule triple_then [OF triple_weaken [OF health_triple]])

lemma then_event:
  "unmoved P \<Longrightarrow> (\<And>db. P db \<Longrightarrow> E db) \<Longrightarrow> (\<And>x. triple P (f x) Q E)
     \<Longrightarrow> triple P (and_then (module_event e now j t) f) Q E"
  by (rule triple_then [OF triple_weaken [OF event_triple]])

lemma then_off:
  "(\<And>x. triple (at_work i mid d V Not) (f x) Q E)
     \<Longrightarrow> triple (at_work i mid d V L) (and_then (edits (set_runtime_contributions_active now i False)) f) Q E"
  by (rule triple_then [OF off_triple])

lemma then_on:
  "(\<And>x. triple (busy i mid d V) (f x) Q E)
     \<Longrightarrow> triple (at_work i mid d V L) (and_then (edits (set_runtime_contributions_active now i True)) f) Q E"
  by (rule triple_then [OF on_triple])

lemma then_transition:
  assumes "\<And>r. named i mid r \<Longrightarrow> mi_lifecycle_state r = lc \<Longrightarrow>
     triple (\<lambda>db. at_work i mid d V L db \<and> shown i mid d r db) (f r) Q (busy i mid d V)"
  shows "triple (at_work i mid d V L) (and_then (runs (transition_lifecycle now mid lc err)) f) Q (busy i mid d V)"
proof (rule triple_then [OF transition_triple])
  fix r
  show "triple (\<lambda>db. at_work i mid d V L db \<and> shown i mid d r db \<and> mi_lifecycle_state r = lc) (f r) Q (busy i mid d V)"
  proof (cases "named i mid r \<and> mi_lifecycle_state r = lc")
    case True
    then show ?thesis using assms [of r] by simp
  next
    case False
    then show ?thesis by (auto simp: triple_def dest: shown_named)
  qed
qed

lemma then_skip:
  "(\<And>x. triple P (f x) Q E) \<Longrightarrow> triple P (and_then (ret c) f) Q E"
  by (rule triple_then [OF triple_ret])

lemma triple_forget: "triple P m Q E \<Longrightarrow> triple (\<lambda>db. P db \<and> P' db) m Q E"
  by (erule triple_pre) (erule conjunct1)

lemma record_failure_triple:
  assumes "named i mid inst"
  shows "triple (at_work i mid d V L) (record_failure e now inst reason)
    (\<lambda>r db. at_work i mid d V Not db \<and> shown i mid d r db \<and> mi_lifecycle_state r \<in> {LFailed, LQuarantined})
    (busy i mid d V)"
proof -
  have inst: "mi_id inst = i" "mi_module_id inst = mid" using assms by (simp_all add: named_def)
  have fin: "triple (at_work i mid d V Not) (runs (transition_lifecycle now mid LFailed err))
      (\<lambda>r db. at_work i mid d V Not db \<and> shown i mid d r db \<and> mi_lifecycle_state r \<in> {LFailed, LQuarantined})
      (busy i mid d V)" for err
    by (rule triple_weaken [OF transition_triple]) auto
  show ?thesis
    unfolding record_failure_def inst case_prod_beta
    by (rule then_quiet, simp, erule at_work_any, rule then_health, simp, erule at_work_any, rule then_off,
        rule triple_if, rule then_transition, rule then_event, simp, erule conjunct1 [THEN at_work_any],
        rule triple_ret, simp, rule fin)
qed


text \<open>What an operation leaves behind: the module contributes nothing, or its row is active or degraded.\<close>

definition settled ::
  "ustr \<Rightarrow> ustr \<Rightarrow> desired_state \<Rightarrow> install_row list \<times> hook_row list \<times> subscription_row list \<Rightarrow> module_db \<Rightarrow> bool" where
  "settled i mid d V db \<longleftrightarrow> busy i mid d V db
     \<and> (live_contributions i db \<longrightarrow> d = DsEnabled \<and>
          (\<exists>r. shown i mid d r db \<and> mi_lifecycle_state r \<in> {LActive, LDegraded}))"

lemma settled_off: "at_work i mid d V Not db \<Longrightarrow> settled i mid d V db"
  by (simp add: settled_def at_work_def)

lemma or_failure_triple:
  assumes m: "triple P m Q (busy i mid d V)" and inst: "named i mid inst"
  shows "triple P (or_failure e now inst prefix m)
    (\<lambda>r db. Q r db \<or> at_work i mid d V Not db \<and> shown i mid d r db \<and> mi_lifecycle_state r \<in> {LFailed, LQuarantined})
    (busy i mid d V)"
proof -
  have dead: "triple (busy i mid d V) (and_then (count_failure e (mi_module_id inst) reason) (\<lambda>_. raise PendingRollbackError))
      R (busy i mid d V)" for reason and R :: "install_row \<Rightarrow> module_db \<Rightarrow> bool"
    by (rule then_quiet, simp, assumption, rule triple_raise)
  show ?thesis unfolding triple_def
  proof (intro allI impI)
    fix w :: module_world assume P: "P (mw_db w)"
    obtain w1 r1 where r1: "m w = (w1, r1)" by fastforce
    show "case or_failure e now inst prefix m w of
        (w', Inr x) \<Rightarrow> Q x (mw_db w') \<or> at_work i mid d V Not (mw_db w') \<and> shown i mid d x (mw_db w')
          \<and> mi_lifecycle_state x \<in> {LFailed, LQuarantined}
      | (w', Inl err) \<Rightarrow> busy i mid d V (mw_db w')"
    proof (cases r1)
      case (Inr y)
      then show ?thesis using r1 tripleD(1) [OF m P] by (simp add: or_failure_def)
    next
      case (Inl e1)
      then have busy: "busy i mid d V (mw_db w1)" using r1 tripleD(2) [OF m P] by simp
      let ?reason = "lit prefix @ he_text e e1"
      let ?dead = "and_then (count_failure e (mi_module_id inst) ?reason) (\<lambda>_. raise PendingRollbackError :: install_row act)"
      have "case ?dead w1 of (w', Inr x) \<Rightarrow> False | (w', Inl err) \<Rightarrow> busy i mid d V (mw_db w')"
        by (rule triple_case [OF dead [where R = "\<lambda>_ _. False"] busy])
      moreover have "case record_failure e now inst ?reason w1 of
          (w', Inr x) \<Rightarrow> at_work i mid d V Not (mw_db w') \<and> shown i mid d x (mw_db w')
            \<and> mi_lifecycle_state x \<in> {LFailed, LQuarantined}
        | (w', Inl err) \<Rightarrow> busy i mid d V (mw_db w')"
        by (rule triple_case [OF record_failure_triple [OF inst] busy])
      ultimately show ?thesis using r1 Inl
        by (cases "session_dead e1") (auto simp: or_failure_def Let_def split: prod.splits sum.splits)
    qed
  qed
qed

lemma validate_triple:
  "triple (\<lambda>db. at_work i mid d V (\<lambda>b. b \<longrightarrow> mi_lifecycle_state inst \<noteq> LQuarantined) db \<and> shown i mid d inst db)
     (validate_module e now inst m)
     (\<lambda>r db. busy i mid d V db \<and> shown i mid d r db \<and> mi_lifecycle_state r \<noteq> LIncompatible
        \<and> (mi_lifecycle_state r \<in> {LFailed, LQuarantined} \<longrightarrow> at_work i mid d V Not db))
     (busy i mid d V)" (is "triple ?P _ ?Q ?E")
proof (cases "named i mid inst")
  case inst: True
  then have id: "mi_module_id inst = mid" by (simp add: named_def)
  show ?thesis
  proof (cases "needs_validation inst")
    case True
    have v: "triple ?P (and_then (lift (load_plugin e m)) (\<lambda>plugin.
         and_then (lift (pl_register_hooks plugin)) (\<lambda>regs.
         and_then (run_hook (index_by rg_name regs (lit ''module.install.validate''))
             (PValidate (mi_module_id inst) m (mi_desired_state inst))) (\<lambda>answer.
         and_then (reject_failed e answer ''Module validation failed.'') (\<lambda>_.
           runs (transition_lifecycle now (mi_module_id inst) LValidated None))))))
        (\<lambda>r db. busy i mid d V db \<and> shown i mid d r db \<and> mi_lifecycle_state r = LValidated) ?E"
      unfolding id
      by (rule triple_pre [where P = ?E], rule then_quiet, simp, assumption, rule then_quiet, simp, assumption,
          rule then_quiet, simp, assumption, rule then_quiet, simp, assumption, rule transition_triple,
          simp add: at_work_def)
    have "triple ?P (validate_module e now inst m)
        (\<lambda>r db. (busy i mid d V db \<and> shown i mid d r db \<and> mi_lifecycle_state r = LValidated)
           \<or> at_work i mid d V Not db \<and> shown i mid d r db \<and> mi_lifecycle_state r \<in> {LFailed, LQuarantined}) ?E"
      using or_failure_triple [OF v inst, of e now "''Validation failed: ''"] True unfolding validate_module_def by simp
    then show ?thesis by (rule triple_post) (auto simp: at_work_def)
  next
    case False
    then have "mi_lifecycle_state inst \<noteq> LFailed" "mi_lifecycle_state inst \<noteq> LIncompatible"
      by (auto simp: needs_validation_def)
    with False show ?thesis
      by (auto simp: validate_module_def at_work_def intro!: triple_ret)
  qed
next
  case False
  then show ?thesis by (auto simp: triple_def dest: shown_named)
qed


text \<open>The row of the module as it is, and with a lifecycle state that is not quarantined.\<close>

definition unbarred :: "ustr \<Rightarrow> ustr \<Rightarrow> desired_state \<Rightarrow> module_db \<Rightarrow> bool" where
  "unbarred i mid d db \<longleftrightarrow> (\<exists>r. shown i mid d r db \<and> mi_lifecycle_state r \<noteq> LQuarantined)"

lemma busy_shown: "busy i mid d V db \<Longrightarrow> \<exists>r. shown i mid d r db"
  by (auto simp: at_work_def working_def shown_def dest: get_module_id)

lemma current_triple:
  assumes "named i mid inst"
  shows "triple (\<lambda>db. busy i mid d V db \<and> P db) (current_install inst)
    (\<lambda>r db. busy i mid d V db \<and> P db \<and> shown i mid d r db) E"
  unfolding current_install_def using assms
  by (intro triple_asks) (auto simp: named_def value_or_def shown_def dest!: busy_shown)

lemma bind_unbarred_triple:
  assumes "mb_install_id b = i"
  shows "triple (\<lambda>db. busy i mid d V db \<and> unbarred i mid d db) (runs (upsert_config_binding b))
    (\<lambda>_ db. busy i mid d V db \<and> unbarred i mid d db) (busy i mid d V)"
proof (rule tripleI)
  fix w w' :: module_world and x
  assume P: "busy i mid d V (mw_db w) \<and> unbarred i mid d (mw_db w)"
    and m: "runs (upsert_config_binding b) w = (w', Inr x)"
  have busy: "busy i mid d V (mw_db w')" by (rule tripleD(1) [OF bind_triple [OF assms] _ m]) (use P in simp)
  from P obtain r where r: "shown i mid d r (mw_db w)" "mi_lifecycle_state r \<noteq> LQuarantined" by (auto simp: unbarred_def)
  let ?f = "\<lambda>q. q\<lparr>mi_config_binding_id := Some (mb_id b)\<rparr>"
  have f: "keeps mi_module_id ?f" "keeps mi_id ?f" by (simp_all add: keeps_def)
  have "md_installs (mw_db w') = edit_row mi_id i ?f (md_installs (mw_db w))"
    using m assms by (auto simp: runs_def upsert_config_binding_def Let_def map_sum_Inr split: option.splits sum.splits prod.splits)
  moreover have "r \<in> set (md_installs (mw_db w))" "mi_id r = i" "mi_module_id r = mid"
    using r(1) by (auto simp: shown_def get_module_install_def dest: find_row_Some)
  ultimately have "?f r \<in> set (md_installs (mw_db w'))" by (force simp: set_edit)
  moreover have "installs_ok (mw_db w')" using busy by (simp add: at_work_def working_def)
  ultimately have "get_module_install mid (mw_db w') = Some (?f r)"
    using get_mem \<open>mi_module_id r = mid\<close> by simp
  with busy r show "busy i mid d V (mw_db w') \<and> unbarred i mid d (mw_db w')"
    by (auto simp: unbarred_def shown_def)
next
  fix w w' :: module_world and err
  assume "busy i mid d V (mw_db w) \<and> unbarred i mid d (mw_db w)"
    "runs (upsert_config_binding b) w = (w', Inl err)"
  then show "busy i mid d V (mw_db w')" by (auto simp: runs_def split: sum.splits prod.splits)
qed

lemma bind_config_triple:
  assumes "named i mid inst"
  shows "triple (\<lambda>db. busy i mid d V db \<and> unbarred i mid d db) (ensure_config_binding e now inst m)
    (\<lambda>_ db. busy i mid d V db \<and> unbarred i mid d db) (busy i mid d V)"
  unfolding ensure_config_binding_def using assms
  by (intro then_quiet bind_unbarred_triple) (auto simp: named_def quiet_def asks_def)

lemma move_unbarred:
  "lc \<noteq> LQuarantined \<Longrightarrow>
   triple (\<lambda>db. busy i mid d V db \<and> shown i mid d r db \<and> mi_lifecycle_state r \<noteq> LQuarantined)
     (if b then runs (transition_lifecycle now (mi_module_id r) lc None) else ret r)
     (\<lambda>r db. busy i mid d V db \<and> shown i mid d r db \<and> mi_lifecycle_state r \<noteq> LQuarantined) (busy i mid d V)"
proof (cases "mi_module_id r = mid")
  case True
  assume lc: "lc \<noteq> LQuarantined"
  have "triple (\<lambda>db. busy i mid d V db \<and> shown i mid d r db \<and> mi_lifecycle_state r \<noteq> LQuarantined)
     (runs (transition_lifecycle now mid lc None))
     (\<lambda>r db. busy i mid d V db \<and> shown i mid d r db \<and> mi_lifecycle_state r \<noteq> LQuarantined) (busy i mid d V)"
    by (rule triple_weaken [OF transition_triple [of i mid d V "\<lambda>_. True"]]) (use lc in auto)
  then show ?thesis by (simp add: True triple_ret)
next
  case False
  then show ?thesis by (auto simp: triple_def shown_def)
qed

lemma install_triple:
  assumes inst: "named i mid inst"
  shows "triple (\<lambda>db. busy i mid d V db \<and> unbarred i mid d db) (install_module e now inst m)
    (\<lambda>r db. busy i mid d V db \<and> shown i mid d r db \<and> mi_lifecycle_state r \<noteq> LQuarantined) (busy i mid d V)"
proof -
  have up: "triple (\<lambda>db. busy i mid d V db \<and> unbarred i mid d db \<and> shown i mid d c db)
      (if b then runs (upsert_module_install (c\<lparr>mi_installed_at := Some now\<rparr>)) else ret c)
      (\<lambda>r db. busy i mid d V db \<and> shown i mid d r db \<and> mi_lifecycle_state r \<noteq> LQuarantined) (busy i mid d V)" for c b
  proof (cases "mi_module_id c = mid \<and> mi_desired_state c = d \<and> mi_lifecycle_state c \<noteq> LQuarantined")
    case True
    then have c: "mi_module_id (c\<lparr>mi_installed_at := Some now\<rparr>) = mid" "mi_desired_state (c\<lparr>mi_installed_at := Some now\<rparr>) = d"
      by simp_all
    show ?thesis
      by (cases b; simp; rule triple_ret triple_weaken [OF upsert_triple [OF c(1), of i d V "\<lambda>_. True"]];
          use True c(2) in auto)
  next
    case False
    then show ?thesis by (auto simp: triple_def shown_def unbarred_def)
  qed
  show ?thesis
    unfolding install_module_def
    by (rule triple_then [OF bind_config_triple [OF inst]], rule triple_then [OF current_triple [OF inst]],
        rule triple_then, rule triple_pre [OF up], simp, rule triple_then, rule move_unbarred, simp, rule move_unbarred, simp)
qed


lemma hook_records_of: "build_hook_records e now inst m b regs = Inr hooks \<Longrightarrow> \<forall>h\<in>set hooks. hk_install_id h = mi_id inst"
proof (induction regs arbitrary: hooks)
  case (Cons r rs)
  then show ?case
    by (auto simp: map_sum_Inr hook_record_of_def split: sum.splits option.splits)
qed simp

lemma subscription_records_of:
  "\<forall>s\<in>set (build_subscription_records e now inst m b).
     sb_install_id s = mi_id inst \<and> sb_status s = (if b then SubActive else SubPaused)"
  by (auto simp: build_subscription_records_def)

lemma settle_active:
  "d = DsEnabled \<Longrightarrow> busy i mid d V db \<Longrightarrow> shown i mid d r db \<Longrightarrow> mi_lifecycle_state r \<in> {LActive, LDegraded} \<Longrightarrow>
     settled i mid d V db"
  by (auto simp: settled_def)

lemma quiet_finish [simp]:
  "quiet (and_then (write_health_details e j x) (\<lambda>_. and_then (run_hook h q) (\<lambda>_. ret c)))"
  by simp

lemma activate_triple:
  assumes c: "named i mid c" and d: "d = DsEnabled"
  shows "triple (busy i mid d V) (activate e now c m regs report) (\<lambda>_. settled i mid d V) (busy i mid d V)"
proof -
  have id: "mi_module_id c = mid" using c by (simp add: named_def)
  have finish: "triple (\<lambda>db. busy i mid d V db \<and> shown i mid d r db)
      (and_then (write_health_details e (mi_module_id r) x) (\<lambda>_. and_then (run_hook h q) (\<lambda>_. ret r)))
      (\<lambda>_. settled i mid d V) (busy i mid d V)" if "mi_lifecycle_state r \<in> {LActive, LDegraded}" for r x h q
    by (rule triple_quiet [OF quiet_finish], erule conjE, rule settle_active [OF d _ _ that], assumption+, erule conjunct1)
  have failed: "triple (busy i mid d V) (record_failure e now c (hl_summary report)) (\<lambda>_. settled i mid d V) (busy i mid d V)"
    by (rule triple_post [OF record_failure_triple [OF c]]) (simp add: settled_off)
  have event: "triple (\<lambda>db. busy i mid d V db \<and> shown i mid d r db) (and_then (module_event e now j t) f) Q (busy i mid d V)"
    if "\<And>x. triple (\<lambda>db. busy i mid d V db \<and> shown i mid d r db) (f x) Q (busy i mid d V)" for r j t f Q
    by (rule then_event, simp, erule conjunct1, rule that)
  show ?thesis
  proof (cases "hl_status report")
    case HHealthy
    show ?thesis
      unfolding activate_def id Let_def HHealthy health_status.case
      by (rule then_transition, cases "mi_lifecycle_state c \<noteq> LActive"; simp only: if_True if_False simp_thms)
        ((rule event then_skip, rule finish, simp)+)
  next
    case HDegraded
    show ?thesis
      unfolding activate_def id Let_def HDegraded health_status.case
      by (rule then_transition, rule event, rule finish, simp)
  qed (simp_all add: activate_def Let_def failed)
qed


lemma enter_enabling:
  "triple (\<lambda>db. busy i mid d V db \<and> shown i mid d cur db)
     (if b then runs (transition_lifecycle now (mi_module_id cur) LEnabling None) else ret cur)
     (\<lambda>c db. busy i mid d V db \<and> named i mid c) (busy i mid d V)"
proof (cases "mi_module_id cur = mid")
  case True
  have "triple (\<lambda>db. busy i mid d V db \<and> shown i mid d cur db) (runs (transition_lifecycle now mid LEnabling None))
     (\<lambda>c db. busy i mid d V db \<and> named i mid c) (busy i mid d V)"
    by (rule triple_weaken [OF transition_triple [of i mid d V "\<lambda>_. True"]]) (auto dest: shown_named)
  with True show ?thesis by (auto intro: triple_ret dest: shown_named)
next
  case False
  then show ?thesis by (auto simp: triple_def shown_def)
qed

lemma triple_fact: "(b \<Longrightarrow> triple P m Q E) \<Longrightarrow> triple (\<lambda>db. P db \<and> b) m Q E"
  by (auto simp: triple_def)

lemma switch_on_triple:
  assumes c: "named i mid c" and d: "d = DsEnabled"
  shows "triple (busy i mid d V)
    (and_then (lift (build_hook_records e now c m True regs)) (\<lambda>hooks.
     and_then (runs_unit (replace_hook_contributions (mi_id c) hooks)) (\<lambda>_.
     and_then (runs_unit (replace_event_subscriptions (mi_id c) (build_subscription_records e now c m True))) (\<lambda>_.
     and_then (edits (set_runtime_contributions_active now (mi_id c) True)) (\<lambda>_.
     and_then (build_health_report e now c m regs) (\<lambda>report.
     and_then (runs (upsert_health_report report)) (\<lambda>_. activate e now c m regs report)))))))
    (\<lambda>_. settled i mid d V) (busy i mid d V)"
proof -
  have id: "mi_id c = i" using c by (simp add: named_def)
  have hooks: "triple (\<lambda>db. busy i mid d V db \<and> (\<forall>h\<in>set hooks. hk_install_id h = i))
      (and_then (runs_unit (replace_hook_contributions i hooks)) f) Q (busy i mid d V)"
    if "\<And>x. triple (busy i mid d V) (f x) Q (busy i mid d V)" for hooks f Q
    by (rule triple_fact, rule triple_then [OF replace_hooks_triple], assumption, rule that)
  have subs: "triple (busy i mid d V)
      (runs_unit (replace_event_subscriptions i (build_subscription_records e now c m True)))
      (\<lambda>_. busy i mid d V) (busy i mid d V)"
    by (rule replace_subscriptions_triple) (use subscription_records_of id in fastforce)+
  show ?thesis
    unfolding id
    by (rule triple_then [OF triple_lift [where Q = "\<lambda>hooks db. busy i mid d V db \<and> (\<forall>h\<in>set hooks. hk_install_id h = i)"]],
        use hook_records_of id in fastforce, assumption,
        rule hooks, rule triple_then [OF subs], rule then_on, rule then_quiet, simp, assumption,
        rule then_health, simp, assumption, rule activate_triple [OF c d])
qed

lemma enable_triple:
  assumes inst: "named i mid inst" and d: "d = DsEnabled"
  shows "triple (\<lambda>db. busy i mid d V db \<and> unbarred i mid d db) (enable_module e now inst m)
    (\<lambda>_. settled i mid d V) (busy i mid d V)"
proof -
  have body: "triple (\<lambda>db. busy i mid d V db \<and> shown i mid d cur db)
      (or_failure e now cur ''Enable failed: '' (and_then (lift (load_plugin e m)) (\<lambda>plugin.
          and_then (lift (pl_register_hooks plugin)) (\<lambda>regs.
          and_then (if mi_lifecycle_state cur \<notin> {LActive, LDegraded}
                    then runs (transition_lifecycle now (mi_module_id cur) LEnabling None) else ret cur) (\<lambda>c.
          and_then (run_hook (find_hook regs ''module.enable.preflight'') (PLifecycle m c)) (\<lambda>answer.
          and_then (reject_failed e answer ''Module preflight failed.'') (\<lambda>_.
          and_then (lift (build_hook_records e now c m True regs)) (\<lambda>hooks.
          and_then (runs_unit (replace_hook_contributions (mi_id c) hooks)) (\<lambda>_.
          and_then (runs_unit (replace_event_subscriptions (mi_id c)
              (build_subscription_records e now c m True))) (\<lambda>_.
          and_then (edits (set_runtime_contributions_active now (mi_id c) True)) (\<lambda>_.
          and_then (build_health_report e now c m regs) (\<lambda>report.
          and_then (runs (upsert_health_report report)) (\<lambda>_.
            activate e now c m regs report))))))))))))) (\<lambda>_. settled i mid d V) (busy i mid d V)"
    if cur: "named i mid cur" for cur
    by (rule triple_post [OF or_failure_triple [OF _ cur]],
        rule then_quiet, simp, erule conjunct1, rule then_quiet, simp, erule conjunct1,
        rule triple_then [OF enter_enabling], rule triple_fact, rule then_quiet, simp, assumption,
        rule then_quiet, simp, assumption, rule switch_on_triple [OF _ d], assumption,
        auto intro: settled_off)
  show ?thesis
    unfolding enable_module_def
    by (rule triple_then [OF current_triple [OF inst]], rule triple_if, rule triple_ret,
        force simp: unbarred_def shown_def, rule triple_pre, rule triple_fact, erule body,
        auto dest: shown_named)
qed

end
