(* ===== verification/ModuleProps.thy ===== *)
theory ModuleProps
  imports ModuleFacts
begin

text \<open>
  What the module host promises: the contributions of a module are live only while the module is active or
  degraded and wanted, whatever the host does and wherever it fails; what quarantine keeps and what lifts it.
\<close>

section \<open>Disabling, removing and rejecting a module\<close>

abbreviation idle ::
  "ustr \<Rightarrow> ustr \<Rightarrow> desired_state \<Rightarrow> install_row list \<times> hook_row list \<times> subscription_row list \<Rightarrow> module_db \<Rightarrow> bool" where
  "idle i mid d V \<equiv> at_work i mid d V Not"

lemma idle_settled: "idle i mid d V db \<Longrightarrow> settled i mid d V db"
  by (rule settled_off)

lemma move_named:
  assumes "named i mid c"
  shows "triple (at_work i mid d V L) (if b then runs (transition_lifecycle now (mi_module_id c) lc err) else ret c)
     (\<lambda>c db. at_work i mid d V L db \<and> named i mid c) (busy i mid d V)"
proof -
  have "triple (at_work i mid d V L) (runs (transition_lifecycle now mid lc err))
     (\<lambda>c db. at_work i mid d V L db \<and> named i mid c) (busy i mid d V)"
    by (rule triple_weaken [OF transition_triple]) (auto dest: shown_named)
  with assms show ?thesis by (auto simp: named_def intro!: triple_ret)
qed

lemma final_move:
  assumes "named i mid c"
  shows "triple (at_work i mid d V L) (runs (transition_lifecycle now (mi_module_id c) lc err))
     (\<lambda>c db. at_work i mid d V L db \<and> named i mid c) (busy i mid d V)"
  using move_named [OF assms, of d V L True now lc err] by simp

lemma current_named:
  "named i mid inst \<Longrightarrow> triple (busy i mid d V) (current_install inst) (\<lambda>c db. busy i mid d V db \<and> named i mid c) E"
  by (rule triple_weaken [OF current_triple [where P = "\<lambda>_. True"]]) (auto dest: shown_named)

lemma disable_triple:
  assumes inst: "named i mid inst"
  shows "triple (busy i mid d V) (disable_module e now inst m) (\<lambda>_. idle i mid d V) (busy i mid d V)"
proof -
  have off: "triple (busy i mid d V) (and_then (edits (set_runtime_contributions_active now (mi_id c) False)) (\<lambda>_. ret c))
      (\<lambda>_. idle i mid d V) (busy i mid d V)" if "named i mid c" for c
    using that unfolding named_def by (elim conjE) (simp, rule then_off, rule triple_ret, simp)
  have subs: "triple (at_work i mid d V Not)
      (runs_unit (replace_event_subscriptions (mi_id c) (build_subscription_records e now c m False)))
      (\<lambda>_. at_work i mid d V Not) (busy i mid d V)" if c: "named i mid c" for c
    using c subscription_records_of [of e now c m False] unfolding named_def
    by (elim conjE) (simp, rule replace_subscriptions_triple; simp)
  have drain: "triple (busy i mid d V)
      (and_then (edits (set_runtime_contributions_active now (mi_id c) False)) (\<lambda>_.
             and_then (runs_unit (replace_event_subscriptions (mi_id c)
                 (build_subscription_records e now c m False))) (\<lambda>_.
             and_then (health_details_ref e (mi_module_id c)) (\<lambda>ref.
             and_then (runs (upsert_health_report
                 (health_report_of e now c HHealthy (lit ''Module is installed and disabled.'') ref))) (\<lambda>_.
             and_then (run_hook (find_hook regs ''module.disable.post-stop'') (PLifecycle m c)) (\<lambda>_.
             and_then (runs (transition_lifecycle now (mi_module_id c) LDisabled None)) (\<lambda>c'.
             and_then (if mi_lifecycle_state c \<noteq> LDisabled
                       then module_event e now (mi_module_id c') ''module.disabled'' else ret ()) (\<lambda>_.
               ret c'))))))))
      (\<lambda>_. idle i mid d V) (busy i mid d V)" if c: "named i mid c" for c regs
  proof -
    have id: "mi_id c = i" using c by (simp add: named_def)
    have event: "triple (at_work i mid d V Not) (if b then module_event e now j t else ret ())
        (\<lambda>_. at_work i mid d V Not) (busy i mid d V)" for b j t
      by (rule triple_if, rule triple_weaken [OF event_triple [of "at_work i mid d V Not"]], simp, assumption,
          assumption, erule at_work_any, rule triple_ret)
    show ?thesis
      unfolding id
      by (rule then_off, rule triple_then [OF subs [OF c, unfolded id]], rule then_quiet, simp, erule at_work_any,
          rule then_health, simp, erule at_work_any, rule then_quiet, simp, erule at_work_any,
          rule triple_then [OF final_move [OF c]], rule triple_fact, rule triple_then [OF event],
          rule triple_ret, simp)
  qed
  show ?thesis
    unfolding disable_module_def Let_def
    by (rule triple_then [OF current_named [OF inst]], rule triple_fact, rule triple_if, rule off, assumption,
        rule then_quiet, simp, assumption, rule triple_then [OF move_named], assumption, rule triple_fact,
        rule drain)
qed

lemma remove_triple:
  assumes inst: "named i mid inst"
  shows "triple (busy i mid d V) (remove_module e now inst) (\<lambda>_. idle i mid d V) (busy i mid d V)"
proof -
  have off: "triple (busy i mid d V) (edits (set_runtime_contributions_active now (mi_id c) False))
      (\<lambda>_. at_work i mid d V Not) (busy i mid d V)" if "named i mid c" for c
    using that off_triple [of i mid d V] by (simp add: named_def)
  show ?thesis
    unfolding remove_module_def
    by (rule triple_then [OF current_named [OF inst]], rule triple_fact, rule triple_then [OF move_named], assumption,
        rule triple_fact, rule triple_then [OF off], assumption, rule triple_then [OF final_move], assumption,
        rule triple_fact, rule triple_then [OF final_move], assumption,
        rule triple_fact, rule triple_weaken [OF event_triple [of "at_work i mid d V Not"]], simp, assumption,
        assumption, erule at_work_any)
qed

lemma incompatible_triple:
  assumes inst: "named i mid inst"
  shows "triple (busy i mid d V) (apply_incompatible_state e now inst detail) (\<lambda>_. idle i mid d V) (busy i mid d V)"
proof -
  have off: "triple (busy i mid d V) (edits (set_runtime_contributions_active now (mi_id inst) False))
      (\<lambda>_. at_work i mid d V Not) (busy i mid d V)"
    using inst off_triple [of i mid d V] by (simp add: named_def)
  show ?thesis
    unfolding apply_incompatible_state_def
    by (rule triple_then [OF final_move [OF inst]], rule triple_fact, rule triple_then [OF off],
        rule then_quiet, simp, erule at_work_any, rule then_health, simp, erule at_work_any, rule triple_ret)
qed

section \<open>Reconciling one module\<close>

definition contributions_follow :: "module_db \<Rightarrow> bool" where
  "contributions_follow db \<longleftrightarrow> installs_ok db \<and>
     (\<forall>i. live_contributions i db \<longrightarrow>
        (\<exists>r\<in>set (md_installs db). mi_id r = i \<and> mi_lifecycle_state r \<in> {LActive, LDegraded}
           \<and> mi_desired_state r = DsEnabled))"

lemma live_elsewhere: "elsewhere i db = elsewhere i db0 \<Longrightarrow> j \<noteq> i \<Longrightarrow> live_contributions j db = live_contributions j db0"
proof -
  have "live_contributions j d = ((\<exists>h\<in>set (fst (snd (elsewhere i d))). hk_install_id h = j \<and> hk_enabled h)
      \<or> (\<exists>s\<in>set (snd (snd (elsewhere i d))). sb_install_id s = j \<and> sb_status s = SubActive))" if "j \<noteq> i" for d
    using that by (auto simp: live_contributions_def elsewhere_def)
  then show "elsewhere i db = elsewhere i db0 \<Longrightarrow> j \<noteq> i \<Longrightarrow> live_contributions j db = live_contributions j db0" by simp
qed

lemma rows_elsewhere:
  "elsewhere i db = elsewhere i db0 \<Longrightarrow> mi_id r \<noteq> i \<Longrightarrow> r \<in> set (md_installs db) \<longleftrightarrow> r \<in> set (md_installs db0)"
proof -
  have "r \<in> set (md_installs d) \<longleftrightarrow> r \<in> set (fst (elsewhere i d))" if "mi_id r \<noteq> i" for d
    using that by (simp add: elsewhere_def)
  then show "elsewhere i db = elsewhere i db0 \<Longrightarrow> mi_id r \<noteq> i \<Longrightarrow> r \<in> set (md_installs db) \<longleftrightarrow> r \<in> set (md_installs db0)"
    by simp
qed

lemma settled_follows:
  assumes f: "contributions_follow db0" and s: "settled i mid d (elsewhere i db0) db"
  shows "contributions_follow db"
proof -
  from s have w: "installs_ok db" "elsewhere i db = elsewhere i db0" by (simp_all add: settled_def at_work_def working_def)
  have "\<exists>r\<in>set (md_installs db). mi_id r = j \<and> mi_lifecycle_state r \<in> {LActive, LDegraded} \<and> mi_desired_state r = DsEnabled"
    if j: "live_contributions j db" for j
  proof (cases "j = i")
    case True
    with j s obtain r where "shown i mid d r db" "mi_lifecycle_state r \<in> {LActive, LDegraded}" "d = DsEnabled"
      by (auto simp: settled_def)
    with True show ?thesis by (auto simp: shown_def get_module_install_def dest: find_row_Some)
  next
    case False
    then have "live_contributions j db0" using live_elsewhere [OF w(2)] j by simp
    then obtain r where "r \<in> set (md_installs db0)" "mi_id r = j" "mi_lifecycle_state r \<in> {LActive, LDegraded}"
        "mi_desired_state r = DsEnabled"
      using f unfolding contributions_follow_def by blast
    then show ?thesis using rows_elsewhere [OF w(2), of r] False by blast
  qed
  with w show ?thesis by (simp add: contributions_follow_def)
qed


text \<open>Two databases that differ only in the module with id \<open>i\<close> give the same rows to the other modules.\<close>

lemma get_elsewhere:
  assumes "installs_ok db" "installs_ok db0" "elsewhere i db = elsewhere i db0" "mid' \<noteq> mid"
    "\<And>r. r \<in> set (md_installs db) \<Longrightarrow> mi_id r = i \<Longrightarrow> mi_module_id r = mid"
    "\<And>r. r \<in> set (md_installs db0) \<Longrightarrow> mi_id r = i \<Longrightarrow> mi_module_id r = mid"
  shows "get_module_install mid' db = get_module_install mid' db0"
proof -
  have "r \<in> set (md_installs db) \<and> mi_module_id r = mid' \<longleftrightarrow> r \<in> set (md_installs db0) \<and> mi_module_id r = mid'" for r
    using rows_elsewhere [OF assms(3), of r] assms(4-6) by metis
  then have "get_module_install mid' db = Some r \<longleftrightarrow> get_module_install mid' db0 = Some r" for r
    using get_mem assms(1,2) by simp
  then show ?thesis by (metis option.exhaust)
qed

text \<open>The id the record of a manifest has or gets.\<close>

definition install_id_of :: "host_env \<Rightarrow> module_manifest \<Rightarrow> install_row option \<Rightarrow> ustr" where
  "install_id_of e m existing =
     (case existing of Some r \<Rightarrow> mi_id r | None \<Rightarrow> he_stable_id e (lit ''modins'') [mm_module_id m, mm_version m])"

lemma refreshed_simps [simp]:
  "mi_module_id (refreshed_install m d err r) = mi_module_id r" "mi_id (refreshed_install m d err r) = mi_id r"
  "mi_desired_state (refreshed_install m d err r) = d"
  by (simp_all add: refreshed_install_def Let_def)

lemma refreshed_quarantined: "mi_lifecycle_state (refreshed_install m d err r) = LQuarantined \<Longrightarrow> mi_lifecycle_state r = LQuarantined"
  by (auto simp: refreshed_install_def Let_def split: if_splits)

lemma elsewhere_append: "elsewhere (mi_id r) (db\<lparr>md_installs := md_installs db @ [r]\<rparr>) = elsewhere (mi_id r) db"
  by (simp add: elsewhere_def)

lemma sync_new_triple:
  assumes f: "contributions_follow db0" and g: "get_module_install (mm_module_id m) db0 = None"
    and i: "i = he_stable_id e (lit ''modins'') [mm_module_id m, mm_version m]"
  shows "triple (\<lambda>db. db = db0) (sync_manifest_record e now None m d err)
    (\<lambda>inst db. (at_work i (mm_module_id m) d (elsewhere i db0) Not db \<and> shown i (mm_module_id m) d inst db)
        \<and> (\<forall>r\<in>set (md_installs db0). mi_id r \<noteq> i))
    (\<lambda>_. True)"
proof -
  let ?r = "discovered_install e m d err"
  have r: "mi_id ?r = i" "mi_module_id ?r = mm_module_id m" "mi_desired_state ?r = d"
    by (simp_all add: discovered_install_def i)
  have row: "triple (\<lambda>db. db = db0) (runs (upsert_module_install ?r))
    (\<lambda>inst db. (at_work i (mm_module_id m) d (elsewhere i db0) Not db \<and> shown i (mm_module_id m) d inst db)
        \<and> (\<forall>r\<in>set (md_installs db0). mi_id r \<noteq> i)) (\<lambda>_. True)"
  proof (rule triple_runs)
    fix db db' x assume "db = db0" and u: "upsert_module_install ?r db = Inr (db', x)"
    with g r have fresh: "i \<notin> row_keys mi_id (md_installs db0)" and db': "db' = db0\<lparr>md_installs := md_installs db0 @ [?r]\<rparr>" and x: "x = ?r"
      by (auto simp: upsert_module_install_def map_sum_Inr add_row_Inr)
    from g have mid: "mm_module_id m \<notin> row_keys mi_module_id (md_installs db0)"
      by (simp add: get_module_install_def find_row_None)
    have ok: "installs_ok db'" using f fresh mid r
      by (simp add: db' contributions_follow_def installs_ok_def table_ok_append)
    have get: "get_module_install (mm_module_id m) db' = Some ?r"
      using mid r by (simp add: db' get_module_install_def find_row_append)
    have "\<not> live_contributions i db0" using f fresh by (auto simp: contributions_follow_def row_keys_def)
    then have "\<not> live_contributions i db'" by (simp add: live_contributions_def db')
    with ok get r x elsewhere_append [of ?r db0]
    have "at_work i (mm_module_id m) d (elsewhere i db0) Not db' \<and> shown i (mm_module_id m) d x db'"
      by (simp add: at_work_def working_def shown_def db')
    moreover have "\<forall>r\<in>set (md_installs db0). mi_id r \<noteq> i" using fresh by (auto simp: row_keys_def)
    ultimately show "(at_work i (mm_module_id m) d (elsewhere i db0) Not db' \<and> shown i (mm_module_id m) d x db')
        \<and> (\<forall>r\<in>set (md_installs db0). mi_id r \<noteq> i)" by simp
  qed simp
  show ?thesis
    unfolding sync_manifest_record_def option.case
    by (rule triple_then [OF row], rule triple_fact, rule then_event, simp, simp, rule triple_ret, simp)
qed

lemma sync_old_triple:
  assumes f: "contributions_follow db0" and g: "get_module_install (mm_module_id m) db0 = Some r"
  shows "triple (\<lambda>db. db = db0) (sync_manifest_record e now (Some r) m d err)
    (\<lambda>inst db. at_work (mi_id r) (mm_module_id m) d (elsewhere (mi_id r) db0)
          (\<lambda>b. b \<longrightarrow> mi_lifecycle_state r \<in> {LActive, LDegraded}) db
        \<and> shown (mi_id r) (mm_module_id m) d inst db \<and> mi_lifecycle_state inst = mi_lifecycle_state (refreshed_install m d err r)
        \<and> mi_installed_at inst = mi_installed_at r)
    (\<lambda>_. True)"
proof -
  let ?i = "mi_id r" and ?mid = "mm_module_id m" and ?L = "\<lambda>b. b \<longrightarrow> mi_lifecycle_state r \<in> {LActive, LDegraded}"
  have ok: "installs_ok db0" using f by (simp add: contributions_follow_def)
  have r: "r \<in> set (md_installs db0)" "mi_module_id r = ?mid" using g get_mem [OF ok] by simp_all
  have "?L (live_contributions ?i db0)"
    using f id_unique [OF ok r(1)] unfolding contributions_follow_def by metis
  then have pre: "at_work ?i ?mid (mi_desired_state r) (elsewhere ?i db0) ?L db0"
    using ok g by (simp add: at_work_def working_def)
  have "mi_installed_at (refreshed_install m d err r) = mi_installed_at r"
    by (simp add: refreshed_install_def Let_def)
  then show ?thesis
    unfolding sync_manifest_record_def option.case
    by (intro triple_weaken [OF upsert_triple [of "refreshed_install m d err r" ?mid ?i "mi_desired_state r" "elsewhere ?i db0" ?L]])
      (use pre r(2) in auto)
qed

lemma sync_record_triple:
  assumes f: "contributions_follow db0" and g: "get_module_install (mm_module_id m) db0 = existing"
    and i: "i = install_id_of e m existing"
  shows "triple (\<lambda>db. db = db0) (sync_manifest_record e now existing m d err)
    (\<lambda>inst db. (at_work i (mm_module_id m) d (elsewhere i db0) (\<lambda>b. b \<longrightarrow> mi_lifecycle_state inst \<noteq> LQuarantined) db
        \<and> shown i (mm_module_id m) d inst db)
        \<and> (\<forall>r\<in>set (md_installs db0). mi_id r = i \<longrightarrow> mi_module_id r = mm_module_id m))
    (\<lambda>_. True)"
proof (cases existing)
  case None
  have "i = he_stable_id e (lit ''modins'') [mm_module_id m, mm_version m]" using i None by (simp add: install_id_of_def)
  from sync_new_triple [OF f g [unfolded None] this] show ?thesis
    unfolding None by (rule triple_weaken) (auto simp: at_work_def)
next
  case (Some r)
  have ok: "installs_ok db0" using f by (simp add: contributions_follow_def)
  have "\<forall>q\<in>set (md_installs db0). mi_id q = i \<longrightarrow> mi_module_id q = mm_module_id m"
    using i Some id_unique [OF ok] g get_mem [OF ok] by (auto simp: install_id_of_def)
  then show ?thesis unfolding Some
    by (intro triple_weaken [OF sync_old_triple [OF f g [unfolded Some]]])
      (use i Some in \<open>auto simp: install_id_of_def at_work_def dest: refreshed_quarantined\<close>)
qed


text \<open>The body of the loop of \<open>sync_catalog\<close>: the module is settled and the others are as before.\<close>

definition same_elsewhere :: "ustr \<Rightarrow> module_db \<Rightarrow> module_db \<Rightarrow> bool" where
  "same_elsewhere mid db0 db \<longleftrightarrow> (\<forall>mid'. mid' \<noteq> mid \<longrightarrow> get_module_install mid' db = get_module_install mid' db0)"

lemma settled_elsewhere:
  assumes "contributions_follow db0" "settled i mid d (elsewhere i db0) db"
    "\<forall>r\<in>set (md_installs db0). mi_id r = i \<longrightarrow> mi_module_id r = mid"
  shows "contributions_follow db \<and> same_elsewhere mid db0 db \<and> elsewhere i db = elsewhere i db0"
proof -
  from assms(2) have w: "installs_ok db" "elsewhere i db = elsewhere i db0" by (simp_all add: settled_def at_work_def working_def)
  from assms(2) obtain r0 where r0: "get_module_install mid db = Some r0" "mi_id r0 = i"
    by (auto simp: settled_def at_work_def working_def)
  have mine: "mi_module_id r = mid" if "r \<in> set (md_installs db)" "mi_id r = i" for r
    using that id_unique [OF w(1), of r r0] r0 get_mem [OF w(1), of mid r0] by auto
  have "installs_ok db0" using assms(1) by (simp add: contributions_follow_def)
  from get_elsewhere [OF w(1) this w(2)] mine assms(3) have "same_elsewhere mid db0 db"
    unfolding same_elsewhere_def by metis
  with settled_follows [OF assms(1,2)] w(2) show ?thesis by simp
qed

lemma validated_install_triple:
  assumes inst: "named i mid inst"
  shows "triple (\<lambda>db. at_work i mid d V (\<lambda>b. b \<longrightarrow> mi_lifecycle_state inst \<noteq> LQuarantined) db \<and> shown i mid d inst db)
    (and_then (validate_module e now inst m) (\<lambda>inst1.
         if mi_lifecycle_state inst1 \<in> {LFailed, LQuarantined} then ret ()
         else and_then (install_module e now inst1 m) (\<lambda>inst2.
           if mi_desired_state inst2 = DsEnabled
           then and_then (enable_module e now inst2 m) (\<lambda>_. ret ())
           else and_then (disable_module e now inst2 m) (\<lambda>_. ret ()))))
    (\<lambda>_. settled i mid d V) (\<lambda>_. True)"
proof -
  have final: "triple (\<lambda>db. busy i mid d V db \<and> shown i mid d r db \<and> mi_lifecycle_state r \<noteq> LQuarantined)
      (if mi_desired_state r = DsEnabled then and_then (enable_module e now r m) (\<lambda>_. ret ())
       else and_then (disable_module e now r m) (\<lambda>_. ret ())) (\<lambda>_. settled i mid d V) (\<lambda>_. True)" for r
  proof (cases "named i mid r \<and> mi_desired_state r = d")
    case True
    then have n: "named i mid r" by simp
    have disable: "triple (busy i mid d V) (and_then (disable_module e now r m) (\<lambda>_. ret ())) (\<lambda>_. settled i mid d V) (\<lambda>_. True)"
      by (rule triple_then [OF triple_weaken [OF disable_triple [OF n]]], assumption, assumption, simp,
          rule triple_ret, erule idle_settled)
    have enable: "triple (\<lambda>db. busy i mid d V db \<and> unbarred i mid d db) (and_then (enable_module e now r m) (\<lambda>_. ret ()))
        (\<lambda>_. settled i mid d V) (\<lambda>_. True)" if d: "d = DsEnabled"
      by (rule triple_then [OF triple_weaken [OF enable_triple [OF n d]]], assumption, assumption, simp, rule triple_ret)
    from True disable enable show ?thesis
      by (cases d) (auto intro: triple_pre simp: unbarred_def)
  next
    case False
    then show ?thesis by (auto simp: triple_def shown_def named_def)
  qed
  have install: "triple (\<lambda>db. busy i mid d V db \<and> shown i mid d r db \<and> mi_lifecycle_state r \<noteq> LIncompatible
        \<and> (mi_lifecycle_state r \<in> {LFailed, LQuarantined} \<longrightarrow> at_work i mid d V Not db))
      (if mi_lifecycle_state r \<in> {LFailed, LQuarantined} then ret ()
       else and_then (install_module e now r m) (\<lambda>inst2.
           if mi_desired_state inst2 = DsEnabled
           then and_then (enable_module e now inst2 m) (\<lambda>_. ret ())
           else and_then (disable_module e now inst2 m) (\<lambda>_. ret ()))) (\<lambda>_. settled i mid d V) (\<lambda>_. True)" for r
  proof (cases "named i mid r")
    case n: True
    show ?thesis
    proof (rule triple_if, rule triple_ret)
      show "settled i mid d V db" if "mi_lifecycle_state r \<in> {LFailed, LQuarantined}"
        "busy i mid d V db \<and> shown i mid d r db \<and> mi_lifecycle_state r \<noteq> LIncompatible
          \<and> (mi_lifecycle_state r \<in> {LFailed, LQuarantined} \<longrightarrow> at_work i mid d V Not db)" for db
        using that by (auto intro: settled_off)
    next
      assume nq: "mi_lifecycle_state r \<notin> {LFailed, LQuarantined}"
      show "triple (\<lambda>db. busy i mid d V db \<and> shown i mid d r db \<and> mi_lifecycle_state r \<noteq> LIncompatible
        \<and> (mi_lifecycle_state r \<in> {LFailed, LQuarantined} \<longrightarrow> at_work i mid d V Not db))
        (and_then (install_module e now r m) (\<lambda>inst2.
           if mi_desired_state inst2 = DsEnabled
           then and_then (enable_module e now inst2 m) (\<lambda>_. ret ())
           else and_then (disable_module e now inst2 m) (\<lambda>_. ret ()))) (\<lambda>_. settled i mid d V) (\<lambda>_. True)"
        by (rule triple_then [OF triple_weaken [OF install_triple [OF n]] final], use nq in \<open>auto simp: unbarred_def\<close>)
    qed
  next
    case False
    then show ?thesis by (auto simp: triple_def shown_def named_def)
  qed
  show ?thesis
    by (rule triple_then [OF triple_weaken [OF validate_triple] install]) auto
qed


text \<open>Ids of modules never change: a row stays known under its module and its id.\<close>

definition known :: "install_row \<Rightarrow> module_db \<Rightarrow> bool" where
  "known r db \<longleftrightarrow> (\<exists>q. get_module_install (mi_module_id r) db = Some q \<and> mi_id q = mi_id r)"

lemma settled_known:
  assumes "settled i mid d V db" "same_elsewhere mid db0 db" "\<And>q. get_module_install mid db0 = Some q \<Longrightarrow> mi_id q = i"
    "known r db0"
  shows "known r db"
proof (cases "mi_module_id r = mid")
  case True
  then show ?thesis using assms(1,3,4) by (auto simp: known_def settled_def at_work_def working_def)
next
  case False
  then show ?thesis using assms(2,4) by (simp add: known_def same_elsewhere_def)
qed

definition moved_on :: "ustr \<Rightarrow> module_db \<Rightarrow> module_db \<Rightarrow> bool" where
  "moved_on mid db0 db \<longleftrightarrow> contributions_follow db \<and> same_elsewhere mid db0 db \<and> (\<forall>r. known r db0 \<longrightarrow> known r db)"

lemma settled_moved_on:
  assumes "contributions_follow db0" "settled i mid d (elsewhere i db0) db"
    "\<forall>r\<in>set (md_installs db0). mi_id r = i \<longrightarrow> mi_module_id r = mid"
    "\<And>q. get_module_install mid db0 = Some q \<Longrightarrow> mi_id q = i"
  shows "moved_on mid db0 db"
  using settled_elsewhere [OF assms(1-3)] settled_known [OF assms(2) _ assms(4)] by (auto simp: moved_on_def)

lemma triple_each: "(\<And>db0. P db0 \<Longrightarrow> triple (\<lambda>db. db = db0) m Q E) \<Longrightarrow> triple P m Q E"
  by (simp add: triple_def)

lemma triple_holds: "triple P m Q E \<Longrightarrow> b \<Longrightarrow> triple P m (\<lambda>x db. Q x db \<and> b) E"
  by simp

lemma sync_module_triple:
  assumes f: "contributions_follow db0" and g: "get_module_install (mm_module_id m) db0 = existing"
  shows "triple (\<lambda>db. db = db0) (sync_module e now existing m d err) (\<lambda>_. moved_on (mm_module_id m) db0) (\<lambda>_. True)"
proof -
  define i where "i = install_id_of e m existing"
  let ?mid = "mm_module_id m" and ?V = "elsewhere i db0"
  have own: "mi_id q = i" if "get_module_install ?mid db0 = Some q" for q
    using that g by (auto simp: i_def install_id_of_def)
  have reject: "triple (\<lambda>db. at_work i ?mid d ?V (\<lambda>b. b \<longrightarrow> mi_lifecycle_state inst \<noteq> LQuarantined) db \<and> shown i ?mid d inst db)
      (apply_incompatible_state e now inst detail) (\<lambda>_. settled i ?mid d ?V) (\<lambda>_. True)" for inst detail
  proof (cases "named i ?mid inst")
    case True
    show ?thesis
      by (rule triple_weaken [OF incompatible_triple [OF True]], erule conjunct1 [THEN at_work_any],
          erule idle_settled, simp)
  next
    case False
    then show ?thesis by (auto simp: triple_def dest: shown_named)
  qed
  have accept: "triple (\<lambda>db. at_work i ?mid d ?V (\<lambda>b. b \<longrightarrow> mi_lifecycle_state inst \<noteq> LQuarantined) db \<and> shown i ?mid d inst db)
      (and_then (validate_module e now inst m) (\<lambda>inst1.
         if mi_lifecycle_state inst1 \<in> {LFailed, LQuarantined} then ret ()
         else and_then (install_module e now inst1 m) (\<lambda>inst2.
           if mi_desired_state inst2 = DsEnabled
           then and_then (enable_module e now inst2 m) (\<lambda>_. ret ())
           else and_then (disable_module e now inst2 m) (\<lambda>_. ret ()))))
      (\<lambda>_. settled i ?mid d ?V) (\<lambda>_. True)" for inst
  proof (cases "named i ?mid inst")
    case True
    then show ?thesis by (rule validated_install_triple)
  next
    case False
    then show ?thesis by (auto simp: triple_def dest: shown_named)
  qed
  have "triple (\<lambda>db. db = db0) (sync_module e now existing m d err)
      (\<lambda>_ db. settled i ?mid d ?V db \<and> (\<forall>r\<in>set (md_installs db0). mi_id r = i \<longrightarrow> mi_module_id r = ?mid)) (\<lambda>_. True)"
    unfolding sync_module_def
    by (rule triple_then [OF sync_record_triple [OF f g i_def]], rule triple_fact, rule triple_if,
        (rule triple_holds, rule reject accept, assumption)+)
  then show ?thesis by (rule triple_post) (use settled_moved_on [OF f _ _ own] in blast)
qed

section \<open>Reconciling the catalog\<close>

lemma sync_all_triple:
  assumes "distinct (map mm_module_id ms)"
  shows "triple (\<lambda>db. contributions_follow db \<and> (\<forall>r\<in>R. known r db)
        \<and> (\<forall>m\<in>set ms. get_module_install (mm_module_id m) db = index_by mi_module_id existing (mm_module_id m)))
      (for_each (sync_manifest e now sources existing) ms)
      (\<lambda>_ db. contributions_follow db \<and> (\<forall>r\<in>R. known r db)) (\<lambda>_. True)"
  using assms
proof (induction ms)
  case Nil
  show ?case by (auto intro: triple_ret)
next
  case (Cons m ms)
  let ?P = "\<lambda>ms db. contributions_follow db \<and> (\<forall>r\<in>R. known r db)
        \<and> (\<forall>m\<in>set ms. get_module_install (mm_module_id m) db = index_by mi_module_id existing (mm_module_id m))"
  have "triple (?P (m # ms)) (sync_manifest e now sources existing m) (\<lambda>_. ?P ms) (\<lambda>_. True)"
  proof (rule triple_each)
    fix db0 assume P: "?P (m # ms) db0"
    have s: "triple (\<lambda>db. db = db0) (sync_module e now (index_by mi_module_id existing (mm_module_id m)) m d err)
        (\<lambda>_. ?P ms) (\<lambda>_. True)" for d err
    proof (rule triple_post [OF sync_module_triple])
      show "contributions_follow db0" using P by simp
      show "get_module_install (mm_module_id m) db0 = index_by mi_module_id existing (mm_module_id m)" using P by simp
      show "?P ms db" if on: "moved_on (mm_module_id m) db0 db" for db
      proof (intro conjI ballI)
        fix m' assume m': "m' \<in> set ms"
        then have "mm_module_id m' \<noteq> mm_module_id m" using Cons.prems m' by (force simp: image_iff)
        then have "get_module_install (mm_module_id m') db = get_module_install (mm_module_id m') db0"
          using on by (simp add: moved_on_def same_elsewhere_def)
        with P m' show "get_module_install (mm_module_id m') db = index_by mi_module_id existing (mm_module_id m')" by simp
      qed (use on P in \<open>auto simp: moved_on_def\<close>)
    qed
    show "triple (\<lambda>db. db = db0) (sync_manifest e now sources existing m) (\<lambda>_. ?P ms) (\<lambda>_. True)"
      by (simp add: sync_manifest_def s triple_raise split: option.split)
  qed
  moreover have "triple (?P ms) (for_each (sync_manifest e now sources existing) ms)
      (\<lambda>_ db. contributions_follow db \<and> (\<forall>r\<in>R. known r db)) (\<lambda>_. True)"
    using Cons by simp
  ultimately show ?case by (simp only: for_each.simps) (rule triple_then)
qed

lemma enter_module:
  assumes "contributions_follow db0" "get_module_install mid db0 = Some r"
  shows "at_work (mi_id r) mid (mi_desired_state r) (elsewhere (mi_id r) db0)
      (\<lambda>b. b \<longrightarrow> mi_desired_state r = DsEnabled \<and> mi_lifecycle_state r \<in> {LActive, LDegraded}) db0"
    and "shown (mi_id r) mid (mi_desired_state r) r db0"
    and "\<forall>q\<in>set (md_installs db0). mi_id q = mi_id r \<longrightarrow> mi_module_id q = mid"
proof -
  have ok: "installs_ok db0" using assms(1) by (simp add: contributions_follow_def)
  have r: "r \<in> set (md_installs db0)" "mi_module_id r = mid" using assms(2) get_mem [OF ok] by simp_all
  show "\<forall>q\<in>set (md_installs db0). mi_id q = mi_id r \<longrightarrow> mi_module_id q = mid" using id_unique [OF ok _ r(1)] r(2) by blast
  show "shown (mi_id r) mid (mi_desired_state r) r db0" using assms(2) r(2) by (simp add: shown_def)
  have "live_contributions (mi_id r) db0 \<longrightarrow> mi_desired_state r = DsEnabled \<and> mi_lifecycle_state r \<in> {LActive, LDegraded}"
    using assms(1) id_unique [OF ok _ r(1)] unfolding contributions_follow_def by blast
  then show "at_work (mi_id r) mid (mi_desired_state r) (elsewhere (mi_id r) db0)
      (\<lambda>b. b \<longrightarrow> mi_desired_state r = DsEnabled \<and> mi_lifecycle_state r \<in> {LActive, LDegraded}) db0"
    using ok assms(2) by (simp add: at_work_def working_def)
qed

text \<open>An operation on one module, seen from outside.\<close>

lemma triple_one:
  assumes one: "\<And>db0 r. P db0 \<Longrightarrow> get_module_install mid db0 = Some r \<Longrightarrow>
      triple (\<lambda>db. db = db0) m (\<lambda>_. settled (mi_id r) mid (d r) (elsewhere (mi_id r) db0)) (\<lambda>_. True)"
    and known: "\<And>db. P db \<Longrightarrow> contributions_follow db \<and> (\<forall>r\<in>R. known r db) \<and> get_module_install mid db \<noteq> None"
  shows "triple P m (\<lambda>_ db. contributions_follow db \<and> (\<forall>r\<in>R. known r db)) (\<lambda>_. True)"
proof (rule triple_each)
  fix db0 assume P0: "P db0"
  then obtain r where P: "contributions_follow db0" "\<forall>r\<in>R. known r db0" "get_module_install mid db0 = Some r"
    using known by blast
  show "triple (\<lambda>db. db = db0) m (\<lambda>_ db. contributions_follow db \<and> (\<forall>r\<in>R. known r db)) (\<lambda>_. True)"
  proof (rule triple_post [OF one [OF P0 P(3)]])
    fix x db assume s: "settled (mi_id r) mid (d r) (elsewhere (mi_id r) db0) db"
    have "moved_on mid db0 db"
      by (rule settled_moved_on [OF P(1) s enter_module(3) [OF P(1,3)]]) (use P(3) in simp)
    with P(2) show "contributions_follow db \<and> (\<forall>r\<in>R. known r db)" by (simp add: moved_on_def)
  qed
qed

lemma index_installs:
  assumes "installs_ok db"
  shows "index_by mi_module_id (list_module_installs db) mid = get_module_install mid db"
proof (cases "get_module_install mid db")
  case None
  then have "index_by mi_module_id (list_module_installs db) mid = None"
    by (simp add: index_by_None list_module_installs_def get_module_install_def find_row_None row_keys_def)
  with None show ?thesis by simp
next
  case (Some r)
  then have r: "r \<in> set (md_installs db)" "mi_module_id r = mid" using get_mem [OF assms] by simp_all
  have "distinct (map mi_module_id (list_module_installs db))"
    using assms by (simp add: installs_ok_def table_ok_def distinct_map list_module_installs_def)
  then have "index_by mi_module_id (list_module_installs db) (mi_module_id r) = Some r"
    by (rule index_by_distinct) (simp add: list_module_installs_def r)
  then show ?thesis using Some r by simp
qed

lemma listed_known: "installs_ok db \<Longrightarrow> r \<in> set (list_module_installs db) \<Longrightarrow> known r db"
  using get_mem [of db "mi_module_id r" r] by (simp add: known_def list_module_installs_def)

lemma known_row: "known x db \<Longrightarrow> get_module_install (mi_module_id x) db = Some r \<Longrightarrow> named (mi_id r) (mi_module_id x) x"
  by (auto simp: known_def named_def)

lemma remove_one_triple:
  "triple (\<lambda>db. contributions_follow db \<and> (\<forall>r\<in>R. known r db) \<and> known x db) (remove_module e now x)
     (\<lambda>_ db. contributions_follow db \<and> (\<forall>r\<in>R. known r db)) (\<lambda>_. True)"
proof (rule triple_one [where mid = "mi_module_id x" and d = mi_desired_state])
  fix db0 r assume P: "contributions_follow db0 \<and> (\<forall>r\<in>R. known r db0) \<and> known x db0"
    and g: "get_module_install (mi_module_id x) db0 = Some r"
  then have n: "named (mi_id r) (mi_module_id x) x" using known_row by blast
  show "triple (\<lambda>db. db = db0) (remove_module e now x)
      (\<lambda>_. settled (mi_id r) (mi_module_id x) (mi_desired_state r) (elsewhere (mi_id r) db0)) (\<lambda>_. True)"
    by (rule triple_weaken [OF remove_triple [OF n]])
      (use P enter_module(1) [OF _ g] in \<open>auto dest: at_work_any idle_settled\<close>)
qed (auto simp: known_def)

lemma remove_all_triple:
  "triple (\<lambda>db. contributions_follow db \<and> (\<forall>r\<in>R \<union> set rs. known r db))
     (for_each (remove_module e now) rs) (\<lambda>_ db. contributions_follow db \<and> (\<forall>r\<in>R. known r db)) (\<lambda>_. True)"
proof (induction rs)
  case Nil
  show ?case by (auto intro: triple_ret)
next
  case (Cons x rs)
  have "triple (\<lambda>db. contributions_follow db \<and> (\<forall>r\<in>R \<union> set (x # rs). known r db)) (remove_module e now x)
      (\<lambda>_ db. contributions_follow db \<and> (\<forall>r\<in>R \<union> set rs. known r db)) (\<lambda>_. True)"
    by (rule triple_pre [OF remove_one_triple]) simp
  then show ?case using Cons.IH by (simp only: for_each.simps) (rule triple_then)
qed

text \<open>The snapshot shows rows of the database.\<close>

definition shows_rows :: "catalog_snapshot \<Rightarrow> module_db \<Rightarrow> bool" where
  "shows_rows s db \<longleftrightarrow> (\<forall>r\<in>set (cs_installs s). known r db)"

lemma sync_catalog_triple:
  assumes "distinct (map mm_module_id manifests)"
  shows "triple contributions_follow (sync_catalog e now manifests)
     (\<lambda>s db. contributions_follow db \<and> shows_rows s db) contributions_follow"
proof -
  let ?gone = "\<lambda>db0. filter (\<lambda>r. mi_module_id r \<notin> mm_module_id ` set manifests) (list_module_installs db0)"
  have body: "triple contributions_follow
      (and_then (asks list_module_installs) (\<lambda>existing.
         and_then (for_each (sync_manifest e now sources existing) manifests) (\<lambda>_.
         and_then (for_each (remove_module e now)
             (filter (\<lambda>r. mi_module_id r \<notin> mm_module_id ` set manifests) existing)) (\<lambda>_.
           asks (build_snapshot manifests now)))))
      (\<lambda>s db. contributions_follow db \<and> shows_rows s db) (\<lambda>_. True)" for sources
  proof (rule triple_each)
    fix db0 assume f: "contributions_follow db0"
    then have ok: "installs_ok db0" by (simp add: contributions_follow_def)
    let ?rs = "?gone db0"
    have start: "triple (\<lambda>db. db = db0) (asks list_module_installs)
        (\<lambda>existing db. db = db0 \<and> existing = list_module_installs db0) (\<lambda>_. True)"
      by (rule triple_asks) simp
    have last: "triple contributions_follow (asks (build_snapshot manifests now))
        (\<lambda>s db. contributions_follow db \<and> shows_rows s db) (\<lambda>_. True)"
      by (rule triple_asks) (auto simp: shows_rows_def build_snapshot_def Let_def contributions_follow_def
          intro!: listed_known simp: list_module_installs_def)
    show "triple (\<lambda>db. db = db0) (and_then (asks list_module_installs) (\<lambda>existing.
         and_then (for_each (sync_manifest e now sources existing) manifests) (\<lambda>_.
         and_then (for_each (remove_module e now)
             (filter (\<lambda>r. mi_module_id r \<notin> mm_module_id ` set manifests) existing)) (\<lambda>_.
           asks (build_snapshot manifests now)))))
      (\<lambda>s db. contributions_follow db \<and> shows_rows s db) (\<lambda>_. True)"
    proof (rule triple_then [OF start], rule triple_fact)
      fix existing assume ex: "existing = list_module_installs db0"
      have sync: "triple (\<lambda>db. db = db0) (for_each (sync_manifest e now sources existing) manifests)
          (\<lambda>_ db. contributions_follow db \<and> (\<forall>r\<in>set ?rs. known r db)) (\<lambda>_. True)"
        by (rule triple_pre [OF sync_all_triple [OF assms, where R = "set ?rs"]])
          (use f ok ex index_installs listed_known in auto)
      have remove: "triple (\<lambda>db. contributions_follow db \<and> (\<forall>r\<in>set ?rs. known r db))
          (for_each (remove_module e now) (filter (\<lambda>r. mi_module_id r \<notin> mm_module_id ` set manifests) existing))
          (\<lambda>_. contributions_follow) (\<lambda>_. True)"
        using remove_all_triple [of "{}" ?rs e now] by (simp add: ex)
      show "triple (\<lambda>db. db = db0) (and_then (for_each (sync_manifest e now sources existing) manifests) (\<lambda>_.
         and_then (for_each (remove_module e now)
             (filter (\<lambda>r. mi_module_id r \<notin> mm_module_id ` set manifests) existing)) (\<lambda>_.
           asks (build_snapshot manifests now))))
        (\<lambda>s db. contributions_follow db \<and> shows_rows s db) (\<lambda>_. True)"
        by (rule triple_then [OF sync], rule triple_then [OF remove], rule last)
    qed
  qed
  show ?thesis
    unfolding sync_catalog_def
    by (rule then_quiet, simp, assumption, rule triple_then [OF triple_in_session [OF body]], rule then_quiet,
        simp add: quiet_def, erule conjunct1, rule triple_ret)
qed

end
