(* ===== verification/ModuleHost.thy ===== *)
theory ModuleHost
  imports ModuleProps
begin

text \<open>
  The module host as a machine: every operation, with any plugins and any outcome, is a step of the database,
  and the contributions that are live follow the lifecycle in every state the steps reach. Then what becomes of
  quarantine and of removed modules.
\<close>

section \<open>Deciding by hand\<close>

lemma required_triple:
  "triple P (required_install mid) (\<lambda>r db. P db \<and> get_module_install mid db = Some r) P"
  unfolding required_install_def
  by (rule triple_then [where R = "\<lambda>found db. P db \<and> get_module_install mid db = found"], rule triple_asks, simp)
    (auto split: option.split intro: triple_raise triple_ret)

lemma details_triple:
  assumes "distinct (map mm_module_id manifests)"
  shows "triple contributions_follow (get_module_details e now manifests module_id)
    (\<lambda>_. contributions_follow) contributions_follow"
  unfolding get_module_details_def
  by (rule triple_then [OF triple_post [OF sync_catalog_triple [OF assms], where Q' = "\<lambda>_. contributions_follow"]], simp)
    (auto split: option.split intro: triple_raise triple_asks)

lemma set_desired_triple:
  assumes f: "contributions_follow db0" and g: "get_module_install mid db0 = Some r"
  shows "triple (\<lambda>db. db = db0) (runs (set_desired_state mid d))
    (\<lambda>inst db. at_work (mi_id r) mid d (elsewhere (mi_id r) db0) (\<lambda>b. b \<longrightarrow> mi_lifecycle_state inst \<noteq> LQuarantined) db
       \<and> shown (mi_id r) mid d inst db) (\<lambda>_. True)"
proof (rule triple_runs)
  fix db db' x assume "db = db0" and t: "set_desired_state mid d db = Inr (db', x)"
  let ?f = "\<lambda>r. r\<lparr>mi_desired_state := d\<rparr>"
  from t g have e: "db' = edit_install mid ?f db0" "x = ?f r"
    using \<open>db = db0\<close> by (auto simp: set_desired_state_def Let_def)
  note at = enter_module [OF f g]
  note we = working_edit [OF at_work_working [OF at(1)], of ?f d]
  show "at_work (mi_id r) mid d (elsewhere (mi_id r) db0) (\<lambda>b. b \<longrightarrow> mi_lifecycle_state x \<noteq> LQuarantined) db'
       \<and> shown (mi_id r) mid d x db'"
    using we at(1) g get_module_id [OF g] unfolding e by (auto simp: at_work_def shown_def)
qed simp

lemma switch_triple:
  assumes inst: "named i mid inst"
  shows "triple (\<lambda>db. at_work i mid (if enabled then DsEnabled else DsDisabled) V
        (\<lambda>b. b \<longrightarrow> mi_lifecycle_state inst \<noteq> LQuarantined) db
      \<and> shown i mid (if enabled then DsEnabled else DsDisabled) inst db)
    (if enabled then
         and_then (validate_module e now inst m) (\<lambda>inst1.
           if mi_lifecycle_state inst1 \<notin> {LFailed, LQuarantined, LIncompatible} then
             and_then (install_module e now inst1 m) (\<lambda>inst2.
             and_then (enable_module e now inst2 m) (\<lambda>_. ret ()))
           else ret ())
       else and_then (disable_module e now inst m) (\<lambda>_. ret ()))
    (\<lambda>_. settled i mid (if enabled then DsEnabled else DsDisabled) V) (\<lambda>_. True)"
proof (cases enabled)
  case False
  show ?thesis
    by (simp only: False if_False, rule triple_then [OF triple_weaken [OF disable_triple [OF inst]]],
        erule conjunct1 [THEN at_work_any], assumption, simp, rule triple_ret, erule idle_settled)
next
  case True
  let ?d = DsEnabled
  have enable: "triple (\<lambda>db. busy i mid ?d V db \<and> shown i mid ?d r db \<and> mi_lifecycle_state r \<noteq> LQuarantined)
      (and_then (enable_module e now r m) (\<lambda>_. ret ())) (\<lambda>_. settled i mid ?d V) (\<lambda>_. True)" for r
  proof (cases "named i mid r")
    case n: True
    show ?thesis
      by (rule triple_then [OF triple_weaken [OF enable_triple [OF n refl]]], force simp: unbarred_def,
          assumption, simp, rule triple_ret)
  next
    case False
    then show ?thesis by (auto simp: triple_def dest: shown_named)
  qed
  have install: "triple (\<lambda>db. busy i mid ?d V db \<and> shown i mid ?d r db \<and> mi_lifecycle_state r \<noteq> LIncompatible
        \<and> (mi_lifecycle_state r \<in> {LFailed, LQuarantined} \<longrightarrow> idle i mid ?d V db))
      (if mi_lifecycle_state r \<notin> {LFailed, LQuarantined, LIncompatible} then
             and_then (install_module e now r m) (\<lambda>inst2. and_then (enable_module e now inst2 m) (\<lambda>_. ret ()))
           else ret ()) (\<lambda>_. settled i mid ?d V) (\<lambda>_. True)" for r
  proof (cases "named i mid r")
    case n: True
    have go: "triple (\<lambda>db. busy i mid ?d V db \<and> unbarred i mid ?d db)
        (and_then (install_module e now r m) (\<lambda>inst2. and_then (enable_module e now inst2 m) (\<lambda>_. ret ())))
        (\<lambda>_. settled i mid ?d V) (\<lambda>_. True)"
      by (rule triple_then [OF triple_weaken [OF install_triple [OF n]] enable]) auto
    show ?thesis
      by (rule triple_if, rule triple_pre [OF go], force simp: unbarred_def, rule triple_ret)
        (auto dest: idle_settled)
  next
    case False
    then show ?thesis by (auto simp: triple_def dest: shown_named)
  qed
  show ?thesis
    by (simp only: True if_True, rule triple_then [OF triple_weaken [OF validate_triple] install]) auto
qed

lemma set_enabled_triple:
  "triple contributions_follow (set_enabled_session e now mid enabled m) (\<lambda>_. contributions_follow) (\<lambda>_. True)"
proof -
  let ?d = "if enabled then DsEnabled else DsDisabled"
  have one: "triple (\<lambda>db. contributions_follow db \<and> get_module_install mid db \<noteq> None)
    (and_then (runs (set_desired_state mid ?d)) (\<lambda>inst.
       if enabled then
         and_then (validate_module e now inst m) (\<lambda>inst1.
           if mi_lifecycle_state inst1 \<notin> {LFailed, LQuarantined, LIncompatible} then
             and_then (install_module e now inst1 m) (\<lambda>inst2.
             and_then (enable_module e now inst2 m) (\<lambda>_. ret ()))
           else ret ())
       else and_then (disable_module e now inst m) (\<lambda>_. ret ())))
    (\<lambda>_ db. contributions_follow db \<and> (\<forall>r\<in>{}. known r db)) (\<lambda>_. True)"
  proof (rule triple_one [where mid = mid and d = "\<lambda>_. ?d"])
    fix db0 r assume f: "contributions_follow db0 \<and> get_module_install mid db0 \<noteq> None"
      and g: "get_module_install mid db0 = Some r"
    let ?P = "\<lambda>inst db. at_work (mi_id r) mid ?d (elsewhere (mi_id r) db0) (\<lambda>b. b \<longrightarrow> mi_lifecycle_state inst \<noteq> LQuarantined) db
       \<and> shown (mi_id r) mid ?d inst db"
    show "triple (\<lambda>db. db = db0) (and_then (runs (set_desired_state mid ?d)) (\<lambda>inst.
       if enabled then
         and_then (validate_module e now inst m) (\<lambda>inst1.
           if mi_lifecycle_state inst1 \<notin> {LFailed, LQuarantined, LIncompatible} then
             and_then (install_module e now inst1 m) (\<lambda>inst2.
             and_then (enable_module e now inst2 m) (\<lambda>_. ret ()))
           else ret ())
       else and_then (disable_module e now inst m) (\<lambda>_. ret ())))
      (\<lambda>_. settled (mi_id r) mid ?d (elsewhere (mi_id r) db0)) (\<lambda>_. True)"
    proof (rule triple_then [where R = "\<lambda>inst db. ?P inst db \<and> named (mi_id r) mid inst"],
        rule triple_post [OF set_desired_triple [OF conjunct1 [OF f] g]])
      show "?P x db \<and> named (mi_id r) mid x" if "?P x db" for x db using that shown_named by blast
    qed (rule triple_fact, rule switch_triple)
  qed auto
  show ?thesis
    unfolding set_enabled_session_def
    by (rule triple_then [where R = "\<lambda>_ db. contributions_follow db \<and> get_module_install mid db \<noteq> None"],
        rule triple_weaken [OF required_triple [of contributions_follow]], assumption, simp, simp)
      (rule triple_post [OF one], simp)
qed


lemma unquarantine_triple:
  "triple contributions_follow (unquarantine_session e now mid m) (\<lambda>_. contributions_follow) (\<lambda>_. True)"
proof -
  let ?rest = "and_then (write_health_details e mid
         [(lit ''failureCount'', JInt 0), (lit ''status'', JStr (lit ''healthy'')),
          (lit ''summary'', JStr (lit ''Failure counter reset.''))]) (\<lambda>_.
     and_then (runs (transition_lifecycle now mid LDisabled None)) (\<lambda>inst.
     and_then (health_details_ref e mid) (\<lambda>ref.
     and_then (runs (upsert_health_report (health_report_of e now inst HHealthy
         (lit ''Module quarantine cleared and module is disabled.'') ref))) (\<lambda>_.
       if mi_desired_state inst = DsEnabled
       then and_then (enable_module e now inst m) (\<lambda>_. ret ()) else ret ()))))"
  have one: "triple (\<lambda>db. contributions_follow db \<and> get_module_install mid db \<noteq> None) ?rest
    (\<lambda>_ db. contributions_follow db \<and> (\<forall>r\<in>{}. known r db)) (\<lambda>_. True)"
  proof (rule triple_one [where mid = mid and d = mi_desired_state])
    fix db0 r assume f: "contributions_follow db0 \<and> get_module_install mid db0 \<noteq> None"
      and g: "get_module_install mid db0 = Some r"
    let ?i = "mi_id r" and ?d = "mi_desired_state r" and ?V = "elsewhere (mi_id r) db0"
    let ?L = "\<lambda>b. b \<longrightarrow> ?d = DsEnabled"
    let ?S = "\<lambda>inst db. at_work ?i mid ?d ?V ?L db \<and> shown ?i mid ?d inst db"
    have enter: "at_work ?i mid ?d ?V ?L db0" using enter_module(1) [OF conjunct1 [OF f] g] by (auto simp: at_work_def)
    have last: "triple (?S inst) (if mi_desired_state inst = DsEnabled
         then and_then (enable_module e now inst m) (\<lambda>_. ret ()) else ret ()) (\<lambda>_. settled ?i mid ?d ?V) (busy ?i mid ?d ?V)"
      if lc: "mi_lifecycle_state inst = LDisabled" for inst
    proof (cases "named ?i mid inst \<and> mi_desired_state inst = ?d")
      case True
      then have n: "named ?i mid inst" by simp
      have "triple (?S inst) (and_then (enable_module e now inst m) (\<lambda>_. ret ())) (\<lambda>_. settled ?i mid ?d ?V) (busy ?i mid ?d ?V)"
        if d: "?d = DsEnabled"
        by (rule triple_then [OF triple_pre [OF enable_triple [OF n d]]], use lc in \<open>force simp: unbarred_def at_work_def\<close>,
            rule triple_ret)
      moreover have "triple (?S inst) (ret ()) (\<lambda>_. settled ?i mid ?d ?V) (busy ?i mid ?d ?V)" if "?d = DsDisabled"
        by (rule triple_ret) (use that in \<open>auto simp: at_work_def settled_def\<close>)
      ultimately show ?thesis using True by (cases ?d) simp_all
    next
      case False
      then show ?thesis by (auto simp: triple_def shown_def named_def)
    qed
    have "triple (at_work ?i mid ?d ?V ?L) ?rest (\<lambda>_. settled ?i mid ?d ?V) (busy ?i mid ?d ?V)"
      by (rule then_quiet, simp, erule at_work_any, rule then_transition, rule then_quiet, simp,
          erule conjunct1 [THEN at_work_any], rule then_health, simp, erule conjunct1 [THEN at_work_any], rule last)
    then show "triple (\<lambda>db. db = db0) ?rest (\<lambda>_. settled ?i mid ?d ?V) (\<lambda>_. True)"
      by (rule triple_weaken) (use enter in auto)
  qed auto
  show ?thesis
    unfolding unquarantine_session_def
    by (rule triple_then [where R = "\<lambda>_ db. contributions_follow db \<and> get_module_install mid db \<noteq> None"],
        rule triple_weaken [OF required_triple [of contributions_follow]], assumption, simp, simp)
      (rule triple_post [OF one], simp)
qed

lemma record_failure_outside:
  "triple (\<lambda>db. contributions_follow db \<and> (\<forall>r\<in>R. known r db) \<and> known inst db) (record_failure e now inst reason)
     (\<lambda>_ db. contributions_follow db \<and> (\<forall>r\<in>R. known r db)) (\<lambda>_. True)"
proof (rule triple_one [where mid = "mi_module_id inst" and d = mi_desired_state])
  fix db0 r assume P: "contributions_follow db0 \<and> (\<forall>r\<in>R. known r db0) \<and> known inst db0"
    and g: "get_module_install (mi_module_id inst) db0 = Some r"
  then have n: "named (mi_id r) (mi_module_id inst) inst" using known_row by blast
  show "triple (\<lambda>db. db = db0) (record_failure e now inst reason)
      (\<lambda>_. settled (mi_id r) (mi_module_id inst) (mi_desired_state r) (elsewhere (mi_id r) db0)) (\<lambda>_. True)"
    by (rule triple_weaken [OF record_failure_triple [OF n]])
      (use P enter_module(1) [OF _ g] in \<open>auto intro: settled_off\<close>)
qed (auto simp: known_def)

lemma quarantine_triple:
  assumes "distinct (map mm_module_id manifests)"
  shows "triple contributions_follow (quarantine_module e now manifests mid reason) (\<lambda>_. contributions_follow) contributions_follow"
proof -
  have known: "contributions_follow db \<and> get_module_install mid db = Some inst \<Longrightarrow>
      contributions_follow db \<and> (\<forall>r\<in>{}. known r db) \<and> known inst db" for db inst
    using get_module_id by (auto simp: known_def)
  have "triple contributions_follow (and_then (required_install mid) (\<lambda>inst. record_failure e now inst reason))
      (\<lambda>_. contributions_follow) (\<lambda>_. True)"
    by (rule triple_then [OF triple_weaken [OF required_triple [of contributions_follow]]], assumption, assumption, simp,
        rule triple_weaken [OF record_failure_outside [of "{}"]], erule known, simp, simp)
  then show ?thesis
    unfolding quarantine_module_def by (rule triple_then [OF triple_in_session]) (rule details_triple [OF assms])
qed

lemma set_module_enabled_triple:
  assumes "distinct (map mm_module_id manifests)"
  shows "triple contributions_follow (set_module_enabled e now manifests mid enabled) (\<lambda>_. contributions_follow) contributions_follow"
proof -
  have "triple contributions_follow (and_then (persist_desired_state mid d) (\<lambda>_.
      and_then (in_session (set_enabled_session e now mid enabled m)) (\<lambda>_. get_module_details e now manifests mid)))
      (\<lambda>_. contributions_follow) contributions_follow" for d m
    by (rule then_quiet, simp, assumption, rule triple_then [OF triple_in_session [OF set_enabled_triple]],
        rule details_triple [OF assms])
  then show ?thesis
    unfolding set_module_enabled_def
    by (intro then_quiet) (auto split: option.split intro: triple_raise)
qed

lemma unquarantine_module_triple:
  assumes "distinct (map mm_module_id manifests)"
  shows "triple contributions_follow (unquarantine_module e now manifests mid) (\<lambda>_. contributions_follow) contributions_follow"
proof -
  have "triple contributions_follow (and_then (in_session (unquarantine_session e now mid m)) (\<lambda>_. get_module_details e now manifests mid))
      (\<lambda>_. contributions_follow) contributions_follow" for m
    by (rule triple_then [OF triple_in_session [OF unquarantine_triple]], rule details_triple [OF assms])
  then show ?thesis
    unfolding unquarantine_module_def
    by (intro then_quiet) (auto split: option.split intro: triple_raise)
qed


section \<open>Consuming events\<close>

lemma live_unmoved [simp]:
  "live_contributions i (db\<lparr>md_events := x\<rparr>) = live_contributions i db"
  "live_contributions i (db\<lparr>md_health := y\<rparr>) = live_contributions i db"
  by (simp_all add: live_contributions_def)

lemma unmoved_settled [simp]: "unmoved (settled i mid d V)"
  unfolding unmoved_def settled_def by auto

lemma triple_keeps:
  fixes m :: "'a act"
  shows "triple P m (\<lambda>_. P) P \<longleftrightarrow> (\<forall>w. P (mw_db w) \<longrightarrow> P (mw_db (fst (m w))))"
proof -
  have "(case x of (w', Inr y) \<Rightarrow> P (mw_db w') | (w', Inl err) \<Rightarrow> P (mw_db w')) = P (mw_db (fst x))"
    for x :: "module_world \<times> 'a res"
    by (cases x; cases "snd x") auto
  then show ?thesis by (simp only: triple_def)
qed

lemma settled_busy: "settled i mid d V db \<Longrightarrow> busy i mid d V db"
  by (simp add: settled_def)

lemma degrade_triple:
  "triple (settled i mid d V) (runs (transition_lifecycle now mid LDegraded None)) (\<lambda>_. settled i mid d V) (busy i mid d V)"
  by (rule triple_weaken [OF transition_triple [of i mid d V "\<lambda>b. b \<longrightarrow> d = DsEnabled"]])
    (auto simp: settled_def at_work_def)

lemma emit_triple:
  "unmoved P \<Longrightarrow> triple P (for_each (record_emission e now envelope) ems) (\<lambda>_. P) P"
  by (induction ems) (auto intro: triple_ret triple_then [OF emission_triple])

lemma settle_delivery_triple:
  assumes inst: "named i mid inst"
  shows "triple (settled i mid d V) (settle_delivery e now inst envelope result) (\<lambda>_. settled i mid d V) (\<lambda>_. True)"
proof -
  have emit: "triple (settled i mid d V) (and_then (for_each (record_emission e now envelope) (hr_emitted_events result))
      (\<lambda>_. ret out)) (\<lambda>_. settled i mid d V) (\<lambda>_. True)" for out
    by (rule triple_then [OF triple_weaken [OF emit_triple [OF unmoved_settled]]], assumption, assumption, simp, rule triple_ret)
  have fail: "triple (settled i mid d V) (and_then (record_failure e now cur reason) (\<lambda>_. ret out))
      (\<lambda>_. settled i mid d V) (\<lambda>_. True)" if "named i mid cur" for cur reason out
    by (rule triple_then [OF triple_weaken [OF record_failure_triple [OF that, where L = "\<lambda>_. True"]]], erule settled_busy,
        erule conjunct1 [THEN settled_off], simp, rule triple_ret)
  have degrade: "triple (settled i mid d V) (if b then runs (transition_lifecycle now (mi_module_id cur) LDegraded None) else ret cur)
      (\<lambda>_. settled i mid d V) (\<lambda>_. True)" if "named i mid cur" for cur b
    using that degrade_triple [of i mid d V now] by (auto simp: named_def intro: triple_ret triple_weaken)
  have current: "triple (settled i mid d V) (current_install inst) (\<lambda>c db. settled i mid d V db \<and> named i mid c) (\<lambda>_. True)"
    by (rule triple_weaken [OF current_triple [OF inst, where P = "settled i mid d V"]])
      (auto dest: settled_busy shown_named)
  show ?thesis
    unfolding settle_delivery_def Let_def
  proof (rule triple_then [OF current], rule triple_fact)
    fix cur assume cur: "named i mid cur"
    show "triple (settled i mid d V)
       (case hr_health_status result of
            None \<Rightarrow> and_then (for_each (record_emission e now envelope) (hr_emitted_events result)) (\<lambda>_.
             ret \<lparr>dp_status = hr_status result, dp_ack = (hr_status result \<noteq> EvFailed),
                  dp_emitted = length (hr_emitted_events result)\<rparr>)
          | Some h \<Rightarrow>
              and_then (health_details_ref e (mi_module_id cur)) (\<lambda>ref.
              and_then (runs (upsert_health_report (health_report_of e now cur h
                  (nonempty_or (hr_summary result)
                    (lit ''Module handled '' @ en_event_type envelope @ lit ''.'')) ref))) (\<lambda>_.
              and_then (if h = HDegraded
                        then runs (transition_lifecycle now (mi_module_id cur) LDegraded None) else ret cur) (\<lambda>_.
                if h \<in> {HUnhealthy, HQuarantined} then
                  and_then (record_failure e now cur
                      (nonempty_or (hr_summary result) (en_event_type envelope @ lit '' failed.'')))
                    (\<lambda>_. ret failed_dispatch)
                else and_then (for_each (record_emission e now envelope) (hr_emitted_events result)) (\<lambda>_.
             ret \<lparr>dp_status = hr_status result, dp_ack = (hr_status result \<noteq> EvFailed),
                  dp_emitted = length (hr_emitted_events result)\<rparr>)))))
       (\<lambda>_. settled i mid d V) (\<lambda>_. True)"
    proof (cases "hr_health_status result")
      case (Some h)
      show ?thesis
        unfolding Some option.case
        by (rule then_quiet, simp, simp, rule then_health, simp, simp, rule triple_then [OF degrade [OF cur]],
            rule triple_if, rule fail [OF cur], rule emit)
    qed (simp add: emit)
  qed
qed

abbreviation steady :: "install_row set \<Rightarrow> module_db \<Rightarrow> bool" where
  "steady R db \<equiv> contributions_follow db \<and> (\<forall>r\<in>R. known r db)"

lemma dispatch_triple:
  assumes "inst \<in> R"
  shows "triple (steady R) (dispatch_event e now plugin inst envelope) (\<lambda>_. steady R) (steady R)"
proof -
  have fail: "triple (steady R) (in_session (record_failure e now inst reason)) (\<lambda>_. steady R) (steady R)" for reason
    by (rule triple_in_session [OF triple_pre [OF record_failure_outside]]) (use assms in auto)
  have settle: "triple (steady R) (in_session (settle_delivery e now inst envelope result)) (\<lambda>_. steady R) (steady R)" for result
  proof (rule triple_in_session, rule triple_one [where mid = "mi_module_id inst" and d = mi_desired_state])
    fix db0 r assume P: "steady R db0" and g: "get_module_install (mi_module_id inst) db0 = Some r"
    then have n: "named (mi_id r) (mi_module_id inst) inst" using known_row assms by blast
    have "settled (mi_id r) (mi_module_id inst) (mi_desired_state r) (elsewhere (mi_id r) db0) db0"
      using enter_module(1,2) [OF conjunct1 [OF P] g] by (auto simp: settled_def at_work_def)
    then show "triple (\<lambda>db. db = db0) (settle_delivery e now inst envelope result)
        (\<lambda>_. settled (mi_id r) (mi_module_id inst) (mi_desired_state r) (elsewhere (mi_id r) db0)) (\<lambda>_. True)"
      by (intro triple_pre [OF settle_delivery_triple [OF n]]) auto
  qed (use assms in \<open>auto simp: known_def\<close>)
  show ?thesis
    unfolding dispatch_event_def
    by (cases "pl_handle_event plugin envelope") (simp_all add: settle, rule triple_then [OF fail], rule triple_ret)
qed

lemma deliver_triple:
  assumes "inst \<in> R"
  shows "triple (steady R) (deliver_all e now plugin inst xs) (\<lambda>_. steady R) (steady R)"
proof (induction xs)
  case Nil
  show ?case by (simp add: triple_def)
next
  case (Cons x xs)
  have "steady R (mw_db (fst (deliver_all e now plugin inst (x # xs) w)))" if w: "steady R (mw_db w)" for w
  proof -
    obtain w1 r1 where d: "dispatch_event e now plugin inst x w = (w1, r1)" by fastforce
    have "steady R (mw_db w1)" using dispatch_triple [OF assms] w d unfolding triple_keeps by (metis fst_conv)
    then have "steady R (mw_db (fst (deliver_all e now plugin inst xs w1)))" using Cons.IH unfolding triple_keeps by blast
    then show ?thesis by (simp add: d split: sum.split prod.split) (auto split: sum.splits prod.splits)
  qed
  then show ?case unfolding triple_keeps by blast
qed


lemma consume_subscription_triple:
  assumes "set (cs_installs snapshot) \<subseteq> R"
  shows "triple (steady R) (consume_subscription e now bus snapshot s) (\<lambda>_. steady R) (steady R)"
proof -
  have go: "triple (steady R) (and_then (lift (load_plugin e m)) (\<lambda>plugin. and_then (lift (bus t g)) (\<lambda>deliveries.
      deliver_all e now plugin inst deliveries))) (\<lambda>_. steady R) (steady R)" if "inst \<in> R" for m t g inst
    by (rule then_quiet, simp, assumption, rule then_quiet, simp, assumption, rule deliver_triple [OF that])
  show ?thesis
    unfolding consume_subscription_def using assms index_by_Some go
    by (fastforce split: option.split intro: triple_raise)
qed

lemma consume_all_triple:
  assumes "set (cs_installs snapshot) \<subseteq> R"
  shows "triple (steady R) (consume_all e now bus snapshot ss) (\<lambda>_. steady R) (steady R)"
proof (induction ss)
  case (Cons s ss)
  have "triple (steady R) (and_then (consume_all e now bus snapshot ss) (\<lambda>rest. ret (outs @ rest))) (\<lambda>_. steady R) (steady R)" for outs
    by (rule triple_then [OF Cons.IH], rule triple_ret)
  then show ?case
    by (simp only: consume_all.simps) (rule triple_then [OF consume_subscription_triple [OF assms]])
qed (simp add: triple_ret)

lemma consume_triple:
  assumes "distinct (map mm_module_id manifests)"
  shows "triple contributions_follow (consume_events e now bus manifests module_id) (\<lambda>_. contributions_follow) contributions_follow"
  unfolding consume_events_def
  by (rule triple_then [OF sync_catalog_triple [OF assms]], rule triple_weaken [OF consume_all_triple [OF subset_refl]])
    (auto simp: shows_rows_def)

section \<open>The machine\<close>

inductive host_step :: "module_world \<Rightarrow> module_world \<Rightarrow> bool" where
  sync: "distinct (map mm_module_id ms) \<Longrightarrow> sync_catalog e now ms w = (w', r) \<Longrightarrow> host_step w w'"
| set_enabled: "distinct (map mm_module_id ms) \<Longrightarrow> set_module_enabled e now ms i b w = (w', r') \<Longrightarrow> host_step w w'"
| quarantine: "distinct (map mm_module_id ms) \<Longrightarrow> quarantine_module e now ms i reason w = (w', r') \<Longrightarrow> host_step w w'"
| unquarantine: "distinct (map mm_module_id ms) \<Longrightarrow> unquarantine_module e now ms i w = (w', r') \<Longrightarrow> host_step w w'"
| consume: "distinct (map mm_module_id ms) \<Longrightarrow> consume_events e now bus ms f w = (w', outs) \<Longrightarrow> host_step w w'"

lemma kept: "triple P m (\<lambda>_. P) P \<Longrightarrow> m w = (w', r) \<Longrightarrow> P (mw_db w) \<Longrightarrow> P (mw_db w')"
  unfolding triple_keeps by (metis fst_conv)

interpretation host: invariant_system host_step "\<lambda>w. contributions_follow (mw_db w)"
proof
  fix s t assume "host_step s t" "contributions_follow (mw_db s)"
  then show "contributions_follow (mw_db t)"
  proof (induction rule: host_step.induct)
    case (sync ms e now w w' r)
    have "triple contributions_follow (sync_catalog e now ms) (\<lambda>_. contributions_follow) contributions_follow"
      by (rule triple_post [OF sync_catalog_triple [OF sync(1)]]) simp
    then show ?case using kept sync by blast
  next
    case (set_enabled ms e now i b w w' r')
    then show ?case using kept [OF set_module_enabled_triple] by blast
  next
    case (quarantine ms e now i reason w w' r')
    then show ?case using kept [OF quarantine_triple] by blast
  next
    case (unquarantine ms e now i w w' r')
    then show ?case using kept [OF unquarantine_module_triple] by blast
  next
    case (consume ms e now bus f w w' outs)
    then show ?case using kept [OF consume_triple] by blast
  qed
qed

definition empty_db :: module_db where
  "empty_db = \<lparr>md_installs = [], md_bindings = [], md_hooks = [], md_subscriptions = [], md_health = [], md_events = []\<rparr>"

text \<open>C38: whatever the module host does and wherever it fails (synchronizing, enabling, disabling, quarantine,
  events, with any plugins that raise or misbehave), an enabled hook and an active subscription belong
  to an installed module that is wanted and active or degraded.\<close>

theorem live_contributions_follow_lifecycle:
  assumes "host_step\<^sup>*\<^sup>* w w'" "mw_db w = empty_db"
    and "(\<exists>h\<in>set (md_hooks (mw_db w')). hk_install_id h = i \<and> hk_enabled h)
       \<or> (\<exists>s\<in>set (md_subscriptions (mw_db w')). sb_install_id s = i \<and> sb_status s = SubActive)"
  shows "\<exists>r\<in>set (md_installs (mw_db w')). mi_id r = i \<and> mi_lifecycle_state r \<in> {LActive, LDegraded}
           \<and> mi_desired_state r = DsEnabled"
proof -
  have "contributions_follow (mw_db w)"
    unfolding assms(2) by (simp add: contributions_follow_def empty_db_def installs_ok_def table_ok_def live_contributions_def)
  from host.reachable_inv [OF assms(1) this] assms(3) show ?thesis
    unfolding contributions_follow_def live_contributions_def by blast
qed

section \<open>A host with one module\<close>

definition sample_manifest :: module_manifest where
  "sample_manifest =
     \<lparr>mm_module_id = lit ''notes'', mm_display_name = lit ''Notes'', mm_version = lit ''0.1.0'',
      mm_runtime_mode = lit ''in-process'', mm_manifest_path = lit ''m'', mm_category = None, mm_owner = None,
      mm_description = None, mm_entry_point = Some (lit ''notes:plugin''), mm_protocol = None,
      mm_kernel_compatibility = None, mm_hooks = [], mm_publishes = [], mm_subscribes = [lit ''task.created''],
      mm_requested_permissions = []\<rparr>"

definition sample_plugin :: plugin where
  "sample_plugin =
     \<lparr>pl_register_hooks = Inr [\<lparr>rg_name = lit ''task.pause.prepare'', rg_handler = (\<lambda>_. Inr JNull), rg_order = 100,
         rg_timeout_ms = 3000, rg_side_effects = lit ''read-only''\<rparr>],
      pl_handle_event = (\<lambda>_. Inr \<lparr>hr_status = EvIgnored, hr_summary = None, hr_emitted_events = [], hr_health_status = None\<rparr>)\<rparr>"

definition sample_host :: "plugin res \<Rightarrow> host_env" where
  "sample_host imported =
     \<lparr>he_threshold = 3, he_import = (\<lambda>_ _. imported), he_text = (\<lambda>_. lit ''failed''), he_repr = (\<lambda>_. []),
      he_int = (\<lambda>_. Inl (ValueError [])), he_stable_id = (\<lambda>p parts. p @ concat parts),
      he_event_id = (\<lambda>rows. replicate (Suc (sum_list (map (\<lambda>r. length (ob_id r)) rows))) 0),
      he_locator = (\<lambda>d i. d @ i)\<rparr>"

definition empty_files :: module_files where
  "empty_files = \<lparr>fl_details = Map.empty, fl_configs = (\<lambda>_. False), fl_profile = None, fl_records = []\<rparr>"

definition empty_world :: module_world where
  "empty_world = \<lparr>mw_db = empty_db, mw_files = empty_files\<rparr>"

lemma live_contributions_follow_lifecycle_witness:
  "\<exists>h\<in>set (md_hooks (mw_db (fst (sync_catalog (sample_host (Inr sample_plugin)) 2 [sample_manifest] empty_world)))).
     \<exists>r\<in>set (md_installs (mw_db (fst (sync_catalog (sample_host (Inr sample_plugin)) 2 [sample_manifest] empty_world)))).
       mi_id r = hk_install_id h \<and> mi_lifecycle_state r \<in> {LActive, LDegraded} \<and> mi_desired_state r = DsEnabled"
proof -
  let ?s = "sync_catalog (sample_host (Inr sample_plugin)) 2 [sample_manifest] empty_world"
  have "list_ex hk_enabled (md_hooks (mw_db (fst ?s)))" by code_simp
  then obtain h where h: "h \<in> set (md_hooks (mw_db (fst ?s)))" "hk_enabled h" by (auto simp: list_ex_iff)
  have step: "host_step empty_world (fst ?s)"
    by (rule host_step.sync [of "[sample_manifest]" _ _ _ _ "snd ?s"]) simp_all
  have "\<exists>r\<in>set (md_installs (mw_db (fst ?s))). mi_id r = hk_install_id h \<and> mi_lifecycle_state r \<in> {LActive, LDegraded}
           \<and> mi_desired_state r = DsEnabled"
    by (rule live_contributions_follow_lifecycle [OF r_into_rtranclp [of host_step, OF step]])
      (use h in \<open>auto simp: empty_world_def\<close>)
  with h(1) show ?thesis by blast
qed

end
