(* ===== verification/ModuleQuarantine.thy ===== *)
theory ModuleQuarantine
  imports ModuleHost
begin

text \<open>
  Quarantine: how a failing module gets there, what keeps it there and what does not; and the modules whose
  manifest is gone.
\<close>

section \<open>Quarantine is kept by synchronizing\<close>

definition barred :: "ustr \<Rightarrow> module_db \<Rightarrow> bool" where
  "barred mid db \<longleftrightarrow>
     (\<exists>r. get_module_install mid db = Some r \<and> mi_lifecycle_state r = LQuarantined \<and> mi_installed_at r \<noteq> None)"

lemma barred_elsewhere: "same_elsewhere mid' db0 db \<Longrightarrow> mid \<noteq> mid' \<Longrightarrow> barred mid db0 \<Longrightarrow> barred mid db"
  by (simp add: barred_def same_elsewhere_def)

lemma refreshed_barred:
  "mi_lifecycle_state r = LQuarantined \<Longrightarrow> value_or err [] = [] \<Longrightarrow>
     mi_lifecycle_state (refreshed_install m d err r) = LQuarantined
     \<and> mi_installed_at (refreshed_install m d err r) = mi_installed_at r"
  by (simp add: refreshed_install_def Let_def)

lemma sync_module_barred:
  assumes f: "contributions_follow db0" and g: "get_module_install (mm_module_id m) db0 = Some r"
    and b: "barred (mm_module_id m) db0" and c: "value_or err [] = []"
  shows "triple (\<lambda>db. db = db0) (sync_module e now (Some r) m d err) (\<lambda>_. barred (mm_module_id m)) (\<lambda>_. True)"
proof -
  have lc: "mi_lifecycle_state r = LQuarantined" "mi_installed_at r \<noteq> None" using b g by (auto simp: barred_def)
  have rec: "triple (\<lambda>db. db = db0) (sync_manifest_record e now (Some r) m d err)
      (\<lambda>inst db. barred (mm_module_id m) db \<and> (mi_lifecycle_state inst = LQuarantined \<and> mi_installed_at inst \<noteq> None)) (\<lambda>_. True)"
    by (rule triple_post [OF sync_old_triple [OF f g]])
      (use lc refreshed_barred [OF lc(1) c] in \<open>auto simp: shown_def barred_def\<close>)
  show ?thesis
    unfolding sync_module_def
  proof (rule triple_then [OF rec], rule triple_fact)
    fix inst :: install_row assume i: "mi_lifecycle_state inst = LQuarantined \<and> mi_installed_at inst \<noteq> None"
    then have "\<not> needs_validation inst" by (simp add: needs_validation_def)
    then have "validate_module e now inst m = ret inst" by (simp add: validate_module_def)
    then have "(if value_or err [] \<noteq> [] then apply_incompatible_state e now inst (value_or err [])
       else and_then (validate_module e now inst m) (\<lambda>inst1.
         if mi_lifecycle_state inst1 \<in> {LFailed, LQuarantined} then ret ()
         else and_then (install_module e now inst1 m) (\<lambda>inst2.
           if mi_desired_state inst2 = DsEnabled
           then and_then (enable_module e now inst2 m) (\<lambda>_. ret ())
           else and_then (disable_module e now inst2 m) (\<lambda>_. ret ())))) = ret ()"
      using i c by (simp add: and_then_def ret_def fun_eq_iff)
    then show "triple (barred (mm_module_id m)) (if value_or err [] \<noteq> [] then apply_incompatible_state e now inst (value_or err [])
       else and_then (validate_module e now inst m) (\<lambda>inst1.
         if mi_lifecycle_state inst1 \<in> {LFailed, LQuarantined} then ret ()
         else and_then (install_module e now inst1 m) (\<lambda>inst2.
           if mi_desired_state inst2 = DsEnabled
           then and_then (enable_module e now inst2 m) (\<lambda>_. ret ())
           else and_then (disable_module e now inst2 m) (\<lambda>_. ret ())))) (\<lambda>_. barred (mm_module_id m)) (\<lambda>_. True)"
      by (simp add: triple_ret)
  qed
qed

lemma sync_all_barred:
  assumes "distinct (map mm_module_id ms)"
    and c: "\<And>s. index_by mi_module_id sources mid = Some s \<Longrightarrow> value_or (mi_last_error s) [] = []"
  shows "triple (\<lambda>db. contributions_follow db \<and> (\<forall>r\<in>R. known r db) \<and> barred mid db
        \<and> (\<forall>m\<in>set ms. get_module_install (mm_module_id m) db = index_by mi_module_id existing (mm_module_id m)))
      (for_each (sync_manifest e now sources existing) ms)
      (\<lambda>_ db. contributions_follow db \<and> (\<forall>r\<in>R. known r db) \<and> barred mid db) (\<lambda>_. True)"
  using assms(1)
proof (induction ms)
  case Nil
  show ?case by (auto intro: triple_ret)
next
  case (Cons m ms)
  let ?P = "\<lambda>ms db. contributions_follow db \<and> (\<forall>r\<in>R. known r db) \<and> barred mid db
        \<and> (\<forall>m\<in>set ms. get_module_install (mm_module_id m) db = index_by mi_module_id existing (mm_module_id m))"
  have "triple (?P (m # ms)) (sync_manifest e now sources existing m) (\<lambda>_. ?P ms) (\<lambda>_. True)"
  proof (rule triple_each)
    fix db0 assume P: "?P (m # ms) db0"
    let ?ex = "index_by mi_module_id existing (mm_module_id m)"
    have g: "get_module_install (mm_module_id m) db0 = ?ex" using P by simp
    have s: "triple (\<lambda>db. db = db0) (sync_module e now ?ex m (mi_desired_state s) (mi_last_error s)) (\<lambda>_. ?P ms) (\<lambda>_. True)"
      if s: "index_by mi_module_id sources (mm_module_id m) = Some s" for s
    proof -
      have on: "triple (\<lambda>db. db = db0) (sync_module e now ?ex m (mi_desired_state s) (mi_last_error s))
          (\<lambda>_. moved_on (mm_module_id m) db0) (\<lambda>_. True)"
        by (rule sync_module_triple) (use P in simp_all)
      have bar: "triple (\<lambda>db. db = db0) (sync_module e now ?ex m (mi_desired_state s) (mi_last_error s))
          (\<lambda>_ db. mid = mm_module_id m \<longrightarrow> barred mid db) (\<lambda>_. True)"
      proof (cases "mid = mm_module_id m")
        case True
        have "barred mid db0" using P by simp
        with True g obtain r where r: "?ex = Some r" unfolding barred_def by metis
        have "triple (\<lambda>db. db = db0) (sync_module e now (Some r) m (mi_desired_state s) (mi_last_error s))
            (\<lambda>_. barred (mm_module_id m)) (\<lambda>_. True)"
          by (rule sync_module_barred) (use P r True c s in auto)
        then show ?thesis unfolding r by (rule triple_post) (simp add: True)
      qed (auto simp: triple_def split: prod.splits sum.splits)
      have others: "get_module_install (mm_module_id m') db = index_by mi_module_id existing (mm_module_id m')"
        if "moved_on (mm_module_id m) db0 db" "m' \<in> set ms" for db m'
        using that P Cons.prems by (force simp: moved_on_def same_elsewhere_def image_iff)
      show ?thesis
        unfolding triple_def
      proof (intro allI impI)
        fix w :: module_world assume w: "mw_db w = db0"
        show "case sync_module e now ?ex m (mi_desired_state s) (mi_last_error s) w of
            (w', Inr x) \<Rightarrow> ?P ms (mw_db w') | (w', Inl err) \<Rightarrow> True"
        proof (cases "sync_module e now ?ex m (mi_desired_state s) (mi_last_error s) w")
          case (Pair w' res)
          show ?thesis
          proof (cases res)
            case (Inr x)
            with Pair have run: "sync_module e now ?ex m (mi_desired_state s) (mi_last_error s) w = (w', Inr x)" by simp
            have m: "moved_on (mm_module_id m) db0 (mw_db w')" by (rule tripleD(1) [OF on w run])
            have "barred mid (mw_db w')"
              using tripleD(1) [OF bar w run] barred_elsewhere [of "mm_module_id m" db0 "mw_db w'" mid] m P
              by (cases "mid = mm_module_id m") (auto simp: moved_on_def)
            with m P others Pair Inr show ?thesis by (auto simp: moved_on_def)
          qed (simp add: Pair)
        qed
      qed
    qed
    show "triple (\<lambda>db. db = db0) (sync_manifest e now sources existing m) (\<lambda>_. ?P ms) (\<lambda>_. True)"
      by (simp add: sync_manifest_def triple_raise s split: option.split)
  qed
  moreover have "triple (?P ms) (for_each (sync_manifest e now sources existing) ms)
      (\<lambda>_ db. contributions_follow db \<and> (\<forall>r\<in>R. known r db) \<and> barred mid db) (\<lambda>_. True)"
    using Cons by simp
  ultimately show ?case by (simp only: for_each.simps) (rule triple_then)
qed


lemma remove_moved_on:
  assumes f: "contributions_follow db0" and k: "known x db0"
  shows "triple (\<lambda>db. db = db0) (remove_module e now x) (\<lambda>_. moved_on (mi_module_id x) db0) (\<lambda>_. True)"
proof -
  from k obtain r where g: "get_module_install (mi_module_id x) db0 = Some r" by (auto simp: known_def)
  with k have n: "named (mi_id r) (mi_module_id x) x" using known_row by blast
  show ?thesis
  proof (rule triple_weaken [OF remove_triple [OF n]])
    show "busy (mi_id r) (mi_module_id x) (mi_desired_state r) (elsewhere (mi_id r) db0) db" if "db = db0" for db
      using enter_module(1) [OF f g] that at_work_any by blast
    show "moved_on (mi_module_id x) db0 db" if "idle (mi_id r) (mi_module_id x) (mi_desired_state r) (elsewhere (mi_id r) db0) db" for db
      by (rule settled_moved_on [OF f idle_settled [OF that] enter_module(3) [OF f g]]) (use g in simp)
  qed simp
qed

lemma remove_all_barred:
  assumes "\<forall>x\<in>set rs. mi_module_id x \<noteq> mid"
  shows "triple (\<lambda>db. contributions_follow db \<and> (\<forall>r\<in>set rs. known r db) \<and> barred mid db)
     (for_each (remove_module e now) rs) (\<lambda>_ db. barred mid db) (\<lambda>_. True)"
  using assms
proof (induction rs)
  case Nil
  show ?case by (auto intro: triple_ret)
next
  case (Cons x rs)
  have "triple (\<lambda>db. contributions_follow db \<and> (\<forall>r\<in>set (x # rs). known r db) \<and> barred mid db) (remove_module e now x)
      (\<lambda>_ db. contributions_follow db \<and> (\<forall>r\<in>set rs. known r db) \<and> barred mid db) (\<lambda>_. True)"
  proof (rule triple_each)
    fix db0 assume P: "contributions_follow db0 \<and> (\<forall>r\<in>set (x # rs). known r db0) \<and> barred mid db0"
    have r: "triple (\<lambda>db. db = db0) (remove_module e now x) (\<lambda>_. moved_on (mi_module_id x) db0) (\<lambda>_. True)"
      by (rule remove_moved_on) (use P in simp_all)
    show "triple (\<lambda>db. db = db0) (remove_module e now x)
      (\<lambda>_ db. contributions_follow db \<and> (\<forall>r\<in>set rs. known r db) \<and> barred mid db) (\<lambda>_. True)"
    proof (rule triple_post [OF r])
      fix u db assume "moved_on (mi_module_id x) db0 db"
      then show "contributions_follow db \<and> (\<forall>r\<in>set rs. known r db) \<and> barred mid db"
        using P barred_elsewhere [of "mi_module_id x" db0 db mid] Cons.prems by (auto simp: moved_on_def)
    qed
  qed
  moreover have "triple (\<lambda>db. contributions_follow db \<and> (\<forall>r\<in>set rs. known r db) \<and> barred mid db)
     (for_each (remove_module e now) rs) (\<lambda>_ db. barred mid db) (\<lambda>_. True)" using Cons by simp
  ultimately show ?case by (simp only: for_each.simps) (rule triple_then)
qed

text \<open>The records of the file catalog carry an error exactly for the incompatible modules.\<close>

lemma catalog_install_facts:
  "catalog_install e now profile records m = Inr r \<Longrightarrow>
     mi_module_id r = mm_module_id m
     \<and> (mi_last_error r = None \<longleftrightarrow> is_kernel_compatible (mm_kernel_compatibility m))"
  by (auto simp: catalog_install_def Let_def split: option.splits if_splits)

lemma catalog_installs_facts:
  "catalog_installs e now profile records ms = Inr rs \<Longrightarrow> r \<in> set rs \<Longrightarrow>
     \<exists>m\<in>set ms. mi_module_id r = mm_module_id m
       \<and> (mi_last_error r = None \<longleftrightarrow> is_kernel_compatible (mm_kernel_compatibility m))"
proof (induction ms arbitrary: rs)
  case (Cons m ms)
  then obtain r0 rs0 where r0: "catalog_install e now profile records m = Inr r0"
      "catalog_installs e now profile records ms = Inr rs0" "rs = r0 # rs0"
    by (auto simp: map_sum_Inr split: sum.splits)
  from catalog_install_facts [OF r0(1)] Cons.IH [OF r0(2)] Cons.prems(2) r0(3) show ?case by auto
qed simp

lemma same_manifest: "distinct (map mm_module_id ms) \<Longrightarrow> m \<in> set ms \<Longrightarrow> m' \<in> set ms \<Longrightarrow> mm_module_id m = mm_module_id m' \<Longrightarrow> m = m'"
  by (auto simp: distinct_map inj_on_def)

lemma sync_session_barred:
  assumes "contributions_follow db0" "distinct (map mm_module_id ms)" "barred mid db0" "mid \<in> mm_module_id ` set ms"
    and compatible: "\<And>s. index_by mi_module_id sources mid = Some s \<Longrightarrow> value_or (mi_last_error s) [] = []"
  shows "triple (\<lambda>db. db = db0) (and_then (asks list_module_installs) (\<lambda>existing.
         and_then (for_each (sync_manifest e now sources existing) ms) (\<lambda>_.
         and_then (for_each (remove_module e now)
             (filter (\<lambda>r. mi_module_id r \<notin> mm_module_id ` set ms) existing)) (\<lambda>_.
           asks (build_snapshot ms now))))) (\<lambda>_. barred mid) (\<lambda>_. True)"
proof -
  let ?gone = "filter (\<lambda>r. mi_module_id r \<notin> mm_module_id ` set ms) (list_module_installs db0)"
  have ok: "installs_ok db0" using assms(1) by (simp add: contributions_follow_def)
  have start: "triple (\<lambda>db. db = db0) (asks list_module_installs)
      (\<lambda>existing db. db = db0 \<and> existing = list_module_installs db0) (\<lambda>_. True)"
    by (rule triple_asks) simp
  have loop: "triple (\<lambda>db. db = db0) (for_each (sync_manifest e now sources (list_module_installs db0)) ms)
      (\<lambda>_ db. contributions_follow db \<and> (\<forall>r\<in>set ?gone. known r db) \<and> barred mid db) (\<lambda>_. True)"
    by (rule triple_pre [OF sync_all_barred [OF assms(2) compatible, where R = "set ?gone"]])
      (use assms(1,3) ok index_installs listed_known in auto)
  have removal: "triple (\<lambda>db. contributions_follow db \<and> (\<forall>r\<in>set ?gone. known r db) \<and> barred mid db)
      (for_each (remove_module e now) ?gone) (\<lambda>_ db. barred mid db) (\<lambda>_. True)"
    by (rule remove_all_barred) (use assms(4) in auto)
  have last: "triple (barred mid) (asks (build_snapshot ms now)) (\<lambda>_. barred mid) (\<lambda>_. True)"
    by (rule triple_asks) simp
  show ?thesis
  proof (rule triple_then [OF start], rule triple_fact)
    fix existing assume ex: "existing = list_module_installs db0"
    show "triple (\<lambda>db. db = db0) (and_then (for_each (sync_manifest e now sources existing) ms) (\<lambda>_.
         and_then (for_each (remove_module e now)
             (filter (\<lambda>r. mi_module_id r \<notin> mm_module_id ` set ms) existing)) (\<lambda>_.
           asks (build_snapshot ms now)))) (\<lambda>_. barred mid) (\<lambda>_. True)"
      unfolding ex by (rule triple_then [OF loop], rule triple_then [OF removal], rule last)
  qed
qed

text \<open>C39: synchronizing the catalog keeps a quarantined module in quarantine, whatever the plugins of the
  other modules do, as long as the module was installed before and is compatible.\<close>

theorem quarantine_survives_sync:
  assumes "contributions_follow (mw_db w)" "distinct (map mm_module_id manifests)"
    and "get_module_install mid (mw_db w) = Some r" "mi_lifecycle_state r = LQuarantined" "mi_installed_at r \<noteq> None"
    and "m \<in> set manifests" "mm_module_id m = mid" "is_kernel_compatible (mm_kernel_compatibility m)"
    and "sync_catalog e now manifests w = (w', Inr s)"
  shows "\<exists>r'. get_module_install mid (mw_db w') = Some r' \<and> mi_lifecycle_state r' = LQuarantined
      \<and> \<not> live_contributions (mi_id r') (mw_db w')"
proof -
  let ?ms = manifests and ?db0 = "mw_db w"
  from assms(9) obtain w1 sources where cat: "build_module_catalog e now ?ms w = (w1, Inr sources)"
    by (auto simp: sync_catalog_def and_then_def split: prod.splits sum.splits)
  then have db1: "mw_db w1 = ?db0" using quiet_catalog [of e now ?ms] unfolding quiet_def by (metis fst_conv)
  have compatible: "value_or (mi_last_error src) [] = []" if "index_by mi_module_id sources mid = Some src" for src
  proof -
    have "src \<in> set sources" "mi_module_id src = mid" using index_by_Some [OF that] by simp_all
    moreover have "\<exists>p rs. catalog_installs e now p rs ?ms = Inr sources"
      using cat by (auto simp: build_module_catalog_def split: sum.splits)
    ultimately obtain m' where "m' \<in> set ?ms" "mm_module_id m' = mid"
        "mi_last_error src = None \<longleftrightarrow> is_kernel_compatible (mm_kernel_compatibility m')"
      using catalog_installs_facts by metis
    with same_manifest [OF assms(2,6)] assms(7,8) show ?thesis by (auto simp: value_or_def)
  qed
  have b0: "barred mid ?db0" "mid \<in> mm_module_id ` set ?ms" using assms(3-7) by (auto simp: barred_def)
  let ?body = "and_then (asks list_module_installs) (\<lambda>existing.
         and_then (for_each (sync_manifest e now sources existing) ?ms) (\<lambda>_.
         and_then (for_each (remove_module e now)
             (filter (\<lambda>r. mi_module_id r \<notin> mm_module_id ` set ?ms) existing)) (\<lambda>_.
           asks (build_snapshot ?ms now))))"
  have body: "triple (\<lambda>db. db = ?db0) ?body (\<lambda>_. barred mid) (\<lambda>_. True)"
    by (rule sync_session_barred [OF assms(1,2) b0 compatible])
  from assms(9) cat obtain w2 where b: "?body w1 = (w2, Inr s)" and w': "mw_db w' = mw_db w2"
    by (auto simp: sync_catalog_def and_then_def [of "build_module_catalog e now ?ms"] in_session_def ret_def
        and_then_def [of "in_session _"] and_then_def [of "\<lambda>w. (_ w, Inr ())"] split: prod.splits sum.splits)
  have "barred mid (mw_db w')" using tripleD(1) [OF body _ b] db1 w' by simp
  moreover have "contributions_follow (mw_db w')"
    using tripleD(1) [OF sync_catalog_triple [OF assms(2)] assms(1,9)] by simp
  ultimately show ?thesis
    unfolding barred_def contributions_follow_def using id_unique get_mem by (metis insertE lifecycle.distinct emptyE)
qed

text \<open>The module of the sample host, installed and quarantined.\<close>

definition barred_install :: install_row where
  "barred_install =
     (discovered_install (sample_host (Inr sample_plugin)) sample_manifest DsEnabled None)
       \<lparr>mi_installed_at := Some 0, mi_lifecycle_state := LQuarantined\<rparr>"

definition barred_world :: module_world where
  "barred_world = empty_world\<lparr>mw_db := empty_db\<lparr>md_installs := [barred_install]\<rparr>\<rparr>"

lemma quarantine_survives_sync_witness:
  "\<exists>r. get_module_install (lit ''notes'') (mw_db (fst (sync_catalog (sample_host (Inr sample_plugin)) 2 [sample_manifest] barred_world))) = Some r
     \<and> mi_lifecycle_state r = LQuarantined
     \<and> \<not> live_contributions (mi_id r) (mw_db (fst (sync_catalog (sample_host (Inr sample_plugin)) 2 [sample_manifest] barred_world)))"
proof -
  let ?s = "sync_catalog (sample_host (Inr sample_plugin)) 2 [sample_manifest] barred_world"
  have "(case snd ?s of Inr _ \<Rightarrow> True | Inl _ \<Rightarrow> False)" by code_simp
  then obtain c where c: "?s = (fst ?s, Inr c)" by (cases ?s) (auto split: sum.splits)
  have "get_module_install (lit ''notes'') (mw_db barred_world) = Some barred_install"
    by (simp add: barred_world_def barred_install_def get_module_install_def find_row_def discovered_install_def sample_manifest_def)
  moreover have "contributions_follow (mw_db barred_world)"
    by (simp add: barred_world_def empty_db_def contributions_follow_def installs_ok_def table_ok_def live_contributions_def)
  moreover have "mi_lifecycle_state barred_install = LQuarantined" "mi_installed_at barred_install \<noteq> None"
    by (simp_all add: barred_install_def)
  moreover have "mm_module_id sample_manifest = lit ''notes''" "is_kernel_compatible (mm_kernel_compatibility sample_manifest)"
    by (simp_all add: sample_manifest_def is_kernel_compatible_def value_or_def)
  ultimately show ?thesis
    using quarantine_survives_sync [of barred_world "[sample_manifest]" "lit ''notes''" barred_install sample_manifest, OF _ _ _ _ _ _ _ _ c]
    by simp
qed

section \<open>The way into quarantine\<close>




text \<open>The world of one module that failed \<open>n\<close> times and never got past validation.\<close>

definition failure_count :: "host_env \<Rightarrow> ustr \<Rightarrow> module_world \<Rightarrow> int res" where
  "failure_count e mid w =
     py_int e (value_or (map_of (value_or (fl_details (mw_files w) mid)
         [(lit ''failureCount'', JInt 0), (lit ''status'', JStr (lit ''healthy''))]) (lit ''failureCount'')) (JInt 0))"








lemma moved_to_simps [simp]:
  "mi_id (moved_to now lc err r) = mi_id r" "mi_module_id (moved_to now lc err r) = mi_module_id r"
  "mi_module_version (moved_to now lc err r) = mi_module_version r" "mi_installed_at (moved_to now lc err r) = mi_installed_at r"
  "mi_lifecycle_state (moved_to now lc err r) = lc"
  by (simp_all add: moved_to_def)







text \<open>Quarantining by hand counts one failure; below the threshold the module is validated and enabled again by
  the synchronization that reads the details of the answer, which also resets the count.\<close>

lemma manual_quarantine_is_undone:
  "let e = sample_host (Inr sample_plugin); w = fst (sync_catalog e 2 [sample_manifest] empty_world)
   in case quarantine_module e 2 [sample_manifest] (lit ''notes'') (lit ''by hand'') w of
        (w', Inr d) \<Rightarrow> mi_lifecycle_state (mx_install d) = LActive \<and> failure_count e (lit ''notes'') w' = Inr 0
      | _ \<Rightarrow> False"
  by code_simp

end
