(* ===== verification/Spec2Isabelle.thy ===== *)
theory Spec2Isabelle
  imports TakeoverProps WorkQueueProps OutboxProps TaskSnapshots ForkProps WriteQueueProps TaskControlProps SnapshotStoreProps
    CoordinationProps RunTypeProps ModuleQuarantine
begin

text \<open>
  Verification development of the runtime kernel of Project Yggdrasil.
\<close>

end
